(* ===== verification/Sdk_Prelude.thy ===== *)
theory Sdk_Prelude
  imports Complex_Main "HOL-Library.Word"
begin

text \<open>
  What every component of the development shares: the result type of code that may throw,
  the insertion-ordered \<open>Map\<close> of the JavaScript standard library with the interface its
  clients rely on, the generic theory of a state machine with an invariant, and the
  collections of rewrite rules the component theories extend.
\<close>

named_theorems sdk_defs \<open>definitions unfolded by every component proof\<close>
named_theorems map_laws \<open>equations of the ordered map\<close>

subsection \<open>Results of code that may throw\<close>

text \<open>
  \<open>Inl e\<close> is a thrown value, \<open>Inr x\<close> a normal return. \<open>and_then\<close> is the
  sequencing the JavaScript semantics gives to consecutive statements.
\<close>

definition and_then :: "'e + 'a \<Rightarrow> ('a \<Rightarrow> 'e + 'b) \<Rightarrow> 'e + 'b" where
  "and_then m f = (case m of Inl e \<Rightarrow> Inl e | Inr x \<Rightarrow> f x)"

lemma and_then_simps [simp]:
  "and_then (Inl e) f = Inl e"
  "and_then (Inr x) f = f x"
  by (simp_all add: and_then_def)

lemma and_then_eq_Inr: "and_then m f = Inr y \<longleftrightarrow> (\<exists>x. m = Inr x \<and> f x = Inr y)"
  by (cases m) auto

lemma and_then_eq_Inl: "and_then m f = Inl e \<longleftrightarrow> m = Inl e \<or> (\<exists>x. m = Inr x \<and> f x = Inl e)"
  by (cases m) auto

text \<open>\<open>Array.prototype.map\<close> with a callback that may throw: the first throw wins.\<close>

fun map_res :: "('a \<Rightarrow> 'e + 'b) \<Rightarrow> 'a list \<Rightarrow> 'e + 'b list" where
  "map_res f [] = Inr []"
| "map_res f (x # xs) = and_then (f x) (\<lambda>y. and_then (map_res f xs) (\<lambda>ys. Inr (y # ys)))"

lemma map_res_length: "map_res f xs = Inr ys \<Longrightarrow> length ys = length xs"
  by (induction xs arbitrary: ys) (auto simp: and_then_eq_Inr)

lemma map_res_Inr: "(\<And>x. x \<in> set xs \<Longrightarrow> f x = Inr (g x)) \<Longrightarrow> map_res f xs = Inr (map g xs)"
  by (induction xs) auto

lemma map_res_cong [fundef_cong]:
  "xs = ys \<Longrightarrow> (\<And>x. x \<in> set ys \<Longrightarrow> f x = g x) \<Longrightarrow> map_res f xs = map_res g ys"
  by (induction ys arbitrary: xs) (auto simp: and_then_def split: sum.splits)

lemma map_res_roundtrip:
  "map_res f xs = Inr ys \<Longrightarrow> (\<And>x y. x \<in> set xs \<Longrightarrow> f x = Inr y \<Longrightarrow> g y = Inr x) \<Longrightarrow> map_res g ys = Inr xs"
  by (induction xs arbitrary: ys) (auto simp: and_then_eq_Inr)

subsection \<open>JavaScript \<open>Map\<close>: an insertion-ordered finite map\<close>

text \<open>
  Iteration over a \<open>Map\<close> follows the order of first insertion, \<open>set\<close> on a present key keeps
  its place and \<open>delete\<close> removes the entry, so a \<open>Map\<close> is an association list without
  duplicate keys.
\<close>

type_synonym ('k, 'v) jsmap = "('k \<times> 'v) list"

fun jset :: "'k \<Rightarrow> 'v \<Rightarrow> ('k, 'v) jsmap \<Rightarrow> ('k, 'v) jsmap" where
  "jset k v [] = [(k, v)]"
| "jset k v ((k', v') # m) = (if k = k' then (k, v) # m else (k', v') # jset k v m)"

definition jget :: "('k, 'v) jsmap \<Rightarrow> 'k \<Rightarrow> 'v option" where
  "jget m k = map_of m k"

definition jhas :: "('k, 'v) jsmap \<Rightarrow> 'k \<Rightarrow> bool" where
  "jhas m k \<longleftrightarrow> jget m k \<noteq> None"

definition jdelete :: "'k \<Rightarrow> ('k, 'v) jsmap \<Rightarrow> ('k, 'v) jsmap" where
  "jdelete k m = filter (\<lambda>(k', _). k' \<noteq> k) m"

definition jmap_ok :: "('k, 'v) jsmap \<Rightarrow> bool" where
  "jmap_ok m \<longleftrightarrow> distinct (map fst m)"

text \<open>The interface: what its clients may assume of \<open>get\<close>, \<open>set\<close> and \<open>delete\<close>.\<close>

locale js_map =
  fixes empty :: "'m"
    and get :: "'m \<Rightarrow> 'k \<Rightarrow> 'v option"
    and put :: "'k \<Rightarrow> 'v \<Rightarrow> 'm \<Rightarrow> 'm"
    and del :: "'k \<Rightarrow> 'm \<Rightarrow> 'm"
    and ok :: "'m \<Rightarrow> bool"
  assumes get_empty: "get empty k = None"
    and get_put: "ok m \<Longrightarrow> get (put k v m) j = (if j = k then Some v else get m j)"
    and get_del: "ok m \<Longrightarrow> get (del k m) j = (if j = k then None else get m j)"
    and ok_empty: "ok empty"
    and ok_put: "ok m \<Longrightarrow> ok (put k v m)"
    and ok_del: "ok m \<Longrightarrow> ok (del k m)"
begin

lemmas laws = get_empty get_put get_del ok_empty ok_put ok_del

text \<open>A consumed key stays consumed until it is set again.\<close>

lemma del_del: "ok m \<Longrightarrow> get (del k (del k m)) j = get (del k m) j"
  by (simp add: laws)

lemma put_del: "ok m \<Longrightarrow> get (del k (put k v m)) j = get (del k m) j"
  by (simp add: laws)

lemma del_fresh: "ok m \<Longrightarrow> get m k = None \<Longrightarrow> get (del k m) j = get m j"
  by (simp add: laws)

lemma put_commute: "ok m \<Longrightarrow> k \<noteq> k' \<Longrightarrow>
    get (put k v (put k' v' m)) j = get (put k' v' (put k v m)) j"
  by (simp add: laws)

end

lemma jset_keys: "fst ` set (jset k v m) = insert k (fst ` set m)"
  by (induction k v m rule: jset.induct) (simp_all add: insert_commute)

lemma jget_jset [map_laws]: "jget (jset k v m) j = (if j = k then Some v else jget m j)"
  by (induction m) (auto simp: jget_def)

lemma jget_jdelete [map_laws]: "jget (jdelete k m) j = (if j = k then None else jget m j)"
  by (induction m) (auto simp: jget_def jdelete_def)

lemma jget_Nil [map_laws]: "jget [] k = None"
  by (simp add: jget_def)

lemma jmap_ok_jset [map_laws]: "jmap_ok m \<Longrightarrow> jmap_ok (jset k v m)"
proof (induction m)
  case (Cons a m)
  then show ?case
    using jset_keys [of k v m] by (cases a) (auto simp: jmap_ok_def)
qed (simp add: jmap_ok_def)

lemma jmap_ok_jdelete [map_laws]: "jmap_ok m \<Longrightarrow> jmap_ok (jdelete k m)"
  by (induction m) (auto simp: jmap_ok_def jdelete_def)

lemma jmap_ok_Nil [map_laws, simp]: "jmap_ok []"
  by (simp add: jmap_ok_def)

interpretation jsm: js_map "[]" jget jset jdelete jmap_ok
  by unfold_locales (simp_all add: map_laws)

lemma jget_Some_in: "jget m k = Some v \<Longrightarrow> (k, v) \<in> set m"
  by (simp add: jget_def map_of_SomeD)

lemma jget_in: "jmap_ok m \<Longrightarrow> (k, v) \<in> set m \<Longrightarrow> jget m k = Some v"
  by (simp add: jget_def jmap_ok_def)

lemma jhas_iff: "jhas m k \<longleftrightarrow> k \<in> fst ` set m"
  by (auto simp: jhas_def jget_def map_of_eq_None_iff)

lemma jset_fresh: "k \<notin> fst ` set m \<Longrightarrow> jset k v m = m @ [(k, v)]"
  by (induction m) auto

lemma set_jdelete: "set (jdelete k m) = {(k', v) \<in> set m. k' \<noteq> k}"
  by (auto simp: jdelete_def)

subsection \<open>State machines with an invariant\<close>

text \<open>
  A deterministic component is a step function over inputs; \<open>run\<close> feeds it a list of them.
  A component theory interprets this locale on its own step function and invariant and
  takes the facts about whole runs from it.
\<close>

fun run_steps :: "('s \<Rightarrow> 'i \<Rightarrow> 's) \<Rightarrow> 's \<Rightarrow> 'i list \<Rightarrow> 's" where
  "run_steps f s [] = s"
| "run_steps f s (i # is) = run_steps f (f s i) is"

lemma run_steps_append: "run_steps f s (xs @ ys) = run_steps f (run_steps f s xs) ys"
  by (induction xs arbitrary: s) auto

locale machine =
  fixes step :: "'s \<Rightarrow> 'i \<Rightarrow> 's"
    and inv :: "'s \<Rightarrow> bool"
    and admissible :: "'s \<Rightarrow> 'i \<Rightarrow> bool"
  assumes step_inv: "inv s \<Longrightarrow> admissible s i \<Longrightarrow> inv (step s i)"
begin

fun all_admissible :: "'s \<Rightarrow> 'i list \<Rightarrow> bool" where
  "all_admissible s [] = True"
| "all_admissible s (i # is) = (admissible s i \<and> all_admissible (step s i) is)"

lemma run_inv: "inv s \<Longrightarrow> all_admissible s is \<Longrightarrow> inv (run_steps step s is)"
  by (induction "is" arbitrary: s) (auto intro: step_inv)

end

end
