(* ===== verification/Js_Values.thy ===== *)
theory Js_Values
  imports Sdk_Prelude
begin

text \<open>
  The JavaScript values the SDK handles: numbers, the values that user code passes around,
  thrown errors, and the two protobuf messages that carry them (\<open>Payload\<close> and
  \<open>Failure\<close>).

  A finite double is taken to be the rational it denotes; arithmetic is exact, so the
  rounding of results that do not fit a double is not modelled.
\<close>

subsection \<open>Numbers\<close>

datatype jsnum = NaN | PosInf | NegInf | Fin rat

fun js_lt :: "jsnum \<Rightarrow> jsnum \<Rightarrow> bool" where
  "js_lt NaN _ = False"
| "js_lt _ NaN = False"
| "js_lt (Fin a) (Fin b) = (a < b)"
| "js_lt PosInf _ = False"
| "js_lt _ NegInf = False"
| "js_lt NegInf _ = True"
| "js_lt _ PosInf = True"

fun js_num_eq :: "jsnum \<Rightarrow> jsnum \<Rightarrow> bool" where
  "js_num_eq NaN _ = False"
| "js_num_eq a b = (a = b)"

definition js_le :: "jsnum \<Rightarrow> jsnum \<Rightarrow> bool" where
  "js_le a b \<longleftrightarrow> js_lt a b \<or> js_num_eq a b"

definition js_isNaN :: "jsnum \<Rightarrow> bool" where
  "js_isNaN a \<longleftrightarrow> a = NaN"

fun js_isInteger :: "jsnum \<Rightarrow> bool" where
  "js_isInteger (Fin a) = (of_int \<lfloor>a\<rfloor> = a)"
| "js_isInteger _ = False"

text \<open>\<open>Boolean(x)\<close> of a number: only 0 and NaN are falsy.\<close>

definition js_num_truthy :: "jsnum \<Rightarrow> bool" where
  "js_num_truthy a \<longleftrightarrow> a \<noteq> NaN \<and> a \<noteq> Fin 0"

fun js_floor :: "jsnum \<Rightarrow> jsnum" where
  "js_floor (Fin a) = Fin (of_int \<lfloor>a\<rfloor>)"
| "js_floor a = a"

definition trunc :: "rat \<Rightarrow> int" where
  "trunc a = (if 0 \<le> a then \<lfloor>a\<rfloor> else \<lceil>a\<rceil>)"

text \<open>Division and \<open>%\<close> by a positive constant, the only form the SDK uses; \<open>%\<close> takes
  the sign of the dividend.\<close>

fun js_div_by :: "jsnum \<Rightarrow> rat \<Rightarrow> jsnum" where
  "js_div_by (Fin a) c = Fin (a / c)"
| "js_div_by a c = a"

fun js_mod_by :: "jsnum \<Rightarrow> rat \<Rightarrow> jsnum" where
  "js_mod_by (Fin a) c = Fin (a - c * of_int (trunc (a / c)))"
| "js_mod_by _ c = NaN"

fun js_mul_by :: "jsnum \<Rightarrow> rat \<Rightarrow> jsnum" where
  "js_mul_by (Fin a) c = Fin (a * c)"
| "js_mul_by a c = a"

text \<open>\<open>Math.max(c, x)\<close> for a finite \<open>c\<close>.\<close>

fun js_max_with :: "rat \<Rightarrow> jsnum \<Rightarrow> jsnum" where
  "js_max_with c (Fin a) = Fin (max c a)"
| "js_max_with c PosInf = PosInf"
| "js_max_with c NegInf = Fin c"
| "js_max_with c NaN = NaN"

abbreviation int_num :: "int \<Rightarrow> jsnum" where
  "int_num n \<equiv> Fin (of_int n)"

subsection \<open>Protobuf messages\<close>

type_synonym bytes = "8 word list"

text \<open>\<open>temporal.api.common.v1.IPayload\<close>; a missing field is \<open>None\<close>.\<close>

record payload =
  metadata :: "(string, bytes) jsmap option"
  payload_data :: "bytes option"

text \<open>
  \<open>temporal.api.failure.v1.IFailure\<close>. The info messages are the members of one protobuf
  \<open>oneof\<close>, so at most one of them is present.
\<close>

datatype failure_info =
    NoInfo
  | ApplicationInfo (ai_type: "string option") (ai_nonRetryable: "bool option") (ai_details: "payload list option")
  | ServerInfo "bool option"
  | TimeoutInfo "nat option" "payload list option"
  | TerminatedInfo
  | CanceledInfo "payload list option"
  | ResetWorkflowInfo "payload list option"
  | ChildWorkflowInfo "string option" "(string \<times> string) option" "string option" "nat option"
  | ActivityInfo "string option" "string option" "nat option" "string option"

datatype proto_failure = ProtoFailure
  (pf_message: "string option") (pf_source: "string option") (pf_stackTrace: "string option")
  (pf_encodedAttributes: "payload option") (pf_cause: "proto_failure option") (pf_info: failure_info)

subsection \<open>Values and errors\<close>

text \<open>
  \<open>unknown\<close> values. An error is either an ordinary \<open>Error\<close> (a class name, a message,
  a stack and a cause) or one of the \<open>TemporalFailure\<close> classes of failure.ts, whose own
  fields are the arguments of \<open>temporal_class\<close>.
\<close>

datatype jsval =
    JUndefined
  | JNull
  | JBool bool
  | JNum jsnum
  | JStr string
  | JBytes bytes
  | JDate jsnum
  | JArr "jsval list"
  | JObj "(string \<times> jsval) list"
  | JError jserror
and jserror =
    PlainError (err_class: string) (err_message: string) (err_stack: string) (err_cause: jsval)
  | TemporalFailure temporal_class (tf_message: string) (tf_stack: string) (tf_cause: jsval)
      (tf_failure: "proto_failure option")
and temporal_class =
    BareTemporal
  | ServerFailure bool
  | ApplicationFailure "string option" "bool option" "jsval list option"
  | CancelledFailure "jsval list"
  | TerminatedFailure
  | TimeoutFailure jsval nat
  | ActivityFailure string "string option" nat "string option"
  | ChildWorkflowFailure "string option" "string \<times> string" string nat
  | WorkflowExecutionAlreadyStartedError string string

definition throw_plain :: "string \<Rightarrow> string \<Rightarrow> jsval" where
  "throw_plain cls msg = JError (PlainError cls msg [] JUndefined)"

abbreviation TypeError :: "string \<Rightarrow> jsval" where
  "TypeError \<equiv> throw_plain ''TypeError''"

abbreviation ValueError :: "string \<Rightarrow> jsval" where
  "ValueError \<equiv> throw_plain ''ValueError''"

abbreviation IllegalStateError :: "string \<Rightarrow> jsval" where
  "IllegalStateError \<equiv> throw_plain ''IllegalStateError''"

abbreviation ReferenceError :: "string \<Rightarrow> jsval" where
  "ReferenceError \<equiv> throw_plain ''ReferenceError''"

lemma throw_plain_inject [simp]: "throw_plain c m = throw_plain c' m' \<longleftrightarrow> c = c' \<and> m = m'"
  by (simp add: throw_plain_def)

text \<open>Truthiness of a value.\<close>

fun truthy :: "jsval \<Rightarrow> bool" where
  "truthy JUndefined = False"
| "truthy JNull = False"
| "truthy (JBool b) = b"
| "truthy (JNum n) = js_num_truthy n"
| "truthy (JStr s) = (s \<noteq> [])"
| "truthy _ = True"

text \<open>\<open>typeof\<close> of a value.\<close>

fun js_typeof :: "jsval \<Rightarrow> string" where
  "js_typeof JUndefined = ''undefined''"
| "js_typeof (JBool _) = ''boolean''"
| "js_typeof (JNum _) = ''number''"
| "js_typeof (JStr _) = ''string''"
| "js_typeof _ = ''object''"

text \<open>A thrown value or the normal result of an SDK function.\<close>

type_synonym 'a res = "jsval + 'a"

subsection \<open>Decimal rendering of sequence numbers in messages\<close>

fun show_nat :: "nat \<Rightarrow> string" where
  "show_nat n = (if n < 10 then [char_of (48 + n)] else show_nat (n div 10) @ [char_of (48 + n mod 10)])"

declare show_nat.simps [simp del]

end
