(* ===== verification/Time_Conversion.thy ===== *)
theory Time_Conversion
  imports Js_Values
begin

text \<open>
  packages/common/src/time.ts: conversion between durations, milliseconds and the protobuf
  \<open>Timestamp\<close>/\<open>Duration\<close> messages.

  The packages \<open>long\<close> (64-bit integers) and \<open>ms\<close> (duration strings) are not part of
  the repository; the operations the code calls on them are the fields of \<open>libs\<close>, an argument
  of every definition that uses them. The locale \<open>long_arith\<close> states what the code relies on.
\<close>

record 'l libs =
  fromNumber :: "jsnum \<Rightarrow> 'l"
  UZERO :: 'l
  mul :: "'l \<Rightarrow> jsnum \<Rightarrow> 'l"
  add :: "'l \<Rightarrow> jsnum \<Rightarrow> 'l"
  toNumber :: "'l \<Rightarrow> jsnum"
  ms :: "string \<Rightarrow> jsnum option"

text \<open>\<open>google.protobuf.ITimestamp\<close> and \<open>IDuration\<close> have the same two optional fields.\<close>

record 'l ts =
  seconds :: "'l option"
  nanos :: "jsnum option"

datatype duration = DurStr string | DurNum jsnum

definition tsToMs :: "'l libs \<Rightarrow> 'l ts option \<Rightarrow> jsnum res" where
  "tsToMs L t = (case t of
     None \<Rightarrow> Inl (throw_plain ''Error'' ''Expected timestamp, got undefined'')
   | Some t \<Rightarrow>
       let secs = (case seconds t of Some s \<Rightarrow> s | None \<Rightarrow> UZERO L);
           ns = (case nanos t of Some n \<Rightarrow> (if js_num_truthy n then n else Fin 0) | None \<Rightarrow> Fin 0)
       in Inr (toNumber L (add L (mul L secs (Fin 1000)) (js_floor (js_div_by ns 1000000)))))"

definition optionalTsToMs :: "'l libs \<Rightarrow> 'l ts option \<Rightarrow> jsnum option res" where
  "optionalTsToMs L t = (case t of
     None \<Rightarrow> Inr None
   | Some _ \<Rightarrow> and_then (tsToMs L t) (\<lambda>n. Inr (Some n)))"

definition msNumberToTs :: "'l libs \<Rightarrow> jsnum \<Rightarrow> 'l ts res" where
  "msNumberToTs L millis =
     (let secs = js_floor (js_div_by millis 1000);
          ns = js_mul_by (js_mod_by millis 1000) 1000000
      in if js_isNaN secs \<or> js_isNaN ns then Inl (ValueError ''Invalid millis'')
         else Inr \<lparr>seconds = Some (fromNumber L secs), nanos = Some ns\<rparr>)"

definition msWithValidation :: "'l libs \<Rightarrow> string \<Rightarrow> jsnum res" where
  "msWithValidation L s = (case ms L s of
     None \<Rightarrow> Inl (TypeError (''Invalid duration string: '' @ s))
   | Some millis \<Rightarrow>
       if js_isNaN millis then Inl (TypeError (''Invalid duration string: '' @ s)) else Inr millis)"

fun msToNumber :: "'l libs \<Rightarrow> duration \<Rightarrow> jsnum res" where
  "msToNumber L (DurNum n) = Inr n"
| "msToNumber L (DurStr s) = msWithValidation L s"

definition msToTs :: "'l libs \<Rightarrow> duration \<Rightarrow> 'l ts res" where
  "msToTs L d = and_then (msToNumber L d) (msNumberToTs L)"

fun duration_truthy :: "duration \<Rightarrow> bool" where
  "duration_truthy (DurStr s) = (s \<noteq> [])"
| "duration_truthy (DurNum n) = js_num_truthy n"

definition msOptionalToTs :: "'l libs \<Rightarrow> duration option \<Rightarrow> 'l ts option res" where
  "msOptionalToTs L d = (case d of
     None \<Rightarrow> Inr None
   | Some d \<Rightarrow> if duration_truthy d then and_then (msToTs L d) (\<lambda>t. Inr (Some t)) else Inr None)"

definition msOptionalToNumber :: "'l libs \<Rightarrow> duration option \<Rightarrow> jsnum option res" where
  "msOptionalToNumber L d = (case d of
     None \<Rightarrow> Inr None
   | Some d \<Rightarrow> and_then (msToNumber L d) (\<lambda>n. Inr (Some n)))"

text \<open>A \<open>Date\<close> is its time value.\<close>

definition tsToDate :: "'l libs \<Rightarrow> 'l ts option \<Rightarrow> jsnum res" where
  "tsToDate L t = tsToMs L t"

definition optionalTsToDate :: "'l libs \<Rightarrow> 'l ts option \<Rightarrow> jsnum option res" where
  "optionalTsToDate L t = (case t of
     None \<Rightarrow> Inr None
   | Some _ \<Rightarrow> and_then (tsToMs L t) (\<lambda>n. Inr (Some n)))"

definition optionalDateToTs :: "'l libs \<Rightarrow> jsnum option \<Rightarrow> 'l ts option res" where
  "optionalDateToTs L d = (case d of
     None \<Rightarrow> Inr None
   | Some n \<Rightarrow> and_then (msToTs L (DurNum n)) (\<lambda>t. Inr (Some t)))"

subsection \<open>What the code relies on of \<open>long\<close>\<close>

text \<open>
  \<open>val\<close> reads a \<open>Long\<close> as the integer it holds. \<open>fromNumber\<close> is exact on the integers
  a double represents exactly, \<open>mul\<close> and \<open>add\<close> are exact while the result fits 63 bits, and
  \<open>toNumber\<close> is exact up to 2^53.
\<close>

definition safe_int :: "int \<Rightarrow> bool" where
  "safe_int n \<longleftrightarrow> \<bar>n\<bar> \<le> 2 ^ 53"

locale long_arith =
  fixes L :: "'l libs" and val :: "'l \<Rightarrow> int"
  assumes val_fromNumber: "safe_int n \<Longrightarrow> val (fromNumber L (int_num n)) = n"
    and val_mul: "\<bar>val l * n\<bar> < 2 ^ 63 \<Longrightarrow> val (mul L l (int_num n)) = val l * n"
    and val_add: "\<bar>val l + n\<bar> < 2 ^ 63 \<Longrightarrow> val (add L l (int_num n)) = val l + n"
    and toNumber_val: "safe_int (val l) \<Longrightarrow> toNumber L l = int_num (val l)"
begin

text \<open>A whole number of milliseconds splits into seconds and nanoseconds and comes back.\<close>

lemma tsToMs_value:
  assumes "safe_int s" "safe_int (s * 1000)" "safe_int (s * 1000 + m)"
  shows "toNumber L (add L (mul L (fromNumber L (int_num s)) (Fin 1000)) (int_num m)) = int_num (s * 1000 + m)"
proof -
  have 1: "val (fromNumber L (int_num s)) = s"
    using assms(1) by (rule val_fromNumber)
  have small: "\<bar>n\<bar> < 2 ^ 63" if "safe_int n" for n
    using that by (simp add: safe_int_def)
  have 2: "val (mul L (fromNumber L (int_num s)) (int_num 1000)) = s * 1000"
    using small [OF assms(2)] 1 by (subst val_mul) (simp_all only: 1)
  have 3: "val (add L (mul L (fromNumber L (int_num s)) (int_num 1000)) (int_num m)) = s * 1000 + m"
    using small [OF assms(3)] 2 by (subst val_add) (simp_all only: 2)
  have "toNumber L (add L (mul L (fromNumber L (int_num s)) (int_num 1000)) (int_num m)) = int_num (s * 1000 + m)"
    using assms(3) by (subst toNumber_val) (simp_all only: 3)
  then show ?thesis by simp
qed

end

subsection \<open>Whole milliseconds\<close>

lemma rat_of_int_div_floor: "\<lfloor>rat_of_int n / 1000\<rfloor> = n div 1000"
  using floor_divide_of_int_eq [of n 1000, where ?'a = rat] by simp

lemma js_mod_int:
  "js_mod_by (int_num n) 1000 = int_num (if 0 \<le> n then n mod 1000 else - ((- n) mod 1000))"
proof (cases "0 \<le> n")
  case True
  then have "trunc (rat_of_int n / 1000) = n div 1000"
    by (simp add: trunc_def rat_of_int_div_floor)
  moreover have "rat_of_int n - 1000 * rat_of_int (n div 1000) = rat_of_int (n mod 1000)"
    by (metis minus_mult_div_eq_mod of_int_diff of_int_mult of_int_numeral)
  ultimately show ?thesis using True by simp
next
  case False
  have "\<lceil>rat_of_int n / 1000\<rceil> = - ((- n) div 1000)"
    using rat_of_int_div_floor [of "- n"] by (simp add: ceiling_def)
  then have t: "trunc (rat_of_int n / 1000) = - ((- n) div 1000)"
    using False by (simp add: trunc_def)
  have "- n - 1000 * ((- n) div 1000) = (- n) mod 1000"
    by (rule minus_mult_div_eq_mod)
  then have "n - 1000 * (- ((- n) div 1000)) = - ((- n) mod 1000)"
    by linarith
  then have "rat_of_int n - 1000 * rat_of_int (- ((- n) div 1000)) = rat_of_int (- ((- n) mod 1000))"
    by (metis of_int_diff of_int_mult of_int_numeral)
  then show ?thesis using False t by simp
qed

lemma msNumberToTs_int:
  "msNumberToTs L (int_num n) =
     Inr \<lparr>seconds = Some (fromNumber L (int_num (n div 1000))),
          nanos = Some (int_num ((if 0 \<le> n then n mod 1000 else - ((- n) mod 1000)) * 1000000))\<rparr>"
  unfolding msNumberToTs_def js_mod_int
  by (simp add: Let_def js_isNaN_def rat_of_int_div_floor del: js_mod_by.simps)

lemma floor_millis: "js_floor (js_div_by (int_num (m * 1000000)) 1000000) = int_num m"
  by simp

text \<open>What \<open>tsToMs\<close> reads back from \<open>msNumberToTs\<close>, for either sign.\<close>

lemma tsToMs_of_parts:
  "tsToMs L (Some \<lparr>seconds = Some s, nanos = Some (int_num (m * 1000000))\<rparr>) =
     Inr (toNumber L (add L (mul L s (Fin 1000)) (int_num m)))"
proof -
  show ?thesis
    by (cases "m = 0") (simp_all add: tsToMs_def Let_def js_num_truthy_def)
qed

lemma floor_rem_sum:
  "n div 1000 * 1000 + (if 0 \<le> n then n mod 1000 else - ((- n) mod 1000)) =
    (if 0 \<le> n \<or> 1000 dvd n then n else n - (1000::int))"
proof (cases "0 \<le> n")
  case False
  have "n div 1000 = - ((- n) div 1000) - (if 1000 dvd n then 0 else 1)"
    using div_minus_minus [of "- n" 1000] by (simp add: dvd_eq_mod_eq_0 zdiv_zminus1_eq_if)
  then show ?thesis using False minus_mult_div_eq_mod [of "- n" 1000] by auto
qed simp

text \<open>
  A whole number of milliseconds comes back as itself when it is not negative or a whole
  number of seconds; otherwise \<open>Math.floor\<close> and \<open>%\<close> disagree on the sign and the
  value moves by one second towards minus infinity.
\<close>

context long_arith
begin

lemma tsToMs_msNumberToTs:
  assumes "safe_int (n - 1000)" "safe_int n"
  shows "and_then (msNumberToTs L (int_num n)) (\<lambda>t. tsToMs L (Some t)) =
    Inr (int_num (if 0 \<le> n \<or> 1000 dvd n then n else n - 1000))"
proof -
  let ?m = "if 0 \<le> n then n mod 1000 else - ((- n) mod 1000)"
  have sum: "n div 1000 * 1000 + ?m = (if 0 \<le> n \<or> 1000 dvd n then n else n - 1000)"
    by (rule floor_rem_sum)
  have "and_then (msNumberToTs L (int_num n)) (\<lambda>t. tsToMs L (Some t)) =
      tsToMs L (Some \<lparr>seconds = Some (fromNumber L (int_num (n div 1000))), nanos = Some (int_num (?m * 1000000))\<rparr>)"
    by (simp only: msNumberToTs_int and_then_simps)
  also have "\<dots> = Inr (toNumber L (add L (mul L (fromNumber L (int_num (n div 1000))) (Fin 1000)) (int_num ?m)))"
    by (rule tsToMs_of_parts)
  also have "\<dots> = Inr (int_num (n div 1000 * 1000 + ?m))"
  proof -
    have "safe_int (n div 1000)"
      using assms by (simp add: safe_int_def)
    moreover have "safe_int (n div 1000 * 1000)"
      using assms by (simp add: safe_int_def)
    moreover have "safe_int (n div 1000 * 1000 + ?m)"
      unfolding sum using assms by simp
    ultimately have "safe_int (n div 1000)" "safe_int (n div 1000 * 1000)" "safe_int (n div 1000 * 1000 + ?m)" .
    then show ?thesis by (simp only: tsToMs_value)
  qed
  finally show ?thesis by (simp only: sum)
qed

end

text \<open>
  The instance used by concrete evaluations: a \<open>Long\<close> as a 64-bit word, no duration strings.
\<close>

fun long64_of :: "jsnum \<Rightarrow> 64 word" where
  "long64_of (Fin a) = word_of_int (trunc a)"
| "long64_of PosInf = word_of_int (2 ^ 63 - 1)"
| "long64_of NegInf = word_of_int (- (2 ^ 63))"
| "long64_of NaN = 0"

definition long64 :: "64 word libs" where
  "long64 = \<lparr>fromNumber = long64_of, UZERO = 0, mul = (\<lambda>a b. a * long64_of b),
     add = (\<lambda>a b. a + long64_of b), toNumber = (\<lambda>a. int_num (sint a)), ms = (\<lambda>_. None)\<rparr>"

lemma trunc_of_int [simp]: "trunc (rat_of_int n) = n"
  by (simp add: trunc_def)

lemma sint_word_of_int_small: "\<bar>n\<bar> < 2 ^ 63 \<Longrightarrow> sint (word_of_int n :: 64 word) = n"
  by (simp add: signed_of_int signed_take_bit_int_eq_self)

lemma sint_mul_small:
  fixes a :: "64 word"
  assumes "\<bar>sint a * n\<bar> < 2 ^ 63"
  shows "sint (a * word_of_int n) = sint a * n"
proof -
  have "a * word_of_int n = word_of_int (sint a * n)"
    by simp
  then show ?thesis using assms sint_word_of_int_small by metis
qed

lemma sint_add_small:
  fixes a :: "64 word"
  assumes "\<bar>sint a + n\<bar> < 2 ^ 63"
  shows "sint (a + word_of_int n) = sint a + n"
proof -
  have "a + word_of_int n = word_of_int (sint a + n)"
    by simp
  then show ?thesis using assms sint_word_of_int_small by metis
qed

interpretation long64: long_arith long64 sint
proof
  show "safe_int n \<Longrightarrow> sint (fromNumber long64 (int_num n)) = n" for n
    by (simp add: long64_def safe_int_def sint_word_of_int_small)
next
  show "\<bar>sint l * n\<bar> < 2 ^ 63 \<Longrightarrow> sint (mul long64 l (int_num n)) = sint l * n" for l n
    by (simp add: long64_def sint_mul_small)
next
  show "\<bar>sint l + n\<bar> < 2 ^ 63 \<Longrightarrow> sint (add long64 l (int_num n)) = sint l + n" for l n
    by (simp add: long64_def sint_add_small)
next
  show "safe_int (sint l) \<Longrightarrow> toNumber long64 l = int_num (sint l)" for l
    by (simp add: long64_def)
qed

text \<open>Milliseconds through a timestamp and back: a whole number of milliseconds survives
  \<open>msNumberToTs\<close> followed by \<open>tsToMs\<close> exactly when it is not negative or a multiple of
  1000; any other negative value (a date before 1970) comes back 1000 milliseconds too early.\<close>

theorem ms_timestamp_roundtrip:
  assumes "long_arith L val" and "\<bar>n - 1000\<bar> \<le> 2 ^ 53" and "\<bar>n\<bar> \<le> 2 ^ 53"
  shows "and_then (optionalDateToTs L (Some (int_num n))) (optionalTsToDate L) =
    Inr (Some (int_num (if 0 \<le> n \<or> 1000 dvd n then n else n - 1000)))"
proof -
  have "and_then (msNumberToTs L (int_num n)) (\<lambda>t. tsToMs L (Some t)) =
      Inr (int_num (if 0 \<le> n \<or> 1000 dvd n then n else n - 1000))"
    by (rule long_arith.tsToMs_msNumberToTs [OF assms(1)]) (use assms(2,3) in \<open>simp_all add: safe_int_def\<close>)
  then show ?thesis
    by (auto simp: optionalDateToTs_def optionalTsToDate_def msToTs_def and_then_def split: sum.splits)
qed

lemma ms_timestamp_roundtrip_witness:
  "and_then (optionalDateToTs long64 (Some (int_num (-500)))) (optionalTsToDate long64) = Inr (Some (int_num (-1500)))"
  using ms_timestamp_roundtrip [OF long64.long_arith_axioms, of "-500"] by simp

end
