(* ===== verification/Retry_Policies.thy ===== *)
theory Retry_Policies
  imports Time_Conversion
begin

text \<open>
  packages/common/src/retry-policy.ts: \<open>RetryPolicy\<close>, its validation and compilation to the
  protobuf message, and the way back.
\<close>

record retry_policy =
  backoffCoefficient :: "jsnum option"
  initialInterval :: "duration option"
  maximumAttempts :: "jsnum option"
  maximumInterval :: "duration option"
  nonRetryableErrorTypes :: "string list option"

text \<open>\<open>temporal.api.common.v1.IRetryPolicy\<close>.\<close>

record 'l proto_retry_policy =
  pr_maximumAttempts :: "jsnum option"
  pr_initialInterval :: "'l ts option"
  pr_maximumInterval :: "'l ts option"
  pr_backoffCoefficient :: "jsnum option"
  pr_nonRetryableErrorTypes :: "string list option"

text \<open>The two checks at the head of \<open>compileRetryPolicy\<close>; the second may drop the field.\<close>

definition checkMaximumAttempts :: "retry_policy \<Rightarrow> retry_policy res" where
  "checkMaximumAttempts p = (case maximumAttempts p of
     None \<Rightarrow> Inr p
   | Some n \<Rightarrow>
       if n = PosInf then Inr (p\<lparr>maximumAttempts := None\<rparr>)
       else if js_le n (Fin 0) then Inl (ValueError ''RetryPolicy.maximumAttempts must be a positive integer'')
       else if \<not> js_isInteger n then Inl (ValueError ''RetryPolicy.maximumAttempts must be an integer'')
       else Inr p)"

definition compileRetryPolicy :: "'l libs \<Rightarrow> retry_policy \<Rightarrow> 'l proto_retry_policy res" where
  "compileRetryPolicy L p =
     (if (\<exists>c \<in> set_option (backoffCoefficient p). js_le c (Fin 0))
      then Inl (ValueError ''RetryPolicy.backoffCoefficient must be greater than 0'')
      else and_then (checkMaximumAttempts p) (\<lambda>p.
        and_then (msOptionalToNumber L (maximumInterval p)) (\<lambda>maxI.
        and_then (msToNumber L (case initialInterval p of Some d \<Rightarrow> d | None \<Rightarrow> DurNum (Fin 1000))) (\<lambda>initI.
          if maxI = Some (Fin 0) then Inl (ValueError ''RetryPolicy.maximumInterval cannot be 0'')
          else if initI = Fin 0 then Inl (ValueError ''RetryPolicy.initialInterval cannot be 0'')
          else if (\<exists>m \<in> set_option maxI. js_lt m initI)
          then Inl (ValueError ''RetryPolicy.maximumInterval cannot be less than its initialInterval'')
          else and_then (msToTs L (DurNum initI)) (\<lambda>initT.
               and_then (msOptionalToTs L (map_option DurNum maxI)) (\<lambda>maxT.
                 Inr \<lparr>pr_maximumAttempts = maximumAttempts p,
                      pr_initialInterval = Some initT,
                      pr_maximumInterval = maxT,
                      pr_backoffCoefficient = backoffCoefficient p,
                      pr_nonRetryableErrorTypes = nonRetryableErrorTypes p\<rparr>))))))"

definition decompileRetryPolicy :: "'l libs \<Rightarrow> 'l proto_retry_policy option \<Rightarrow> retry_policy option res" where
  "decompileRetryPolicy L p = (case p of
     None \<Rightarrow> Inr None
   | Some p \<Rightarrow>
       and_then (optionalTsToMs L (pr_maximumInterval p)) (\<lambda>maxI.
       and_then (optionalTsToMs L (pr_initialInterval p)) (\<lambda>initI.
         Inr (Some \<lparr>backoffCoefficient = pr_backoffCoefficient p,
                    initialInterval = map_option DurNum initI,
                    maximumAttempts = pr_maximumAttempts p,
                    maximumInterval = map_option DurNum maxI,
                    nonRetryableErrorTypes = pr_nonRetryableErrorTypes p\<rparr>))))"

subsection \<open>Which policies compile\<close>

text \<open>
  The documentation of the fields as predicates on the policy, independent of the order of the
  checks: a coefficient of at least 1, a positive whole or infinite number of attempts, a positive
  initial interval and a maximum that is not below it. The intervals are read the way the code reads
  them, numbers as they are and strings by the \<open>ms\<close> package.
\<close>

definition initial_ms :: "'l libs \<Rightarrow> retry_policy \<Rightarrow> jsnum res" where
  "initial_ms L p = msToNumber L (case initialInterval p of Some d \<Rightarrow> d | None \<Rightarrow> DurNum (Fin 1000))"

definition documented_coefficient :: "retry_policy \<Rightarrow> bool" where
  "documented_coefficient p \<longleftrightarrow> (case backoffCoefficient p of None \<Rightarrow> True | Some c \<Rightarrow> js_le (Fin 1) c)"

definition documented_attempts :: "retry_policy \<Rightarrow> bool" where
  "documented_attempts p \<longleftrightarrow> (case maximumAttempts p of None \<Rightarrow> True
     | Some a \<Rightarrow> a = PosInf \<or> (js_isInteger a \<and> js_lt (Fin 0) a))"

definition documented_intervals :: "'l libs \<Rightarrow> retry_policy \<Rightarrow> bool" where
  "documented_intervals L p \<longleftrightarrow> (case (initial_ms L p, msOptionalToNumber L (maximumInterval p)) of
     (Inr (Fin q), Inr None) \<Rightarrow> 0 < q
   | (Inr (Fin q), Inr (Some (Fin r))) \<Rightarrow> 0 < q \<and> q \<le> r
   | _ \<Rightarrow> False)"

text \<open>
  What the code lets through beyond the documentation: a coefficient between 0 and 1 or NaN,
  negative intervals, and a maximum that is NaN.
\<close>

definition lax_coefficient :: "retry_policy \<Rightarrow> bool" where
  "lax_coefficient p \<longleftrightarrow> (case backoffCoefficient p of None \<Rightarrow> False
     | Some c \<Rightarrow> c = NaN \<or> (js_lt (Fin 0) c \<and> js_lt c (Fin 1)))"

definition lax_intervals :: "'l libs \<Rightarrow> retry_policy \<Rightarrow> bool" where
  "lax_intervals L p \<longleftrightarrow> (case (initial_ms L p, msOptionalToNumber L (maximumInterval p)) of
     (Inr (Fin q), Inr None) \<Rightarrow> q < 0
   | (Inr (Fin q), Inr (Some NaN)) \<Rightarrow> q \<noteq> 0
   | (Inr (Fin q), Inr (Some (Fin r))) \<Rightarrow> q < 0 \<and> q \<le> r \<and> r \<noteq> 0
   | _ \<Rightarrow> False)"

lemma msNumberToTs_ok: "(\<exists>t. msNumberToTs L n = Inr t) \<longleftrightarrow> (\<exists>q. n = Fin q)"
  by (cases n) (simp_all add: msNumberToTs_def js_isNaN_def Let_def)

lemma checkMaximumAttempts_Inr:
  "checkMaximumAttempts p = Inr p' \<longleftrightarrow> documented_attempts p \<and>
    p' = p\<lparr>maximumAttempts := (if maximumAttempts p = Some PosInf then None else maximumAttempts p)\<rparr>"
proof (cases "maximumAttempts p")
  case None
  then show ?thesis by (auto simp: checkMaximumAttempts_def documented_attempts_def)
next
  case (Some a)
  then show ?thesis
    by (cases a) (auto simp: checkMaximumAttempts_def documented_attempts_def js_le_def)
qed

lemma coefficient_passes:
  "(\<forall>c. backoffCoefficient p = Some c \<longrightarrow> \<not> js_le c (Fin 0)) \<longleftrightarrow>
   documented_coefficient p \<or> lax_coefficient p"
proof (cases "backoffCoefficient p")
  case (Some c)
  then show ?thesis
    by (cases c) (auto simp: documented_coefficient_def lax_coefficient_def js_le_def)
qed (simp add: documented_coefficient_def)

text \<open>The message of a policy whose two intervals are known in milliseconds.\<close>

definition policy_message :: "retry_policy \<Rightarrow> 'l ts \<Rightarrow> 'l ts option \<Rightarrow> 'l proto_retry_policy" where
  "policy_message p t mt =
     \<lparr>pr_maximumAttempts = (if maximumAttempts p = Some PosInf then None else maximumAttempts p),
      pr_initialInterval = Some t, pr_maximumInterval = mt,
      pr_backoffCoefficient = backoffCoefficient p,
      pr_nonRetryableErrorTypes = nonRetryableErrorTypes p\<rparr>"

lemma compileRetryPolicy_Inr:
  "compileRetryPolicy L p = Inr c \<longleftrightarrow>
    (\<forall>x. backoffCoefficient p = Some x \<longrightarrow> \<not> js_le x (Fin 0)) \<and> documented_attempts p \<and>
    (\<exists>m i t mt. msOptionalToNumber L (maximumInterval p) = Inr m \<and> initial_ms L p = Inr i \<and>
      m \<noteq> Some (Fin 0) \<and> i \<noteq> Fin 0 \<and> (\<forall>n. m = Some n \<longrightarrow> \<not> js_lt n i) \<and>
      msNumberToTs L i = Inr t \<and> msOptionalToTs L (map_option DurNum m) = Inr mt \<and>
      c = policy_message p t mt)"
  unfolding compileRetryPolicy_def initial_ms_def policy_message_def
  by (auto simp: and_then_eq_Inr checkMaximumAttempts_Inr msToTs_def Ball_def split: if_splits)

lemma intervals_pass:
  "(\<exists>m i. msOptionalToNumber L (maximumInterval p) = Inr m \<and> initial_ms L p = Inr i \<and>
      m \<noteq> Some (Fin 0) \<and> i \<noteq> Fin 0 \<and> (\<forall>n. m = Some n \<longrightarrow> \<not> js_lt n i) \<and>
      (\<exists>t. msNumberToTs L i = Inr t) \<and> (\<exists>mt. msOptionalToTs L (map_option DurNum m) = Inr mt)) \<longleftrightarrow>
   documented_intervals L p \<or> lax_intervals L p"
proof (cases "initial_ms L p")
  case (Inr i)
  note i = this
  show ?thesis
  proof (cases "msOptionalToNumber L (maximumInterval p)")
    case (Inr m)
    note m = this
    show ?thesis
    proof (cases m)
      case None
      then show ?thesis
        using i m by (cases i) (auto simp: documented_intervals_def lax_intervals_def msNumberToTs_ok
            msOptionalToTs_def)
    next
      case (Some n)
      then show ?thesis
        using i m by (cases i; cases n) (auto simp: documented_intervals_def lax_intervals_def msNumberToTs_ok
            msOptionalToTs_def msToTs_def msNumberToTs_def js_isNaN_def js_num_truthy_def Let_def)
    qed
  qed (auto simp: documented_intervals_def lax_intervals_def split: sum.splits jsnum.splits)
qed (simp add: documented_intervals_def lax_intervals_def)

subsection \<open>Round trip\<close>

text \<open>What a policy looks like after a trip through the protobuf message: its intervals as numbers
  of milliseconds, the default initial interval filled in, an infinite attempt limit dropped.\<close>

definition normal_policy :: "jsnum \<Rightarrow> jsnum option \<Rightarrow> retry_policy \<Rightarrow> retry_policy" where
  "normal_policy i m p = p\<lparr>initialInterval := Some (DurNum i), maximumInterval := map_option DurNum m,
     maximumAttempts := (if maximumAttempts p = Some PosInf then None else maximumAttempts p)\<rparr>"

definition whole_ms :: "jsnum \<Rightarrow> bool" where
  "whole_ms n \<longleftrightarrow> (case n of Fin q \<Rightarrow> of_int \<lfloor>q\<rfloor> = q \<and> 0 < q \<and> q \<le> 2 ^ 53 | _ \<Rightarrow> False)"

lemma whole_msE:
  assumes "whole_ms n"
  obtains i where "n = int_num i" "0 < i" "safe_int i" "safe_int (i - 1000)"
proof -
  from assms obtain k where k: "n = int_num k" "0 < rat_of_int k" "rat_of_int k \<le> 2 ^ 53"
    by (auto simp: whole_ms_def split: jsnum.splits)
  have "rat_of_int k \<le> rat_of_int (2 ^ 53)"
    using k(3) by simp
  then have "k \<le> 2 ^ 53"
    by (simp only: of_int_le_iff)
  then show ?thesis
    using that [of k] k(1,2) by (simp add: safe_int_def)
qed

context long_arith
begin

lemma whole_ms_roundtrip:
  assumes "whole_ms n" "msNumberToTs L n = Inr t"
  shows "optionalTsToMs L (Some t) = Inr (Some n)"
proof -
  obtain i where i: "n = int_num i" "0 < i" "safe_int i" "safe_int (i - 1000)"
    using assms(1) by (rule whole_msE)
  have "and_then (msNumberToTs L (int_num i)) (\<lambda>t. tsToMs L (Some t)) = Inr (int_num i)"
    using tsToMs_msNumberToTs [OF i(4,3)] i(2) by simp
  then show ?thesis
    using assms(2) i(1) by (simp add: optionalTsToMs_def)
qed

lemma whole_ms_optional_roundtrip:
  assumes "\<And>x. n = Some x \<Longrightarrow> whole_ms x" "msOptionalToTs L (map_option DurNum n) = Inr t"
  shows "optionalTsToMs L t = Inr n"
proof (cases n)
  case None
  then show ?thesis using assms(2) by (simp add: msOptionalToTs_def optionalTsToMs_def)
next
  case (Some x)
  then have "js_num_truthy x" using assms(1) by (auto simp: whole_ms_def js_num_truthy_def)
  then obtain t' where "msNumberToTs L x = Inr t'" "t = Some t'"
    using assms(2) Some by (auto simp: msOptionalToTs_def msToTs_def and_then_eq_Inr)
  then show ?thesis using whole_ms_roundtrip Some assms(1) by simp
qed

end

text \<open>C10. \<open>compileRetryPolicy\<close> accepts a policy exactly when its attempts are a positive integer or
  infinite, and its coefficient and its intervals (as numbers or as \<open>ms\<close> strings) are each either as
  documented (a coefficient of at least 1; a positive initial interval and a maximum not below it) or
  one of the deviations the checks let through: a coefficient between 0 and 1 or NaN, non-zero negative
  intervals in order, a NaN maximum. So every documented policy compiles, and everything else throws:
  a coefficient of 0 or less, attempts that are neither, a string \<open>ms\<close> does not parse, an interval that is
  zero or infinite, a maximum below the initial interval.\<close>

theorem compile_iff_valid:
  "(\<exists>c. compileRetryPolicy L p = Inr c) \<longleftrightarrow>
     documented_attempts p \<and> (documented_coefficient p \<or> lax_coefficient p) \<and>
     (documented_intervals L p \<or> lax_intervals L p)"
  unfolding compileRetryPolicy_Inr coefficient_passes intervals_pass [symmetric] by blast

definition sample_policy :: retry_policy where
  "sample_policy = \<lparr>backoffCoefficient = Some (Fin 2), initialInterval = Some (DurNum (Fin 500)),
     maximumAttempts = Some PosInf, maximumInterval = Some (DurNum (Fin 1500)),
     nonRetryableErrorTypes = Some [''E'']\<rparr>"

lemmas documented_defs = documented_attempts_def documented_coefficient_def documented_intervals_def
  initial_ms_def msOptionalToNumber_def js_le_def

lemma compile_iff_valid_witness:
  "documented_attempts sample_policy \<and> documented_coefficient sample_policy \<and>
   documented_intervals long64 sample_policy \<and>
   (\<exists>c. compileRetryPolicy long64 sample_policy = Inr c) \<and>
   \<not> (\<exists>c. compileRetryPolicy long64 (sample_policy\<lparr>maximumInterval := Some (DurNum (Fin 400))\<rparr>) = Inr c)"
  unfolding compile_iff_valid
  by (simp add: documented_defs lax_coefficient_def lax_intervals_def sample_policy_def)

text \<open>The documented minimum of 1 is not checked: a coefficient of one half compiles, and so does NaN.\<close>

lemma coefficient_below_minimum_compiles:
  "\<not> documented_coefficient (sample_policy\<lparr>backoffCoefficient := Some (Fin (1 / 2))\<rparr>)"
  "\<exists>c. compileRetryPolicy long64 (sample_policy\<lparr>backoffCoefficient := Some (Fin (1 / 2))\<rparr>) = Inr c"
  "\<exists>c. compileRetryPolicy long64 (sample_policy\<lparr>backoffCoefficient := Some NaN\<rparr>) = Inr c"
  by (simp_all add: sample_policy_def documented_coefficient_def js_le_def compileRetryPolicy_def
      checkMaximumAttempts_def msOptionalToNumber_def and_then_def msToTs_def msOptionalToTs_def
      msNumberToTs_def js_isNaN_def Let_def js_num_truthy_def)

text \<open>Compiling a policy whose intervals are whole numbers of milliseconds to the protobuf message and
  decompiling it gives the policy back, with its intervals as numbers, the default initial interval
  filled in and an infinite attempt limit dropped.\<close>

theorem retry_policy_roundtrip:
  assumes "long_arith L val" and "compileRetryPolicy L p = Inr c"
    and "initial_ms L p = Inr i" and "whole_ms i"
    and "msOptionalToNumber L (maximumInterval p) = Inr m" and "\<And>n. m = Some n \<Longrightarrow> whole_ms n"
  shows "decompileRetryPolicy L (Some c) = Inr (Some (normal_policy i m p))"
proof -
  obtain t mt where tm: "msNumberToTs L i = Inr t" "msOptionalToTs L (map_option DurNum m) = Inr mt"
      "c = policy_message p t mt"
    using assms(2,3,5) unfolding compileRetryPolicy_Inr by auto
  have "optionalTsToMs L (Some t) = Inr (Some i)"
    by (rule long_arith.whole_ms_roundtrip [OF assms(1,4) tm(1)])
  moreover have "optionalTsToMs L mt = Inr m"
    by (rule long_arith.whole_ms_optional_roundtrip [OF assms(1) _ tm(2)]) (use assms(6) in auto)
  ultimately show ?thesis
    by (simp add: decompileRetryPolicy_def normal_policy_def tm(3) policy_message_def)
qed

lemma retry_policy_roundtrip_witness:
  "and_then (compileRetryPolicy long64 sample_policy) (\<lambda>c. decompileRetryPolicy long64 (Some c)) =
     Inr (Some (sample_policy\<lparr>maximumAttempts := None\<rparr>))"
proof -
  have "\<exists>c. compileRetryPolicy long64 sample_policy = Inr c"
    unfolding compileRetryPolicy_Inr coefficient_passes
    using intervals_pass [of long64 sample_policy]
    by (auto simp: documented_defs sample_policy_def)
  then obtain c where c: "compileRetryPolicy long64 sample_policy = Inr c" ..
  have "decompileRetryPolicy long64 (Some c) =
      Inr (Some (normal_policy (Fin 500) (Some (Fin 1500)) sample_policy))"
    by (rule retry_policy_roundtrip [OF long64.long_arith_axioms c])
      (auto simp: initial_ms_def msOptionalToNumber_def sample_policy_def whole_ms_def)
  then show ?thesis using c by (simp add: normal_policy_def sample_policy_def)
qed

end
