(* ===== verification/Failures.thy ===== *)
theory Failures
  imports Retry_Policies
begin

text \<open>
  packages/common/src/failure.ts, packages/common/src/converter/failure-converter.ts and
  packages/workflow/src/errors.ts: the failure classes, their recognition, and the conversion
  between errors and the protobuf \<open>Failure\<close> message.

  The payload converter is supplied by the user; it is the argument \<open>conv\<close>. \<open>String(x)\<close> and
  \<open>JSON.stringify(x)\<close> of an arbitrary value may run user code (\<open>toString\<close>, \<open>toJSON\<close>) and are
  the arguments collected in \<open>text_env\<close>.
\<close>

record converter =
  toPayload :: "jsval \<Rightarrow> payload res"
  fromPayload :: "payload \<Rightarrow> jsval res"

record text_env =
  stringOf :: "jsval \<Rightarrow> string"
  jsonStringify :: "jsval \<Rightarrow> string res"

subsection \<open>Recognising failures\<close>

fun isTemporalFailure :: "jsval \<Rightarrow> bool" where
  "isTemporalFailure (JError (TemporalFailure _ _ _ _ _)) = True"
| "isTemporalFailure _ = False"

fun isCancelledFailure :: "jsval \<Rightarrow> bool" where
  "isCancelledFailure (JError (TemporalFailure (CancelledFailure _) _ _ _ _)) = True"
| "isCancelledFailure _ = False"

fun isApplicationFailure :: "jsval \<Rightarrow> bool" where
  "isApplicationFailure (JError (TemporalFailure (ApplicationFailure _ _ _) _ _ _ _)) = True"
| "isApplicationFailure _ = False"

fun isActivityFailure :: "jsval \<Rightarrow> bool" where
  "isActivityFailure (JError (TemporalFailure (ActivityFailure _ _ _ _) _ _ _ _)) = True"
| "isActivityFailure _ = False"

fun isChildWorkflowFailure :: "jsval \<Rightarrow> bool" where
  "isChildWorkflowFailure (JError (TemporalFailure (ChildWorkflowFailure _ _ _ _) _ _ _ _)) = True"
| "isChildWorkflowFailure _ = False"

fun error_cause :: "jsval \<Rightarrow> jsval" where
  "error_cause (JError (TemporalFailure _ _ _ c _)) = c"
| "error_cause (JError (PlainError _ _ _ c)) = c"
| "error_cause _ = JUndefined"

definition isCancellation :: "jsval \<Rightarrow> bool" where
  "isCancellation err \<longleftrightarrow> isCancelledFailure err \<or>
     ((isActivityFailure err \<or> isChildWorkflowFailure err) \<and> isCancelledFailure (error_cause err))"

text \<open>\<open>new CancelledFailure(message)\<close>.\<close>

definition cancelled_failure :: "string \<Rightarrow> jsval" where
  "cancelled_failure msg = JError (TemporalFailure (CancelledFailure []) msg [] JUndefined None)"

lemma isCancelled_cancelled_failure [simp]: "isCancelledFailure (cancelled_failure m)"
  by (simp add: cancelled_failure_def)

text \<open>Property read on an object value.\<close>

fun obj_field :: "jsval \<Rightarrow> string \<Rightarrow> jsval" where
  "obj_field (JObj kvs) k = (case map_of kvs k of Some v \<Rightarrow> v | None \<Rightarrow> JUndefined)"
| "obj_field (JError (PlainError cls m st c)) k =
     (if k = ''message'' then JStr m else if k = ''stack'' then JStr st else if k = ''name'' then JStr cls
      else if k = ''cause'' then c else JUndefined)"
| "obj_field (JError (TemporalFailure cls m st c f)) k =
     (if k = ''message'' then JStr m else if k = ''stack'' then JStr st
      else if k = ''cause'' then c else JUndefined)"
| "obj_field _ k = JUndefined"

fun isRecord :: "jsval \<Rightarrow> bool" where
  "isRecord JNull = False"
| "isRecord (JArr _) = True"
| "isRecord (JObj _) = True"
| "isRecord (JBytes _) = True"
| "isRecord (JDate _) = True"
| "isRecord (JError _) = True"
| "isRecord _ = False"

fun has_own :: "jsval \<Rightarrow> string \<Rightarrow> bool" where
  "has_own (JObj kvs) k = (k \<in> fst ` set kvs)"
| "has_own (JError _) k = (k = ''message'' \<or> k = ''stack'')"
| "has_own _ k = False"

definition hasOwnProperties :: "jsval \<Rightarrow> string list \<Rightarrow> bool" where
  "hasOwnProperties v ks \<longleftrightarrow> list_all (has_own v) ks"

text \<open>
  \<open>ensureApplicationFailure\<close>: the class name of an ordinary error is its constructor's name; an
  object literal's is \<open>Object\<close>.
\<close>

fun constructor_name :: "jsval \<Rightarrow> string" where
  "constructor_name (JArr _) = ''Array''"
| "constructor_name (JBytes _) = ''Uint8Array''"
| "constructor_name (JDate _) = ''Date''"
| "constructor_name (JError (PlainError cls _ _ _)) = cls"
| "constructor_name (JError (TemporalFailure c _ _ _ _)) = (case c of
     BareTemporal \<Rightarrow> ''TemporalFailure''
   | ServerFailure _ \<Rightarrow> ''ServerFailure''
   | ApplicationFailure _ _ _ \<Rightarrow> ''ApplicationFailure''
   | CancelledFailure _ \<Rightarrow> ''CancelledFailure''
   | TerminatedFailure \<Rightarrow> ''TerminatedFailure''
   | TimeoutFailure _ _ \<Rightarrow> ''TimeoutFailure''
   | ActivityFailure _ _ _ _ \<Rightarrow> ''ActivityFailure''
   | ChildWorkflowFailure _ _ _ _ \<Rightarrow> ''ChildWorkflowFailure''
   | WorkflowExecutionAlreadyStartedError _ _ \<Rightarrow> ''WorkflowExecutionAlreadyStartedError'')"
| "constructor_name _ = ''Object''"

definition ensureApplicationFailure :: "text_env \<Rightarrow> jsval \<Rightarrow> jsval" where
  "ensureApplicationFailure T err =
     (if isApplicationFailure err then err
      else let own = (if isRecord err then stringOf T (obj_field err ''message'') else []);
               msg = (if own \<noteq> [] then own else stringOf T err);
               ty = (if isRecord err \<and> constructor_name err \<noteq> [] then Some (constructor_name err) else None);
               st = (if isRecord err then stringOf T (obj_field err ''stack'') else [])
           in JError (TemporalFailure (ApplicationFailure ty (Some False) None) msg st JUndefined None))"

definition ensureTemporalFailure :: "text_env \<Rightarrow> jsval \<Rightarrow> jsval" where
  "ensureTemporalFailure T err = (if isTemporalFailure err then err else ensureApplicationFailure T err)"

fun rootCause :: "jsval \<Rightarrow> string option" where
  "rootCause (JError (TemporalFailure _ m _ c _)) = (if truthy c then rootCause c else Some m)"
| "rootCause (JError (PlainError _ m _ _)) = Some m"
| "rootCause (JStr s) = Some s"
| "rootCause _ = None"

subsection \<open>Cutting the framework part off a stack trace\<close>

text \<open>The regular expressions of \<open>CUTOFF_STACK_PATTERNS\<close>, matched by derivatives.\<close>

datatype cls = IsSpace | NotSpace | AnyChar | Digit | OneOf string

fun in_cls :: "cls \<Rightarrow> char \<Rightarrow> bool" where
  "in_cls IsSpace c = (of_char c \<in> {9, 10, 11, 12, 13, 32, 160 :: nat})"
| "in_cls NotSpace c = (of_char c \<notin> {9, 10, 11, 12, 13, 32, 160 :: nat})"
| "in_cls AnyChar c = (of_char c \<notin> {10, 13 :: nat})"
| "in_cls Digit c = (48 \<le> (of_char c :: nat) \<and> of_char c \<le> (57 :: nat))"
| "in_cls (OneOf s) c = (c \<in> set s)"

datatype re = Zero | One | Sym cls | Alt re re | Cat re re | Star re

primrec nullable :: "re \<Rightarrow> bool" where
  "nullable Zero = False"
| "nullable One = True"
| "nullable (Sym _) = False"
| "nullable (Alt r s) = (nullable r \<or> nullable s)"
| "nullable (Cat r s) = (nullable r \<and> nullable s)"
| "nullable (Star r) = True"

primrec deriv :: "char \<Rightarrow> re \<Rightarrow> re" where
  "deriv c Zero = Zero"
| "deriv c One = Zero"
| "deriv c (Sym k) = (if in_cls k c then One else Zero)"
| "deriv c (Alt r s) = Alt (deriv c r) (deriv c s)"
| "deriv c (Cat r s) = (if nullable r then Alt (Cat (deriv c r) s) (deriv c s) else Cat (deriv c r) s)"
| "deriv c (Star r) = Cat (deriv c r) (Star r)"

fun match_prefix :: "re \<Rightarrow> string \<Rightarrow> bool" where
  "match_prefix r [] = nullable r"
| "match_prefix r (c # s) = (nullable r \<or> match_prefix (deriv c r) s)"

text \<open>\<open>RegExp.prototype.test\<close>: a match starting anywhere.\<close>

fun re_test :: "re \<Rightarrow> string \<Rightarrow> bool" where
  "re_test r [] = match_prefix r []"
| "re_test r (c # s) = (match_prefix r (c # s) \<or> re_test r s)"

fun cats :: "re list \<Rightarrow> re" where
  "cats [] = One"
| "cats [r] = r"
| "cats (r # rs) = Cat r (cats rs)"

definition lit :: "string \<Rightarrow> re" where
  "lit s = cats (map (\<lambda>c. Sym (OneOf [c])) s)"

definition many1 :: "re \<Rightarrow> re" where
  "many1 r = Cat r (Star r)"

abbreviation path_sep :: re where
  "path_sep \<equiv> Sym (OneOf [CHR 0x5C, CHR ''/''])"

definition cutoff_patterns :: "re list" where
  "cutoff_patterns = [
     cats [many1 (Sym IsSpace), lit ''at Activity.execute ('', Star (Sym AnyChar), path_sep, lit ''worker'', path_sep,
       Alt (lit ''src'') (lit ''lib''), path_sep, lit ''activity.'', Sym (OneOf ''jt''), lit ''s:'',
       many1 (Sym Digit), lit '':'', many1 (Sym Digit), lit '')''],
     cats [many1 (Sym IsSpace), lit ''at Activator.'', many1 (Sym NotSpace), lit ''NextHandler ('', Star (Sym AnyChar),
       path_sep, lit ''workflow'', path_sep, Alt (lit ''src'') (lit ''lib''), path_sep, lit ''internals.'',
       Sym (OneOf ''jt''), lit ''s:'', many1 (Sym Digit), lit '':'', many1 (Sym Digit), lit '')''],
     cats [many1 (Sym IsSpace), lit ''at Script.runInContext ('', Alt (lit ''node:vm'') (lit ''vm.js''), lit '':'',
       many1 (Sym Digit), lit '':'', many1 (Sym Digit), lit '')'']]"

text \<open>\<open>split(/\r?\n/)\<close>; the accumulator holds the current line, reversed.\<close>

fun split_lines :: "string \<Rightarrow> string \<Rightarrow> string list" where
  "split_lines acc [] = [rev acc]"
| "split_lines acc (c # s) =
     (if c = CHR 0x0A then rev acc # split_lines [] s
      else if c = CHR 0x0D \<and> s \<noteq> [] \<and> hd s = CHR 0x0A then rev acc # split_lines [] (tl s)
      else split_lines (c # acc) s)"

fun join_lines :: "string list \<Rightarrow> string" where
  "join_lines [] = []"
| "join_lines [l] = l"
| "join_lines (l # ls) = l @ [CHR 0x0A] @ join_lines ls"

definition is_cutoff_line :: "string \<Rightarrow> bool" where
  "is_cutoff_line l \<longleftrightarrow> list_ex (\<lambda>p. re_test p l) cutoff_patterns"

text \<open>The labelled loop stops at the first line that some pattern matches.\<close>

fun cutoff_loop :: "string list \<Rightarrow> string list \<Rightarrow> string list" where
  "cutoff_loop acc [] = acc"
| "cutoff_loop acc (l # ls) = (if is_cutoff_line l then acc else cutoff_loop (acc @ [l]) ls)"

definition cutoffStackTrace :: "string option \<Rightarrow> string" where
  "cutoffStackTrace stack =
     join_lines (cutoff_loop [] (split_lines [] (case stack of Some s \<Rightarrow> s | None \<Rightarrow> [])))"

end
