(* ===== verification/Failure_Converter.thy ===== *)
theory Failure_Converter
  imports Failures
begin

text \<open>
  \<open>DefaultFailureConverter\<close> of packages/common/src/converter/failure-converter.ts and the list
  helpers of payload-converter.ts it calls. Both directions recurse along the cause chain. A
  conversion that throws stops at the first throw, in the order the code evaluates its operands.
\<close>

subsection \<open>Lists of payloads\<close>

definition toPayloads :: "converter \<Rightarrow> jsval list \<Rightarrow> payload list option res" where
  "toPayloads conv vs =
     (if vs = [] then Inr None else and_then (map_res (toPayload conv) vs) (\<lambda>ps. Inr (Some ps)))"

definition fromPayloadsAtIndex :: "converter \<Rightarrow> nat \<Rightarrow> payload list option \<Rightarrow> jsval res" where
  "fromPayloadsAtIndex conv i ps = (case ps of
     None \<Rightarrow> Inr JUndefined
   | Some ps \<Rightarrow> if length ps \<le> i then Inr JUndefined else fromPayload conv (ps ! i))"

definition arrayFromPayloads :: "converter \<Rightarrow> payload list option \<Rightarrow> jsval list res" where
  "arrayFromPayloads conv ps = (case ps of None \<Rightarrow> Inr [] | Some ps \<Rightarrow> map_res (fromPayload conv) ps)"

definition mapToPayloads :: "converter \<Rightarrow> (string, jsval) jsmap \<Rightarrow> (string, payload) jsmap res" where
  "mapToPayloads conv m = map_res (\<lambda>(k, v). and_then (toPayload conv v) (\<lambda>p. Inr (k, p))) m"

definition mapFromPayloads :: "converter \<Rightarrow> (string, payload) jsmap option \<Rightarrow> (string, jsval) jsmap option res" where
  "mapFromPayloads conv m = (case m of
     None \<Rightarrow> Inr None
   | Some m \<Rightarrow> and_then (map_res (\<lambda>(k, p). and_then (fromPayload conv p) (\<lambda>v. Inr (k, v))) m) (\<lambda>r. Inr (Some r)))"

subsection \<open>From the protobuf failure to an error\<close>

text \<open>\<open>x ?? ''\<close> as the Error constructor applies it to a missing message.\<close>

abbreviation or_empty :: "string option \<Rightarrow> string" where
  "or_empty m \<equiv> (case m of Some s \<Rightarrow> s | None \<Rightarrow> [])"

text \<open>
  \<open>failureToErrorInner\<close> without the recursive call: \<open>cause\<close> is the result of
  \<open>optionalFailureToOptionalError(failure.cause)\<close>, evaluated last.
\<close>

fun failureToErrorInner :: "converter \<Rightarrow> proto_failure \<Rightarrow> jsval res \<Rightarrow> (temporal_class \<times> string \<times> jsval) res" where
  "failureToErrorInner conv (ProtoFailure msg src st ea c (ApplicationInfo ty nr det)) cause =
     and_then (arrayFromPayloads conv det) (\<lambda>details. and_then cause (\<lambda>cs.
       Inr (ApplicationFailure ty (Some (nr = Some True)) (Some details), or_empty msg, cs)))"
| "failureToErrorInner conv (ProtoFailure msg src st ea c (ServerInfo nr)) cause =
     and_then cause (\<lambda>cs. Inr (ServerFailure (nr = Some True), or_empty msg, cs))"
| "failureToErrorInner conv (ProtoFailure msg src st ea c (TimeoutInfo ty hb)) cause =
     and_then (fromPayloadsAtIndex conv 0 hb) (\<lambda>details.
       Inr (TimeoutFailure details (case ty of Some n \<Rightarrow> n | None \<Rightarrow> 0), or_empty msg, JUndefined))"
| "failureToErrorInner conv (ProtoFailure msg src st ea c TerminatedInfo) cause =
     and_then cause (\<lambda>cs. Inr (TerminatedFailure, or_empty msg, cs))"
| "failureToErrorInner conv (ProtoFailure msg src st ea c (CanceledInfo det)) cause =
     and_then (arrayFromPayloads conv det) (\<lambda>details. and_then cause (\<lambda>cs.
       Inr (CancelledFailure details, or_empty msg, cs)))"
| "failureToErrorInner conv (ProtoFailure msg src st ea c (ResetWorkflowInfo hb)) cause =
     and_then (arrayFromPayloads conv hb) (\<lambda>details. and_then cause (\<lambda>cs.
       Inr (ApplicationFailure (Some ''ResetWorkflow'') (Some False) (Some details), or_empty msg, cs)))"
| "failureToErrorInner conv (ProtoFailure msg src st ea c (ChildWorkflowInfo ns exec wt rs)) cause =
     (case (wt, exec) of
       (Some t, Some e) \<Rightarrow>
         if t = [] then Inl (TypeError ''Missing attributes on childWorkflowExecutionFailureInfo'')
         else and_then cause (\<lambda>cs.
           Inr (ChildWorkflowFailure ns e t (case rs of Some n \<Rightarrow> n | None \<Rightarrow> 0),
                ''Child Workflow execution failed'', cs))
     | _ \<Rightarrow> Inl (TypeError ''Missing attributes on childWorkflowExecutionFailureInfo''))"
| "failureToErrorInner conv (ProtoFailure msg src st ea c (ActivityInfo ty aid rs ident)) cause =
     (case ty of
       Some t \<Rightarrow>
         if t = [] then Inl (TypeError ''Missing activityType?.name on activityFailureInfo'')
         else and_then cause (\<lambda>cs.
           Inr (ActivityFailure t aid (case rs of Some n \<Rightarrow> n | None \<Rightarrow> 0) ident, or_empty msg, cs))
     | None \<Rightarrow> Inl (TypeError ''Missing activityType?.name on activityFailureInfo''))"
| "failureToErrorInner conv (ProtoFailure msg src st ea c NoInfo) cause =
     and_then cause (\<lambda>cs. Inr (BareTemporal, or_empty msg, cs))"

text \<open>Encoded attributes replace message and stack where they have the expected shape.\<close>

definition str_or :: "jsval \<Rightarrow> string option \<Rightarrow> string option" where
  "str_or v old = (case v of JStr s \<Rightarrow> Some s | _ \<Rightarrow> old)"

fun applyEncodedAttributes :: "converter \<Rightarrow> proto_failure \<Rightarrow> proto_failure res" where
  "applyEncodedAttributes conv (ProtoFailure msg src st None c i) = Inr (ProtoFailure msg src st None c i)"
| "applyEncodedAttributes conv (ProtoFailure msg src st (Some p) c i) =
     and_then (fromPayload conv p) (\<lambda>attrs.
       if isRecord attrs
       then Inr (ProtoFailure (str_or (obj_field attrs ''message'') msg) src
                   (str_or (obj_field attrs ''stack_trace'') st) (Some p) c i)
       else Inr (ProtoFailure msg src st (Some p) c i))"

fun failureToError :: "converter \<Rightarrow> proto_failure \<Rightarrow> jserror res" where
  "failureToError conv (ProtoFailure msg src st ea c i) =
     and_then (applyEncodedAttributes conv (ProtoFailure msg src st ea c i)) (\<lambda>f.
     and_then (failureToErrorInner conv f
        (case c of None \<Rightarrow> Inr JUndefined | Some cf \<Rightarrow> and_then (failureToError conv cf) (\<lambda>e. Inr (JError e))))
       (\<lambda>(cls, m, cs). Inr (TemporalFailure cls m (or_empty (pf_stackTrace f)) cs (Some f))))"

definition optionalFailureToOptionalError :: "converter \<Rightarrow> proto_failure option \<Rightarrow> jsval res" where
  "optionalFailureToOptionalError conv f = (case f of
     None \<Rightarrow> Inr JUndefined
   | Some f \<Rightarrow> and_then (failureToError conv f) (\<lambda>e. Inr (JError e)))"

subsection \<open>From an error to the protobuf failure\<close>

definition FAILURE_SOURCE :: string where
  "FAILURE_SOURCE = ''TypeScriptSDK''"

definition recommendation :: string where
  "recommendation = '' [A non-Error value was thrown from your code. We recommend throwing Error objects so that we can provide a stack trace]''"

definition detailsToPayloads :: "converter \<Rightarrow> jsval list option \<Rightarrow> payload list option res" where
  "detailsToPayloads conv d = (case d of None \<Rightarrow> Inr None | Some vs \<Rightarrow> toPayloads conv vs)"

text \<open>The info message of each class, after the base attributes.\<close>

fun classInfo :: "converter \<Rightarrow> temporal_class \<Rightarrow> failure_info res" where
  "classInfo conv (ActivityFailure ty aid rs ident) = Inr (ActivityInfo (Some ty) aid (Some rs) ident)"
| "classInfo conv (ChildWorkflowFailure ns e wt rs) = Inr (ChildWorkflowInfo ns (Some e) (Some wt) (Some rs))"
| "classInfo conv (ApplicationFailure ty nr det) =
     and_then (detailsToPayloads conv det) (\<lambda>ps. Inr (ApplicationInfo ty nr ps))"
| "classInfo conv (CancelledFailure det) =
     and_then (toPayloads conv det) (\<lambda>ps. Inr (CanceledInfo ps))"
| "classInfo conv (TimeoutFailure hb ty) =
     and_then (if truthy hb then toPayloads conv [hb] else Inr None) (\<lambda>ps. Inr (TimeoutInfo (Some ty) ps))"
| "classInfo conv (ServerFailure nr) = Inr (ServerInfo (Some nr))"
| "classInfo conv TerminatedFailure = Inr TerminatedInfo"
| "classInfo conv BareTemporal = Inr NoInfo"
| "classInfo conv (WorkflowExecutionAlreadyStartedError _ _) = Inr NoInfo"

text \<open>
  \<open>encodeCommonAttributes\<close> overwrites message and stack of the failure object and stores them
  encoded. The object may be the one cached in the error (\<open>err.failure\<close>), so the conversion
  returns the error as it is afterwards beside the failure.
\<close>

fun encodeCommon :: "bool \<Rightarrow> converter \<Rightarrow> proto_failure \<Rightarrow> proto_failure res" where
  "encodeCommon enc conv (ProtoFailure msg src st ea c i) =
     (if enc then
        and_then (toPayload conv (JObj [(''message'', case msg of Some m \<Rightarrow> JStr m | None \<Rightarrow> JUndefined),
                                        (''stack_trace'', case st of Some s \<Rightarrow> JStr s | None \<Rightarrow> JUndefined)]))
          (\<lambda>p. Inr (ProtoFailure (Some ''Encoded failure'') src (Some []) (Some p) c i))
      else Inr (ProtoFailure msg src st ea c i))"

text \<open>A value that is not an error: its text with the recommendation appended.\<close>

fun valueMessage :: "text_env \<Rightarrow> jsval \<Rightarrow> string" where
  "valueMessage T (JStr s) = s"
| "valueMessage T v =
     (if isRecord v \<or> v = JNull
      then (case jsonStringify T v of Inr s \<Rightarrow> s | Inl _ \<Rightarrow> stringOf T v)
      else stringOf T v)"

lemma map_of_size: "map_of kvs k = Some v \<Longrightarrow> size v \<le> size_list (\<lambda>x. Suc (size (snd x))) kvs"
  by (induction kvs) (auto split: if_splits)

lemma obj_field_size [termination_simp]:
  "size (case map_of kvs k of None \<Rightarrow> JUndefined | Some v \<Rightarrow> v) < Suc (size_list (\<lambda>x. Suc (size (snd x))) kvs)"
  by (auto simp: less_Suc_eq_le split: option.splits dest: map_of_size)

fun errorToFailure :: "bool \<Rightarrow> text_env \<Rightarrow> converter \<Rightarrow> jsval \<Rightarrow> (proto_failure \<times> jsval) res" where
  "errorToFailure enc T conv (JError (TemporalFailure cls msg st cause (Some f))) =
     and_then (encodeCommon enc conv f) (\<lambda>f'.
       Inr (f', JError (TemporalFailure cls msg st cause (Some f'))))"
| "errorToFailure enc T conv (JError (TemporalFailure cls msg st cause None)) =
     and_then (if truthy cause then and_then (errorToFailure enc T conv cause) (\<lambda>(cf, c'). Inr (Some cf, c'))
               else Inr (None, cause)) (\<lambda>(cf, cause').
     and_then (classInfo conv cls) (\<lambda>i.
     and_then (encodeCommon enc conv
         (ProtoFailure (Some msg) (Some FAILURE_SOURCE) (Some (cutoffStackTrace (Some st))) None cf i)) (\<lambda>f'.
       Inr (f', JError (TemporalFailure cls msg st cause' None)))))"
| "errorToFailure enc T conv (JError (PlainError cls msg st cause)) =
     and_then (if truthy cause then and_then (errorToFailure enc T conv cause) (\<lambda>(cf, c'). Inr (Some cf, c'))
               else Inr (None, cause)) (\<lambda>(cf, cause').
     and_then (encodeCommon enc conv
         (ProtoFailure (Some msg) (Some FAILURE_SOURCE) (Some (cutoffStackTrace (Some st))) None cf NoInfo)) (\<lambda>f'.
       Inr (f', JError (PlainError cls msg st cause'))))"
| "errorToFailure enc T conv (JObj kvs) =
     (if hasOwnProperties (JObj kvs) [''message'', ''stack'']
      then
        and_then (if truthy (obj_field (JObj kvs) ''cause'')
                  then and_then (errorToFailure enc T conv (obj_field (JObj kvs) ''cause''))
                         (\<lambda>(cf, c'). Inr (Some cf, jset ''cause'' c' kvs))
                  else Inr (None, kvs)) (\<lambda>(cf, kvs').
        and_then (encodeCommon enc conv
            (ProtoFailure (Some (stringOf T (obj_field (JObj kvs) ''message''))) (Some FAILURE_SOURCE)
              (Some (cutoffStackTrace (Some (stringOf T (obj_field (JObj kvs) ''stack''))))) None cf NoInfo)) (\<lambda>f'.
          Inr (f', JObj kvs')))
      else and_then (encodeCommon enc conv
          (ProtoFailure (Some (valueMessage T (JObj kvs) @ recommendation)) (Some FAILURE_SOURCE) None None None NoInfo)) (\<lambda>f'.
          Inr (f', JObj kvs)))"
| "errorToFailure enc T conv v =
     and_then (encodeCommon enc conv
       (ProtoFailure (Some (valueMessage T v @ recommendation)) (Some FAILURE_SOURCE) None None None NoInfo)) (\<lambda>f'.
       Inr (f', v))"

definition optionalErrorToOptionalFailure :: "bool \<Rightarrow> text_env \<Rightarrow> converter \<Rightarrow> jsval \<Rightarrow> proto_failure option res" where
  "optionalErrorToOptionalFailure enc T conv err =
     (if truthy err then and_then (errorToFailure enc T conv err) (\<lambda>(f, _). Inr (Some f)) else Inr None)"

subsection \<open>What comes back after a trip over the wire\<close>

text \<open>A payload converter that gives back what it was given.\<close>

definition lossless :: "converter \<Rightarrow> bool" where
  "lossless conv \<longleftrightarrow> (\<forall>v p. toPayload conv v = Inr p \<longrightarrow> fromPayload conv p = Inr v)"

text \<open>Errors made in this process: none along the cause chain carries a received failure, and
  the names the reader insists on are present.\<close>

fun named_class :: "temporal_class \<Rightarrow> bool" where
  "named_class (ActivityFailure ty _ _ _) = (ty \<noteq> [])"
| "named_class (ChildWorkflowFailure _ _ wt _) = (wt \<noteq> [])"
| "named_class _ = True"

fun fresh_error :: "jsval \<Rightarrow> bool" where
  "fresh_error JUndefined = True"
| "fresh_error (JError (PlainError _ _ _ c)) = fresh_error c"
| "fresh_error (JError (TemporalFailure cls _ _ c None)) = (named_class cls \<and> fresh_error c)"
| "fresh_error _ = False"

text \<open>The error the other side sees, up to the cached failure it carries.\<close>

fun received_class :: "temporal_class \<Rightarrow> temporal_class" where
  "received_class (ApplicationFailure ty nr det) =
     ApplicationFailure ty (Some (nr = Some True)) (Some (case det of None \<Rightarrow> [] | Some d \<Rightarrow> d))"
| "received_class (TimeoutFailure hb ty) = TimeoutFailure (if truthy hb then hb else JUndefined) ty"
| "received_class (WorkflowExecutionAlreadyStartedError _ _) = BareTemporal"
| "received_class cls = cls"

fun received_message :: "temporal_class \<Rightarrow> string \<Rightarrow> string" where
  "received_message (ChildWorkflowFailure _ _ _ _) m = ''Child Workflow execution failed''"
| "received_message _ m = m"

fun keeps_cause :: "temporal_class \<Rightarrow> bool" where
  "keeps_cause (TimeoutFailure _ _) = False"
| "keeps_cause _ = True"

fun received :: "jsval \<Rightarrow> jsval" where
  "received (JError (PlainError cls m st c)) =
     JError (TemporalFailure BareTemporal m (cutoffStackTrace (Some st)) (received c) None)"
| "received (JError (TemporalFailure cls m st c f)) =
     JError (TemporalFailure (received_class cls) (received_message cls m) (cutoffStackTrace (Some st))
       (if keeps_cause cls then received c else JUndefined) None)"
| "received v = v"

fun strip_cache :: "jsval \<Rightarrow> jsval" where
  "strip_cache (JError (TemporalFailure cls m st c f)) = JError (TemporalFailure cls m st (strip_cache c) None)"
| "strip_cache v = v"

lemma map_payloads_back:
  "lossless conv \<Longrightarrow> map_res (toPayload conv) vs = Inr ps \<Longrightarrow> map_res (fromPayload conv) ps = Inr vs"
  by (rule map_res_roundtrip) (auto simp: lossless_def)

lemma toPayloads_back:
  "lossless conv \<Longrightarrow> toPayloads conv vs = Inr ps \<Longrightarrow> arrayFromPayloads conv ps = Inr vs"
  by (auto simp: toPayloads_def arrayFromPayloads_def and_then_eq_Inr map_payloads_back split: if_splits)

lemma toPayloads_singleton_back:
  "lossless conv \<Longrightarrow> toPayloads conv [v] = Inr ps \<Longrightarrow> fromPayloadsAtIndex conv 0 ps = Inr v"
  by (auto simp: toPayloads_def fromPayloadsAtIndex_def and_then_eq_Inr lossless_def)

lemma encodeCommon_back:
  assumes "lossless conv"
    and "encodeCommon enc conv (ProtoFailure (Some m) src (Some st) None c i) = Inr f"
  shows "\<exists>ea. pf_cause f = c \<and> applyEncodedAttributes conv f = Inr (ProtoFailure (Some m) src (Some st) ea c i)"
  using assms by (auto simp: lossless_def and_then_eq_Inr str_or_def split: if_splits)

lemma class_back:
  assumes "lossless conv" and "named_class cls" and "classInfo conv cls = Inr i"
  shows "failureToErrorInner conv (ProtoFailure (Some m) src st ea c i) (Inr cs) =
    Inr (received_class cls, received_message cls m, if keeps_cause cls then cs else JUndefined)"
  using assms
  by (cases cls)
    (auto simp: and_then_eq_Inr detailsToPayloads_def fromPayloadsAtIndex_def [of conv 0 None] arrayFromPayloads_def [of conv None]
      dest: toPayloads_back toPayloads_singleton_back split: option.splits if_splits)

lemma failureToError_via:
  assumes "applyEncodedAttributes conv f = Inr f'"
    and "failureToErrorInner conv f' (optionalFailureToOptionalError conv (pf_cause f)) = Inr (cls, m, cs)"
  shows "failureToError conv f =
    Inr (TemporalFailure cls m (case pf_stackTrace f' of Some s \<Rightarrow> s | None \<Rightarrow> []) cs (Some f'))"
  using assms by (cases f) (simp add: optionalFailureToOptionalError_def)

lemma fresh_cases:
  assumes "fresh_error e"
  obtains "e = JUndefined" | x where "e = JError x" "truthy e"
  using assms by (cases e rule: fresh_error.cases) auto

lemma error_roundtrip_step:
  assumes conv: "lossless conv" and i: "classInfo conv cls = Inr i" "named_class cls"
    and f: "encodeCommon enc conv (ProtoFailure (Some m) src (Some st) None cf i) = Inr f"
    and cf: "optionalFailureToOptionalError conv cf = Inr cs"
  shows "\<exists>f'. failureToError conv f = Inr (TemporalFailure (received_class cls) (received_message cls m) st
             (if keeps_cause cls then cs else JUndefined) (Some f'))"
  using encodeCommon_back [OF conv f] class_back [OF conv i(2) i(1)] cf
  by (auto simp: failureToError_via)

lemma error_roundtrip_cause:
  assumes "fresh_error c"
    and "(if truthy c then and_then (errorToFailure enc T conv c) (\<lambda>(cf, c'). Inr (Some cf, c')) else Inr (None, c)) = Inr (cf, c')"
    and "\<And>f. truthy c \<Longrightarrow> errorToFailure enc T conv c = Inr (f, c') \<Longrightarrow>
      \<exists>e2. failureToError conv f = Inr e2 \<and> strip_cache (JError e2) = received c"
  shows "\<exists>cs. optionalFailureToOptionalError conv cf = Inr cs \<and> strip_cache cs = received c"
  using assms(1)
proof (cases rule: fresh_cases)
  case (2 x)
  with assms(2) obtain f where "errorToFailure enc T conv c = Inr (f, c')" "cf = Some f"
    by (auto simp: and_then_eq_Inr)
  with assms(3) 2 show ?thesis
    by (force simp: optionalFailureToOptionalError_def)
qed (use assms(2) in \<open>auto simp: optionalFailureToOptionalError_def\<close>)

lemma error_roundtrip_rec:
  shows "lossless conv \<Longrightarrow> fresh_error e \<Longrightarrow> truthy e \<Longrightarrow> errorToFailure enc T conv e = Inr (f, e') \<Longrightarrow>
    \<exists>e2. failureToError conv f = Inr e2 \<and> strip_cache (JError e2) = received e"
proof (induction enc T conv e arbitrary: f e' rule: errorToFailure.induct)
  case (2 enc T conv cls msg st cause)
  from "2.prems"(4) obtain cf c' i where
    c: "(if truthy cause then and_then (errorToFailure enc T conv cause) (\<lambda>(cf, c'). Inr (Some cf, c'))
         else Inr (None, cause)) = Inr (cf, c')"
    and i: "classInfo conv cls = Inr i"
    and f: "encodeCommon enc conv
      (ProtoFailure (Some msg) (Some FAILURE_SOURCE) (Some (cutoffStackTrace (Some st))) None cf i) = Inr f"
    by (auto simp: and_then_eq_Inr)
  obtain cs where cs: "optionalFailureToOptionalError conv cf = Inr cs" "strip_cache cs = received cause"
    using error_roundtrip_cause [OF _ c] "2.IH" "2.prems" by auto
  show ?case
    using error_roundtrip_step [OF "2.prems"(1) i _ f cs(1)] cs(2) "2.prems" by auto
next
  case (3 enc T conv cls msg st cause)
  from "3.prems"(4) obtain cf c' where
    c: "(if truthy cause then and_then (errorToFailure enc T conv cause) (\<lambda>(cf, c'). Inr (Some cf, c'))
         else Inr (None, cause)) = Inr (cf, c')"
    and f: "encodeCommon enc conv
      (ProtoFailure (Some msg) (Some FAILURE_SOURCE) (Some (cutoffStackTrace (Some st))) None cf NoInfo) = Inr f"
    by (auto simp: and_then_eq_Inr)
  obtain cs where cs: "optionalFailureToOptionalError conv cf = Inr cs" "strip_cache cs = received cause"
    using error_roundtrip_cause [OF _ c] "3.IH" "3.prems" by auto
  show ?case
    using error_roundtrip_step [OF "3.prems"(1) _ _ f cs(1), of BareTemporal] cs(2) by auto
qed auto

subsection \<open>A converter to evaluate with\<close>

definition to_bytes :: "string \<Rightarrow> bytes" where
  "to_bytes s = map (\<lambda>c. of_nat (of_char c)) s"

definition of_bytes :: "bytes \<Rightarrow> string" where
  "of_bytes b = map (\<lambda>w. char_of (unat w)) b"

lemma of_to_bytes [simp]: "of_bytes (to_bytes s) = s"
proof -
  have "char_of (unat (of_nat (of_char c) :: 8 word)) = (c :: char)" for c
    by (simp add: unat_of_nat)
  then show ?thesis
    by (simp add: of_bytes_def to_bytes_def comp_def map_idI)
qed

text \<open>Strings and the object of encoded attributes, nothing else.\<close>

fun sample_toPayload :: "jsval \<Rightarrow> payload res" where
  "sample_toPayload (JStr s) = Inr \<lparr>metadata = None, payload_data = Some (to_bytes s)\<rparr>"
| "sample_toPayload (JObj [(a, JStr x), (b, JStr y)]) =
     Inr \<lparr>metadata = Some [(a, to_bytes x), (b, to_bytes y)], payload_data = None\<rparr>"
| "sample_toPayload _ = Inl (TypeError ''no converter'')"

fun sample_fromPayload :: "payload \<Rightarrow> jsval res" where
  "sample_fromPayload p = (case (metadata p, payload_data p) of
     (None, Some b) \<Rightarrow> Inr (JStr (of_bytes b))
   | (Some [(a, x), (b, y)], None) \<Rightarrow> Inr (JObj [(a, JStr (of_bytes x)), (b, JStr (of_bytes y))])
   | _ \<Rightarrow> Inl (TypeError ''no converter''))"

definition sample_converter :: converter where
  "sample_converter = \<lparr>toPayload = sample_toPayload, fromPayload = sample_fromPayload\<rparr>"

definition sample_text :: text_env where
  "sample_text = \<lparr>stringOf = (\<lambda>_. ''x''), jsonStringify = (\<lambda>_. Inr ''{}'')\<rparr>"

lemma sample_converter_lossless: "lossless sample_converter"
proof -
  have "sample_toPayload v = Inr p \<Longrightarrow> sample_fromPayload p = Inr v" for v p
    by (induction v rule: sample_toPayload.induct) auto
  then show ?thesis by (simp add: lossless_def sample_converter_def)
qed

subsection \<open>Properties\<close>

text \<open>C12. Sending an error made by user code or by the SDK as a failure and reading the failure
  back gives the error of the same Temporal class with the same message, its details, names and
  ids, its cause converted the same way all the way down and its stack trace cut at the first
  framework frame, whether or not the message and the stack trace travel encoded. Ordinary errors
  come back as a bare TemporalFailure, child workflow failures with their fixed message and
  timeouts without a cause. The payload converter only has to give back what it was given.\<close>

theorem error_roundtrip:
  assumes "lossless conv" and "fresh_error e" and "truthy e"
    and "errorToFailure enc T conv e = Inr (f, e')"
  shows "\<exists>e2. failureToError conv f = Inr e2 \<and> strip_cache (JError e2) = received e"
  using error_roundtrip_rec [OF assms] .

definition sample_error :: jsval where
  "sample_error = JError (TemporalFailure (ActivityFailure ''greet'' (Some ''1'') 1 None) ''Activity task failed'' ''Error: boom''
     (JError (TemporalFailure (ApplicationFailure (Some ''Boom'') None (Some [JStr ''d''])) ''boom'' ''Error: boom'' JUndefined None)) None)"

theorem error_roundtrip_witness:
  "\<exists>f e' e2. errorToFailure True sample_text sample_converter sample_error = Inr (f, e')
     \<and> failureToError sample_converter f = Inr e2 \<and> strip_cache (JError e2) = received sample_error"
proof -
  have "\<exists>r. errorToFailure True sample_text sample_converter sample_error = Inr r"
    by (simp add: sample_error_def sample_converter_def toPayloads_def detailsToPayloads_def)
  then obtain f e' where "errorToFailure True sample_text sample_converter sample_error = Inr (f, e')"
    by auto
  with error_roundtrip [OF sample_converter_lossless _ _ this] show ?thesis
    by (auto simp: sample_error_def)
qed

subsection \<open>Cancellation\<close>

text \<open>
  What a cancellation is on the wire, read off the protobuf failure alone: cancelled info, or the
  failure of an activity or of a child workflow whose direct cause has cancelled info.
\<close>

fun cancelled_info :: "failure_info \<Rightarrow> bool" where
  "cancelled_info (CanceledInfo _) = True"
| "cancelled_info _ = False"

fun wraps_cause :: "failure_info \<Rightarrow> bool" where
  "wraps_cause (ActivityInfo _ _ _ _) = True"
| "wraps_cause (ChildWorkflowInfo _ _ _ _) = True"
| "wraps_cause _ = False"

definition wire_cancellation :: "proto_failure \<Rightarrow> bool" where
  "wire_cancellation f \<longleftrightarrow> cancelled_info (pf_info f) \<or>
     (wraps_cause (pf_info f) \<and> (case pf_cause f of None \<Rightarrow> False | Some c \<Rightarrow> cancelled_info (pf_info c)))"

text \<open>
  The values the converter meets: errors it read from a failure itself, \<open>TemporalFailure\<close>s made in
  this process around such values, everything that is not a \<open>TemporalFailure\<close>, and what a
  conversion leaves of these.
\<close>

inductive sdk_value :: "converter \<Rightarrow> jsval \<Rightarrow> bool" for conv where
  received: "failureToError conv f = Inr e \<Longrightarrow> sdk_value conv (JError e)"
| made: "sdk_value conv c \<Longrightarrow> sdk_value conv (JError (TemporalFailure cls m st c None))"
| plain: "sdk_value conv (JError (PlainError cls m st c))"
| other: "(\<And>e. v \<noteq> JError e) \<Longrightarrow> sdk_value conv v"
| converted: "sdk_value conv v \<Longrightarrow> errorToFailure enc T conv v = Inr (f, v') \<Longrightarrow> sdk_value conv v'"

text \<open>Where an error carries a failure, class and failure agree about cancellation.\<close>

fun cache_agrees :: "jsval \<Rightarrow> bool" where
  "cache_agrees (JError (TemporalFailure cls m st c (Some f))) \<longleftrightarrow>
     (isCancelledFailure (JError (TemporalFailure cls m st c (Some f))) \<longleftrightarrow> cancelled_info (pf_info f)) \<and>
     (isCancellation (JError (TemporalFailure cls m st c (Some f))) \<longleftrightarrow> wire_cancellation f)"
| "cache_agrees (JError (TemporalFailure cls m st c None)) \<longleftrightarrow> cache_agrees c"
| "cache_agrees _ \<longleftrightarrow> True"

lemma encodeCommon_keeps:
  "encodeCommon enc conv f = Inr f' \<Longrightarrow> pf_info f' = pf_info f \<and> pf_cause f' = pf_cause f"
  by (cases f) (auto simp: and_then_eq_Inr split: if_splits)

lemma applyEncodedAttributes_keeps:
  "applyEncodedAttributes conv f = Inr f' \<Longrightarrow> pf_info f' = pf_info f \<and> pf_cause f' = pf_cause f"
  by (cases "(conv, f)" rule: applyEncodedAttributes.cases) (auto simp: and_then_eq_Inr split: if_splits)

lemma failureToError_parts:
  assumes "failureToError conv f = Inr e"
  obtains f' cls m st cs where "e = TemporalFailure cls m st cs (Some f')"
    "pf_info f' = pf_info f" "pf_cause f' = pf_cause f"
    "failureToErrorInner conv f' (optionalFailureToOptionalError conv (pf_cause f)) = Inr (cls, m, cs)"
proof -
  obtain msg src st ea c i where f: "f = ProtoFailure msg src st ea c i" by (cases f)
  obtain f' where f': "applyEncodedAttributes conv f = Inr f'"
    using assms by (auto simp: f and_then_eq_Inr simp del: applyEncodedAttributes.simps)
  moreover obtain cls m cs where
    "failureToErrorInner conv f' (optionalFailureToOptionalError conv (pf_cause f)) = Inr (cls, m, cs)"
    "e = TemporalFailure cls m (or_empty (pf_stackTrace f')) cs (Some f')"
    using assms f' unfolding f
    by (auto simp: and_then_eq_Inr optionalFailureToOptionalError_def simp del: applyEncodedAttributes.simps)
  ultimately show ?thesis
    using that applyEncodedAttributes_keeps [OF f'] by blast
qed

text \<open>The class and cause the reader gives an error, by the kind of info.\<close>

lemma inner_kind:
  assumes "failureToErrorInner conv f (optionalFailureToOptionalError conv cf) = Inr (cls, m, cs)"
  shows "(\<exists>d. cls = CancelledFailure d) \<longleftrightarrow> cancelled_info (pf_info f)"
    and "(\<exists>a b c d. cls = ActivityFailure a b c d) \<or> (\<exists>a b c d. cls = ChildWorkflowFailure a b c d) \<longleftrightarrow>
      wraps_cause (pf_info f)"
    and "wraps_cause (pf_info f) \<Longrightarrow> optionalFailureToOptionalError conv cf = Inr cs"
  using assms
  by (cases "(conv, f, optionalFailureToOptionalError conv cf)" rule: failureToErrorInner.cases;
      auto simp: and_then_eq_Inr split: option.splits if_splits)+

lemma isCancelledFailure_received:
  assumes "failureToError conv f = Inr e"
  shows "isCancelledFailure (JError e) \<longleftrightarrow> cancelled_info (pf_info f)"
  using assms
proof (rule failureToError_parts)
  fix f' cls m st cs
  assume *: "e = TemporalFailure cls m st cs (Some f')" "pf_info f' = pf_info f"
    "failureToErrorInner conv f' (optionalFailureToOptionalError conv (pf_cause f)) = Inr (cls, m, cs)"
  show ?thesis
    using inner_kind(1) [OF *(3)] *(1,2) by (cases cls) auto
qed

lemma isCancellation_received:
  assumes "failureToError conv f = Inr e"
  shows "isCancellation (JError e) \<longleftrightarrow> wire_cancellation f"
  using assms
proof (rule failureToError_parts)
  fix f' cls m st cs
  assume *: "e = TemporalFailure cls m st cs (Some f')" "pf_info f' = pf_info f"
    "failureToErrorInner conv f' (optionalFailureToOptionalError conv (pf_cause f)) = Inr (cls, m, cs)"
  have cs: "isCancelledFailure cs \<longleftrightarrow> (case pf_cause f of None \<Rightarrow> False | Some c \<Rightarrow> cancelled_info (pf_info c))"
    if "wraps_cause (pf_info f)"
    using inner_kind(3) [OF *(3)] that *(2) isCancelledFailure_received
    by (auto simp: optionalFailureToOptionalError_def and_then_eq_Inr split: option.splits)
  have "isActivityFailure (JError e) \<or> isChildWorkflowFailure (JError e) \<longleftrightarrow> wraps_cause (pf_info f)"
    using inner_kind(2) [OF *(3)] *(1,2) by (cases cls) auto
  then show ?thesis
    using isCancelledFailure_received [OF assms] cs *(1)
    by (auto simp: isCancellation_def wire_cancellation_def split: option.splits)
qed

lemma received_agrees: "failureToError conv f = Inr e \<Longrightarrow> cache_agrees (JError e)"
proof (rule failureToError_parts)
  fix f' cls m st cs
  assume f: "failureToError conv f = Inr e" "e = TemporalFailure cls m st cs (Some f')"
    "pf_info f' = pf_info f" "pf_cause f' = pf_cause f"
  then show ?thesis
    using isCancelledFailure_received [OF f(1)] isCancellation_received [OF f(1)]
    by (simp add: wire_cancellation_def)
qed

lemma classInfo_kind:
  assumes "classInfo conv cls = Inr i"
  shows "cancelled_info i \<longleftrightarrow> (\<exists>d. cls = CancelledFailure d)"
    and "wraps_cause i \<longleftrightarrow> (\<exists>a b c d. cls = ActivityFailure a b c d) \<or> (\<exists>a b c d. cls = ChildWorkflowFailure a b c d)"
  using assms by (cases cls; auto simp: and_then_eq_Inr)+

lemma isCancelledFailure_sent:
  assumes "cache_agrees e" and "errorToFailure enc T conv e = Inr (f, e')"
  shows "isCancelledFailure e \<longleftrightarrow> cancelled_info (pf_info f)"
  using assms
proof (cases "(enc, T, conv, e)" rule: errorToFailure.cases)
  case (2 enc T conv cls m st c)
  then show ?thesis
    using assms classInfo_kind(1) by (cases cls) (auto simp: and_then_eq_Inr dest!: encodeCommon_keeps)
qed (use assms in \<open>auto simp: and_then_eq_Inr dest!: encodeCommon_keeps split: if_splits\<close>)

lemma isCancellation_sent:
  assumes "cache_agrees e" and "errorToFailure enc T conv e = Inr (f, e')"
  shows "isCancellation e \<longleftrightarrow> wire_cancellation f"
proof (cases "(enc, T, conv, e)" rule: errorToFailure.cases)
  case (1 enc' T' conv' cls m st c g)
  then have "pf_info f = pf_info g" "pf_cause f = pf_cause g"
    using assms by (auto simp: and_then_eq_Inr dest!: encodeCommon_keeps)
  then show ?thesis
    using assms(1) 1 by (simp add: wire_cancellation_def)
next
  case (2 enc' T' conv' cls m st c)
  then obtain cf c' i where *: "classInfo conv cls = Inr i" "pf_info f = i" "pf_cause f = cf"
      "(if truthy c then and_then (errorToFailure enc T conv c) (\<lambda>(cf, c'). Inr (Some cf, c'))
        else Inr (None, c)) = Inr (cf, c')"
    using assms(2) by (auto simp: and_then_eq_Inr dest!: encodeCommon_keeps)
  have "isCancelledFailure c \<longleftrightarrow> (case cf of None \<Rightarrow> False | Some g \<Rightarrow> cancelled_info (pf_info g))"
  proof (cases "truthy c")
    case True
    with *(4) obtain g where "errorToFailure enc T conv c = Inr (g, c')" "cf = Some g"
      by (auto simp: and_then_eq_Inr)
    then show ?thesis
      using isCancelledFailure_sent [of c] assms(1) 2 by simp
  next
    case False
    then show ?thesis using *(4) by (cases c rule: isCancelledFailure.cases) auto
  qed
  then show ?thesis
    using 2 *(2,3) classInfo_kind [OF *(1)] isCancelledFailure_sent [OF assms]
    by (cases cls) (auto simp: isCancellation_def wire_cancellation_def)
qed (use assms in \<open>auto simp: and_then_eq_Inr isCancellation_def wire_cancellation_def
    dest!: encodeCommon_keeps split: if_splits\<close>)

lemma converted_agrees:
  "cache_agrees e \<Longrightarrow> errorToFailure enc T conv e = Inr (f, e') \<Longrightarrow>
   cache_agrees e' \<and> isCancelledFailure e' = isCancelledFailure e"
proof (induction enc T conv e arbitrary: f e' rule: errorToFailure.induct)
  case (1 enc T conv cls m st c g)
  then show ?case
    by (cases cls) (auto simp: and_then_eq_Inr isCancellation_def wire_cancellation_def dest!: encodeCommon_keeps)
next
  case (2 enc T conv cls m st c)
  from "2.prems"(2) obtain cf c' where *: "e' = JError (TemporalFailure cls m st c' None)"
      "(if truthy c then and_then (errorToFailure enc T conv c) (\<lambda>(cf, c'). Inr (Some cf, c'))
        else Inr (None, c)) = Inr (cf, c')"
    by (auto simp: and_then_eq_Inr)
  moreover have "cache_agrees c'"
    using *(2) "2.IH" "2.prems"(1) by (auto simp: and_then_eq_Inr split: if_splits)
  ultimately show ?case by (cases cls) auto
qed (auto simp: and_then_eq_Inr split: if_splits)

lemma sdk_value_agrees: "sdk_value conv v \<Longrightarrow> cache_agrees v"
proof (induction rule: sdk_value.induct)
  case (other v)
  then show ?case by (cases v) auto
qed (auto simp: received_agrees converted_agrees)

text \<open>C14. Cancellation has one meaning on both sides of the wire. Any error the SDK handles (made in
  this process, read from a failure, or left by an earlier conversion) counts as a cancellation
  exactly when the failure it is converted to has cancelled info, or is the failure of an activity or
  child workflow whose direct cause has cancelled info; and an error read from a failure counts as
  a cancellation exactly under the same condition on the failure. This holds for every payload
  converter and whether or not the attributes travel encoded.\<close>

theorem cancellation_survives_wire:
  assumes "sdk_value conv e" and "errorToFailure enc T conv e = Inr (f, e')"
    and "failureToError conv g = Inr e2"
  shows "(isCancellation e \<longleftrightarrow> wire_cancellation f) \<and> (isCancellation (JError e2) \<longleftrightarrow> wire_cancellation g)"
  using isCancellation_sent [OF sdk_value_agrees [OF assms(1)] assms(2)] isCancellation_received [OF assms(3)]
  by blast+

definition sample_cancelled_child :: jsval where
  "sample_cancelled_child = JError (TemporalFailure (ChildWorkflowFailure None (''w'', ''r'') ''Child'' 2) ''x'' ''s''
     (cancelled_failure ''Workflow cancelled'') None)"

theorem cancellation_survives_wire_witness:
  "isCancellation sample_cancelled_child \<and>
   (\<exists>f e' e2. errorToFailure False sample_text sample_converter sample_cancelled_child = Inr (f, e')
     \<and> failureToError sample_converter f = Inr e2 \<and> wire_cancellation f \<and> isCancellation (JError e2))"
proof -
  have c: "isCancellation sample_cancelled_child"
    by (simp add: sample_cancelled_child_def isCancellation_def cancelled_failure_def)
  have v: "sdk_value sample_converter sample_cancelled_child"
    unfolding sample_cancelled_child_def cancelled_failure_def
    by (intro sdk_value.made sdk_value.other) simp
  have "\<exists>r. errorToFailure False sample_text sample_converter sample_cancelled_child = Inr r"
    by (simp add: sample_cancelled_child_def sample_converter_def toPayloads_def cancelled_failure_def)
  then obtain f e' where f: "errorToFailure False sample_text sample_converter sample_cancelled_child = Inr (f, e')"
    by auto
  then obtain e2 where e2: "failureToError sample_converter f = Inr e2"
    using error_roundtrip_rec [OF sample_converter_lossless _ _ f]
    by (auto simp: sample_cancelled_child_def cancelled_failure_def)
  show ?thesis
    using cancellation_survives_wire [OF v f e2] c f e2 by blast
qed

text \<open>A failure received from the server is sent on unchanged: an error read from it is
  converted back to that very failure (with the decoded message and stack trace in place of the
  encoded ones), whatever the class of the error, and the error is left as it was.\<close>

theorem received_failure_sent_unchanged:
  assumes "failureToError conv f = Inr e"
  shows "\<exists>f'. applyEncodedAttributes conv f = Inr f' \<and> errorToFailure False T conv (JError e) = Inr (f', JError e)
    \<and> (pf_encodedAttributes f = None \<longrightarrow> f' = f)"
proof -
  obtain msg src st ea c i where f: "f = ProtoFailure msg src st ea c i" by (cases f)
  from assms obtain f' cls m s cs where f': "applyEncodedAttributes conv f = Inr f'"
    "e = TemporalFailure cls m s cs (Some f')"
    by (auto simp: f and_then_eq_Inr simp del: applyEncodedAttributes.simps)
  moreover have "errorToFailure False T conv (JError e) = Inr (f', JError e)"
    by (cases f') (simp add: f')
  moreover have "pf_encodedAttributes f = None \<longrightarrow> f' = f"
    using f'(1) unfolding f by (cases ea) simp_all
  ultimately show ?thesis by (intro exI [of _ f'] conjI)
qed

theorem received_failure_sent_unchanged_witness:
  "\<exists>f' e. failureToError sample_converter (ProtoFailure (Some ''m'') None None None None (ServerInfo None)) = Inr e
     \<and> errorToFailure False sample_text sample_converter (JError e) = Inr (f', JError e)"
proof -
  have "\<exists>e. failureToError sample_converter (ProtoFailure (Some ''m'') None None None None (ServerInfo None)) = Inr e"
    by simp
  then obtain e where e: "failureToError sample_converter (ProtoFailure (Some ''m'') None None None None (ServerInfo None)) = Inr e"
    by blast
  from received_failure_sent_unchanged [OF e] e show ?thesis by blast
qed

text \<open>With encodeCommonAttributes the conversion overwrites the failure cached in a received
  error. The first conversion of such an error still carries its message and stack trace; the second
  one, made from the overwritten cache, carries the placeholder 'Encoded failure' and an empty stack
  trace instead.\<close>

theorem second_encoding_hides_message:
  assumes conv: "lossless conv"
    and f: "pf_message f = Some m" "pf_stackTrace f = Some s"
    and one: "errorToFailure True T conv (JError (TemporalFailure cls msg st c (Some f))) = Inr (f1, e1)"
    and two: "errorToFailure True T conv e1 = Inr (f2, e2)"
  shows "\<exists>g1 g2. applyEncodedAttributes conv f1 = Inr g1 \<and> pf_message g1 = Some m \<and> pf_stackTrace g1 = Some s
    \<and> applyEncodedAttributes conv f2 = Inr g2 \<and> pf_message g2 = Some ''Encoded failure'' \<and> pf_stackTrace g2 = Some []"
proof -
  obtain src ea cf i where fd: "f = ProtoFailure (Some m) src (Some s) ea cf i"
    using f by (cases f) auto
  show ?thesis
    using one two conv by (auto simp: fd and_then_eq_Inr lossless_def str_or_def)
qed

theorem second_encoding_hides_message_witness:
  "\<exists>f1 e1 f2 e2 g2. errorToFailure True sample_text sample_converter
       (JError (TemporalFailure BareTemporal ''m'' ''s'' JUndefined (Some (ProtoFailure (Some ''m'') None (Some ''s'') None None NoInfo)))) = Inr (f1, e1)
     \<and> errorToFailure True sample_text sample_converter e1 = Inr (f2, e2)
     \<and> applyEncodedAttributes sample_converter f2 = Inr g2 \<and> pf_message g2 = Some ''Encoded failure''"
proof -
  let ?f = "ProtoFailure (Some ''m'') None (Some ''s'') None None NoInfo"
  have "\<exists>f1 e1 f2 e2. errorToFailure True sample_text sample_converter
      (JError (TemporalFailure BareTemporal ''m'' ''s'' JUndefined (Some ?f))) = Inr (f1, e1)
     \<and> errorToFailure True sample_text sample_converter e1 = Inr (f2, e2)"
    by (simp add: sample_converter_def)
  then obtain f1 e1 f2 e2 where e: "errorToFailure True sample_text sample_converter
      (JError (TemporalFailure BareTemporal ''m'' ''s'' JUndefined (Some ?f))) = Inr (f1, e1)"
    "errorToFailure True sample_text sample_converter e1 = Inr (f2, e2)"
    by blast
  have m: "pf_message ?f = Some ''m''" "pf_stackTrace ?f = Some ''s''" by simp_all
  from second_encoding_hides_message [OF sample_converter_lossless m e] e show ?thesis by blast
qed

subsection \<open>Cutting stack traces\<close>

lemma cutoff_loop_takeWhile: "cutoff_loop acc ls = acc @ takeWhile (\<lambda>l. \<not> is_cutoff_line l) ls"
  by (induction ls arbitrary: acc) auto

lemma split_lines_no_newline: "CHR 0x0A \<notin> set s \<Longrightarrow> split_lines acc s = [rev acc @ s]"
  by (induction s arbitrary: acc) (auto simp: neq_Nil_conv)

lemma split_lines_append:
  "CHR 0x0A \<notin> set l \<Longrightarrow> CHR 0x0D \<notin> set l \<Longrightarrow>
   split_lines acc (l @ CHR 0x0A # s) = (rev acc @ l) # split_lines [] s"
  by (induction l arbitrary: acc) auto

definition clean_lines :: "string list \<Rightarrow> bool" where
  "clean_lines ls \<longleftrightarrow> (\<forall>l \<in> set ls. CHR 0x0A \<notin> set l \<and> CHR 0x0D \<notin> set l)"

lemma split_join_lines: "clean_lines ls \<Longrightarrow> ls \<noteq> [] \<Longrightarrow> split_lines [] (join_lines ls) = ls"
  by (induction ls rule: join_lines.induct) (auto simp: clean_lines_def split_lines_no_newline split_lines_append)

lemma split_lines_clean:
  "CHR 0x0D \<notin> set s \<Longrightarrow> CHR 0x0A \<notin> set acc \<Longrightarrow> CHR 0x0D \<notin> set acc \<Longrightarrow> clean_lines (split_lines acc s)"
proof (induction acc s rule: split_lines.induct)
  case (2 acc c s)
  consider (lf) "c = CHR 0x0A" | (crlf) "c = CHR 0x0D" | (other) "c \<noteq> CHR 0x0A" "c \<noteq> CHR 0x0D" by blast
  then show ?case
  proof cases
    case lf
    with "2.IH"(1) "2.prems" show ?thesis by (simp add: clean_lines_def)
  next
    case crlf
    with "2.prems"(1) show ?thesis by simp
  next
    case other
    with "2.IH"(3) "2.prems" show ?thesis by simp
  qed
qed (simp add: clean_lines_def)

lemma takeWhile_clean: "clean_lines ls \<Longrightarrow> clean_lines (takeWhile P ls)"
  by (auto simp: clean_lines_def dest: set_takeWhileD)

lemma not_cutoff_Nil: "\<not> is_cutoff_line []"
  by code_simp

text \<open>cutoffStackTrace keeps exactly the lines before the first framework frame (an activity's
  execute, an activator handler or the script entry), and cutting a trace that was already cut
  changes nothing, so a stack trace survives any number of hops.\<close>

theorem cutoff_keeps_user_frames:
  assumes "CHR 0x0D \<notin> set s"
  shows "split_lines [] (cutoffStackTrace (Some s)) =
      (case takeWhile (\<lambda>l. \<not> is_cutoff_line l) (split_lines [] s) of [] \<Rightarrow> [[]] | ls \<Rightarrow> ls)
    \<and> cutoffStackTrace (Some (cutoffStackTrace (Some s))) = cutoffStackTrace (Some s)"
proof -
  let ?ls = "takeWhile (\<lambda>l. \<not> is_cutoff_line l) (split_lines [] s)"
  have cut: "cutoffStackTrace (Some s) = join_lines ?ls"
    by (simp add: cutoffStackTrace_def cutoff_loop_takeWhile)
  have clean: "clean_lines ?ls"
    using assms by (intro takeWhile_clean split_lines_clean) auto
  have split: "split_lines [] (join_lines ?ls) = (case ?ls of [] \<Rightarrow> [[]] | ls \<Rightarrow> ls)"
    using split_join_lines [OF clean] by (cases ?ls) auto
  have user: "\<forall>l \<in> set ?ls. \<not> is_cutoff_line l"
    by (auto dest: set_takeWhileD)
  have "join_lines (takeWhile (\<lambda>l. \<not> is_cutoff_line l) (case ?ls of [] \<Rightarrow> [[]] | ls \<Rightarrow> ls)) = join_lines ?ls"
  proof (cases ?ls)
    case (Cons l ls)
    with user have "takeWhile (\<lambda>l. \<not> is_cutoff_line l) (l # ls) = l # ls"
      unfolding takeWhile_eq_all_conv by simp
    with Cons show ?thesis by simp
  qed (simp add: not_cutoff_Nil)
  then have "cutoffStackTrace (Some (join_lines ?ls)) = join_lines ?ls"
    by (simp add: cutoffStackTrace_def cutoff_loop_takeWhile split)
  with cut split show ?thesis by simp
qed

definition sample_stack :: string where
  "sample_stack = join_lines [''Error: x'', ''  at f (/a.js:1:2)'',
     ''  at Activity.execute (/w/worker/lib/activity.js:1:2)'', ''  at g (/b.js:3:4)'']"

theorem cutoff_keeps_user_frames_witness:
  "split_lines [] (cutoffStackTrace (Some sample_stack)) = [''Error: x'', ''  at f (/a.js:1:2)'']"
proof -
  have r: "CHR 0x0D \<notin> set sample_stack" by code_simp
  have t: "(case takeWhile (\<lambda>l. \<not> is_cutoff_line l) (split_lines [] sample_stack) of [] \<Rightarrow> [[]] | ls \<Rightarrow> ls)
     = [''Error: x'', ''  at f (/a.js:1:2)'']" by code_simp
  show ?thesis using cutoff_keeps_user_frames [OF r] unfolding t by blast
qed

end
