(* ===== verification/Promises.thy ===== *)
theory Promises
  imports Failure_Converter
begin

text \<open>
  Promises as the SDK uses them: a heap of cells, each pending with its registered reactions or
  settled once and for all, and the queue of reactions whose promise has settled. A reaction is a
  value that names the code to run (the runtime's reactions are the constructors of a datatype),
  so that the closures of the source stay inspectable. The ticks between a promise and the
  continuation of an \<open>await\<close> on it are merged into one reaction.
\<close>

datatype 'v settlement = Resolved 'v | Rejected 'v

record ('v, 'r) pcell =
  settled :: "'v settlement option"
  reactions :: "'r list"
  user_owned :: bool

record ('v, 'r) heap =
  cells :: "('v, 'r) pcell list"
  microtasks :: "('r \<times> 'v settlement) list"

type_synonym pid = nat

definition empty_heap :: "('v, 'r) heap" where
  "empty_heap = \<lparr>cells = [], microtasks = []\<rparr>"

text \<open>\<open>new Promise\<close>; the second component is the heap with the pending cell. A promise that user
  code can settle (a trigger, the result of a user function) is marked.\<close>

definition new_promise :: "bool \<Rightarrow> ('v, 'r) heap \<Rightarrow> pid \<times> ('v, 'r) heap" where
  "new_promise own h = (length (cells h), h\<lparr>cells := cells h @ [\<lparr>settled = None, reactions = [], user_owned = own\<rparr>]\<rparr>)"

text \<open>\<open>resolve\<close> and \<open>reject\<close>: only the first call has an effect; it queues the reactions.\<close>

definition settle :: "pid \<Rightarrow> 'v settlement \<Rightarrow> ('v, 'r) heap \<Rightarrow> ('v, 'r) heap" where
  "settle p st h =
     (if p < length (cells h) \<and> settled (cells h ! p) = None
      then h\<lparr>cells := (cells h)[p := (cells h ! p)\<lparr>settled := Some st, reactions := []\<rparr>],
             microtasks := microtasks h @ map (\<lambda>r. (r, st)) (reactions (cells h ! p))\<rparr>
      else h)"

text \<open>\<open>then\<close> and \<open>catch\<close>: registered while pending, queued at once when settled.\<close>

definition then_do :: "pid \<Rightarrow> 'r \<Rightarrow> ('v, 'r) heap \<Rightarrow> ('v, 'r) heap" where
  "then_do p r h =
     (if p < length (cells h) then
        (case settled (cells h ! p) of
           None \<Rightarrow> h\<lparr>cells := (cells h)[p := (cells h ! p)\<lparr>reactions := reactions (cells h ! p) @ [r]\<rparr>]\<rparr>
         | Some st \<Rightarrow> h\<lparr>microtasks := microtasks h @ [(r, st)]\<rparr>)
      else h)"

definition take_microtask :: "nat \<Rightarrow> ('v, 'r) heap \<Rightarrow> ('v, 'r) heap" where
  "take_microtask i h = h\<lparr>microtasks := take i (microtasks h) @ drop (Suc i) (microtasks h)\<rparr>"

definition outcome :: "('v, 'r) heap \<Rightarrow> pid \<Rightarrow> 'v settlement option" where
  "outcome h p = (if p < length (cells h) then settled (cells h ! p) else None)"

text \<open>
  \<open>linked h p r\<close>: the reaction \<open>r\<close> of promise \<open>p\<close> has not run yet; it waits for the promise or
  is queued with the promise's outcome.
\<close>

definition linked :: "('v, 'r) heap \<Rightarrow> pid \<Rightarrow> 'r \<Rightarrow> bool" where
  "linked h p r \<longleftrightarrow> p < length (cells h) \<and>
     (case settled (cells h ! p) of
        None \<Rightarrow> r \<in> set (reactions (cells h ! p))
      | Some st \<Rightarrow> (r, st) \<in> set (microtasks h))"

subsection \<open>The interface\<close>

text \<open>
  What the runtime relies on: a registered reaction stays linked whatever else happens to the heap,
  and an outcome is final.
\<close>

datatype ('v, 'r) heap_op = HNew bool | HSettle pid "'v settlement" | HThen pid 'r

locale promise_store =
  fixes apply_op :: "('v, 'r) heap_op \<Rightarrow> 'h \<Rightarrow> 'h"
    and known :: "'h \<Rightarrow> pid \<Rightarrow> bool"
    and out :: "'h \<Rightarrow> pid \<Rightarrow> 'v settlement option"
    and link :: "'h \<Rightarrow> pid \<Rightarrow> 'r \<Rightarrow> bool"
  assumes link_then: "known h p \<Longrightarrow> link (apply_op (HThen p r) h) p r"
    and link_stable: "link h p r \<Longrightarrow> link (apply_op x h) p r"
    and known_stable: "known h p \<Longrightarrow> known (apply_op x h) p"
    and out_stable: "out h p = Some st \<Longrightarrow> out (apply_op x h) p = Some st"
    and out_settle: "known h p \<Longrightarrow> out h p = None \<Longrightarrow> out (apply_op (HSettle p st) h) p = Some st"
begin

lemma out_settle_any: "known h p \<Longrightarrow> out (apply_op (HSettle p st) h) p \<noteq> None"
  using out_settle [of h p st] out_stable [of h p _ "HSettle p st"] by (cases "out h p") auto

lemma link_fold: "link h p r \<Longrightarrow> link (fold apply_op xs h) p r"
  by (induction xs arbitrary: h) (auto intro: link_stable)

lemma known_fold: "known h p \<Longrightarrow> known (fold apply_op xs h) p"
  by (induction xs arbitrary: h) (auto intro: known_stable)

lemma out_fold: "out h p = Some st \<Longrightarrow> out (fold apply_op xs h) p = Some st"
  by (induction xs arbitrary: h) (auto intro: out_stable)

lemma link_then_fold: "known h p \<Longrightarrow> link (fold apply_op xs (apply_op (HThen p r) h)) p r"
  by (intro link_fold link_then)

lemma first_settlement_wins:
  "known h p \<Longrightarrow> out h p = None \<Longrightarrow> out (fold apply_op xs (apply_op (HSettle p st) h)) p = Some st"
  by (intro out_fold out_settle)

end

fun heap_apply :: "('v, 'r) heap_op \<Rightarrow> ('v, 'r) heap \<Rightarrow> ('v, 'r) heap" where
  "heap_apply (HNew own) h = snd (new_promise own h)"
| "heap_apply (HSettle p st) h = settle p st h"
| "heap_apply (HThen p r) h = then_do p r h"

definition known_pid :: "('v, 'r) heap \<Rightarrow> pid \<Rightarrow> bool" where
  "known_pid h p \<longleftrightarrow> p < length (cells h)"

lemma linked_new: "linked h p r \<Longrightarrow> linked (snd (new_promise own h)) p r"
  by (simp add: linked_def new_promise_def nth_append split: option.splits)

lemma linked_settle: "linked h p r \<Longrightarrow> linked (settle q st h) p r"
  by (auto simp: linked_def settle_def nth_list_update split: option.splits)

lemma linked_then_do: "linked h p r \<Longrightarrow> linked (then_do q r' h) p r"
  by (auto simp: linked_def then_do_def nth_list_update split: option.splits)

interpretation heap: promise_store heap_apply known_pid outcome linked
proof unfold_locales
  fix h :: "('v, 'r) heap" and p r x st
  show "known_pid h p \<Longrightarrow> linked (heap_apply (HThen p r) h) p r"
    by (auto simp: linked_def known_pid_def then_do_def split: option.splits)
  show "linked h p r \<Longrightarrow> linked (heap_apply x h) p r"
    by (cases x) (auto intro: linked_new linked_settle linked_then_do)
  show "known_pid h p \<Longrightarrow> known_pid (heap_apply x h) p"
    by (cases x) (auto simp: known_pid_def new_promise_def settle_def then_do_def split: option.splits)
  show "outcome h p = Some st \<Longrightarrow> outcome (heap_apply x h) p = Some st"
    by (cases x)
      (auto simp: outcome_def new_promise_def settle_def then_do_def nth_append nth_list_update
        split: option.splits if_splits)
  show "known_pid h p \<Longrightarrow> outcome h p = None \<Longrightarrow> outcome (heap_apply (HSettle p st) h) p = Some st"
    by (auto simp: outcome_def known_pid_def settle_def)
qed

lemmas heap_defs = new_promise_def settle_def then_do_def take_microtask_def

lemma length_settle [simp]: "length (cells (settle p st h)) = length (cells h)"
  by (simp add: settle_def)

lemma length_then_do [simp]: "length (cells (then_do p r h)) = length (cells h)"
  by (simp add: then_do_def split: option.splits)

lemma linked_take_microtask:
  assumes "linked h p r" and "i < length (microtasks h)" and "fst (microtasks h ! i) \<noteq> r"
  shows "linked (take_microtask i h) p r"
proof (cases "settled (cells h ! p)")
  case (Some st)
  with assms(1) have m: "(r, st) \<in> set (microtasks h)" by (simp add: linked_def)
  have "microtasks h = take i (microtasks h) @ microtasks h ! i # drop (Suc i) (microtasks h)"
    by (rule id_take_nth_drop [OF assms(2)])
  with m assms(3) have "(r, st) \<in> set (take i (microtasks h) @ drop (Suc i) (microtasks h))"
    by (metis Un_iff fst_conv set_ConsD set_append)
  with assms(1) Some show ?thesis by (simp add: linked_def take_microtask_def)
qed (use assms(1) in \<open>simp add: linked_def take_microtask_def\<close>)

lemma quiescent_not_linked: "microtasks h = [] \<Longrightarrow> outcome h p \<noteq> None \<Longrightarrow> \<not> linked h p r"
  by (auto simp: outcome_def linked_def)

end
