(* ===== verification/Runtime_Types.thy ===== *)
theory Runtime_Types
  imports Promises
begin

text \<open>
  The data of the workflow runtime (packages/workflow/src: internals.ts, interfaces.ts,
  cancellation-scope.ts): commands, activation jobs, options, scopes, the state of the Activator
  and the operations user code can perform on it.

  Durations on the wire are \<open>tstamp\<close>; protobuf int64 values are 64-bit words. Interceptor lists are
  empty, so every \<open>composeInterceptors\<close> is its \<open>next\<close> (theory Interceptors).
\<close>

type_synonym tstamp = "64 word ts"

subsection \<open>Options\<close>

datatype VersioningIntent = COMPATIBLE | DEFAULT

datatype proto_intent = INTENT_UNSPECIFIED | INTENT_COMPATIBLE | INTENT_DEFAULT

record ActivityOptions =
  ao_activityId :: "string option"
  ao_taskQueue :: "string option"
  ao_heartbeatTimeout :: "duration option"
  ao_retry :: "retry_policy option"
  ao_startToCloseTimeout :: "duration option"
  ao_scheduleToStartTimeout :: "duration option"
  ao_scheduleToCloseTimeout :: "duration option"
  ao_cancellationType :: "nat option"
  ao_allowEagerDispatch :: "bool option"
  ao_versioningIntent :: "VersioningIntent option"

record LocalActivityOptions =
  lo_retry :: "retry_policy option"
  lo_startToCloseTimeout :: "duration option"
  lo_scheduleToStartTimeout :: "duration option"
  lo_scheduleToCloseTimeout :: "duration option"
  lo_localRetryThreshold :: "duration option"
  lo_cancellationType :: "nat option"

record ChildWorkflowOptions =
  co_workflowId :: "string option"
  co_args :: "jsval list option"
  co_taskQueue :: "string option"
  co_cancellationType :: "nat option"
  co_parentClosePolicy :: "nat option"
  co_versioningIntent :: "VersioningIntent option"
  co_workflowIdReusePolicy :: "nat option"
  co_retry :: "retry_policy option"
  co_cronSchedule :: "string option"
  co_memo :: "(string, jsval) jsmap option"
  co_searchAttributes :: "(string, jsval) jsmap option"
  co_workflowExecutionTimeout :: "duration option"
  co_workflowRunTimeout :: "duration option"
  co_workflowTaskTimeout :: "duration option"

record ContinueAsNewOptions =
  cao_workflowType :: "string option"
  cao_taskQueue :: "string option"
  cao_workflowRunTimeout :: "duration option"
  cao_workflowTaskTimeout :: "duration option"
  cao_memo :: "(string, jsval) jsmap option"
  cao_searchAttributes :: "(string, jsval) jsmap option"
  cao_versioningIntent :: "VersioningIntent option"

subsection \<open>Commands\<close>

record activity_attrs =
  aa_activityId :: string
  aa_activityType :: string
  aa_arguments :: "payload list option"
  aa_retryPolicy :: "64 word proto_retry_policy option"
  aa_taskQueue :: string
  aa_heartbeatTimeout :: "tstamp option"
  aa_scheduleToCloseTimeout :: "tstamp option"
  aa_startToCloseTimeout :: "tstamp option"
  aa_scheduleToStartTimeout :: "tstamp option"
  aa_cancellationType :: "nat option"
  aa_doNotEagerlyExecute :: bool
  aa_versioningIntent :: proto_intent

record local_activity_attrs =
  la_attempt :: jsnum
  la_originalScheduleTime :: "tstamp option"
  la_activityId :: string
  la_activityType :: string
  la_arguments :: "payload list option"
  la_retryPolicy :: "64 word proto_retry_policy option"
  la_scheduleToCloseTimeout :: "tstamp option"
  la_startToCloseTimeout :: "tstamp option"
  la_scheduleToStartTimeout :: "tstamp option"
  la_localRetryThreshold :: "tstamp option"
  la_cancellationType :: "nat option"

record child_attrs =
  ca_workflowId :: string
  ca_workflowType :: string
  ca_input :: "payload list option"
  ca_retryPolicy :: "64 word proto_retry_policy option"
  ca_taskQueue :: string
  ca_workflowExecutionTimeout :: "tstamp option"
  ca_workflowRunTimeout :: "tstamp option"
  ca_workflowTaskTimeout :: "tstamp option"
  ca_namespace :: string
  ca_cancellationType :: "nat option"
  ca_workflowIdReusePolicy :: "nat option"
  ca_parentClosePolicy :: "nat option"
  ca_cronSchedule :: "string option"
  ca_searchAttributes :: "(string, payload) jsmap option"
  ca_memo :: "(string, payload) jsmap option"
  ca_versioningIntent :: proto_intent

record can_attrs =
  na_workflowType :: string
  na_arguments :: "payload list option"
  na_taskQueue :: string
  na_memo :: "(string, payload) jsmap option"
  na_searchAttributes :: "(string, payload) jsmap option"
  na_workflowRunTimeout :: "tstamp option"
  na_workflowTaskTimeout :: "tstamp option"
  na_versioningIntent :: proto_intent

datatype signal_target = ExternalTarget string string "string option" | ChildTarget string

datatype query_result = QuerySucceeded payload | QueryFailed proto_failure

datatype command =
    StartTimer nat tstamp
  | CancelTimer nat
  | ScheduleActivity nat activity_attrs
  | RequestCancelActivity nat
  | ScheduleLocalActivity nat local_activity_attrs
  | RequestCancelLocalActivity nat
  | StartChildWorkflowExecution nat child_attrs
  | CancelChildWorkflowExecution nat
  | SignalExternalWorkflowExecution nat string "payload list option" signal_target
  | CancelSignalWorkflow nat
  | RequestCancelExternalWorkflowExecution nat string string "string option"
  | SetPatchMarker string bool
  | UpsertWorkflowSearchAttributes "(string, payload) jsmap"
  | RespondToQuery string query_result
  | CompleteWorkflowExecution payload
  | FailWorkflowExecution proto_failure
  | CancelWorkflowExecution
  | ContinueAsNewWorkflowExecution can_attrs

subsection \<open>Values that settle promises\<close>

record backoff =
  bo_attempt :: "jsnum option"
  bo_duration :: "tstamp option"
  bo_originalScheduleTime :: "tstamp option"

text \<open>
  A user value, the marker error of a local activity that core asks to retry after a timer, the
  error thrown by \<open>continueAsNew\<close>, the pair of promises of a child workflow, or the handle of a
  started one.
\<close>

datatype wval =
    WV jsval
  | WBackoff backoff
  | WContinueAsNew can_attrs
  | WChildPromises pid pid
  | WChildHandle string wval pid

abbreviation WUndefined :: wval where
  "WUndefined \<equiv> WV JUndefined"

text \<open>The value as the payload converter sees it; the runtime's own objects are records.\<close>

fun plain_value :: "wval \<Rightarrow> jsval" where
  "plain_value (WV v) = v"
| "plain_value _ = JObj []"

text \<open>The code that runs when a promise settles, by the place in the source that registers it.\<close>

datatype reaction =
    RUser                                     \<comment> \<open>a continuation of user code\<close>
  | RScopeReject nat                          \<comment> \<open>\<open>parent.cancelRequested.catch(err => this.reject(err))\<close>\<close>
  | RScopeTimeout nat                         \<comment> \<open>\<open>sleep(timeout).then(() => this.cancel(), ...)\<close>\<close>
  | RReject pid                               \<comment> \<open>\<open>.catch(reject)\<close>\<close>
  | RTimerCancel nat pid
  | RActivityCancel nat
  | RLocalActivityCancel nat
  | RChildCancel nat
  | RSignalCancel nat
  | RExternalCancel pid
  | RConditionCancel nat pid
  | RTimeoutCallback nat                      \<comment> \<open>the callback of \<open>setTimeout\<close>\<close>
  | RForward pid                              \<comment> \<open>settle the target the same way\<close>
  | RThenConst bool pid                       \<comment> \<open>\<open>.then(() => b)\<close>\<close>
  | RConditionFinally nat pid                 \<comment> \<open>the \<open>finally\<close> block of a condition with a timeout\<close>
  | RLocalRetry nat string "jsval list" LocalActivityOptions pid
  | RLocalResume nat string "jsval list" LocalActivityOptions backoff pid
  | RChildStarting string pid                 \<comment> \<open>\<open>await execute(...)\<close> of \<open>startChild\<close>\<close>
  | RChildStarted string pid pid              \<comment> \<open>\<open>await started\<close>\<close>
  | RChildCompleted pid                       \<comment> \<open>\<open>.then(([_started, completed]) => completed)\<close>\<close>
  | RAdopt pid pid                            \<comment> \<open>resolution of a promise with a promise\<close>
  | RWorkflowDone
  | RSignalDone
  | RQueryDone string

subsection \<open>State\<close>

record scope =
  sc_cancellable :: bool
  sc_parent :: "nat option"
  sc_flag :: bool                             \<comment> \<open>\<open>#cancelRequested\<close>\<close>
  sc_promise :: pid                           \<comment> \<open>\<open>cancelRequested\<close>\<close>

datatype compl_kind = KTimer | KActivity | KChildStart | KChildComplete | KSignal | KCancel

datatype seq_kind = STimer | SActivity | SChild | SSignal | SCancel | SCondition

record signal_job =
  sj_signalName :: "string option"
  sj_input :: "payload list option"

record query_job =
  qj_queryType :: "string option"
  qj_queryId :: "string option"
  qj_arguments :: "payload list option"

datatype query_outcome = QReturn jsval | QPromise | QThrow jsval

datatype user_call =
    CallWorkflow "jsval list" pid
  | CallSignal string "jsval list" pid
  | CallTimeout nat
  | CallContinuation "wval settlement"

type_synonym 'u cond_fun = "'u \<Rightarrow> jsval + (bool \<times> 'u)"

type_synonym 'u query_fun = "'u \<Rightarrow> jsval list \<Rightarrow> query_outcome"

record 'u blocked_condition =
  c_fn :: "'u cond_fun"
  c_promise :: pid

type_synonym wheap = "(wval, reaction) heap"

record 'u act =
  heap :: wheap
  scopes :: "scope list"
  completions :: "compl_kind \<Rightarrow> (nat, pid) jsmap"
  bufferedSignals :: "signal_job list"
  bufferedQueries :: "query_job list"
  signalHandlers :: "string list"
  defaultSignalHandler :: bool
  queryHandlers :: "(string, 'u query_fun) jsmap"
  commands :: "command list"
  blockedConditions :: "(nat, 'u blocked_condition) jsmap"
  completed :: bool
  cancelled :: bool
  workflowFunctionWasCalled :: bool
  nextSeqs :: "seq_kind \<Rightarrow> nat"
  now :: jsnum
  workflow :: bool
  isReplaying :: bool
  historyLength :: nat
  infoSearchAttributes :: "(string, jsval) jsmap"
  random :: bytes
  knownPresentPatches :: "string list"
  sentPatches :: "string list"
  sinkCalls :: "(string \<times> string \<times> jsval list) list"
  unhandled :: "wval option"
  calls :: "user_call list"
  ustate :: 'u

text \<open>What the code relies on and is given: library functions, converters, workflow info.\<close>

record rt =
  lib :: "64 word libs"
  pconv :: converter
  sconv :: converter
  e2f :: "jsval \<Rightarrow> proto_failure res"
  f2e :: "proto_failure \<Rightarrow> jserror res"
  rtext :: text_env
  taskQueue :: string
  namespace :: string
  workflowType :: string
  registeredActivityNames :: "string list"

subsection \<open>Activation jobs\<close>

datatype activity_result =
    ActCompleted "payload option"
  | ActFailed "proto_failure option"
  | ActCancelled "proto_failure option"
  | ActBackoff backoff
  | ActNoStatus

datatype child_start_status =
    ChildSucceeded string
  | ChildFailed nat "string option" "string option"
  | ChildStartCancelled "proto_failure option"
  | ChildNoStatus

datatype job =
    JStartWorkflow "payload list option"
  | JFireTimer "nat option"
  | JResolveActivity "nat option" "activity_result option"
  | JResolveChildStart "nat option" child_start_status
  | JResolveChild "nat option" "activity_result option"
  | JQueryWorkflow query_job
  | JSignalWorkflow signal_job
  | JCancelWorkflow
  | JResolveSignalExternal "nat option" "proto_failure option"
  | JResolveRequestCancel "nat option" "proto_failure option"
  | JUpdateRandomSeed "bytes option"
  | JNotifyHasPatch "string option"
  | JRemoveFromCache
  | JUnset                                    \<comment> \<open>a job without its variant\<close>

subsection \<open>What user code can do\<close>

text \<open>
  One operation per API call. The first number is the current scope, \<open>CancellationScope.current()\<close>.
  The operations that dispatch buffered signals carry, for each handler called, the operations of
  the synchronous part of that handler.
\<close>

datatype 'u user_op =
    OSleep nat duration
  | OSetTimeout jsnum
  | OClearTimeout nat
  | OScheduleActivity nat string "jsval list" "ActivityOptions option"
  | OScheduleLocalActivity nat string "jsval list" "LocalActivityOptions option"
  | OStartChild nat string string "ChildWorkflowOptions option"
  | OExecuteChild nat string string "ChildWorkflowOptions option"
  | OSignalWorkflow nat string "jsval list" signal_target
  | OCancelExternal nat string "string option"
  | OCondition nat "'u \<Rightarrow> jsval + (bool \<times> 'u)" "duration option"
  | OPatched string
  | ODeprecatePatch string
  | ONewScope nat bool "jsnum option"
  | OCancelScope nat
  | ONewTrigger nat
  | OSettle pid "wval settlement"
  | OThen pid
  | OSetSignalHandler string "'u user_op list list"
  | ODeleteSignalHandler string
  | OSetQueryHandler string "'u \<Rightarrow> jsval list \<Rightarrow> query_outcome"
  | ODeleteQueryHandler string
  | OSetDefaultSignalHandler "'u user_op list list"
  | ODeleteDefaultSignalHandler
  | OUpsertSearchAttributes "(string, jsval) jsmap"
  | OSink string string "jsval list"
  | OContinueAsNew "jsval list" ContinueAsNewOptions
  | OSetState 'u

end
