(* ===== verification/Activator.thy ===== *)
theory Activator
  imports Runtime_Types
begin

text \<open>
  The Activator of packages/workflow/src/internals.ts: the command buffer, the maps of pending
  completions and the handlers of activation jobs. A handler returns the error it throws, if any,
  together with the state, since a handler that throws keeps what it did before.
\<close>

type_synonym 'u thrown = "jsval option \<times> 'u act"

subsection \<open>Promises of the state\<close>

definition on_heap :: "(wheap \<Rightarrow> wheap) \<Rightarrow> 'u act \<Rightarrow> 'u act" where
  "on_heap f a = a\<lparr>heap := f (heap a)\<rparr>"

definition alloc :: "bool \<Rightarrow> 'u act \<Rightarrow> pid \<times> 'u act" where
  "alloc own a = (length (cells (heap a)), on_heap (\<lambda>h. snd (new_promise own h)) a)"

definition resolveP :: "pid \<Rightarrow> wval \<Rightarrow> 'u act \<Rightarrow> 'u act" where
  "resolveP p v = on_heap (settle p (Resolved v))"

definition rejectP :: "pid \<Rightarrow> wval \<Rightarrow> 'u act \<Rightarrow> 'u act" where
  "rejectP p v = on_heap (settle p (Rejected v))"

definition thenP :: "pid \<Rightarrow> reaction \<Rightarrow> 'u act \<Rightarrow> 'u act" where
  "thenP p r = on_heap (then_do p r)"

definition throw_unhandled :: "wval \<Rightarrow> 'u act \<Rightarrow> 'u act" where
  "throw_unhandled e a = a\<lparr>unhandled := Some e\<rparr>"

subsection \<open>Commands and completions\<close>

fun isQueryResponse :: "command \<Rightarrow> bool" where
  "isQueryResponse (RespondToQuery _ _) = True"
| "isQueryResponse _ = False"

definition pushCommand :: "command \<Rightarrow> bool \<Rightarrow> 'u act \<Rightarrow> 'u act" where
  "pushCommand cmd final a =
     (if completed a \<and> \<not> isQueryResponse cmd then a
      else a\<lparr>commands := commands a @ [cmd], completed := completed a \<or> final\<rparr>)"

definition getAndResetCommands :: "'u act \<Rightarrow> command list \<times> 'u act" where
  "getAndResetCommands a = (commands a, a\<lparr>commands := []\<rparr>)"

definition getAndResetSinkCalls :: "'u act \<Rightarrow> (string \<times> string \<times> jsval list) list \<times> 'u act" where
  "getAndResetSinkCalls a = (sinkCalls a, a\<lparr>sinkCalls := []\<rparr>)"

definition set_completion :: "compl_kind \<Rightarrow> nat \<Rightarrow> pid \<Rightarrow> 'u act \<Rightarrow> 'u act" where
  "set_completion k seq p a = a\<lparr>completions := (completions a)(k := jset seq p (completions a k))\<rparr>"

definition del_completion :: "compl_kind \<Rightarrow> nat \<Rightarrow> 'u act \<Rightarrow> 'u act" where
  "del_completion k seq a = a\<lparr>completions := (completions a)(k := jdelete seq (completions a k))\<rparr>"

definition next_seq :: "seq_kind \<Rightarrow> 'u act \<Rightarrow> nat \<times> 'u act" where
  "next_seq k a = (nextSeqs a k, a\<lparr>nextSeqs := (nextSeqs a)(k := Suc (nextSeqs a k))\<rparr>)"

definition maybeConsumeCompletion :: "compl_kind \<Rightarrow> nat \<Rightarrow> 'u act \<Rightarrow> pid option \<times> 'u act" where
  "maybeConsumeCompletion k seq a =
     (case jget (completions a k) seq of
        None \<Rightarrow> (None, a)
      | Some p \<Rightarrow> (Some p, del_completion k seq a))"

definition consumeCompletion :: "compl_kind \<Rightarrow> nat \<Rightarrow> 'u act \<Rightarrow> pid res \<times> 'u act" where
  "consumeCompletion k seq a =
     (case maybeConsumeCompletion k seq a of
        (None, a') \<Rightarrow> (Inl (IllegalStateError (''No completion for taskSeq '' @ show_nat seq)), a')
      | (Some p, a') \<Rightarrow> (Inr p, a'))"

definition getSeq :: "nat option \<Rightarrow> nat res" where
  "getSeq s = (case s of None \<Rightarrow> Inl (TypeError ''Got activation with no seq attribute'') | Some n \<Rightarrow> Inr n)"

text \<open>\<open>const { resolve, reject } = this.consumeCompletion(kind, getSeq(activation))\<close>.\<close>

definition with_completion ::
  "compl_kind \<Rightarrow> nat option \<Rightarrow> (pid \<Rightarrow> 'u act \<Rightarrow> 'u thrown) \<Rightarrow> 'u act \<Rightarrow> 'u thrown" where
  "with_completion k s f a =
     (case getSeq s of
        Inl e \<Rightarrow> (Some e, a)
      | Inr seq \<Rightarrow>
          (case consumeCompletion k seq a of
             (Inl e, a') \<Rightarrow> (Some e, a')
           | (Inr p, a') \<Rightarrow> f p a'))"

text \<open>\<open>reject(this.failureToError(failure))\<close> and \<open>resolve(this.payloadConverter.fromPayload(result))\<close>.\<close>

definition reject_failure :: "rt \<Rightarrow> proto_failure \<Rightarrow> pid \<Rightarrow> 'u act \<Rightarrow> 'u thrown" where
  "reject_failure R f p a =
     (case f2e R f of Inl e \<Rightarrow> (Some e, a) | Inr e \<Rightarrow> (None, rejectP p (WV (JError e)) a))"

definition resolve_payload :: "rt \<Rightarrow> payload option \<Rightarrow> pid \<Rightarrow> 'u act \<Rightarrow> 'u thrown" where
  "resolve_payload R r p a =
     (case r of
        None \<Rightarrow> (None, resolveP p WUndefined a)
      | Some pl \<Rightarrow> (case fromPayload (pconv R) pl of
           Inl e \<Rightarrow> (Some e, a)
         | Inr v \<Rightarrow> (None, resolveP p (WV v) a)))"

subsection \<open>Jobs that resolve operations\<close>

definition fireTimer :: "nat option \<Rightarrow> 'u act \<Rightarrow> 'u thrown" where
  "fireTimer s a =
     (case getSeq s of
        Inl e \<Rightarrow> (Some e, a)
      | Inr seq \<Rightarrow>
          (case maybeConsumeCompletion KTimer seq a of
             (None, a') \<Rightarrow> (None, a')
           | (Some p, a') \<Rightarrow> (None, resolveP p WUndefined a')))"

fun activity_outcome :: "rt \<Rightarrow> activity_result \<Rightarrow> pid \<Rightarrow> 'u act \<Rightarrow> 'u thrown" where
  "activity_outcome R (ActCompleted r) p a = resolve_payload R r p a"
| "activity_outcome R (ActFailed f) p a =
     (case f of None \<Rightarrow> (None, rejectP p WUndefined a) | Some f \<Rightarrow> reject_failure R f p a)"
| "activity_outcome R (ActCancelled f) p a =
     (case f of None \<Rightarrow> (None, rejectP p WUndefined a) | Some f \<Rightarrow> reject_failure R f p a)"
| "activity_outcome R (ActBackoff b) p a = (None, rejectP p (WBackoff b) a)"
| "activity_outcome R ActNoStatus p a = (None, a)"

definition resolveActivity :: "rt \<Rightarrow> nat option \<Rightarrow> activity_result option \<Rightarrow> 'u act \<Rightarrow> 'u thrown" where
  "resolveActivity R s r a =
     (case r of
        None \<Rightarrow> (Some (TypeError ''Got ResolveActivity activation with no result''), a)
      | Some r \<Rightarrow> with_completion KActivity s (activity_outcome R r) a)"

definition already_started_error :: "string \<Rightarrow> string \<Rightarrow> jsval" where
  "already_started_error wid wt =
     JError (TemporalFailure (WorkflowExecutionAlreadyStartedError wid wt) ''Workflow execution already started'' [] JUndefined None)"

definition truthy_str :: "string option \<Rightarrow> bool" where
  "truthy_str s = (case s of Some t \<Rightarrow> t \<noteq> [] | None \<Rightarrow> False)"

fun child_start_outcome :: "rt \<Rightarrow> nat option \<Rightarrow> child_start_status \<Rightarrow> pid \<Rightarrow> 'u act \<Rightarrow> 'u thrown" where
  "child_start_outcome R s (ChildSucceeded runId) p a = (None, resolveP p (WV (JStr runId)) a)"
| "child_start_outcome R s (ChildFailed cause wid wt) p a =
     (if cause \<noteq> 1 then (Some (IllegalStateError ''Got unknown StartChildWorkflowExecutionFailedCause''), a)
      else if \<not> (s \<noteq> None \<and> s \<noteq> Some 0 \<and> truthy_str wid \<and> truthy_str wt)
      then (Some (TypeError ''Missing attributes in activation job''), a)
      else (None, rejectP p (WV (already_started_error (the wid) (the wt))) a))"
| "child_start_outcome R s (ChildStartCancelled f) p a =
     (case f of
        None \<Rightarrow> (Some (TypeError ''Got no failure in cancelled variant''), a)
      | Some f \<Rightarrow> reject_failure R f p a)"
| "child_start_outcome R s ChildNoStatus p a =
     (Some (TypeError ''Got ResolveChildWorkflowExecutionStart with no status''), a)"

definition resolveChildWorkflowExecutionStart ::
  "rt \<Rightarrow> nat option \<Rightarrow> child_start_status \<Rightarrow> 'u act \<Rightarrow> 'u thrown" where
  "resolveChildWorkflowExecutionStart R s st = with_completion KChildStart s (child_start_outcome R s st)"

fun child_outcome :: "rt \<Rightarrow> activity_result \<Rightarrow> pid \<Rightarrow> 'u act \<Rightarrow> 'u thrown" where
  "child_outcome R (ActCompleted r) p a = resolve_payload R r p a"
| "child_outcome R (ActFailed f) p a =
     (case f of
        None \<Rightarrow> (Some (TypeError ''Got failed result with no failure attribute''), a)
      | Some f \<Rightarrow> reject_failure R f p a)"
| "child_outcome R (ActCancelled f) p a =
     (case f of
        None \<Rightarrow> (Some (TypeError ''Got cancelled result with no failure attribute''), a)
      | Some f \<Rightarrow> reject_failure R f p a)"
| "child_outcome R (ActBackoff _) p a = (None, a)"
| "child_outcome R ActNoStatus p a = (None, a)"

definition resolveChildWorkflowExecution :: "rt \<Rightarrow> nat option \<Rightarrow> activity_result option \<Rightarrow> 'u act \<Rightarrow> 'u thrown" where
  "resolveChildWorkflowExecution R s r a =
     (case r of
        None \<Rightarrow> (Some (TypeError ''Got ResolveChildWorkflowExecution activation with no result''), a)
      | Some r \<Rightarrow> with_completion KChildComplete s (child_outcome R r) a)"

definition external_outcome :: "rt \<Rightarrow> proto_failure option \<Rightarrow> pid \<Rightarrow> 'u act \<Rightarrow> 'u thrown" where
  "external_outcome R f p a =
     (case f of None \<Rightarrow> (None, resolveP p WUndefined a) | Some f \<Rightarrow> reject_failure R f p a)"

definition resolveSignalExternalWorkflow :: "rt \<Rightarrow> nat option \<Rightarrow> proto_failure option \<Rightarrow> 'u act \<Rightarrow> 'u thrown" where
  "resolveSignalExternalWorkflow R s f = with_completion KSignal s (external_outcome R f)"

definition resolveRequestCancelExternalWorkflow ::
  "rt \<Rightarrow> nat option \<Rightarrow> proto_failure option \<Rightarrow> 'u act \<Rightarrow> 'u thrown" where
  "resolveRequestCancelExternalWorkflow R s f = with_completion KCancel s (external_outcome R f)"

subsection \<open>Completing the workflow\<close>

fun isCancellationW :: "wval \<Rightarrow> bool" where
  "isCancellationW (WV v) = isCancellation v"
| "isCancellationW _ = False"

definition handleWorkflowFailure :: "rt \<Rightarrow> wval \<Rightarrow> 'u act \<Rightarrow> 'u act" where
  "handleWorkflowFailure R err a =
     (if cancelled a \<and> isCancellationW err then pushCommand CancelWorkflowExecution True a
      else case err of
        WContinueAsNew c \<Rightarrow> pushCommand (ContinueAsNewWorkflowExecution c) True a
      | WV v \<Rightarrow>
          (if \<not> isTemporalFailure v then throw_unhandled err a
           else case e2f R v of
             Inl e \<Rightarrow> throw_unhandled (WV e) a
           | Inr f \<Rightarrow> pushCommand (FailWorkflowExecution f) True a)
      | _ \<Rightarrow> throw_unhandled err a)"

definition completeWorkflow :: "rt \<Rightarrow> wval \<Rightarrow> 'u act \<Rightarrow> 'u act" where
  "completeWorkflow R v a =
     (case toPayload (pconv R) (plain_value v) of
        Inl e \<Rightarrow> throw_unhandled (WV e) a
      | Inr p \<Rightarrow> pushCommand (CompleteWorkflowExecution p) True a)"

definition completeQuery :: "rt \<Rightarrow> string \<Rightarrow> wval \<Rightarrow> 'u act \<Rightarrow> 'u act" where
  "completeQuery R qid v a =
     (case toPayload (pconv R) (plain_value v) of
        Inl e \<Rightarrow> throw_unhandled (WV e) a
      | Inr p \<Rightarrow> pushCommand (RespondToQuery qid (QuerySucceeded p)) False a)"

definition failQuery :: "rt \<Rightarrow> string \<Rightarrow> wval \<Rightarrow> 'u act \<Rightarrow> 'u act" where
  "failQuery R qid err a =
     (case e2f R (ensureTemporalFailure (rtext R) (plain_value err)) of
        Inl e \<Rightarrow> throw_unhandled (WV e) a
      | Inr f \<Rightarrow> pushCommand (RespondToQuery qid (QueryFailed f)) False a)"

subsection \<open>Queries\<close>

fun join_with :: "string \<Rightarrow> string list \<Rightarrow> string" where
  "join_with sep [] = []"
| "join_with sep [s] = s"
| "join_with sep (s # ss) = s @ sep @ join_with sep ss"

definition queryWorkflowNextHandler :: "string \<Rightarrow> jsval list \<Rightarrow> 'u act \<Rightarrow> wval settlement" where
  "queryWorkflowNextHandler name args a =
     (case jget (queryHandlers a) name of
        None \<Rightarrow> Rejected (WV (ReferenceError (''Workflow did not register a handler for '' @ name @
           ''. Registered queries: ['' @ join_with '' '' (map fst (queryHandlers a)) @ '']'')))
      | Some fn \<Rightarrow> (case fn (ustate a) args of
           QPromise \<Rightarrow> Rejected (WV (throw_plain ''DeterminismViolationError'' ''Query handlers should not return a Promise''))
         | QReturn v \<Rightarrow> Resolved (WV v)
         | QThrow e \<Rightarrow> Rejected (WV e)))"

definition queryWorkflow :: "rt \<Rightarrow> query_job \<Rightarrow> 'u act \<Rightarrow> 'u thrown" where
  "queryWorkflow R q a =
     (if \<not> workflowFunctionWasCalled a then (None, a\<lparr>bufferedQueries := bufferedQueries a @ [q]\<rparr>)
      else case (qj_queryType q, qj_queryId q) of
        (Some ty, Some qid) \<Rightarrow>
          if ty = [] \<or> qid = [] then (Some (TypeError ''Missing query activation attributes''), a)
          else (case arrayFromPayloads (pconv R) (qj_arguments q) of
             Inl e \<Rightarrow> (Some e, a)
           | Inr args \<Rightarrow>
               (case alloc False a of (p, a1) \<Rightarrow>
                 (None, thenP p (RQueryDone qid) (on_heap (settle p (queryWorkflowNextHandler ty args a1)) a1))))
      | _ \<Rightarrow> (Some (TypeError ''Missing query activation attributes''), a))"

text \<open>The queries buffered before the workflow function was called; the first that throws ends the loop.\<close>

fun flush_queries :: "rt \<Rightarrow> query_job list \<Rightarrow> 'u act \<Rightarrow> 'u thrown" where
  "flush_queries R [] a = (None, a)"
| "flush_queries R (q # qs) a =
     (case queryWorkflow R q a of
        (Some e, a') \<Rightarrow> (Some e, a')
      | (None, a') \<Rightarrow> flush_queries R qs a')"

subsection \<open>Signals\<close>

text \<open>
  \<open>signalWorkflow\<close> up to and including the call of the handler; the synchronous part of the user's
  handler follows it. The flag says whether the handler was called.
\<close>

definition has_handler :: "string \<Rightarrow> 'u act \<Rightarrow> bool" where
  "has_handler name a \<longleftrightarrow> name \<in> set (signalHandlers a) \<or> defaultSignalHandler a"

definition signalWorkflowNextHandler :: "string \<Rightarrow> jsval list \<Rightarrow> 'u act \<Rightarrow> 'u act" where
  "signalWorkflowNextHandler name args a =
     (case alloc (has_handler name a) a of (p, a1) \<Rightarrow>
        thenP p RSignalDone
          (if has_handler name a then a1\<lparr>calls := calls a1 @ [CallSignal name args p]\<rparr>
           else rejectP p (WV (IllegalStateError (''No registered signal handler for signal '' @ name))) a1))"

definition signalWorkflow :: "rt \<Rightarrow> signal_job \<Rightarrow> 'u act \<Rightarrow> bool \<times> 'u thrown" where
  "signalWorkflow R j a =
     (case sj_signalName j of
        None \<Rightarrow> (False, Some (TypeError ''Missing activation signalName''), a)
      | Some name \<Rightarrow>
          if name = [] then (False, Some (TypeError ''Missing activation signalName''), a)
          else if \<not> has_handler name a then (False, None, a\<lparr>bufferedSignals := bufferedSignals a @ [j]\<rparr>)
          else (case arrayFromPayloads (pconv R) (sj_input j) of
             Inl e \<Rightarrow> (False, Some e, a)
           | Inr args \<Rightarrow> (True, None, signalWorkflowNextHandler name args a)))"

text \<open>The head of the buffer with a default handler, else the first signal that has a handler.\<close>

definition name_or_empty :: "signal_job \<Rightarrow> string" where
  "name_or_empty j = (case sj_signalName j of Some n \<Rightarrow> n | None \<Rightarrow> [])"

fun pick_signal :: "(signal_job \<Rightarrow> bool) \<Rightarrow> signal_job list \<Rightarrow> (signal_job \<times> signal_job list) option" where
  "pick_signal P [] = None"
| "pick_signal P (s # ss) =
     (if P s then Some (s, ss)
      else case pick_signal P ss of None \<Rightarrow> None | Some (x, rest) \<Rightarrow> Some (x, s # rest))"

definition next_signal :: "'u act \<Rightarrow> (signal_job \<times> signal_job list) option" where
  "next_signal a = pick_signal (\<lambda>s. defaultSignalHandler a \<or> name_or_empty s \<in> set (signalHandlers a)) (bufferedSignals a)"

text \<open>One round of the loop of \<open>dispatchBufferedSignals\<close>.\<close>

definition dispatch_one :: "rt \<Rightarrow> 'u act \<Rightarrow> (bool \<times> 'u thrown) option" where
  "dispatch_one R a =
     (case next_signal a of
        None \<Rightarrow> None
      | Some (s, rest) \<Rightarrow> Some (signalWorkflow R s (a\<lparr>bufferedSignals := rest\<rparr>)))"

subsection \<open>Remaining jobs\<close>

definition updateRandomSeed :: "bytes option \<Rightarrow> 'u act \<Rightarrow> 'u thrown" where
  "updateRandomSeed s a =
     (case s of
        None \<Rightarrow> (Some (TypeError ''Expected activation with randomnessSeed attribute''), a)
      | Some b \<Rightarrow> (None, a\<lparr>random := b\<rparr>))"

definition add_to_set :: "'a \<Rightarrow> 'a list \<Rightarrow> 'a list" where
  "add_to_set x xs = (if x \<in> set xs then xs else xs @ [x])"

definition notifyHasPatch :: "string option \<Rightarrow> 'u act \<Rightarrow> 'u thrown" where
  "notifyHasPatch p a =
     (if truthy_str p then (None, a\<lparr>knownPresentPatches := add_to_set (the p) (knownPresentPatches a)\<rparr>)
      else (Some (TypeError ''Notify has patch missing patch name''), a))"

definition removeFromCache :: "'u act \<Rightarrow> 'u thrown" where
  "removeFromCache a = (Some (IllegalStateError ''removeFromCache activation job should not reach workflow''), a)"

end
