(* ===== verification/Cancellation_Scopes.thy ===== *)
theory Cancellation_Scopes
  imports Activator
begin

text \<open>
  packages/workflow/src/cancellation-scope.ts and trigger.ts. A scope is an entry of the state's
  list, named by its index; the root scope has index 0. Async local storage is the number of the
  current scope that every operation of user code carries.
\<close>

text \<open>\<open>storage.getStore() ?? rootScope\<close>.\<close>

definition current_scope :: "nat \<Rightarrow> 'u act \<Rightarrow> nat" where
  "current_scope s a = (if s < length (scopes a) then s else 0)"

definition the_scope :: "nat \<Rightarrow> 'u act \<Rightarrow> scope" where
  "the_scope s a = scopes a ! current_scope s a"

definition consideredCancelled :: "scope \<Rightarrow> bool" where
  "consideredCancelled s \<longleftrightarrow> sc_flag s \<and> sc_cancellable s"

text \<open>\<open>this.reject(err)\<close>: the flag first, then the promise.\<close>

definition rejectScope :: "nat \<Rightarrow> wval \<Rightarrow> 'u act \<Rightarrow> 'u act" where
  "rejectScope s e a =
     (if s < length (scopes a)
      then rejectP (sc_promise (scopes a ! s)) e
             (a\<lparr>scopes := (scopes a)[s := (scopes a ! s)\<lparr>sc_flag := True\<rparr>]\<rparr>)
      else a)"

definition cancelScope :: "nat \<Rightarrow> 'u act \<Rightarrow> 'u act" where
  "cancelScope s =
     rejectScope s (WV (cancelled_failure (if s = 0 then ''Workflow cancelled'' else ''Cancellation scope cancelled'')))"

text \<open>The constructor of a scope with a parent; the new scope's index is returned.\<close>

definition newScope :: "nat \<Rightarrow> bool \<Rightarrow> 'u act \<Rightarrow> nat \<times> 'u act" where
  "newScope parent canc a =
     (case alloc False a of (p, a1) \<Rightarrow>
        let par = current_scope parent a; s = length (scopes a) in
        (s, thenP (sc_promise (scopes a ! par)) (RScopeReject s)
              (a1\<lparr>scopes := scopes a1 @ [\<lparr>sc_cancellable = canc, sc_parent = Some par,
                 sc_flag = sc_flag (scopes a ! par), sc_promise = p\<rparr>]\<rparr>)))"

text \<open>\<open>scope.cancelRequested.catch(...)\<close>, registered by every cancellable operation.\<close>

definition on_cancel :: "nat \<Rightarrow> reaction \<Rightarrow> 'u act \<Rightarrow> 'u act" where
  "on_cancel s r a = thenP (sc_promise (the_scope s a)) r a"

definition on_cancel_if_cancellable :: "nat \<Rightarrow> reaction \<Rightarrow> 'u act \<Rightarrow> 'u act" where
  "on_cancel_if_cancellable s r a = (if sc_cancellable (the_scope s a) then on_cancel s r a else a)"

text \<open>The constructor of \<open>Trigger\<close>.\<close>

definition newTrigger :: "nat \<Rightarrow> 'u act \<Rightarrow> pid \<times> 'u act" where
  "newTrigger s a =
     (case alloc True a of (p, a1) \<Rightarrow>
        (p, if consideredCancelled (the_scope s a1) \<or> sc_cancellable (the_scope s a1)
            then on_cancel s (RReject p) a1 else a1))"

definition cancelWorkflow :: "'u act \<Rightarrow> 'u thrown" where
  "cancelWorkflow a = (None, cancelScope 0 (a\<lparr>cancelled := True\<rparr>))"

text \<open>\<open>new Activator\<close>: one root scope, an empty buffer, sequences starting at 1.\<close>

definition initial_act :: "'u query_fun \<times> 'u query_fun \<Rightarrow> bool \<Rightarrow> bool \<Rightarrow> string list \<Rightarrow> bytes \<Rightarrow> jsnum \<Rightarrow> 'u \<Rightarrow> 'u act" where
  "initial_act stacks hasWorkflow replaying patches seed t u =
     \<lparr>heap = snd (new_promise False empty_heap),
      scopes = [\<lparr>sc_cancellable = True, sc_parent = None, sc_flag = False, sc_promise = 0\<rparr>],
      completions = (\<lambda>_. []), bufferedSignals = [], bufferedQueries = [], signalHandlers = [],
      defaultSignalHandler = False,
      queryHandlers = [(''__stack_trace'', fst stacks), (''__enhanced_stack_trace'', snd stacks)],
      commands = [], blockedConditions = [], completed = False, cancelled = False,
      workflowFunctionWasCalled = False, nextSeqs = (\<lambda>_. 1), now = t, workflow = hasWorkflow,
      isReplaying = replaying, historyLength = 0, infoSearchAttributes = [], random = seed,
      knownPresentPatches = (if replaying then fold add_to_set patches [] else []), sentPatches = [], sinkCalls = [],
      unhandled = None, calls = [], ustate = u\<rparr>"

text \<open>The constructor throws when a patch id of the creation options is empty (\<open>notifyHasPatch\<close>).\<close>

definition newActivator ::
  "'u query_fun \<times> 'u query_fun \<Rightarrow> bool \<Rightarrow> bool \<Rightarrow> string list \<Rightarrow> bytes \<Rightarrow> jsnum \<Rightarrow> 'u \<Rightarrow> 'u act res" where
  "newActivator stacks hasWorkflow replaying patches seed t u =
     (if replaying \<and> [] \<in> set patches then Inl (TypeError ''Notify has patch missing patch name'')
      else Inr (initial_act stacks hasWorkflow replaying patches seed t u))"

end
