(* ===== verification/Workflow_Api.thy ===== *)
theory Workflow_Api
  imports Cancellation_Scopes
begin

text \<open>
  packages/workflow/src/workflow.ts and the timer functions of worker-interface.ts: the operations
  user code performs. An operation that returns a promise gives its id; the errors it throws
  synchronously are results. An exception inside a \<open>new Promise\<close> executor rejects that promise.
\<close>

datatype api_result = ApiUnit | ApiPromise pid | ApiNumber nat | ApiBool bool | ApiThrow jsval

subsection \<open>Patches\<close>

definition patchInternal :: "string \<Rightarrow> bool \<Rightarrow> 'u act \<Rightarrow> bool res \<times> 'u act" where
  "patchInternal pid deprecated a =
     (if \<not> workflow a then (Inl (IllegalStateError ''Patches cannot be used before Workflow starts''), a)
      else let usePatch = (\<not> isReplaying a \<or> pid \<in> set (knownPresentPatches a)) in
        (Inr usePatch,
         if usePatch \<and> pid \<notin> set (sentPatches a)
         then (pushCommand (SetPatchMarker pid deprecated) False a)\<lparr>sentPatches := sentPatches a @ [pid]\<rparr>
         else a))"

definition EXTERNAL_WF_CANCEL_PATCH :: string where
  "EXTERNAL_WF_CANCEL_PATCH = ''__temporal_internal_connect_external_handle_cancel_to_scope''"

definition CONDITION_0_PATCH :: string where
  "CONDITION_0_PATCH = ''__sdk_internal_patch_number:1''"

subsection \<open>Timers\<close>

definition timerNextHandler :: "rt \<Rightarrow> nat \<Rightarrow> jsnum \<Rightarrow> nat \<Rightarrow> 'u act \<Rightarrow> pid \<times> 'u act" where
  "timerNextHandler R s dur seq a =
     (case alloc False a of (p, a1) \<Rightarrow>
        (p, if consideredCancelled (the_scope s a1) then on_cancel s (RReject p) a1
            else let a2 = on_cancel_if_cancellable s (RTimerCancel seq p) a1 in
              (case msToTs (lib R) (DurNum dur) of
                 Inl e \<Rightarrow> rejectP p (WV e) a2
               | Inr t \<Rightarrow> set_completion KTimer seq p (pushCommand (StartTimer seq t) False a2))))"

definition sleep :: "rt \<Rightarrow> nat \<Rightarrow> duration \<Rightarrow> 'u act \<Rightarrow> pid res \<times> 'u act" where
  "sleep R s d a =
     (case next_seq STimer a of (seq, a1) \<Rightarrow>
       (case msToNumber (lib R) d of
          Inl e \<Rightarrow> (Inl e, a1)
        | Inr n \<Rightarrow> (case timerNextHandler R s (js_max_with 1 n) seq a1 of (p, a2) \<Rightarrow> (Inr p, a2))))"

definition setTimeout :: "rt \<Rightarrow> jsnum \<Rightarrow> 'u act \<Rightarrow> nat \<times> 'u act" where
  "setTimeout R dur a =
     (case next_seq STimer a of (seq, a1) \<Rightarrow>
       (case alloc False a1 of (p, a2) \<Rightarrow>
          let a3 = set_completion KTimer seq p a2;
              a4 = (case msToTs (lib R) (DurNum (js_max_with 1 dur)) of
                      Inl e \<Rightarrow> rejectP p (WV e) a3
                    | Inr t \<Rightarrow> pushCommand (StartTimer seq t) False a3)
          in (seq, thenP p (RTimeoutCallback seq) a4)))"

definition clearTimeout :: "nat \<Rightarrow> 'u act \<Rightarrow> 'u act" where
  "clearTimeout handle a = pushCommand (CancelTimer handle) False (del_completion KTimer handle (snd (next_seq STimer a)))"

subsection \<open>Activities\<close>

definition validateTimeouts :: "duration option \<Rightarrow> duration option \<Rightarrow> unit res" where
  "validateTimeouts scheduleToClose startToClose =
     (if scheduleToClose = None \<and> startToClose = None
      then Inl (TypeError ''Required either scheduleToCloseTimeout or startToCloseTimeout'') else Inr ())"

definition validateActivityOptions :: "ActivityOptions \<Rightarrow> unit res" where
  "validateActivityOptions opts = validateTimeouts (ao_scheduleToCloseTimeout opts) (ao_startToCloseTimeout opts)"

definition validateLocalActivityOptions :: "LocalActivityOptions \<Rightarrow> unit res" where
  "validateLocalActivityOptions opts = validateTimeouts (lo_scheduleToCloseTimeout opts) (lo_startToCloseTimeout opts)"

fun versioningIntentToProto :: "VersioningIntent option \<Rightarrow> proto_intent" where
  "versioningIntentToProto (Some DEFAULT) = INTENT_DEFAULT"
| "versioningIntentToProto (Some COMPATIBLE) = INTENT_COMPATIBLE"
| "versioningIntentToProto None = INTENT_UNSPECIFIED"

definition retry_or_undefined :: "rt \<Rightarrow> retry_policy option \<Rightarrow> 64 word proto_retry_policy option res" where
  "retry_or_undefined R r =
     (case r of None \<Rightarrow> Inr None | Some p \<Rightarrow> and_then (compileRetryPolicy (lib R) p) (\<lambda>q. Inr (Some q)))"

definition or_default :: "string option \<Rightarrow> string \<Rightarrow> string" where
  "or_default s d = (case s of Some t \<Rightarrow> if t = [] then d else t | None \<Rightarrow> d)"

definition activity_command :: "rt \<Rightarrow> nat \<Rightarrow> string \<Rightarrow> jsval list \<Rightarrow> ActivityOptions \<Rightarrow> activity_attrs res" where
  "activity_command R seq ty args opts =
     and_then (toPayloads (pconv R) args) (\<lambda>pls.
     and_then (retry_or_undefined R (ao_retry opts)) (\<lambda>rp.
     and_then (msOptionalToTs (lib R) (ao_heartbeatTimeout opts)) (\<lambda>hb.
     and_then (msOptionalToTs (lib R) (ao_scheduleToCloseTimeout opts)) (\<lambda>s2c.
     and_then (msOptionalToTs (lib R) (ao_startToCloseTimeout opts)) (\<lambda>st2c.
     and_then (msOptionalToTs (lib R) (ao_scheduleToStartTimeout opts)) (\<lambda>s2s.
       Inr \<lparr>aa_activityId = (case ao_activityId opts of Some i \<Rightarrow> i | None \<Rightarrow> show_nat seq),
            aa_activityType = ty, aa_arguments = pls, aa_retryPolicy = rp,
            aa_taskQueue = or_default (ao_taskQueue opts) (taskQueue R),
            aa_heartbeatTimeout = hb, aa_scheduleToCloseTimeout = s2c,
            aa_startToCloseTimeout = st2c, aa_scheduleToStartTimeout = s2s,
            aa_cancellationType = ao_cancellationType opts,
            aa_doNotEagerlyExecute = (\<not> (case ao_allowEagerDispatch opts of Some b \<Rightarrow> b | None \<Rightarrow> True)),
            aa_versioningIntent = versioningIntentToProto (ao_versioningIntent opts)\<rparr>))))))"

definition scheduleActivityNextHandler ::
  "rt \<Rightarrow> nat \<Rightarrow> ActivityOptions \<Rightarrow> jsval list \<Rightarrow> nat \<Rightarrow> string \<Rightarrow> 'u act \<Rightarrow> pid res \<times> 'u act" where
  "scheduleActivityNextHandler R s opts args seq ty a =
     (case validateActivityOptions opts of
        Inl e \<Rightarrow> (Inl e, a)
      | Inr _ \<Rightarrow> (case alloc False a of (p, a1) \<Rightarrow>
          (Inr p, if consideredCancelled (the_scope s a1) then on_cancel s (RReject p) a1
             else let a2 = on_cancel_if_cancellable s (RActivityCancel seq) a1 in
               (case activity_command R seq ty args opts of
                  Inl e \<Rightarrow> rejectP p (WV e) a2
                | Inr c \<Rightarrow> set_completion KActivity seq p (pushCommand (ScheduleActivity seq c) False a2)))))"

definition scheduleActivity ::
  "rt \<Rightarrow> nat \<Rightarrow> string \<Rightarrow> jsval list \<Rightarrow> ActivityOptions option \<Rightarrow> 'u act \<Rightarrow> pid res \<times> 'u act" where
  "scheduleActivity R s ty args opts a =
     (case opts of
        None \<Rightarrow> (Inl (TypeError ''Got empty activity options''), a)
      | Some opts \<Rightarrow> (case next_seq SActivity a of (seq, a1) \<Rightarrow>
          scheduleActivityNextHandler R s opts args seq ty a1))"

definition local_activity_command ::
  "rt \<Rightarrow> nat \<Rightarrow> string \<Rightarrow> jsval list \<Rightarrow> LocalActivityOptions \<Rightarrow> jsnum \<Rightarrow> tstamp option \<Rightarrow> local_activity_attrs res" where
  "local_activity_command R seq ty args opts attempt orig =
     and_then (toPayloads (pconv R) args) (\<lambda>pls.
     and_then (retry_or_undefined R (lo_retry opts)) (\<lambda>rp.
     and_then (msOptionalToTs (lib R) (lo_scheduleToCloseTimeout opts)) (\<lambda>s2c.
     and_then (msOptionalToTs (lib R) (lo_startToCloseTimeout opts)) (\<lambda>st2c.
     and_then (msOptionalToTs (lib R) (lo_scheduleToStartTimeout opts)) (\<lambda>s2s.
     and_then (msOptionalToTs (lib R) (lo_localRetryThreshold opts)) (\<lambda>thr.
       Inr \<lparr>la_attempt = attempt, la_originalScheduleTime = orig, la_activityId = show_nat seq,
            la_activityType = ty, la_arguments = pls, la_retryPolicy = rp,
            la_scheduleToCloseTimeout = s2c, la_startToCloseTimeout = st2c,
            la_scheduleToStartTimeout = s2s, la_localRetryThreshold = thr,
            la_cancellationType = lo_cancellationType opts\<rparr>))))))"

definition scheduleLocalActivityNextHandler ::
  "rt \<Rightarrow> nat \<Rightarrow> LocalActivityOptions \<Rightarrow> jsval list \<Rightarrow> nat \<Rightarrow> string \<Rightarrow> jsnum \<Rightarrow> tstamp option \<Rightarrow> 'u act \<Rightarrow> pid \<times> 'u act" where
  "scheduleLocalActivityNextHandler R s opts args seq ty attempt orig a =
     (case alloc False a of (p, a1) \<Rightarrow>
       (p, if \<not> isReplaying a \<and> ty \<notin> set (registeredActivityNames R)
           then rejectP p (WV (ReferenceError (''Local activity of type '' @ [CHR 0x27] @ ty @ [CHR 0x27] @ '' not registered on worker''))) a1
           else case validateLocalActivityOptions opts of
             Inl e \<Rightarrow> rejectP p (WV e) a1
           | Inr _ \<Rightarrow>
               if consideredCancelled (the_scope s a1) then on_cancel s (RReject p) a1
               else let a2 = on_cancel_if_cancellable s (RLocalActivityCancel seq) a1 in
                 (case local_activity_command R seq ty args opts attempt orig of
                    Inl e \<Rightarrow> rejectP p (WV e) a2
                  | Inr c \<Rightarrow> set_completion KActivity seq p (pushCommand (ScheduleLocalActivity seq c) False a2))))"

text \<open>One round of the loop of \<open>scheduleLocalActivity\<close>; \<open>q\<close> is the promise of the whole call.\<close>

definition local_activity_round ::
  "rt \<Rightarrow> nat \<Rightarrow> string \<Rightarrow> jsval list \<Rightarrow> LocalActivityOptions \<Rightarrow> jsnum \<Rightarrow> tstamp option \<Rightarrow> pid \<Rightarrow> 'u act \<Rightarrow> 'u act" where
  "local_activity_round R s ty args opts attempt orig q a =
     (case next_seq SActivity a of (seq, a1) \<Rightarrow>
       (case scheduleLocalActivityNextHandler R s opts args seq ty attempt orig a1 of (p, a2) \<Rightarrow>
          thenP p (RLocalRetry s ty args opts q) a2))"

definition scheduleLocalActivity ::
  "rt \<Rightarrow> nat \<Rightarrow> string \<Rightarrow> jsval list \<Rightarrow> LocalActivityOptions option \<Rightarrow> 'u act \<Rightarrow> pid \<times> 'u act" where
  "scheduleLocalActivity R s ty args opts a =
     (case alloc False a of (q, a1) \<Rightarrow>
        (q, case opts of
              None \<Rightarrow> rejectP q (WV (TypeError ''Got empty activity options'')) a1
            | Some opts \<Rightarrow> local_activity_round R s ty args opts (Fin 1) None q a1))"

text \<open>The \<open>catch\<close> clause of the loop: a backoff sleeps, any other outcome is the call's.\<close>

definition local_retry :: "rt \<Rightarrow> nat \<Rightarrow> string \<Rightarrow> jsval list \<Rightarrow> LocalActivityOptions \<Rightarrow> pid \<Rightarrow> wval settlement \<Rightarrow> 'u act \<Rightarrow> 'u act" where
  "local_retry R s ty args opts q st a =
     (case st of
        Rejected (WBackoff b) \<Rightarrow>
          (case tsToMs (lib R) (bo_duration b) of
             Inl e \<Rightarrow> rejectP q (WV e) a
           | Inr n \<Rightarrow>
               (case sleep R s (DurNum n) a of
                  (Inl e, a1) \<Rightarrow> rejectP q (WV e) a1
                | (Inr p, a1) \<Rightarrow> thenP p (RLocalResume s ty args opts b q) a1))
      | _ \<Rightarrow> on_heap (settle q st) a)"

definition local_resume ::
  "rt \<Rightarrow> nat \<Rightarrow> string \<Rightarrow> jsval list \<Rightarrow> LocalActivityOptions \<Rightarrow> backoff \<Rightarrow> pid \<Rightarrow> wval settlement \<Rightarrow> 'u act \<Rightarrow> 'u act" where
  "local_resume R s ty args opts b q st a =
     (case st of
        Rejected e \<Rightarrow> rejectP q e a
      | Resolved _ \<Rightarrow>
          (case bo_attempt b of
             None \<Rightarrow> rejectP q (WV (TypeError ''Invalid backoff attempt type'')) a
           | Some n \<Rightarrow> local_activity_round R s ty args opts n (bo_originalScheduleTime b) q a))"

subsection \<open>Child workflows\<close>

text \<open>\<open>addDefaultWorkflowOptions\<close>; the fresh id is the \<open>uuid4()\<close> of the call.\<close>

definition addDefaultWorkflowOptions :: "string \<Rightarrow> ChildWorkflowOptions \<Rightarrow> ChildWorkflowOptions" where
  "addDefaultWorkflowOptions uuid opts = opts\<lparr>
     co_workflowId := Some (case co_workflowId opts of Some w \<Rightarrow> w | None \<Rightarrow> uuid),
     co_args := Some (case co_args opts of Some xs \<Rightarrow> xs | None \<Rightarrow> []),
     co_cancellationType := Some (case co_cancellationType opts of Some c \<Rightarrow> c | None \<Rightarrow> 2)\<rparr>"

definition opt_payloads :: "converter \<Rightarrow> (string, jsval) jsmap option \<Rightarrow> (string, payload) jsmap option res" where
  "opt_payloads conv m = (case m of None \<Rightarrow> Inr None | Some m \<Rightarrow> and_then (mapToPayloads conv m) (\<lambda>r. Inr (Some r)))"

definition child_command :: "rt \<Rightarrow> string \<Rightarrow> ChildWorkflowOptions \<Rightarrow> child_attrs res" where
  "child_command R ty opts =
     and_then (toPayloads (pconv R) (the (co_args opts))) (\<lambda>input.
     and_then (retry_or_undefined R (co_retry opts)) (\<lambda>rp.
     and_then (msOptionalToTs (lib R) (co_workflowExecutionTimeout opts)) (\<lambda>wet.
     and_then (msOptionalToTs (lib R) (co_workflowRunTimeout opts)) (\<lambda>wrt.
     and_then (msOptionalToTs (lib R) (co_workflowTaskTimeout opts)) (\<lambda>wtt.
     and_then (opt_payloads (sconv R) (co_searchAttributes opts)) (\<lambda>sa.
     and_then (opt_payloads (pconv R) (co_memo opts)) (\<lambda>memo.
       Inr \<lparr>ca_workflowId = the (co_workflowId opts), ca_workflowType = ty, ca_input = input,
            ca_retryPolicy = rp, ca_taskQueue = or_default (co_taskQueue opts) (taskQueue R),
            ca_workflowExecutionTimeout = wet, ca_workflowRunTimeout = wrt, ca_workflowTaskTimeout = wtt,
            ca_namespace = namespace R, ca_cancellationType = co_cancellationType opts,
            ca_workflowIdReusePolicy = co_workflowIdReusePolicy opts,
            ca_parentClosePolicy = co_parentClosePolicy opts, ca_cronSchedule = co_cronSchedule opts,
            ca_searchAttributes = sa, ca_memo = memo,
            ca_versioningIntent = versioningIntentToProto (co_versioningIntent opts)\<rparr>)))))))"

text \<open>The executor of the start promise, then the promise of the completion and the pair of both.\<close>

definition child_start_executor :: "rt \<Rightarrow> nat \<Rightarrow> string \<Rightarrow> ChildWorkflowOptions \<Rightarrow> nat \<Rightarrow> pid \<Rightarrow> 'u act \<Rightarrow> 'u act" where
  "child_start_executor R s ty opts seq p a =
     (if consideredCancelled (the_scope s a) then on_cancel s (RReject p) a
      else let a1 = on_cancel_if_cancellable s (RChildCancel seq) a in
        (case child_command R ty opts of
           Inl e \<Rightarrow> rejectP p (WV e) a1
         | Inr c \<Rightarrow> set_completion KChildStart seq p (pushCommand (StartChildWorkflowExecution seq c) False a1)))"

definition startChildWorkflowExecutionNextHandler ::
  "rt \<Rightarrow> nat \<Rightarrow> string \<Rightarrow> ChildWorkflowOptions \<Rightarrow> nat \<Rightarrow> 'u act \<Rightarrow> pid \<times> 'u act" where
  "startChildWorkflowExecutionNextHandler R s ty opts seq a =
     (case alloc False a of (started, a1) \<Rightarrow>
     (case alloc False (child_start_executor R s ty opts seq started a1) of (complete_p, a2) \<Rightarrow>
     (case alloc False (set_completion KChildComplete seq complete_p (thenP started (RReject complete_p) a2)) of
        (ret, a3) \<Rightarrow> (ret, resolveP ret (WChildPromises started complete_p) a3))))"

definition startChild :: "rt \<Rightarrow> nat \<Rightarrow> string \<Rightarrow> string \<Rightarrow> ChildWorkflowOptions \<Rightarrow> 'u act \<Rightarrow> pid \<times> 'u act" where
  "startChild R s ty uuid opts a =
     (let opt = addDefaultWorkflowOptions uuid opts in
      (case alloc False a of (q, a1) \<Rightarrow>
      (case next_seq SChild a1 of (seq, a2) \<Rightarrow>
      (case startChildWorkflowExecutionNextHandler R s ty opt seq a2 of (ret, a3) \<Rightarrow>
         (q, thenP ret (RChildStarting (the (co_workflowId opt)) q) a3)))))"

definition executeChild :: "rt \<Rightarrow> nat \<Rightarrow> string \<Rightarrow> string \<Rightarrow> ChildWorkflowOptions \<Rightarrow> 'u act \<Rightarrow> pid \<times> 'u act" where
  "executeChild R s ty uuid opts a =
     (let opt = addDefaultWorkflowOptions uuid opts in
      (case alloc False a of (q, a1) \<Rightarrow>
      (case next_seq SChild a1 of (seq, a2) \<Rightarrow>
      (case startChildWorkflowExecutionNextHandler R s ty opt seq a2 of (ret, a3) \<Rightarrow>
         (q, thenP ret (RChildCompleted q) a3)))))"

subsection \<open>Signals and external workflows\<close>

definition signalWorkflowNextHandlerOut ::
  "rt \<Rightarrow> nat \<Rightarrow> nat \<Rightarrow> string \<Rightarrow> jsval list \<Rightarrow> signal_target \<Rightarrow> 'u act \<Rightarrow> pid \<times> 'u act" where
  "signalWorkflowNextHandlerOut R s seq name args target a =
     (case alloc False a of (p, a1) \<Rightarrow>
        (p, if consideredCancelled (the_scope s a1) then on_cancel s (RReject p) a1
            else let a2 = on_cancel_if_cancellable s (RSignalCancel seq) a1 in
              (case toPayloads (pconv R) args of
                 Inl e \<Rightarrow> rejectP p (WV e) a2
               | Inr pls \<Rightarrow> set_completion KSignal seq p
                   (pushCommand (SignalExternalWorkflowExecution seq name pls target) False a2))))"

definition signalWorkflowOut :: "rt \<Rightarrow> nat \<Rightarrow> string \<Rightarrow> jsval list \<Rightarrow> signal_target \<Rightarrow> 'u act \<Rightarrow> pid \<times> 'u act" where
  "signalWorkflowOut R s name args target a =
     (case next_seq SSignal a of (seq, a1) \<Rightarrow> signalWorkflowNextHandlerOut R s seq name args target a1)"

text \<open>\<open>cancel()\<close> of an external handle: the patch decides whether the scope's cancellation counts.\<close>

definition request_cancel_external :: "rt \<Rightarrow> string \<Rightarrow> string option \<Rightarrow> pid \<Rightarrow> 'u act \<Rightarrow> 'u act" where
  "request_cancel_external R wid rid p a =
     (case next_seq SCancel a of (seq, a1) \<Rightarrow>
        set_completion KCancel seq p
          (pushCommand (RequestCancelExternalWorkflowExecution seq (namespace R) wid rid) False a1))"

definition cancelExternal :: "rt \<Rightarrow> nat \<Rightarrow> string \<Rightarrow> string option \<Rightarrow> 'u act \<Rightarrow> pid \<times> 'u act" where
  "cancelExternal R s wid rid a =
     (case alloc False a of (p, a1) \<Rightarrow>
        (p, let a2 = on_cancel_if_cancellable s (RExternalCancel p) a1 in
            if consideredCancelled (the_scope s a2)
            then (case patchInternal EXTERNAL_WF_CANCEL_PATCH False a2 of
                    (Inl e, a3) \<Rightarrow> rejectP p (WV e) a3
                  | (Inr True, a3) \<Rightarrow> a3
                  | (Inr False, a3) \<Rightarrow> request_cancel_external R wid rid p a3)
            else request_cancel_external R wid rid p a2))"

definition external_cancel_reaction :: "pid \<Rightarrow> wval \<Rightarrow> 'u act \<Rightarrow> 'u act" where
  "external_cancel_reaction p e a =
     (case patchInternal EXTERNAL_WF_CANCEL_PATCH False a of
        (Inl err, a1) \<Rightarrow> throw_unhandled (WV err) a1
      | (Inr True, a1) \<Rightarrow> rejectP p e a1
      | (Inr False, a1) \<Rightarrow> a1)"

subsection \<open>Conditions\<close>

definition conditionInner :: "nat \<Rightarrow> 'u cond_fun \<Rightarrow> 'u act \<Rightarrow> pid \<times> 'u act" where
  "conditionInner s fn a =
     (case alloc False a of (p, a1) \<Rightarrow>
        (p, if consideredCancelled (the_scope s a1) then on_cancel s (RReject p) a1
            else (case next_seq SCondition a1 of (seq, a2) \<Rightarrow>
              let a3 = on_cancel_if_cancellable s (RConditionCancel seq p) a2 in
              (case fn (ustate a3) of
                 Inl e \<Rightarrow> rejectP p (WV e) a3
               | Inr (b, u) \<Rightarrow>
                   if b then resolveP p WUndefined (a3\<lparr>ustate := u\<rparr>)
                   else (a3\<lparr>ustate := u\<rparr>)\<lparr>blockedConditions := jset seq \<lparr>c_fn = fn, c_promise = p\<rparr> (blockedConditions a3)\<rparr>))))"

text \<open>The condition with a timeout: a cancellable scope, the race of the timer with the condition,
  and the \<open>finally\<close> block that cancels the scope.\<close>

definition conditionWithTimeout :: "rt \<Rightarrow> nat \<Rightarrow> 'u cond_fun \<Rightarrow> duration \<Rightarrow> 'u act \<Rightarrow> pid \<times> 'u act" where
  "conditionWithTimeout R s fn timeout a =
     (case alloc False a of (q, a1) \<Rightarrow>
     (case newScope s True a1 of (s', a2) \<Rightarrow>
     (case sleep R s' timeout a2 of
        (Inl e, a3) \<Rightarrow> (q, rejectP q (WV e) (cancelScope s' a3))
      | (Inr sp, a3) \<Rightarrow>
          (case alloc False a3 of (d1, a4) \<Rightarrow>
          (case conditionInner s' fn (thenP sp (RThenConst False d1) a4) of (cp, a5) \<Rightarrow>
          (case alloc False a5 of (d2, a6) \<Rightarrow>
          (case alloc False (thenP cp (RThenConst True d2) a6) of (race, a7) \<Rightarrow>
             (q, thenP race (RConditionFinally s' q)
                   (thenP d2 (RForward race) (thenP d1 (RForward race) a7))))))))))"

definition condition :: "rt \<Rightarrow> nat \<Rightarrow> 'u cond_fun \<Rightarrow> duration option \<Rightarrow> 'u act \<Rightarrow> pid \<times> 'u act" where
  "condition R s fn timeout a =
     (case timeout of
        None \<Rightarrow> conditionInner s fn a
      | Some t \<Rightarrow>
          if t = DurNum (Fin 0)
          then (case patchInternal CONDITION_0_PATCH False a of
                  (Inl e, a1) \<Rightarrow> (case alloc False a1 of (q, a2) \<Rightarrow> (q, rejectP q (WV e) a2))
                | (Inr False, a1) \<Rightarrow> conditionInner s fn a1
                | (Inr True, a1) \<Rightarrow> conditionWithTimeout R s fn t a1)
          else conditionWithTimeout R s fn t a)"

subsection \<open>Search attributes, sinks, continue-as-new\<close>

definition upsertSearchAttributes :: "rt \<Rightarrow> (string, jsval) jsmap \<Rightarrow> 'u act \<Rightarrow> 'u thrown" where
  "upsertSearchAttributes R attrs a =
     (case mapToPayloads (sconv R) attrs of
        Inl e \<Rightarrow> (Some e, a)
      | Inr m \<Rightarrow> (None, (pushCommand (UpsertWorkflowSearchAttributes m) False a)
          \<lparr>infoSearchAttributes := fold (\<lambda>(k, v). jset k v) attrs (infoSearchAttributes a)\<rparr>))"

definition sink_call :: "string \<Rightarrow> string \<Rightarrow> jsval list \<Rightarrow> 'u act \<Rightarrow> 'u act" where
  "sink_call iface fn args a = a\<lparr>sinkCalls := sinkCalls a @ [(iface, fn, args)]\<rparr>"

definition continue_as_new_command :: "rt \<Rightarrow> jsval list \<Rightarrow> ContinueAsNewOptions \<Rightarrow> can_attrs res" where
  "continue_as_new_command R args opts =
     and_then (toPayloads (pconv R) args) (\<lambda>pls.
     and_then (opt_payloads (pconv R) (cao_memo opts)) (\<lambda>memo.
     and_then (opt_payloads (sconv R) (cao_searchAttributes opts)) (\<lambda>sa.
     and_then (msOptionalToTs (lib R) (cao_workflowRunTimeout opts)) (\<lambda>wrt.
     and_then (msOptionalToTs (lib R) (cao_workflowTaskTimeout opts)) (\<lambda>wtt.
       Inr \<lparr>na_workflowType = (case cao_workflowType opts of Some t \<Rightarrow> t | None \<Rightarrow> workflowType R),
            na_arguments = pls,
            na_taskQueue = (case cao_taskQueue opts of Some t \<Rightarrow> t | None \<Rightarrow> taskQueue R),
            na_memo = memo, na_searchAttributes = sa,
            na_workflowRunTimeout = wrt, na_workflowTaskTimeout = wtt,
            na_versioningIntent = versioningIntentToProto (cao_versioningIntent opts)\<rparr>)))))"

definition continueAsNew :: "rt \<Rightarrow> jsval list \<Rightarrow> ContinueAsNewOptions \<Rightarrow> 'u act \<Rightarrow> pid \<times> 'u act" where
  "continueAsNew R args opts a =
     (case alloc False a of (p, a1) \<Rightarrow>
        (p, rejectP p (case continue_as_new_command R args opts of Inl e \<Rightarrow> WV e | Inr c \<Rightarrow> WContinueAsNew c) a1))"

end
