(* ===== verification/Workflow_Runtime.thy ===== *)
theory Workflow_Runtime
  imports Workflow_Api
begin

text \<open>
  The runtime as a whole: the reactions that settle promises trigger, the loop that unblocks
  conditions, the operations of user code, the dispatch of buffered signals, the jobs of an
  activation (worker-interface.ts \<open>activate\<close>) and the calls the worker makes into the workflow
  context (packages/worker/src/workflow/vm-shared.ts).
\<close>

subsection \<open>Reactions\<close>

definition cancel_pending :: "compl_kind \<Rightarrow> nat \<Rightarrow> command \<Rightarrow> 'u act \<Rightarrow> 'u act" where
  "cancel_pending k seq cmd a = (if jhas (completions a k) seq then pushCommand cmd False a else a)"

definition timer_cancel :: "nat \<Rightarrow> pid \<Rightarrow> wval \<Rightarrow> 'u act \<Rightarrow> 'u act" where
  "timer_cancel seq p e a =
     (if jhas (completions a KTimer) seq
      then rejectP p e (pushCommand (CancelTimer seq) False (del_completion KTimer seq a))
      else a)"

definition condition_cancel :: "nat \<Rightarrow> pid \<Rightarrow> wval \<Rightarrow> 'u act \<Rightarrow> 'u act" where
  "condition_cancel seq p e a = rejectP p e (a\<lparr>blockedConditions := jdelete seq (blockedConditions a)\<rparr>)"

text \<open>Handlers passed to \<open>catch\<close> only run on a rejection.\<close>

definition on_rejected :: "wval settlement \<Rightarrow> (wval \<Rightarrow> 'u act \<Rightarrow> 'u act) \<Rightarrow> 'u act \<Rightarrow> 'u act" where
  "on_rejected st f a = (case st of Rejected e \<Rightarrow> f e a | Resolved _ \<Rightarrow> a)"

fun run_reaction :: "rt \<Rightarrow> reaction \<Rightarrow> wval settlement \<Rightarrow> 'u act \<Rightarrow> 'u act" where
  "run_reaction R RUser st a = a\<lparr>calls := calls a @ [CallContinuation st]\<rparr>"
| "run_reaction R (RScopeReject s) st a = on_rejected st (rejectScope s) a"
| "run_reaction R (RScopeTimeout s) st a = (case st of Resolved _ \<Rightarrow> cancelScope s a | Rejected _ \<Rightarrow> a)"
| "run_reaction R (RReject p) st a = on_rejected st (rejectP p) a"
| "run_reaction R (RTimerCancel seq p) st a = on_rejected st (timer_cancel seq p) a"
| "run_reaction R (RActivityCancel seq) st a =
     on_rejected st (\<lambda>_. cancel_pending KActivity seq (RequestCancelActivity seq)) a"
| "run_reaction R (RLocalActivityCancel seq) st a =
     on_rejected st (\<lambda>_. cancel_pending KActivity seq (RequestCancelLocalActivity seq)) a"
| "run_reaction R (RChildCancel seq) st a =
     on_rejected st (\<lambda>_. cancel_pending KChildComplete seq (CancelChildWorkflowExecution seq)) a"
| "run_reaction R (RSignalCancel seq) st a =
     on_rejected st (\<lambda>_. cancel_pending KSignal seq (CancelSignalWorkflow seq)) a"
| "run_reaction R (RExternalCancel p) st a = on_rejected st (external_cancel_reaction p) a"
| "run_reaction R (RConditionCancel seq p) st a = on_rejected st (condition_cancel seq p) a"
| "run_reaction R (RTimeoutCallback seq) st a =
     (case st of Resolved _ \<Rightarrow> a\<lparr>calls := calls a @ [CallTimeout seq]\<rparr> | Rejected _ \<Rightarrow> a)"
| "run_reaction R (RForward p) st a = on_heap (settle p st) a"
| "run_reaction R (RThenConst b p) st a =
     (case st of Resolved _ \<Rightarrow> resolveP p (WV (JBool b)) a | Rejected e \<Rightarrow> rejectP p e a)"
| "run_reaction R (RConditionFinally s p) st a = on_heap (settle p st) (cancelScope s a)"
| "run_reaction R (RLocalRetry s ty args opts q) st a = local_retry R s ty args opts q st a"
| "run_reaction R (RLocalResume s ty args opts b q) st a = local_resume R s ty args opts b q st a"
| "run_reaction R (RChildStarting wid q) st a =
     (case st of
        Resolved (WChildPromises started c) \<Rightarrow> thenP started (RChildStarted wid c q) a
      | _ \<Rightarrow> on_heap (settle q st) a)"
| "run_reaction R (RChildStarted wid c q) st a =
     (case st of Resolved v \<Rightarrow> resolveP q (WChildHandle wid v c) a | Rejected e \<Rightarrow> rejectP q e a)"
| "run_reaction R (RChildCompleted q) st a =
     (case st of
        Resolved (WChildPromises started c) \<Rightarrow>
          on_heap (\<lambda>h. h\<lparr>microtasks := microtasks h @ [(RAdopt c q, Resolved WUndefined)]\<rparr>) a
      | _ \<Rightarrow> on_heap (settle q st) a)"
| "run_reaction R (RAdopt c q) st a = thenP c (RForward q) a"
| "run_reaction R RWorkflowDone st a =
     (case st of Resolved v \<Rightarrow> completeWorkflow R v a | Rejected e \<Rightarrow> handleWorkflowFailure R e a)"
| "run_reaction R RSignalDone st a = on_rejected st (handleWorkflowFailure R) a"
| "run_reaction R (RQueryDone qid) st a =
     (case st of Resolved v \<Rightarrow> completeQuery R qid v a | Rejected e \<Rightarrow> failQuery R qid e a)"

subsection \<open>Unblocking conditions\<close>

text \<open>
  One iteration over \<open>blockedConditions.entries()\<close>. Conditions only enter the map through the
  API, which a condition function does not call, so the entries are those at the start. A function
  that throws ends the loop with its error.
\<close>

fun unblock_pass :: "(nat \<times> 'u blocked_condition) list \<Rightarrow> 'u act \<Rightarrow> nat res \<times> 'u act" where
  "unblock_pass [] a = (Inr 0, a)"
| "unblock_pass ((seq, c) # cs) a =
     (case c_fn c (ustate a) of
        Inl e \<Rightarrow> (Inl e, a)
      | Inr (b, u) \<Rightarrow>
          if b then
            (case unblock_pass cs ((resolveP (c_promise c) WUndefined (a\<lparr>ustate := u\<rparr>))
                                     \<lparr>blockedConditions := jdelete seq (blockedConditions a)\<rparr>) of
               (Inl e, a') \<Rightarrow> (Inl e, a')
             | (Inr n, a') \<Rightarrow> (Inr (Suc n), a'))
          else unblock_pass cs (a\<lparr>ustate := u\<rparr>))"

lemma unblock_pass_blocked:
  "unblock_pass cs a = (r, a') \<Longrightarrow> \<exists>P. blockedConditions a' = filter P (blockedConditions a)"
proof (induction cs a arbitrary: r a' rule: unblock_pass.induct)
  case (1 a)
  then show ?case by (auto intro: exI [of _ "\<lambda>_. True"])
next
  case (2 seq c cs a)
  show ?case
  proof (cases "c_fn c (ustate a)")
    case (Inl e)
    with 2 show ?thesis by (auto intro: exI [of _ "\<lambda>_. True"])
  next
    case (Inr x)
    obtain b u where x: "x = (b, u)" by (cases x)
    show ?thesis
    proof (cases b)
      case False
      with 2 Inr x show ?thesis by fastforce
    next
      case True
      let ?a = "(resolveP (c_promise c) WUndefined (a\<lparr>ustate := u\<rparr>))\<lparr>blockedConditions := jdelete seq (blockedConditions a)\<rparr>"
      obtain r' where p: "unblock_pass cs ?a = (r', a')"
        using 2(3) Inr x True by (auto split: prod.splits sum.splits)
      from 2(1) [OF Inr x [symmetric] True p] obtain P where "blockedConditions a' = filter P (jdelete seq (blockedConditions a))"
        by auto
      then show ?thesis by (auto simp: jdelete_def filter_filter)
    qed
  qed
qed

lemma jdelete_shorter: "(k, v) \<in> set m \<Longrightarrow> length (jdelete k m) < length m"
  unfolding jdelete_def by (rule length_filter_less [of "(k, v)"]) simp_all

lemma unblock_pass_shrinks:
  "unblock_pass cs a = (Inr (Suc n), a') \<Longrightarrow> set cs \<subseteq> set (blockedConditions a) \<Longrightarrow>
   length (blockedConditions a') < length (blockedConditions a)"
proof (induction cs a arbitrary: n a' rule: unblock_pass.induct)
  case (2 seq c cs a)
  obtain b u where fn: "c_fn c (ustate a) = Inr (b, u)"
    using "2.prems"(1) by (cases "c_fn c (ustate a)") (auto split: prod.splits)
  show ?case
  proof (cases b)
    case False
    with "2.prems" fn have "unblock_pass cs (a\<lparr>ustate := u\<rparr>) = (Inr (Suc n), a')" by simp
    with "2.IH"(2) [OF fn refl False] "2.prems"(2) show ?thesis by simp
  next
    case True
    let ?a = "(resolveP (c_promise c) WUndefined (a\<lparr>ustate := u\<rparr>))\<lparr>blockedConditions := jdelete seq (blockedConditions a)\<rparr>"
    obtain r' where "unblock_pass cs ?a = (r', a')"
      using "2.prems"(1) fn True by (auto split: prod.splits sum.splits)
    then obtain P where P: "blockedConditions a' = filter P (jdelete seq (blockedConditions a))"
      using unblock_pass_blocked by fastforce
    have "length (jdelete seq (blockedConditions a)) < length (blockedConditions a)"
      using "2.prems"(2) by (intro jdelete_shorter [of _ c]) auto
    with P show ?thesis by (metis le_less_trans length_filter_le)
  qed
qed simp

lemma unblock_pass_shrinks_sym:
  "(Inr (Suc n), a') = unblock_pass (blockedConditions a) a \<Longrightarrow>
   length (blockedConditions a') < length (blockedConditions a)"
  by (erule unblock_pass_shrinks [OF sym]) (rule subset_refl)

function tryUnblockConditions :: "'u act \<Rightarrow> nat res \<times> 'u act" where
  "tryUnblockConditions a =
     (case unblock_pass (blockedConditions a) a of
        (Inl e, a') \<Rightarrow> (Inl e, a')
      | (Inr 0, a') \<Rightarrow> (Inr 0, a')
      | (Inr (Suc n), a') \<Rightarrow>
          (case tryUnblockConditions a' of
             (Inl e, a'') \<Rightarrow> (Inl e, a'')
           | (Inr m, a'') \<Rightarrow> (Inr (Suc n + m), a'')))"
  by pat_completeness auto
termination
  by (relation "measure (\<lambda>a. length (blockedConditions a))") (auto dest: unblock_pass_shrinks_sym)

declare tryUnblockConditions.simps [simp del]

subsection \<open>Operations of user code\<close>

text \<open>The rest of \<open>dispatchBufferedSignals\<close> with handlers that perform no operation at once.\<close>

lemma pick_signal_length: "pick_signal P ss = Some (x, rest) \<Longrightarrow> length ss = Suc (length rest)"
  by (induction ss arbitrary: rest) (auto split: if_splits option.splits)

lemma pick_signal_P: "pick_signal P ss = Some (x, rest) \<Longrightarrow> P x"
  by (induction ss arbitrary: rest) (auto split: if_splits option.splits)

lemma signalWorkflow_buffer:
  "signalWorkflow R j a = (b, None, a') \<Longrightarrow> has_handler (name_or_empty j) a \<Longrightarrow>
   bufferedSignals a' = bufferedSignals a"
  by (auto simp: signalWorkflow_def signalWorkflowNextHandler_def name_or_empty_def alloc_def thenP_def
      on_heap_def rejectP_def split: option.splits if_splits sum.splits)

lemma dispatch_one_shrinks:
  "dispatch_one R a = Some (b, None, a') \<Longrightarrow> length (bufferedSignals a') < length (bufferedSignals a)"
  by (auto simp: dispatch_one_def next_signal_def has_handler_def
      dest!: signalWorkflow_buffer dest: pick_signal_length pick_signal_P split: option.splits)

function dispatch_rest :: "rt \<Rightarrow> 'u act \<Rightarrow> 'u thrown" where
  "dispatch_rest R a =
     (case dispatch_one R a of
        None \<Rightarrow> (None, a)
      | Some (_, Some e, a') \<Rightarrow> (Some e, a')
      | Some (_, None, a') \<Rightarrow> dispatch_rest R a')"
  by pat_completeness auto
termination
  by (relation "measure (\<lambda>(R, a). length (bufferedSignals a))") (auto dest: dispatch_one_shrinks)

declare dispatch_rest.simps [simp del]

definition api_res :: "pid res \<times> 'u act \<Rightarrow> api_result \<times> 'u act" where
  "api_res r = (case fst r of Inl e \<Rightarrow> ApiThrow e | Inr p \<Rightarrow> ApiPromise p, snd r)"

definition api_pid :: "pid \<times> 'u act \<Rightarrow> api_result \<times> 'u act" where
  "api_pid r = (ApiPromise (fst r), snd r)"

definition api_thrown :: "'u thrown \<Rightarrow> api_result \<times> 'u act" where
  "api_thrown r = (case fst r of Some e \<Rightarrow> ApiThrow e | None \<Rightarrow> ApiUnit, snd r)"

definition api_bool :: "bool res \<times> 'u act \<Rightarrow> api_result \<times> 'u act" where
  "api_bool r = (case fst r of Inl e \<Rightarrow> ApiThrow e | Inr b \<Rightarrow> ApiBool b, snd r)"

text \<open>\<open>new CancellationScope(...)\<close> whose \<open>run\<close> starts the timer of the timeout.\<close>

definition openScope :: "rt \<Rightarrow> nat \<Rightarrow> bool \<Rightarrow> jsnum option \<Rightarrow> 'u act \<Rightarrow> nat \<times> 'u act" where
  "openScope R parent canc timeout a =
     (case newScope parent canc a of (s, a1) \<Rightarrow>
        (s, case timeout of
              None \<Rightarrow> a1
            | Some t \<Rightarrow> if js_num_truthy t
                then (case sleep R s (DurNum t) a1 of
                        (Inr p, a2) \<Rightarrow> thenP p (RScopeTimeout s) a2
                      | (Inl e, a2) \<Rightarrow> a2)
                else a1))"

fun default_child_options :: "ChildWorkflowOptions option \<Rightarrow> ChildWorkflowOptions" where
  "default_child_options (Some opts) = opts"
| "default_child_options None =
     \<lparr>co_workflowId = None, co_args = None, co_taskQueue = None, co_cancellationType = None,
      co_parentClosePolicy = None, co_versioningIntent = None, co_workflowIdReusePolicy = None, co_retry = None,
      co_cronSchedule = None, co_memo = None, co_searchAttributes = None, co_workflowExecutionTimeout = None,
      co_workflowRunTimeout = None, co_workflowTaskTimeout = None\<rparr>"

definition settle_user :: "pid \<Rightarrow> wval settlement \<Rightarrow> 'u act \<Rightarrow> 'u act" where
  "settle_user p st a =
     (if p < length (cells (heap a)) \<and> user_owned (cells (heap a) ! p) then on_heap (settle p st) a else a)"

definition setQueryHandler :: "string \<Rightarrow> 'u query_fun \<Rightarrow> 'u act \<Rightarrow> 'u act" where
  "setQueryHandler name h a = a\<lparr>queryHandlers := jset name h (queryHandlers a)\<rparr>"

definition deleteQueryHandler :: "string \<Rightarrow> 'u act \<Rightarrow> 'u act" where
  "deleteQueryHandler name a = a\<lparr>queryHandlers := jdelete name (queryHandlers a)\<rparr>"

definition addSignalHandler :: "string \<Rightarrow> 'u act \<Rightarrow> 'u act" where
  "addSignalHandler name a = a\<lparr>signalHandlers := add_to_set name (signalHandlers a)\<rparr>"

definition deleteSignalHandler :: "string \<Rightarrow> 'u act \<Rightarrow> 'u act" where
  "deleteSignalHandler name a = a\<lparr>signalHandlers := filter (\<lambda>n. n \<noteq> name) (signalHandlers a)\<rparr>"

fun exec_op :: "rt \<Rightarrow> 'u user_op \<Rightarrow> 'u act \<Rightarrow> api_result \<times> 'u act"
  and exec_ops :: "rt \<Rightarrow> 'u user_op list \<Rightarrow> 'u act \<Rightarrow> 'u act"
  and dispatchBufferedSignals :: "rt \<Rightarrow> 'u user_op list list \<Rightarrow> 'u act \<Rightarrow> 'u thrown" where
  "exec_op R (OSleep s d) a = api_res (sleep R s d a)"
| "exec_op R (OSetTimeout dur) a = (case setTimeout R dur a of (n, a') \<Rightarrow> (ApiNumber n, a'))"
| "exec_op R (OClearTimeout n) a = (ApiUnit, clearTimeout n a)"
| "exec_op R (OScheduleActivity s ty args opts) a = api_res (scheduleActivity R s ty args opts a)"
| "exec_op R (OScheduleLocalActivity s ty args opts) a = api_pid (scheduleLocalActivity R s ty args opts a)"
| "exec_op R (OStartChild s ty uuid opts) a = api_pid (startChild R s ty uuid (default_child_options opts) a)"
| "exec_op R (OExecuteChild s ty uuid opts) a = api_pid (executeChild R s ty uuid (default_child_options opts) a)"
| "exec_op R (OSignalWorkflow s name args target) a = api_pid (signalWorkflowOut R s name args target a)"
| "exec_op R (OCancelExternal s wid rid) a = api_pid (cancelExternal R s wid rid a)"
| "exec_op R (OCondition s fn timeout) a = api_pid (condition R s fn timeout a)"
| "exec_op R (OPatched pid) a = api_bool (patchInternal pid False a)"
| "exec_op R (ODeprecatePatch pid) a = api_bool (patchInternal pid True a)"
| "exec_op R (ONewScope s canc timeout) a = (case openScope R s canc timeout a of (n, a') \<Rightarrow> (ApiNumber n, a'))"
| "exec_op R (OCancelScope s) a = (ApiUnit, cancelScope s a)"
| "exec_op R (ONewTrigger s) a = api_pid (newTrigger s a)"
| "exec_op R (OSettle p st) a = (ApiUnit, settle_user p st a)"
| "exec_op R (OThen p) a = (ApiUnit, thenP p RUser a)"
| "exec_op R (OSetSignalHandler name segs) a =
     api_thrown (dispatchBufferedSignals R segs (addSignalHandler name a))"
| "exec_op R (ODeleteSignalHandler name) a = (ApiUnit, deleteSignalHandler name a)"
| "exec_op R (OSetQueryHandler name h) a = (ApiUnit, setQueryHandler name h a)"
| "exec_op R (ODeleteQueryHandler name) a = (ApiUnit, deleteQueryHandler name a)"
| "exec_op R (OSetDefaultSignalHandler segs) a =
     api_thrown (dispatchBufferedSignals R segs (a\<lparr>defaultSignalHandler := True\<rparr>))"
| "exec_op R ODeleteDefaultSignalHandler a = (ApiUnit, a\<lparr>defaultSignalHandler := False\<rparr>)"
| "exec_op R (OUpsertSearchAttributes attrs) a = api_thrown (upsertSearchAttributes R attrs a)"
| "exec_op R (OSink iface fn args) a = (ApiUnit, sink_call iface fn args a)"
| "exec_op R (OContinueAsNew args opts) a = api_pid (continueAsNew R args opts a)"
| "exec_op R (OSetState u) a = (ApiUnit, a\<lparr>ustate := u\<rparr>)"
| "exec_ops R [] a = a"
| "exec_ops R (op # ops) a = exec_ops R ops (snd (exec_op R op a))"
| "dispatchBufferedSignals R [] a = dispatch_rest R a"
| "dispatchBufferedSignals R (seg # segs) a =
     (case dispatch_one R a of
        None \<Rightarrow> (None, a)
      | Some (_, Some e, a') \<Rightarrow> (Some e, a')
      | Some (_, None, a') \<Rightarrow> dispatchBufferedSignals R segs (exec_ops R seg a'))"

subsection \<open>Jobs and activations\<close>

text \<open>The \<open>finally\<close> block of the call of the workflow function: the buffered queries, whose first throw
  becomes the result of the call, and the reaction that ends the workflow.\<close>

definition after_workflow_call :: "rt \<Rightarrow> pid \<Rightarrow> 'u act \<Rightarrow> 'u thrown" where
  "after_workflow_call R p a =
     (case flush_queries R (bufferedQueries a) (a\<lparr>workflowFunctionWasCalled := True, bufferedQueries := []\<rparr>) of
        (None, a1) \<Rightarrow> (None, thenP p RWorkflowDone a1)
      | (Some e, a1) \<Rightarrow>
          (case alloc False a1 of (q, a2) \<Rightarrow> (None, thenP q RWorkflowDone (rejectP q (WV e) a2))))"

definition startWorkflow :: "rt \<Rightarrow> payload list option \<Rightarrow> 'u user_op list \<Rightarrow> 'u act \<Rightarrow> 'u thrown" where
  "startWorkflow R args ops a =
     (case arrayFromPayloads (pconv R) args of
        Inl e \<Rightarrow> (Some e, a)
      | Inr vs \<Rightarrow>
          if \<not> workflow a then
            (case alloc False a of (p, a1) \<Rightarrow>
              (None, thenP p RWorkflowDone (rejectP p (WV (IllegalStateError ''Workflow uninitialized'')) a1)))
          else
            (case alloc True a of (p, a1) \<Rightarrow>
              after_workflow_call R p (exec_ops R ops (a1\<lparr>calls := calls a1 @ [CallWorkflow vs p]\<rparr>))))"

fun run_job :: "rt \<Rightarrow> job \<Rightarrow> 'u user_op list \<Rightarrow> 'u act \<Rightarrow> 'u thrown" where
  "run_job R (JStartWorkflow args) ops a = startWorkflow R args ops a"
| "run_job R (JFireTimer s) ops a = fireTimer s a"
| "run_job R (JResolveActivity s r) ops a = resolveActivity R s r a"
| "run_job R (JResolveChildStart s st) ops a = resolveChildWorkflowExecutionStart R s st a"
| "run_job R (JResolveChild s r) ops a = resolveChildWorkflowExecution R s r a"
| "run_job R (JQueryWorkflow q) ops a = queryWorkflow R q a"
| "run_job R (JSignalWorkflow j) ops a =
     (case signalWorkflow R j a of (called, t, a') \<Rightarrow> (t, if called then exec_ops R ops a' else a'))"
| "run_job R JCancelWorkflow ops a = cancelWorkflow a"
| "run_job R (JResolveSignalExternal s f) ops a = resolveSignalExternalWorkflow R s f a"
| "run_job R (JResolveRequestCancel s f) ops a = resolveRequestCancelExternalWorkflow R s f a"
| "run_job R (JUpdateRandomSeed s) ops a = updateRandomSeed s a"
| "run_job R (JNotifyHasPatch p) ops a = notifyHasPatch p a"
| "run_job R JRemoveFromCache ops a = removeFromCache a"
| "run_job R JUnset ops a = (Some (TypeError ''Expected job.variant to be defined''), a)"

fun is_query_job :: "job \<Rightarrow> bool" where
  "is_query_job (JQueryWorkflow _) = True"
| "is_query_job _ = False"

fun is_patch_job :: "job \<Rightarrow> bool" where
  "is_patch_job (JNotifyHasPatch _) = True"
| "is_patch_job _ = False"

fun is_signal_job :: "job \<Rightarrow> bool" where
  "is_signal_job (JSignalWorkflow _) = True"
| "is_signal_job _ = False"

definition shouldUnblockConditions :: "job \<Rightarrow> bool" where
  "shouldUnblockConditions j \<longleftrightarrow> \<not> is_query_job j \<and> \<not> is_patch_job j"

text \<open>The loop over the jobs. A job comes with what user code does in the synchronous part of the call.\<close>

fun activate_jobs :: "rt \<Rightarrow> (job \<times> 'u user_op list) list \<Rightarrow> 'u act \<Rightarrow> 'u thrown" where
  "activate_jobs R [] a = (None, a)"
| "activate_jobs R ((j, ops) # js) a =
     (if j = JUnset then (Some (TypeError ''Expected job.variant to be defined''), a)
      else if completed a \<and> \<not> is_query_job j then (None, a)
      else case run_job R j ops a of
        (Some e, a') \<Rightarrow> (Some e, a')
      | (None, a') \<Rightarrow>
          if shouldUnblockConditions j then
            (case tryUnblockConditions a' of
               (Inl e, a'') \<Rightarrow> (Some e, a'')
             | (Inr _, a'') \<Rightarrow> activate_jobs R js a'')
          else activate_jobs R js a')"

record activation_info =
  ai_timestamp :: "tstamp option"
  ai_historyLength :: "nat option"
  ai_isReplaying :: "bool option"

definition begin_activation :: "rt \<Rightarrow> activation_info \<Rightarrow> 'u act \<Rightarrow> 'u thrown" where
  "begin_activation R i a =
     (case (case ai_timestamp i of
              None \<Rightarrow> (None, a)
            | Some t \<Rightarrow> (case tsToMs (lib R) (Some t) of Inl e \<Rightarrow> (Some e, a) | Inr n \<Rightarrow> (None, a\<lparr>now := n\<rparr>))) of
        (Some e, a') \<Rightarrow> (Some e, a')
      | (None, a') \<Rightarrow> (case ai_historyLength i of
           None \<Rightarrow> (Some (TypeError ''Got activation with no historyLength''), a')
         | Some n \<Rightarrow> (None, a'\<lparr>isReplaying := (ai_isReplaying i = Some True), historyLength := n\<rparr>)))"

definition activate :: "rt \<Rightarrow> activation_info \<Rightarrow> nat \<Rightarrow> (job \<times> 'u user_op list) list \<Rightarrow> 'u act \<Rightarrow> 'u thrown" where
  "activate R i batchIndex jobs a =
     (case (if batchIndex = 0 then begin_activation R i a else (None, a)) of
        (Some e, a') \<Rightarrow> (Some e, a')
      | (None, a') \<Rightarrow> activate_jobs R jobs a')"

definition concludeActivation :: "'u act \<Rightarrow> command list \<times> 'u act" where
  "concludeActivation a = getAndResetCommands a"

end
