(* ===== verification/Runtime_Effects.thy ===== *)
theory Runtime_Effects
  imports Workflow_Runtime
begin

text \<open>
  The abstract contract of the runtime: whatever an API operation, a reaction or a job does to the
  state is a sequence of the elementary effects below, each with the guard under which the code
  performs it. The invariants of the runtime are proved for the effects; this theory shows that
  every operation is such a sequence.
\<close>

subsection \<open>Sequence numbers in commands\<close>

fun start_of :: "command \<Rightarrow> (seq_kind \<times> nat) option" where
  "start_of (StartTimer s _) = Some (STimer, s)"
| "start_of (ScheduleActivity s _) = Some (SActivity, s)"
| "start_of (ScheduleLocalActivity s _) = Some (SActivity, s)"
| "start_of (StartChildWorkflowExecution s _) = Some (SChild, s)"
| "start_of (SignalExternalWorkflowExecution s _ _ _) = Some (SSignal, s)"
| "start_of (RequestCancelExternalWorkflowExecution s _ _ _) = Some (SCancel, s)"
| "start_of _ = None"

fun cancel_of :: "command \<Rightarrow> (seq_kind \<times> nat) option" where
  "cancel_of (RequestCancelActivity s) = Some (SActivity, s)"
| "cancel_of (RequestCancelLocalActivity s) = Some (SActivity, s)"
| "cancel_of (CancelSignalWorkflow s) = Some (SSignal, s)"
| "cancel_of _ = None"

fun terminal :: "command \<Rightarrow> bool" where
  "terminal (CompleteWorkflowExecution _) = True"
| "terminal (FailWorkflowExecution _) = True"
| "terminal CancelWorkflowExecution = True"
| "terminal (ContinueAsNewWorkflowExecution _) = True"
| "terminal _ = False"

fun patch_of :: "command \<Rightarrow> string option" where
  "patch_of (SetPatchMarker p _) = Some p"
| "patch_of _ = None"

fun compl_seq :: "compl_kind \<Rightarrow> seq_kind" where
  "compl_seq KTimer = STimer"
| "compl_seq KActivity = SActivity"
| "compl_seq KChildStart = SChild"
| "compl_seq KChildComplete = SChild"
| "compl_seq KSignal = SSignal"
| "compl_seq KCancel = SCancel"

text \<open>\<open>h\<close> are the commands of the earlier activations.\<close>

definition used :: "command list \<Rightarrow> 'u act \<Rightarrow> seq_kind \<Rightarrow> nat \<Rightarrow> bool" where
  "used h a k seq \<longleftrightarrow> (\<exists>c \<in> set (h @ commands a). start_of c = Some (k, seq))"

subsection \<open>Promises that are not scopes'\<close>

fun targets :: "reaction \<Rightarrow> pid list" where
  "targets (RReject p) = [p]"
| "targets (RTimerCancel _ p) = [p]"
| "targets (RExternalCancel p) = [p]"
| "targets (RConditionCancel _ p) = [p]"
| "targets (RForward p) = [p]"
| "targets (RThenConst _ p) = [p]"
| "targets (RConditionFinally _ p) = [p]"
| "targets (RLocalRetry _ _ _ _ p) = [p]"
| "targets (RLocalResume _ _ _ _ _ p) = [p]"
| "targets (RChildStarting _ p) = [p]"
| "targets (RChildStarted _ _ p) = [p]"
| "targets (RChildCompleted p) = [p]"
| "targets (RAdopt _ p) = [p]"
| "targets _ = []"

definition plain :: "'u act \<Rightarrow> pid set" where
  "plain a = {p. p < length (cells (heap a)) \<and> p \<notin> sc_promise ` set (scopes a)}"

text \<open>The reactions a heap still holds.\<close>

definition pending_reactions :: "wheap \<Rightarrow> reaction set" where
  "pending_reactions h = (\<Union>c \<in> set (cells h). set (reactions c)) \<union> fst ` set (microtasks h)"

definition owned :: "wheap \<Rightarrow> pid set" where
  "owned h = {p. p < length (cells h) \<and> user_owned (cells h ! p)}"

text \<open>Every promise that something may still settle directly is plain; a scope's promise is only
  ever rejected, through the scope.\<close>

definition targets_ok :: "'u act \<Rightarrow> bool" where
  "targets_ok a \<longleftrightarrow> (\<forall>r \<in> pending_reactions (heap a). set (targets r) \<subseteq> plain a) \<and>
     (\<forall>k. \<forall>x \<in> set (completions a k). snd x \<in> plain a) \<and>
     (\<forall>x \<in> set (blockedConditions a). c_promise (snd x) \<in> plain a) \<and> owned (heap a) \<subseteq> plain a"

definition scopes_ok :: "'u act \<Rightarrow> bool" where
  "scopes_ok a \<longleftrightarrow> scopes a \<noteq> [] \<and> (\<forall>s \<in> set (scopes a). sc_promise s < length (cells (heap a)))"

definition ok :: "command list \<Rightarrow> 'u act \<Rightarrow> 'u act \<Rightarrow> bool" where
  "ok h b a \<longleftrightarrow> (\<forall>k s. used h a k s \<longrightarrow> s < nextSeqs a k) \<and> (\<forall>k. nextSeqs b k \<le> nextSeqs a k) \<and>
     targets_ok a \<and> scopes_ok a"

subsection \<open>The effects\<close>

definition new_cell :: "bool \<Rightarrow> 'u act \<Rightarrow> 'u act" where
  "new_cell own = on_heap (\<lambda>h. snd (new_promise own h))"

definition bump :: "seq_kind \<Rightarrow> 'u act \<Rightarrow> 'u act" where
  "bump k a = a\<lparr>nextSeqs := (nextSeqs a)(k := Suc (nextSeqs a k))\<rparr>"

lemma alloc_eq: "alloc own a = (length (cells (heap a)), new_cell own a)"
  by (simp add: alloc_def new_cell_def)

lemma next_seq_eq: "next_seq k a = (nextSeqs a k, bump k a)"
  by (simp add: next_seq_def bump_def)

text \<open>Two states that differ at most in fields the contract does not speak of.\<close>

definition same_core :: "'u act \<Rightarrow> 'u act \<Rightarrow> bool" where
  "same_core a a' \<longleftrightarrow> heap a' = heap a \<and> scopes a' = scopes a \<and> completions a' = completions a \<and>
     commands a' = commands a \<and> blockedConditions a' = blockedConditions a \<and>
     completed a' = completed a \<and> nextSeqs a' = nextSeqs a \<and> sentPatches a' = sentPatches a"

inductive eff :: "command list \<Rightarrow> 'u act \<Rightarrow> 'u act \<Rightarrow> 'u act \<Rightarrow> bool" for h b where
  eff_new: "eff h b a (new_cell own a)"
| eff_then: "set (targets r) \<subseteq> plain a \<Longrightarrow> \<forall>s. r \<noteq> RScopeReject s \<Longrightarrow> eff h b a (thenP p r a)"
| eff_settle: "p \<in> plain a \<Longrightarrow> eff h b a (on_heap (settle p st) a)"
| eff_queue: "set (targets r) \<subseteq> plain a \<Longrightarrow> \<forall>s. r \<noteq> RScopeReject s \<Longrightarrow>
    eff h b a (on_heap (\<lambda>h. h\<lparr>microtasks := microtasks h @ [(r, st)]\<rparr>) a)"
| eff_scope: "eff h b a (rejectScope s e a)"
| eff_new_scope: "eff h b a (snd (newScope par canc a))"
| eff_bump: "eff h b a (bump k a)"
| eff_push_start: "start_of c = Some (k, seq) \<Longrightarrow> nextSeqs b k \<le> seq \<Longrightarrow> seq < nextSeqs a k \<Longrightarrow> \<not> used h a k seq \<Longrightarrow>
    eff h b a (pushCommand c False a)"
| eff_push_cancel: "cancel_of c = Some (compl_seq k, seq) \<Longrightarrow> jhas (completions a k) seq \<Longrightarrow> k \<notin> {KTimer, KChildComplete} \<Longrightarrow>
    eff h b a (pushCommand c False a)"
| eff_push_neutral: "start_of c = None \<Longrightarrow> cancel_of c = None \<Longrightarrow> \<not> terminal c \<Longrightarrow> patch_of c = None \<Longrightarrow>
    eff h b a (pushCommand c False a)"
| eff_push_patch: "p \<notin> set (sentPatches a) \<Longrightarrow>
    eff h b a ((pushCommand (SetPatchMarker p d) False a)\<lparr>sentPatches := sentPatches a @ [p]\<rparr>)"
| eff_push_terminal: "terminal c \<Longrightarrow> eff h b a (pushCommand c True a)"
| eff_set_completion: "nextSeqs b (compl_seq k) \<le> seq \<Longrightarrow> seq < nextSeqs a (compl_seq k) \<Longrightarrow> p \<in> plain a \<Longrightarrow>
    k \<in> {KTimer, KChildComplete} \<or> completed a \<or> used h a (compl_seq k) seq \<Longrightarrow>
    eff h b a (set_completion k seq p a)"
| eff_del_completion: "eff h b a (del_completion k seq a)"
| eff_block: "c_promise c \<in> plain a \<Longrightarrow> eff h b a (a\<lparr>blockedConditions := jset seq c (blockedConditions a)\<rparr>)"
| eff_unblock: "eff h b a (a\<lparr>blockedConditions := jdelete seq (blockedConditions a)\<rparr>)"
| eff_frame: "same_core a a' \<Longrightarrow> eff h b a a'"

abbreviation effs :: "command list \<Rightarrow> 'u act \<Rightarrow> 'u act \<Rightarrow> 'u act \<Rightarrow> bool" where
  "effs h b \<equiv> (eff h b)\<^sup>*\<^sup>*"

subsection \<open>What the elementary functions leave alone\<close>

lemma on_heap_fields [simp]:
  "heap (on_heap f a) = f (heap a)" "scopes (on_heap f a) = scopes a"
  "completions (on_heap f a) = completions a" "commands (on_heap f a) = commands a"
  "blockedConditions (on_heap f a) = blockedConditions a" "completed (on_heap f a) = completed a"
  "nextSeqs (on_heap f a) = nextSeqs a" "sentPatches (on_heap f a) = sentPatches a"
  by (simp_all add: on_heap_def)

lemma bump_fields [simp]:
  "heap (bump k a) = heap a" "scopes (bump k a) = scopes a"
  "completions (bump k a) = completions a" "commands (bump k a) = commands a"
  "blockedConditions (bump k a) = blockedConditions a" "completed (bump k a) = completed a"
  "nextSeqs (bump k a) = (nextSeqs a)(k := Suc (nextSeqs a k))" "sentPatches (bump k a) = sentPatches a"
  by (simp_all add: bump_def)

lemma pushCommand_fields [simp]:
  "heap (pushCommand c t a) = heap a" "scopes (pushCommand c t a) = scopes a"
  "completions (pushCommand c t a) = completions a" "blockedConditions (pushCommand c t a) = blockedConditions a"
  "nextSeqs (pushCommand c t a) = nextSeqs a" "sentPatches (pushCommand c t a) = sentPatches a"
  by (simp_all add: pushCommand_def)

lemma commands_pushCommand:
  "commands (pushCommand c t a) = (if completed a \<and> \<not> isQueryResponse c then commands a else commands a @ [c])"
  by (simp add: pushCommand_def)

lemma completed_pushCommand [simp]: "completed (pushCommand c t a) \<longleftrightarrow> completed a \<or> t"
  by (simp add: pushCommand_def)

lemma set_completion_fields [simp]:
  "heap (set_completion k q p a) = heap a" "scopes (set_completion k q p a) = scopes a"
  "commands (set_completion k q p a) = commands a" "blockedConditions (set_completion k q p a) = blockedConditions a"
  "completed (set_completion k q p a) = completed a" "nextSeqs (set_completion k q p a) = nextSeqs a"
  "sentPatches (set_completion k q p a) = sentPatches a"
  "completions (set_completion k q p a) = (completions a)(k := jset q p (completions a k))"
  by (simp_all add: set_completion_def)

lemma del_completion_fields [simp]:
  "heap (del_completion k q a) = heap a" "scopes (del_completion k q a) = scopes a"
  "commands (del_completion k q a) = commands a" "blockedConditions (del_completion k q a) = blockedConditions a"
  "completed (del_completion k q a) = completed a" "nextSeqs (del_completion k q a) = nextSeqs a"
  "sentPatches (del_completion k q a) = sentPatches a"
  "completions (del_completion k q a) = (completions a)(k := jdelete q (completions a k))"
  by (simp_all add: del_completion_def)

lemma new_cell_fields [simp]:
  "scopes (new_cell own a) = scopes a" "completions (new_cell own a) = completions a"
  "commands (new_cell own a) = commands a" "blockedConditions (new_cell own a) = blockedConditions a"
  "completed (new_cell own a) = completed a" "nextSeqs (new_cell own a) = nextSeqs a"
  "sentPatches (new_cell own a) = sentPatches a"
  "length (cells (heap (new_cell own a))) = Suc (length (cells (heap a)))"
  by (simp_all add: new_cell_def new_promise_def)

lemma thenP_fields [simp]:
  "scopes (thenP p r a) = scopes a" "completions (thenP p r a) = completions a"
  "commands (thenP p r a) = commands a" "blockedConditions (thenP p r a) = blockedConditions a"
  "completed (thenP p r a) = completed a" "nextSeqs (thenP p r a) = nextSeqs a"
  "sentPatches (thenP p r a) = sentPatches a"
  "length (cells (heap (thenP p r a))) = length (cells (heap a))"
  by (simp_all add: thenP_def)

text \<open>What user code does through these functions it does to the flags of scopes only.\<close>

lemma rejectScope_fields [simp]:
  "completions (rejectScope s e a) = completions a" "commands (rejectScope s e a) = commands a"
  "blockedConditions (rejectScope s e a) = blockedConditions a" "completed (rejectScope s e a) = completed a"
  "nextSeqs (rejectScope s e a) = nextSeqs a" "sentPatches (rejectScope s e a) = sentPatches a"
  "length (scopes (rejectScope s e a)) = length (scopes a)"
  "length (cells (heap (rejectScope s e a))) = length (cells (heap a))"
  by (simp_all add: rejectScope_def rejectP_def)

lemma rejectScope_promises: "map sc_promise (scopes (rejectScope s e a)) = map sc_promise (scopes a)"
  by (auto simp: rejectScope_def rejectP_def list_eq_iff_nth_eq nth_list_update)

lemma rejectScope_promise_set [simp]: "sc_promise ` set (scopes (rejectScope s e a)) = sc_promise ` set (scopes a)"
  by (metis rejectScope_promises set_map)

lemma newScope_fields [simp]:
  "completions (snd (newScope q c a)) = completions a" "commands (snd (newScope q c a)) = commands a"
  "blockedConditions (snd (newScope q c a)) = blockedConditions a" "completed (snd (newScope q c a)) = completed a"
  "nextSeqs (snd (newScope q c a)) = nextSeqs a" "sentPatches (snd (newScope q c a)) = sentPatches a"
  "length (cells (heap (snd (newScope q c a)))) = Suc (length (cells (heap a)))"
  "fst (newScope q c a) = length (scopes a)"
  "sc_promise ` set (scopes (snd (newScope q c a))) = insert (length (cells (heap a))) (sc_promise ` set (scopes a))"
  "scopes (snd (newScope q c a)) \<noteq> []"
  by (simp_all add: newScope_def alloc_eq thenP_def Let_def new_cell_def new_promise_def)

lemma length_take_microtask [simp]: "length (cells (take_microtask i h)) = length (cells h)"
  by (simp add: take_microtask_def)

lemma plain_simps [simp]:
  "plain (on_heap (settle p st) a) = plain a" "plain (bump sk a) = plain a" "plain (pushCommand c t a) = plain a"
  "plain (set_completion k q p a) = plain a" "plain (del_completion k q a) = plain a"
  "plain (thenP p r a) = plain a" "plain (rejectScope s e a) = plain a"
  "plain (a\<lparr>blockedConditions := b\<rparr>) = plain a" "plain (a\<lparr>sentPatches := ps\<rparr>) = plain a"
  "plain (on_heap (take_microtask i) a) = plain a"
  "plain (snd (newScope q can a)) = plain a"
  by (auto simp: plain_def take_microtask_def less_Suc_eq)

lemma plain_mono_new: "plain a \<subseteq> plain (new_cell own a)"
  by (auto simp: plain_def)

lemma plain_fresh [simp]: "scopes_ok a \<Longrightarrow> length (cells (heap a)) \<in> plain (new_cell own a)"
  by (auto simp: plain_def scopes_ok_def)

lemma used_simps [simp]:
  "used h (on_heap f a) = used h a" "used h (bump sk a) = used h a"
  "used h (set_completion k q p a) = used h a" "used h (del_completion k q a) = used h a"
  "used h (thenP p r a) = used h a" "used h (new_cell own a) = used h a" "used h (rejectScope s e a) = used h a"
  "used h (snd (newScope q can a)) = used h a"
  "used h (a\<lparr>blockedConditions := b\<rparr>) = used h a" "used h (a\<lparr>sentPatches := ps\<rparr>) = used h a"
  by (simp_all add: used_def [abs_def])

lemma isQueryResponse_start: "start_of c = Some x \<Longrightarrow> \<not> isQueryResponse c"
  by (cases c) auto

lemma used_pushCommand:
  "used h (pushCommand c t a) k s \<longleftrightarrow> used h a k s \<or> (start_of c = Some (k, s) \<and> \<not> completed a)"
  by (cases c) (auto simp: used_def commands_pushCommand)

subsection \<open>The effects keep the bookkeeping\<close>

lemma in_set_upd: "x \<in> set (xs[i := y]) \<Longrightarrow> x = y \<or> x \<in> set xs"
  by (metis insertE set_update_subset_insert subsetD)

lemma pending_settle: "pending_reactions (settle p st h) \<subseteq> pending_reactions h"
  by (auto simp: pending_reactions_def settle_def image_Un dest!: in_set_upd split: if_splits)

lemma pending_then: "pending_reactions (then_do p r h) \<subseteq> insert r (pending_reactions h)"
proof (cases "p < length (cells h)")
  case True
  then have "cells h ! p \<in> set (cells h)" by simp
  with True show ?thesis
    by (auto simp: pending_reactions_def then_do_def dest!: in_set_upd split: option.splits)
qed (simp add: then_do_def subset_insertI)

lemma pending_new: "pending_reactions (snd (new_promise own h)) = pending_reactions h"
  by (simp add: pending_reactions_def new_promise_def)

lemma pending_take: "pending_reactions (take_microtask i h) \<subseteq> pending_reactions h"
  by (auto simp: pending_reactions_def take_microtask_def dest: in_set_takeD in_set_dropD)

lemma pending_queue: "pending_reactions (h\<lparr>microtasks := microtasks h @ [(r, st)]\<rparr>) = insert r (pending_reactions h)"
  by (auto simp: pending_reactions_def)

lemma owned_simps [simp]:
  "owned (settle p st h) = owned h" "owned (then_do p r h) = owned h" "owned (take_microtask i h) = owned h"
  "owned (h\<lparr>microtasks := m\<rparr>) = owned h"
  by (auto simp: owned_def settle_def then_do_def take_microtask_def nth_list_update split: option.splits)

lemma owned_new: "owned (snd (new_promise own h)) = (if own then insert (length (cells h)) (owned h) else owned h)"
  by (auto simp: owned_def new_promise_def nth_append less_Suc_eq)

lemma targets_okI:
  assumes "targets_ok a" and "plain a \<subseteq> plain a'"
    and "\<And>r. r \<in> pending_reactions (heap a') \<Longrightarrow> r \<in> pending_reactions (heap a) \<or> set (targets r) \<subseteq> plain a'"
    and "\<And>k x. x \<in> set (completions a' k) \<Longrightarrow> x \<in> set (completions a k) \<or> snd x \<in> plain a'"
    and "\<And>x. x \<in> set (blockedConditions a') \<Longrightarrow> x \<in> set (blockedConditions a) \<or> c_promise (snd x) \<in> plain a'"
    and "\<And>q. q \<in> owned (heap a') \<Longrightarrow> q \<in> owned (heap a) \<or> q \<in> plain a'"
  shows "targets_ok a'"
  unfolding targets_ok_def
proof (intro conjI ballI allI subsetI)
  fix r q
  assume "r \<in> pending_reactions (heap a')" and "q \<in> set (targets r)"
  with assms(1,2,3) show "q \<in> plain a'" unfolding targets_ok_def by blast
next
  fix k x
  assume "x \<in> set (completions a' k)"
  with assms(1,2,4) show "snd x \<in> plain a'" unfolding targets_ok_def by blast
next
  fix x
  assume "x \<in> set (blockedConditions a')"
  with assms(1,2,5) show "c_promise (snd x) \<in> plain a'" unfolding targets_ok_def by blast
next
  fix q
  assume "q \<in> owned (heap a')"
  with assms(1,2,6) show "q \<in> plain a'" unfolding targets_ok_def by blast
qed

lemma in_set_jset: "x \<in> set (jset k v m) \<Longrightarrow> x = (k, v) \<or> x \<in> set m"
  by (induction k v m rule: jset.induct) (auto split: if_splits)

lemma targets_ok_frame:
  "targets_ok a \<Longrightarrow> plain a' = plain a \<Longrightarrow> heap a' = heap a \<Longrightarrow> completions a' = completions a \<Longrightarrow>
   blockedConditions a' = blockedConditions a \<Longrightarrow> targets_ok a'"
  by (simp add: targets_ok_def)

lemma pending_rejectScope: "pending_reactions (heap (rejectScope s e a)) \<subseteq> pending_reactions (heap a)"
  by (auto simp: rejectScope_def rejectP_def dest: subsetD [OF pending_settle])

lemma owned_rejectScope: "owned (heap (rejectScope s e a)) = owned (heap a)"
  by (simp add: rejectScope_def rejectP_def)

lemma targets_ok_rejectScope: "targets_ok a \<Longrightarrow> targets_ok (rejectScope s e a)"
  by (erule targets_okI) (auto simp: owned_rejectScope dest: subsetD [OF pending_rejectScope])

lemma targets_ok_take: "targets_ok a \<Longrightarrow> targets_ok (on_heap (take_microtask i) a)"
  by (erule targets_okI) (auto dest: subsetD [OF pending_take])

lemma heap_newScope:
  "heap (snd (newScope q c a)) =
     then_do (sc_promise (scopes a ! current_scope q a)) (RScopeReject (length (scopes a))) (snd (new_promise False (heap a)))"
  by (simp add: newScope_def alloc_eq thenP_def new_cell_def Let_def)

lemma heap_thenP: "heap (thenP p r a) = then_do p r (heap a)"
  by (simp add: thenP_def)

lemma owned_thenP: "owned (then_do p r (heap a)) = owned (heap a)"
  by simp

lemma eff_targets_ok:
  assumes "eff h b a a'" and ok: "targets_ok a" "scopes_ok a"
  shows "targets_ok a'"
  using assms(1)
proof cases
  case (eff_new own)
  show ?thesis unfolding eff_new
    by (rule targets_okI [OF ok(1) plain_mono_new])
      (auto simp: new_cell_def pending_new owned_new plain_fresh [OF ok(2), unfolded new_cell_def] split: if_splits)
next
  case (eff_then r p)
  show ?thesis unfolding eff_then(1)
    by (rule targets_okI [OF ok(1)])
      (use eff_then(2) in \<open>auto simp: heap_thenP owned_thenP dest: subsetD [OF pending_then]\<close>)
next
  case (eff_settle p st)
  show ?thesis unfolding eff_settle(1)
    by (rule targets_okI [OF ok(1)]) (auto dest: subsetD [OF pending_settle])
next
  case (eff_queue r st)
  show ?thesis unfolding eff_queue(1)
    by (rule targets_okI [OF ok(1)]) (use eff_queue(2) in \<open>auto simp: pending_queue plain_def\<close>)
next
  case (eff_scope s e)
  then show ?thesis using targets_ok_rejectScope [OF ok(1)] by simp
next
  case (eff_new_scope par canc)
  show ?thesis unfolding eff_new_scope
    by (rule targets_okI [OF ok(1)])
      (auto simp: heap_newScope pending_new owned_new dest!: subsetD [OF pending_then])
next
  case (eff_set_completion k seq p)
  show ?thesis unfolding eff_set_completion(1)
    by (rule targets_okI [OF ok(1)])
      (use eff_set_completion in \<open>auto dest: in_set_jset split: if_splits\<close>)
next
  case (eff_del_completion k seq)
  show ?thesis unfolding eff_del_completion
    by (rule targets_okI [OF ok(1)]) (auto simp: jdelete_def split: if_splits)
next
  case (eff_block c seq)
  show ?thesis unfolding eff_block(1)
    by (rule targets_okI [OF ok(1)]) (use eff_block in \<open>auto dest: in_set_jset\<close>)
next
  case (eff_unblock seq)
  show ?thesis unfolding eff_unblock
    by (rule targets_okI [OF ok(1)]) (auto simp: jdelete_def)
next
  case (eff_frame)
  then show ?thesis using ok(1) by (auto simp: same_core_def plain_def intro: targets_ok_frame)
qed (use ok in \<open>auto intro!: targets_ok_frame [OF ok(1)]\<close>)

lemma scopes_ok_alt:
  "scopes_ok a \<longleftrightarrow> scopes a \<noteq> [] \<and> (\<forall>p \<in> sc_promise ` set (scopes a). p < length (cells (heap a)))"
  by (simp add: scopes_ok_def)

lemma scopes_ok_rejectScope: "scopes_ok a \<Longrightarrow> scopes_ok (rejectScope s e a)"
  unfolding scopes_ok_alt rejectScope_promise_set by (metis length_0_conv rejectScope_fields(7,8))

lemma scopes_ok_take: "scopes_ok a \<Longrightarrow> scopes_ok (on_heap (take_microtask i) a)"
  by (simp add: scopes_ok_def take_microtask_def)

lemma scopes_ok_newScope: "scopes_ok a \<Longrightarrow> scopes_ok (snd (newScope q c a))"
  unfolding scopes_ok_alt by (simp add: less_SucI)

lemma eff_scopes_ok: "eff h b a a' \<Longrightarrow> scopes_ok a \<Longrightarrow> scopes_ok a'"
  by (induction rule: eff.induct)
    (auto simp: scopes_ok_rejectScope scopes_ok_newScope,
     auto simp: scopes_ok_def same_core_def new_cell_def new_promise_def thenP_def less_SucI)

lemma eff_nextSeqs: "eff h b a a' \<Longrightarrow> nextSeqs a k \<le> nextSeqs a' k"
  by (induction rule: eff.induct) (auto simp: same_core_def)

lemma used_terminal: "terminal c \<Longrightarrow> start_of c = None"
  by (cases c) auto

lemma used_cancel: "cancel_of c = Some x \<Longrightarrow> start_of c = None"
  by (cases c) auto

lemma eff_used:
  "eff h b a a' \<Longrightarrow> used h a' k s \<Longrightarrow> used h a k s \<or> (nextSeqs b k \<le> s \<and> s < nextSeqs a k \<and> s < nextSeqs a' k)"
  by (induction rule: eff.induct)
    (auto simp: used_pushCommand used_terminal used_cancel same_core_def used_def [of h "_ :: 'a act"])

lemma eff_ok: "eff h b a a' \<Longrightarrow> ok h b a \<Longrightarrow> ok h b a'"
  unfolding ok_def
  using eff_targets_ok [of h b a a'] eff_scopes_ok [of h b a a'] eff_nextSeqs [of h b a a'] eff_used [of h b a a']
  by (meson le_trans order_less_le_trans)

lemma effs_ok: "effs h b a a' \<Longrightarrow> ok h b a \<Longrightarrow> ok h b a'"
  by (induction rule: rtranclp_induct) (auto intro: eff_ok)

lemma eff_plain: "eff h b a a' \<Longrightarrow> plain a \<subseteq> plain a'"
  by (induction rule: eff.induct)
    (auto simp: same_core_def plain_def [of "_ :: 'a act"] new_cell_def new_promise_def)

lemma effs_plain: "effs h b a a' \<Longrightarrow> p \<in> plain a \<Longrightarrow> p \<in> plain a'"
  by (induction rule: rtranclp_induct) (auto dest: eff_plain)

subsection \<open>Composing effects\<close>

text \<open>\<open>runs h b a x\<close>: from \<open>a\<close> the elementary effects lead to \<open>x\<close>, and the bookkeeping holds there.\<close>

definition runs :: "command list \<Rightarrow> 'u act \<Rightarrow> 'u act \<Rightarrow> 'u act \<Rightarrow> bool" where
  "runs h b a x \<longleftrightarrow> ok h b x \<and> effs h b a x"

named_theorems runs_intros \<open>composition rules for the operations of the runtime\<close>

lemma runs_refl [runs_intros]: "ok h b a \<Longrightarrow> runs h b a a"
  by (simp add: runs_def)

lemma runs_eff: "runs h b a x \<Longrightarrow> eff h b x y \<Longrightarrow> runs h b a y"
  by (auto simp: runs_def intro: eff_ok rtranclp.rtrancl_into_rtrancl)

lemma runs_trans: "runs h b a x \<Longrightarrow> runs h b x y \<Longrightarrow> runs h b a y"
  by (auto simp: runs_def)

lemma runs_ok: "runs h b a x \<Longrightarrow> ok h b x"
  by (simp add: runs_def)

lemma runs_scopes_ok: "runs h b a x \<Longrightarrow> scopes_ok x"
  by (simp add: runs_def ok_def)

lemma runs_fresh [simp]: "runs h b a x \<Longrightarrow> length (cells (heap x)) \<in> plain (new_cell own x)"
  by (simp add: runs_scopes_ok)

lemma runs_unused: "runs h b a x \<Longrightarrow> \<not> used h x k (nextSeqs x k)"
  by (auto simp: runs_def ok_def)

lemma runs_nextSeqs: "runs h b a x \<Longrightarrow> nextSeqs b k \<le> nextSeqs x k"
  by (simp add: runs_def ok_def)

lemma plain_new_cell [simp]: "p \<in> plain a \<Longrightarrow> p \<in> plain (new_cell own a)"
  using plain_mono_new by blast

lemma runs_new [runs_intros]: "runs h b a x \<Longrightarrow> runs h b a (new_cell own x)"
  by (erule runs_eff) (rule eff_new)

lemma runs_then [runs_intros]:
  "runs h b a x \<Longrightarrow> set (targets r) \<subseteq> plain x \<Longrightarrow> \<forall>s. r \<noteq> RScopeReject s \<Longrightarrow> runs h b a (thenP p r x)"
  by (erule runs_eff) (rule eff_then)

lemma runs_settle [runs_intros]: "runs h b a x \<Longrightarrow> p \<in> plain x \<Longrightarrow> runs h b a (on_heap (settle p st) x)"
  by (erule runs_eff) (rule eff_settle)

lemma runs_resolve [runs_intros]: "runs h b a x \<Longrightarrow> p \<in> plain x \<Longrightarrow> runs h b a (resolveP p v x)"
  by (simp add: resolveP_def runs_settle)

lemma runs_reject [runs_intros]: "runs h b a x \<Longrightarrow> p \<in> plain x \<Longrightarrow> runs h b a (rejectP p v x)"
  by (simp add: rejectP_def runs_settle)

lemma runs_rejectScope [runs_intros]: "runs h b a x \<Longrightarrow> runs h b a (rejectScope s e x)"
  by (erule runs_eff) (rule eff_scope)

lemma runs_cancelScope [runs_intros]: "runs h b a x \<Longrightarrow> runs h b a (cancelScope s x)"
  by (simp add: cancelScope_def runs_rejectScope)

lemma runs_newScope [runs_intros]: "runs h b a x \<Longrightarrow> runs h b a (snd (newScope par can x))"
  by (erule runs_eff) (rule eff_new_scope)

lemma runs_bump [runs_intros]: "runs h b a x \<Longrightarrow> runs h b a (bump k x)"
  by (erule runs_eff) (rule eff_bump)

lemma runs_push_start:
  "runs h b a x \<Longrightarrow> start_of c = Some (k, seq) \<Longrightarrow> nextSeqs b k \<le> seq \<Longrightarrow> seq < nextSeqs x k \<Longrightarrow>
   \<not> used h x k seq \<Longrightarrow> runs h b a (pushCommand c False x)"
  by (erule runs_eff) (rule eff_push_start)

lemma runs_push_cancel:
  "runs h b a x \<Longrightarrow> cancel_of c = Some (compl_seq k, seq) \<Longrightarrow> jhas (completions x k) seq \<Longrightarrow>
   k \<notin> {KTimer, KChildComplete} \<Longrightarrow> runs h b a (pushCommand c False x)"
  by (erule runs_eff) (rule eff_push_cancel)

lemma runs_push_neutral:
  "runs h b a x \<Longrightarrow> start_of c = None \<Longrightarrow> cancel_of c = None \<Longrightarrow> \<not> terminal c \<Longrightarrow> patch_of c = None \<Longrightarrow>
   runs h b a (pushCommand c False x)"
  by (erule runs_eff) (rule eff_push_neutral)

lemma runs_push_terminal: "runs h b a x \<Longrightarrow> terminal c \<Longrightarrow> runs h b a (pushCommand c True x)"
  by (erule runs_eff) (rule eff_push_terminal)

lemma runs_set_completion:
  "runs h b a x \<Longrightarrow> nextSeqs b (compl_seq k) \<le> seq \<Longrightarrow> seq < nextSeqs x (compl_seq k) \<Longrightarrow> p \<in> plain x \<Longrightarrow>
   k \<in> {KTimer, KChildComplete} \<or> completed x \<or> used h x (compl_seq k) seq \<Longrightarrow>
   runs h b a (set_completion k seq p x)"
  by (erule runs_eff) (rule eff_set_completion)

text \<open>The start of an operation: its command, then its completion.\<close>

lemma runs_start_operation:
  assumes "runs h b a x" and "start_of c = Some (compl_seq k, seq)" and "nextSeqs b (compl_seq k) \<le> seq"
    and "seq < nextSeqs x (compl_seq k)" and "\<not> used h x (compl_seq k) seq" and "p \<in> plain x"
  shows "runs h b a (set_completion k seq p (pushCommand c False x))"
  using runs_push_start [OF assms(1-5)] assms
  by (intro runs_set_completion) (auto simp: used_pushCommand)

lemma runs_del_completion [runs_intros]: "runs h b a x \<Longrightarrow> runs h b a (del_completion k seq x)"
  by (erule runs_eff) (rule eff_del_completion)

lemma runs_block: "runs h b a x \<Longrightarrow> c_promise c \<in> plain x \<Longrightarrow>
    runs h b a (x\<lparr>blockedConditions := jset seq c (blockedConditions x)\<rparr>)"
  by (erule runs_eff) (rule eff_block)

lemma runs_unblock: "runs h b a x \<Longrightarrow> runs h b a (x\<lparr>blockedConditions := jdelete seq (blockedConditions x)\<rparr>)"
  by (erule runs_eff) (rule eff_unblock)

lemma runs_frame: "runs h b a x \<Longrightarrow> same_core x y \<Longrightarrow> runs h b a y"
  by (erule runs_eff) (rule eff_frame)

lemma runs_queue:
  "runs h b a x \<Longrightarrow> set (targets r) \<subseteq> plain x \<Longrightarrow> \<forall>s. r \<noteq> RScopeReject s \<Longrightarrow>
   runs h b a (on_heap (\<lambda>h. h\<lparr>microtasks := microtasks h @ [(r, st)]\<rparr>) x)"
  by (erule runs_eff) (rule eff_queue)

lemma runs_unhandled [runs_intros]: "runs h b a x \<Longrightarrow> runs h b a (throw_unhandled e x)"
  by (erule runs_frame) (simp add: same_core_def throw_unhandled_def)

lemma runs_if: "(c \<Longrightarrow> runs h b a x) \<Longrightarrow> (\<not> c \<Longrightarrow> runs h b a y) \<Longrightarrow> runs h b a (if c then x else y)"
  by simp

lemma runs_on_cancel [runs_intros]:
  "runs h b a x \<Longrightarrow> set (targets r) \<subseteq> plain x \<Longrightarrow> \<forall>s. r \<noteq> RScopeReject s \<Longrightarrow> runs h b a (on_cancel s r x)"
  by (simp add: on_cancel_def runs_then)

lemma runs_on_cancel_if [runs_intros]:
  "runs h b a x \<Longrightarrow> set (targets r) \<subseteq> plain x \<Longrightarrow> \<forall>s. r \<noteq> RScopeReject s \<Longrightarrow>
   runs h b a (on_cancel_if_cancellable s r x)"
  by (simp add: on_cancel_if_cancellable_def runs_on_cancel)

lemma on_cancel_if_fields [simp]:
  "nextSeqs (on_cancel_if_cancellable s r x) = nextSeqs x" "used h (on_cancel_if_cancellable s r x) = used h x"
  "plain (on_cancel_if_cancellable s r x) = plain x" "completed (on_cancel_if_cancellable s r x) = completed x"
  "completions (on_cancel_if_cancellable s r x) = completions x"
  "length (cells (heap (on_cancel_if_cancellable s r x))) = length (cells (heap x))"
  by (simp_all add: on_cancel_if_cancellable_def on_cancel_def)

end
