(* ===== verification/Runtime_Refinement.thy ===== *)
theory Runtime_Refinement
  imports Runtime_Effects
begin

text \<open>
  Every operation of the runtime is a sequence of elementary effects (theory Runtime_Effects):
  the operations of user code, the reactions, the handlers of jobs, the activation.
\<close>

lemma scopes_ok_simps [simp]:
  "scopes_ok (on_heap (settle p st) x) = scopes_ok x" "scopes_ok (bump k x) = scopes_ok x"
  "scopes_ok (pushCommand c t x) = scopes_ok x" "scopes_ok (set_completion k' q p x) = scopes_ok x"
  "scopes_ok (del_completion k' q x) = scopes_ok x" "scopes_ok (thenP p r x) = scopes_ok x"
  "scopes_ok (resolveP p v x) = scopes_ok x" "scopes_ok (rejectP p v x) = scopes_ok x"
  "scopes_ok (on_cancel s r x) = scopes_ok x" "scopes_ok (on_cancel_if_cancellable s r x) = scopes_ok x"
  by (simp_all add: scopes_ok_def resolveP_def rejectP_def on_cancel_def on_cancel_if_cancellable_def)

lemma scopes_ok_new [simp]: "scopes_ok x \<Longrightarrow> scopes_ok (new_cell own x)"
  by (auto simp: scopes_ok_def less_SucI)

lemma plain_new_eq: "scopes_ok x \<Longrightarrow> plain (new_cell own x) = insert (length (cells (heap x))) (plain x)"
  by (auto simp: plain_def scopes_ok_def less_Suc_eq)

lemma plain_more [simp]:
  "plain (resolveP p v x) = plain x" "plain (rejectP p v x) = plain x" "plain (on_cancel s r x) = plain x"
  by (simp_all add: resolveP_def rejectP_def on_cancel_def)

lemma length_more [simp]:
  "length (cells (heap (resolveP p v x))) = length (cells (heap x))"
  "length (cells (heap (rejectP p v x))) = length (cells (heap x))"
  "length (cells (heap (on_cancel s r x))) = length (cells (heap x))"
  by (simp_all add: resolveP_def rejectP_def on_cancel_def)

lemma more_fields [simp]:
  "nextSeqs (resolveP p v x) = nextSeqs x" "nextSeqs (rejectP p v x) = nextSeqs x" "nextSeqs (on_cancel s r x) = nextSeqs x"
  "used h (resolveP p v x) = used h x" "used h (rejectP p v x) = used h x" "used h (on_cancel s r x) = used h x"
  "completed (resolveP p v x) = completed x" "completed (rejectP p v x) = completed x"
  "completions (resolveP p v x) = completions x" "completions (rejectP p v x) = completions x"
  "sentPatches (resolveP p v x) = sentPatches x" "sentPatches (rejectP p v x) = sentPatches x"
  by (simp_all add: resolveP_def rejectP_def on_cancel_def)

subsection \<open>Operations of user code\<close>

text \<open>What the proofs below know of a state that effects led to.\<close>

lemmas runs_facts = runs_scopes_ok runs_nextSeqs runs_unused

lemma runs_timerNextHandler:
  assumes r: "runs h b a x" and "nextSeqs b STimer \<le> seq" and "seq < nextSeqs x STimer" and "\<not> used h x STimer seq"
  shows "runs h b a (snd (timerNextHandler R s d seq x))"
  using assms runs_facts [OF r]
  by (auto simp: timerNextHandler_def alloc_eq Let_def plain_new_eq split: sum.split
      intro!: runs_intros runs_start_operation [where k = KTimer])

lemma runs_sleep [runs_intros]:
  assumes r: "runs h b a x"
  shows "runs h b a (snd (sleep R s d x))"
  using r runs_facts [OF r]
  by (auto simp: sleep_def next_seq_eq case_prod_unfold split: sum.split intro!: runs_bump runs_timerNextHandler)

lemma runs_setTimeout [runs_intros]:
  assumes r: "runs h b a x"
  shows "runs h b a (snd (setTimeout R d x))"
  using r runs_facts [OF r]
  by (auto simp: setTimeout_def next_seq_eq alloc_eq Let_def plain_new_eq used_pushCommand split: sum.split
      intro!: runs_intros runs_push_start [where k = STimer] runs_set_completion)

lemma runs_clearTimeout [runs_intros]: "runs h b a x \<Longrightarrow> runs h b a (clearTimeout n x)"
  by (auto simp: clearTimeout_def next_seq_eq intro!: runs_intros runs_push_neutral)

lemma runs_scheduleActivity [runs_intros]:
  assumes r: "runs h b a x"
  shows "runs h b a (snd (scheduleActivity R s ty args opts x))"
  using r runs_facts [OF r]
  by (auto simp: scheduleActivity_def scheduleActivityNextHandler_def next_seq_eq alloc_eq Let_def plain_new_eq
      split: sum.split option.split intro!: runs_intros runs_start_operation [where k = KActivity])

lemma runs_local_activity_round [runs_intros]:
  assumes r: "runs h b a x" and q: "q \<in> plain x"
  shows "runs h b a (local_activity_round R s ty args opts n orig q x)"
  using assms runs_facts [OF r]
  by (auto simp: local_activity_round_def scheduleLocalActivityNextHandler_def next_seq_eq alloc_eq Let_def plain_new_eq
      split: sum.split intro!: runs_intros runs_start_operation [where k = KActivity])

lemma runs_scheduleLocalActivity [runs_intros]:
  assumes r: "runs h b a x"
  shows "runs h b a (snd (scheduleLocalActivity R s ty args opts x))"
  using r runs_facts [OF r]
  by (auto simp: scheduleLocalActivity_def alloc_eq plain_new_eq split: option.split intro!: runs_intros)

lemma runs_child_start_executor:
  assumes r: "runs h b a x" and "p \<in> plain x" and "nextSeqs b SChild \<le> seq" and "seq < nextSeqs x SChild"
    and "\<not> used h x SChild seq"
  shows "runs h b a (child_start_executor R s ty opts seq p x)"
  using assms
  by (auto simp: child_start_executor_def Let_def split: sum.split
      intro!: runs_intros runs_start_operation [where k = KChildStart])

lemma child_start_executor_fields [simp]:
  "plain (child_start_executor R s ty opts seq p x) = plain x"
  "nextSeqs (child_start_executor R s ty opts seq p x) = nextSeqs x"
  "scopes_ok (child_start_executor R s ty opts seq p x) = scopes_ok x"
  "length (cells (heap (child_start_executor R s ty opts seq p x))) = length (cells (heap x))"
  by (simp_all add: child_start_executor_def Let_def split: sum.split)

lemma runs_startChildNextHandler:
  assumes r: "runs h b a x" and "nextSeqs b SChild \<le> seq" and "seq < nextSeqs x SChild" and "\<not> used h x SChild seq"
  shows "runs h b a (snd (startChildWorkflowExecutionNextHandler R s ty opts seq x))"
  using assms runs_facts [OF r]
  by (auto simp: startChildWorkflowExecutionNextHandler_def alloc_eq plain_new_eq
      intro!: runs_intros runs_child_start_executor runs_set_completion)

lemma plain_startChildNextHandler:
  assumes "p \<in> plain x"
  shows "p \<in> plain (snd (startChildWorkflowExecutionNextHandler R s ty opts seq x))"
  using assms by (simp add: startChildWorkflowExecutionNextHandler_def alloc_eq)

lemma runs_startChild [runs_intros]:
  assumes r: "runs h b a x"
  shows "runs h b a (snd (startChild R s ty uuid opts x))"
  using r runs_facts [OF r]
  by (auto simp: startChild_def Let_def alloc_eq next_seq_eq case_prod_unfold plain_new_eq
      intro!: runs_intros runs_startChildNextHandler plain_startChildNextHandler)

lemma runs_executeChild [runs_intros]:
  assumes r: "runs h b a x"
  shows "runs h b a (snd (executeChild R s ty uuid opts x))"
  using r runs_facts [OF r]
  by (auto simp: executeChild_def Let_def alloc_eq next_seq_eq case_prod_unfold plain_new_eq
      intro!: runs_intros runs_startChildNextHandler plain_startChildNextHandler)

lemma runs_signalWorkflowOut [runs_intros]:
  assumes r: "runs h b a x"
  shows "runs h b a (snd (signalWorkflowOut R s name args t x))"
  using r runs_facts [OF r]
  by (auto simp: signalWorkflowOut_def signalWorkflowNextHandlerOut_def next_seq_eq alloc_eq Let_def plain_new_eq
      split: sum.split intro!: runs_intros runs_start_operation [where k = KSignal])

lemma runs_patchInternal [runs_intros]:
  assumes r: "runs h b a x"
  shows "runs h b a (snd (patchInternal p d x))"
  using r by (auto simp: patchInternal_def Let_def intro: runs_eff eff_push_patch)

lemma patchInternal_fields [simp]:
  "plain (snd (patchInternal p d x)) = plain x" "nextSeqs (snd (patchInternal p d x)) = nextSeqs x"
  "scopes_ok (snd (patchInternal p d x)) = scopes_ok x"
  "length (cells (heap (snd (patchInternal p d x)))) = length (cells (heap x))"
  by (simp_all add: patchInternal_def Let_def scopes_ok_def)

lemma runs_request_cancel_external [runs_intros]:
  assumes r: "runs h b a x" and "p \<in> plain x"
  shows "runs h b a (request_cancel_external R wid rid p x)"
  using assms runs_facts [OF r]
  by (auto simp: request_cancel_external_def next_seq_eq intro!: runs_intros runs_start_operation [where k = KCancel])

lemma runs_cancelExternal [runs_intros]:
  assumes r: "runs h b a x"
  shows "runs h b a (snd (cancelExternal R s wid rid x))"
proof -
  let ?p = "length (cells (heap x))"
  let ?x = "on_cancel_if_cancellable s (RExternalCancel ?p) (new_cell False x)"
  have p: "?p \<in> plain ?x" using runs_facts [OF r] by (simp add: plain_new_eq)
  have r1: "runs h b a ?x"
    using r p by (auto intro!: runs_intros)
  have "runs h b a (snd (patchInternal EXTERNAL_WF_CANCEL_PATCH False ?x))"
    by (intro runs_patchInternal r1)
  then show ?thesis
    using r1 p
    by (auto simp: cancelExternal_def alloc_eq Let_def case_prod_unfold split: sum.split bool.split intro!: runs_intros)
qed

lemma runs_conditionInner [runs_intros]:
  assumes r: "runs h b a x"
  shows "runs h b a (snd (conditionInner s fn x))"
proof -
  let ?p = "length (cells (heap x))"
  let ?x = "on_cancel_if_cancellable s (RConditionCancel (nextSeqs x SCondition) ?p) (bump SCondition (new_cell False x))"
  have p: "?p \<in> plain ?x" using runs_facts [OF r] by (simp add: plain_new_eq)
  have r1: "runs h b a ?x"
    using r p by (auto intro!: runs_intros)
  have u: "runs h b a (?x\<lparr>ustate := u\<rparr>)" "plain (?x\<lparr>ustate := u\<rparr>) = plain ?x" for u
    by (rule runs_frame [OF r1]) (simp_all add: same_core_def plain_def)
  have "runs h b a (?x\<lparr>ustate := u, blockedConditions := jset q \<lparr>c_fn = fn, c_promise = ?p\<rparr> (blockedConditions ?x)\<rparr>)" for u q
    using runs_block [OF u(1), of "\<lparr>c_fn = fn, c_promise = ?p\<rparr>" u q] p u(2) by simp
  then show ?thesis
    using r r1 p u runs_facts [OF r]
    by (auto simp: conditionInner_def alloc_eq next_seq_eq Let_def plain_new_eq split: sum.split prod.split intro!: runs_intros)
qed

lemma runs_self: "runs h b a x \<Longrightarrow> runs h x x x"
  by (simp add: runs_def ok_def)

lemma runs_plain: "runs h a a x \<Longrightarrow> p \<in> plain a \<Longrightarrow> p \<in> plain x"
  by (auto simp: runs_def intro: effs_plain)

lemma runs_conditionWithTimeout [runs_intros]:
  assumes r: "runs h b a x"
  shows "runs h b a (snd (conditionWithTimeout R s fn t x))"
proof -
  let ?q = "length (cells (heap x))"
  define x2 where "x2 = snd (newScope s True (new_cell False x))"
  define s' where "s' = fst (newScope s True (new_cell False x))"
  define x3 where "x3 = snd (sleep R s' t x2)"
  have r2: "runs h b a x2" unfolding x2_def by (intro runs_intros r)
  have r3: "runs h b a x3" unfolding x3_def by (intro runs_intros r2)
  have q2: "?q \<in> plain x2" unfolding x2_def using runs_facts [OF r] by (simp add: plain_new_eq)
  have q3: "?q \<in> plain x3"
    unfolding x3_def using runs_sleep [OF runs_self [OF r2]] q2 by (rule runs_plain)
  show ?thesis
  proof (cases "fst (sleep R s' t x2)")
    case (Inl e)
    have "runs h b a (rejectP ?q (WV e) (cancelScope s' x3))"
      using r3 q3 by (intro runs_intros) (simp_all add: cancelScope_def)
    with Inl show ?thesis
      by (simp add: conditionWithTimeout_def alloc_eq case_prod_unfold x2_def s'_def x3_def)
  next
    case (Inr sp)
    let ?d1 = "length (cells (heap x3))"
    define x4 where "x4 = thenP sp (RThenConst False ?d1) (new_cell False x3)"
    define x5 where "x5 = snd (conditionInner s' fn x4)"
    define cp where "cp = fst (conditionInner s' fn x4)"
    let ?d2 = "length (cells (heap x5))"
    define x6 where "x6 = thenP cp (RThenConst True ?d2) (new_cell False x5)"
    let ?race = "length (cells (heap x6))"
    have r4: "runs h b a x4" and p4: "?d1 \<in> plain x4" "?q \<in> plain x4"
      unfolding x4_def using r3 q3 runs_facts [OF r3] by (auto simp: plain_new_eq intro!: runs_intros)
    have r5: "runs h b a x5" unfolding x5_def by (intro runs_intros r4)
    have p5: "?d1 \<in> plain x5" "?q \<in> plain x5"
      unfolding x5_def using runs_plain [OF runs_conditionInner [OF runs_self [OF r4]]] p4 by auto
    have r6: "runs h b a x6" and p6: "?d2 \<in> plain x6" "?q \<in> plain x6"
      unfolding x6_def using r5 p5 runs_facts [OF r5] by (auto simp: plain_new_eq intro!: runs_intros)
    have "runs h b a (thenP ?race (RConditionFinally s' ?q)
        (thenP ?d2 (RForward ?race) (thenP ?d1 (RForward ?race) (new_cell False x6))))"
      using r6 p6 runs_facts [OF r6] by (intro runs_intros) (auto simp: plain_new_eq)
    with Inr show ?thesis
      by (simp add: conditionWithTimeout_def alloc_eq case_prod_unfold x2_def s'_def x3_def x4_def x5_def x6_def cp_def)
  qed
qed

lemma runs_condition [runs_intros]:
  assumes r: "runs h b a x"
  shows "runs h b a (snd (condition R s fn t x))"
proof -
  have p: "runs h b a (snd (patchInternal CONDITION_0_PATCH False x))"
    by (intro runs_intros r)
  show ?thesis
    using r p runs_facts [OF p]
    by (auto simp: condition_def alloc_eq case_prod_unfold plain_new_eq
        split: option.split sum.split bool.split intro!: runs_intros)
qed

lemma runs_upsert [runs_intros]:
  assumes r: "runs h b a x"
  shows "runs h b a (snd (upsertSearchAttributes R attrs x))"
proof -
  have "runs h b a (pushCommand (UpsertWorkflowSearchAttributes m) False x)" for m
    by (rule runs_push_neutral [OF r]) simp_all
  then have "runs h b a (pushCommand (UpsertWorkflowSearchAttributes m) False x\<lparr>infoSearchAttributes := z\<rparr>)" for m z
    by (rule runs_frame) (simp add: same_core_def)
  with r show ?thesis
    by (auto simp: upsertSearchAttributes_def split: sum.split)
qed

lemma runs_continueAsNew [runs_intros]:
  assumes r: "runs h b a x"
  shows "runs h b a (snd (continueAsNew R args opts x))"
  using r runs_facts [OF r] by (auto simp: continueAsNew_def alloc_eq plain_new_eq intro!: runs_intros)

lemma runs_newTrigger [runs_intros]:
  assumes r: "runs h b a x"
  shows "runs h b a (snd (newTrigger s x))"
  using r runs_facts [OF r] by (auto simp: newTrigger_def alloc_eq plain_new_eq intro!: runs_intros)

lemma runs_openScope [runs_intros]:
  assumes r: "runs h b a x"
  shows "runs h b a (snd (openScope R s can t x))"
  using r by (auto simp: openScope_def case_prod_unfold split: option.split sum.split intro!: runs_intros)

lemma runs_settle_user [runs_intros]:
  assumes r: "runs h b a x"
  shows "runs h b a (settle_user p st x)"
proof -
  have "owned (heap x) \<subseteq> plain x" using r by (simp add: runs_def ok_def targets_ok_def)
  then show ?thesis using r by (auto simp: settle_user_def owned_def intro!: runs_intros)
qed

subsection \<open>Signals and the operations that dispatch them\<close>

lemma same_core_frames [simp]:
  "same_core x (x\<lparr>calls := cs\<rparr>)" "same_core x (x\<lparr>bufferedSignals := ss\<rparr>)" "same_core x (x\<lparr>bufferedQueries := qs\<rparr>)"
  "same_core x (x\<lparr>signalHandlers := hs\<rparr>)" "same_core x (x\<lparr>defaultSignalHandler := d\<rparr>)"
  "same_core x (x\<lparr>queryHandlers := qh\<rparr>)" "same_core x (x\<lparr>ustate := u\<rparr>)" "same_core x (x\<lparr>sinkCalls := sk\<rparr>)"
  "same_core x (x\<lparr>cancelled := cn\<rparr>)" "same_core x (x\<lparr>random := rn\<rparr>)" "same_core x (x\<lparr>knownPresentPatches := ps\<rparr>)"
  "same_core x (x\<lparr>now := n\<rparr>)" "same_core x (x\<lparr>workflowFunctionWasCalled := w\<rparr>)"
  "same_core x (x\<lparr>isReplaying := ir, historyLength := hl\<rparr>)"
  "same_core x (x\<lparr>workflowFunctionWasCalled := w, bufferedQueries := qs\<rparr>)"
  by (simp_all add: same_core_def)

lemma runs_calls [runs_intros]: "runs h b a x \<Longrightarrow> runs h b a (x\<lparr>calls := cs\<rparr>)"
  by (erule runs_frame) simp

lemma runs_bufferedSignals [runs_intros]: "runs h b a x \<Longrightarrow> runs h b a (x\<lparr>bufferedSignals := ss\<rparr>)"
  by (erule runs_frame) simp

lemma plain_calls [simp]: "plain (x\<lparr>calls := cs\<rparr>) = plain x" "plain (x\<lparr>bufferedSignals := ss\<rparr>) = plain x"
  by (simp_all add: plain_def)

lemma runs_signalWorkflow [runs_intros]:
  assumes r: "runs h b a x"
  shows "runs h b a (snd (snd (signalWorkflow R j x)))"
  using r runs_facts [OF r]
  by (auto simp: signalWorkflow_def signalWorkflowNextHandler_def alloc_eq plain_new_eq split: option.split sum.split
      intro!: runs_intros)

lemma runs_dispatch_one:
  assumes r: "runs h b a x" and d: "dispatch_one R x = Some (c, t, y)"
  shows "runs h b a y"
proof -
  from d obtain s rest where "signalWorkflow R s (x\<lparr>bufferedSignals := rest\<rparr>) = (c, t, y)"
    by (auto simp: dispatch_one_def split: option.splits)
  then have y: "y = snd (snd (signalWorkflow R s (x\<lparr>bufferedSignals := rest\<rparr>)))" by simp
  show ?thesis
    unfolding y by (intro runs_signalWorkflow runs_bufferedSignals r)
qed

lemma runs_dispatch_rest [runs_intros]: "runs h b a x \<Longrightarrow> runs h b a (snd (dispatch_rest R x))"
proof (induction R x rule: dispatch_rest.induct)
  case (1 R x)
  show ?case
  proof (cases "dispatch_one R x")
    case None
    with 1 show ?thesis by (simp add: dispatch_rest.simps [of R x])
  next
    case (Some y)
    obtain c t z where y: "y = (c, t, z)" by (cases y)
    have "runs h b a z" using runs_dispatch_one [OF "1.prems"] Some y by blast
    with Some y 1 show ?thesis
      by (cases t) (simp_all add: dispatch_rest.simps [of R x])
  qed
qed

lemma api_snd [simp]:
  "snd (api_res r) = snd r" "snd (api_pid r') = snd r'" "snd (api_thrown t) = snd t" "snd (api_bool u) = snd u"
  by (simp_all add: api_res_def api_pid_def api_thrown_def api_bool_def)

lemma runs_exec:
  "runs h b a x \<Longrightarrow> runs h b a (snd (exec_op R op x))"
  "runs h b a x \<Longrightarrow> runs h b a (exec_ops R ops x)"
  "runs h b a x \<Longrightarrow> runs h b a (snd (dispatchBufferedSignals R segs x))"
proof (induction R op x and R ops x and R segs x rule: exec_op_exec_ops_dispatchBufferedSignals.induct)
  case (18 R name segs x)
  then have "runs h b a (addSignalHandler name x)"
    by (auto simp: addSignalHandler_def intro: runs_frame)
  with 18 show ?case by simp
next
  case (22 R segs x)
  then have "runs h b a (x\<lparr>defaultSignalHandler := True\<rparr>)"
    by (auto intro: runs_frame)
  with 22 show ?case by simp
next
  case (31 R seg segs x)
  show ?case
  proof (cases "dispatch_one R x")
    case None
    with 31 show ?thesis by simp
  next
    case (Some y)
    obtain c t z where y: "y = (c, t, z)" by (cases y)
    have "runs h b a z" using runs_dispatch_one [OF "31.prems"] Some y by blast
    with Some y 31 show ?thesis by (cases t) simp_all
  qed
qed (auto simp: case_prod_unfold setQueryHandler_def deleteQueryHandler_def deleteSignalHandler_def sink_call_def
       intro!: runs_intros intro: runs_frame)

subsection \<open>Reactions\<close>

lemma runs_on_rejected:
  "runs h b a x \<Longrightarrow> (\<And>e. st = Rejected e \<Longrightarrow> runs h b a (f e x)) \<Longrightarrow> runs h b a (on_rejected st f x)"
  by (simp add: on_rejected_def split: settlement.split)

lemma runs_cancel_pending [runs_intros]:
  "runs h b a x \<Longrightarrow> cancel_of c = Some (compl_seq k, seq) \<Longrightarrow> k \<notin> {KTimer, KChildComplete} \<Longrightarrow>
   runs h b a (cancel_pending k seq c x)"
  by (auto simp: cancel_pending_def intro: runs_push_cancel)

lemma runs_child_cancel [runs_intros]:
  "runs h b a x \<Longrightarrow> runs h b a (cancel_pending KChildComplete seq (CancelChildWorkflowExecution seq) x)"
  by (auto simp: cancel_pending_def intro: runs_push_neutral)

lemma runs_timer_cancel [runs_intros]:
  "runs h b a x \<Longrightarrow> p \<in> plain x \<Longrightarrow> runs h b a (timer_cancel seq p e x)"
  by (auto simp: timer_cancel_def intro!: runs_intros runs_push_neutral)

lemma runs_condition_cancel [runs_intros]:
  "runs h b a x \<Longrightarrow> p \<in> plain x \<Longrightarrow> runs h b a (condition_cancel seq p e x)"
  by (auto simp: condition_cancel_def intro!: runs_reject runs_unblock)

lemma runs_external_cancel_reaction [runs_intros]:
  assumes r: "runs h b a x" and "p \<in> plain x"
  shows "runs h b a (external_cancel_reaction p e x)"
proof -
  have "runs h b a (snd (patchInternal EXTERNAL_WF_CANCEL_PATCH False x))"
    by (intro runs_intros r)
  with assms show ?thesis
    by (auto simp: external_cancel_reaction_def case_prod_unfold split: sum.split bool.split intro!: runs_intros)
qed

lemma runs_handleWorkflowFailure [runs_intros]: "runs h b a x \<Longrightarrow> runs h b a (handleWorkflowFailure R e x)"
  by (auto simp: handleWorkflowFailure_def split: wval.split sum.split intro!: runs_intros runs_push_terminal)

lemma runs_completeWorkflow [runs_intros]: "runs h b a x \<Longrightarrow> runs h b a (completeWorkflow R v x)"
  by (auto simp: completeWorkflow_def split: sum.split intro!: runs_intros runs_push_terminal)

lemma runs_completeQuery [runs_intros]: "runs h b a x \<Longrightarrow> runs h b a (completeQuery R q v x)"
  by (auto simp: completeQuery_def split: sum.split intro!: runs_intros runs_push_neutral)

lemma runs_failQuery [runs_intros]: "runs h b a x \<Longrightarrow> runs h b a (failQuery R q e x)"
  by (auto simp: failQuery_def split: sum.split intro!: runs_intros runs_push_neutral)

lemma runs_local_retry [runs_intros]:
  assumes r: "runs h b a x" and q: "q \<in> plain x"
  shows "runs h b a (local_retry R s ty args opts q st x)"
proof -
  have sl: "runs h b a (snd (sleep R s d x))" "q \<in> plain (snd (sleep R s d x))" for d
    using runs_sleep [OF r] runs_plain [OF runs_sleep [OF runs_self [OF r]] q] by auto
  show ?thesis
    using r q sl
    by (auto simp: local_retry_def case_prod_unfold split: settlement.split wval.split sum.split intro!: runs_intros)
qed

lemma runs_local_resume [runs_intros]:
  "runs h b a x \<Longrightarrow> q \<in> plain x \<Longrightarrow> runs h b a (local_resume R s ty args opts bo q st x)"
  by (auto simp: local_resume_def split: settlement.split option.split intro!: runs_intros)

lemma runs_reaction:
  assumes "runs h b a x" and "set (targets r) \<subseteq> plain x" and "\<forall>s. r \<noteq> RScopeReject s"
  shows "runs h b a (run_reaction R r st x)"
  using assms
  by (cases r)
    (auto split: settlement.split wval.split simp: cancelScope_def intro!: runs_on_rejected runs_intros runs_queue)

text \<open>A reaction taken from the queue runs in a state without it.\<close>

lemma ok_take:
  assumes "ok h b a" shows "ok h b (on_heap (take_microtask i) a)"
  using assms by (auto simp: ok_def targets_ok_take scopes_ok_take)

lemma runs_taken_reaction:
  assumes ok: "ok h b a" and i: "i < length (microtasks (heap a))" and m: "microtasks (heap a) ! i = (r, st)"
  shows "runs h b (on_heap (take_microtask i) a) (run_reaction R r st (on_heap (take_microtask i) a))"
proof (cases "\<exists>s. r = RScopeReject s")
  case True
  then show ?thesis
    using ok_take [OF ok, of i] by (auto intro!: runs_on_rejected runs_intros)
next
  case False
  have "r \<in> pending_reactions (heap a)"
    using nth_mem [OF i] m by (force simp: pending_reactions_def)
  then have "set (targets r) \<subseteq> plain (on_heap (take_microtask i) a)"
    using ok by (simp add: ok_def targets_ok_def)
  then show ?thesis
    using False by (intro runs_reaction runs_refl ok_take [OF ok]) auto
qed

subsection \<open>Jobs and activations\<close>

lemma runs_unblock_pass:
  "runs h b a x \<Longrightarrow> (\<forall>e \<in> set cs. c_promise (snd e) \<in> plain x) \<Longrightarrow> runs h b a (snd (unblock_pass cs x))"
proof (induction cs x rule: unblock_pass.induct)
  case (2 seq c cs x)
  have u: "runs h b a (x\<lparr>ustate := u\<rparr>)" "plain (x\<lparr>ustate := u\<rparr>) = plain x" for u
    by (rule runs_frame [OF "2.prems"(1)]) (simp_all add: plain_def)
  show ?case
  proof (cases "c_fn c (ustate x)")
    case (Inr y)
    obtain bb v where y: "y = (bb, v)" by (cases y)
    show ?thesis
    proof (cases bb)
      case True
      let ?y = "resolveP (c_promise c) WUndefined (x\<lparr>ustate := v\<rparr>)"
      have "runs h b a (?y\<lparr>blockedConditions := jdelete seq (blockedConditions ?y)\<rparr>)"
        using u(1) "2.prems"(2) u(2) by (intro runs_unblock runs_resolve) auto
      moreover have "blockedConditions ?y = blockedConditions x" by (simp add: resolveP_def)
      ultimately show ?thesis
        using "2.IH"(1) [OF Inr y [symmetric] True] "2.prems"(2) u(2) Inr y True
        by (auto split: sum.split prod.split)
    next
      case False
      with "2.IH"(2) [OF Inr y [symmetric] False] "2.prems"(2) u Inr y show ?thesis by auto
    qed
  qed (use "2.prems" in simp)
qed simp

lemma runs_tryUnblockConditions [runs_intros]: "runs h b a x \<Longrightarrow> runs h b a (snd (tryUnblockConditions x))"
proof (induction x rule: tryUnblockConditions.induct)
  case (1 x)
  obtain r y where p: "unblock_pass (blockedConditions x) x = (r, y)" by fastforce
  have "\<forall>e \<in> set (blockedConditions x). c_promise (snd e) \<in> plain x"
    using "1.prems" by (simp add: runs_def ok_def targets_ok_def)
  with runs_unblock_pass [OF "1.prems", of "blockedConditions x"] p have y: "runs h b a y" by simp
  show ?case
  proof (cases r)
    case (Inr n)
    with y p "1.IH" [OF p [symmetric] Inr] show ?thesis
      by (cases n) (auto simp: tryUnblockConditions.simps [of x] split: sum.split prod.split)
  qed (use y p in \<open>simp add: tryUnblockConditions.simps [of x]\<close>)
qed

lemma completion_plain:
  assumes "runs h b a x" and "jget (completions x k) seq = Some p"
  shows "p \<in> plain x"
proof -
  have "(seq, p) \<in> set (completions x k)" using assms(2) by (rule jget_Some_in)
  moreover have "\<forall>k. \<forall>e \<in> set (completions x k). snd e \<in> plain x"
    using assms(1) by (simp add: runs_def ok_def targets_ok_def)
  ultimately show ?thesis by force
qed

lemma runs_with_completion:
  assumes r: "runs h b a x"
    and f: "\<And>p y. runs h b a y \<Longrightarrow> p \<in> plain y \<Longrightarrow> runs h b a (snd (f p y))"
  shows "runs h b a (snd (with_completion k s f x))"
  using r completion_plain [OF r]
  by (auto simp: with_completion_def getSeq_def consumeCompletion_def maybeConsumeCompletion_def
      split: option.split intro!: f runs_intros)

lemma runs_reject_failure [runs_intros]:
  "runs h b a x \<Longrightarrow> p \<in> plain x \<Longrightarrow> runs h b a (snd (reject_failure R f p x))"
  by (auto simp: reject_failure_def split: sum.split intro!: runs_intros)

lemma runs_resolve_payload [runs_intros]:
  "runs h b a x \<Longrightarrow> p \<in> plain x \<Longrightarrow> runs h b a (snd (resolve_payload R r p x))"
  by (auto simp: resolve_payload_def split: option.split sum.split intro!: runs_intros)

lemma runs_activity_outcome [runs_intros]:
  "runs h b a x \<Longrightarrow> p \<in> plain x \<Longrightarrow> runs h b a (snd (activity_outcome R ar p x))"
  by (cases ar) (auto split: option.split intro!: runs_intros)

lemma runs_child_start_outcome [runs_intros]:
  "runs h b a x \<Longrightarrow> p \<in> plain x \<Longrightarrow> runs h b a (snd (child_start_outcome R s cs p x))"
  by (cases cs) (auto split: option.split intro!: runs_intros)

lemma runs_child_outcome [runs_intros]:
  "runs h b a x \<Longrightarrow> p \<in> plain x \<Longrightarrow> runs h b a (snd (child_outcome R ar p x))"
  by (cases ar) (auto split: option.split intro!: runs_intros)

lemma runs_external_outcome [runs_intros]:
  "runs h b a x \<Longrightarrow> p \<in> plain x \<Longrightarrow> runs h b a (snd (external_outcome R f p x))"
  by (auto simp: external_outcome_def split: option.split intro!: runs_intros)

lemma runs_fireTimer [runs_intros]:
  assumes r: "runs h b a x"
  shows "runs h b a (snd (fireTimer s x))"
  using r completion_plain [OF r]
  by (auto simp: fireTimer_def getSeq_def maybeConsumeCompletion_def split: option.split intro!: runs_intros)

lemma runs_resolveActivity [runs_intros]:
  assumes r: "runs h b a x"
  shows "runs h b a (snd (resolveActivity R s ar x))"
  using r by (auto simp: resolveActivity_def split: option.split intro!: runs_with_completion runs_activity_outcome)

lemma runs_resolveChild [runs_intros]:
  assumes r: "runs h b a x"
  shows "runs h b a (snd (resolveChildWorkflowExecution R s ar x))"
  using r by (auto simp: resolveChildWorkflowExecution_def split: option.split
      intro!: runs_with_completion runs_child_outcome)

lemma runs_resolveChildStart [runs_intros]:
  assumes r: "runs h b a x"
  shows "runs h b a (snd (resolveChildWorkflowExecutionStart R s cs x))"
  unfolding resolveChildWorkflowExecutionStart_def
  by (intro runs_with_completion r runs_child_start_outcome)

lemma runs_resolveSignalExternal [runs_intros]:
  assumes r: "runs h b a x"
  shows "runs h b a (snd (resolveSignalExternalWorkflow R s f x))"
  unfolding resolveSignalExternalWorkflow_def by (intro runs_with_completion r runs_external_outcome)

lemma runs_resolveRequestCancel [runs_intros]:
  assumes r: "runs h b a x"
  shows "runs h b a (snd (resolveRequestCancelExternalWorkflow R s f x))"
  unfolding resolveRequestCancelExternalWorkflow_def by (intro runs_with_completion r runs_external_outcome)

lemma runs_queryWorkflow [runs_intros]:
  assumes r: "runs h b a x"
  shows "runs h b a (snd (queryWorkflow R q x))"
proof -
  have "runs h b a (x\<lparr>bufferedQueries := qs\<rparr>)" for qs by (rule runs_frame [OF r]) simp
  then show ?thesis
    using r runs_facts [OF r]
    by (auto simp: queryWorkflow_def alloc_eq plain_new_eq split: option.split sum.split intro!: runs_intros)
qed

lemma runs_flush_queries [runs_intros]: "runs h b a x \<Longrightarrow> runs h b a (snd (flush_queries R qs x))"
proof (induction R qs x rule: flush_queries.induct)
  case (2 R q qs x)
  have "runs h b a (snd (queryWorkflow R q x))" by (intro runs_intros 2)
  with 2 show ?case by (auto split: prod.split option.split)
qed simp

lemma runs_after_workflow_call [runs_intros]:
  assumes r: "runs h b a x"
  shows "runs h b a (snd (after_workflow_call R p x))"
proof -
  obtain t z where z: "flush_queries R (bufferedQueries x) (x\<lparr>workflowFunctionWasCalled := True, bufferedQueries := []\<rparr>) = (t, z)"
    by fastforce
  have "runs h b a (snd (flush_queries R (bufferedQueries x) (x\<lparr>workflowFunctionWasCalled := True, bufferedQueries := []\<rparr>)))"
    by (intro runs_flush_queries runs_frame [OF r]) simp
  with z have rz: "runs h b a z" by simp
  then show ?thesis
    using z runs_facts [OF rz]
    by (auto simp: after_workflow_call_def alloc_eq plain_new_eq split: option.split intro!: runs_intros)
qed

lemma runs_startWorkflow [runs_intros]:
  assumes r: "runs h b a x"
  shows "runs h b a (snd (startWorkflow R args ops x))"
  using r runs_facts [OF r]
  by (auto simp: startWorkflow_def alloc_eq plain_new_eq split: sum.split
      intro!: runs_after_workflow_call runs_exec runs_intros)

lemma runs_run_job [runs_intros]:
  assumes r: "runs h b a x"
  shows "runs h b a (snd (run_job R j ops x))"
proof (cases j)
  case (JSignalWorkflow sj)
  obtain c t y where sw: "signalWorkflow R sj x = (c, t, y)" by (metis prod_cases3)
  with runs_signalWorkflow [OF r, of R sj] have "runs h b a y" by simp
  with JSignalWorkflow sw show ?thesis by (auto intro: runs_exec)
next
  case JCancelWorkflow
  have "runs h b a (x\<lparr>cancelled := True\<rparr>)" by (rule runs_frame [OF r]) simp
  with JCancelWorkflow show ?thesis by (auto simp: cancelWorkflow_def intro!: runs_intros)
next
  case (JUpdateRandomSeed s)
  with r show ?thesis by (auto simp: updateRandomSeed_def split: option.split intro: runs_frame)
next
  case (JNotifyHasPatch p)
  with r show ?thesis by (auto simp: notifyHasPatch_def intro: runs_frame)
qed (auto simp: removeFromCache_def r intro!: runs_intros)

lemma runs_activate_jobs [runs_intros]: "runs h b a x \<Longrightarrow> runs h b a (snd (activate_jobs R js x))"
proof (induction R js x rule: activate_jobs.induct)
  case (2 R j ops js x)
  obtain t y where j: "run_job R j ops x = (t, y)" by fastforce
  have y: "runs h b a y" using runs_run_job [OF "2.prems", of R j ops] j by simp
  obtain u z where z: "tryUnblockConditions y = (u, z)" by fastforce
  have "runs h b a z" using runs_tryUnblockConditions [OF y] z by simp
  with 2 j y z show ?case by (auto split: option.split sum.split)
qed simp

lemma runs_activate [runs_intros]:
  assumes r: "runs h b a x"
  shows "runs h b a (snd (activate R i n js x))"
proof -
  have "runs h b a (x\<lparr>now := t\<rparr>)" "runs h b a (x\<lparr>isReplaying := rp, historyLength := l\<rparr>)"
    "runs h b a (x\<lparr>now := t, isReplaying := rp, historyLength := l\<rparr>)" for t rp l
    by (rule runs_frame [OF r], simp add: same_core_def)+
  then have b: "runs h b a (snd (begin_activation R i x))"
    using r by (auto simp: begin_activation_def split: option.split sum.split)
  obtain t y where y: "(if n = 0 then begin_activation R i x else (None, x)) = (t, y)" by fastforce
  with b r have "runs h b a y" by (auto split: if_splits)
  then show ?thesis
    using y by (auto simp: activate_def split: option.split intro!: runs_intros)
qed

end
