(* ===== verification/Runtime_Invariants.thy ===== *)
theory Runtime_Invariants
  imports Runtime_Refinement
begin

text \<open>
  The invariants of the runtime, proved once for the elementary effects: the shape of the command
  log, the bookkeeping of completions, and the propagation of cancellation through the scopes.
\<close>

subsection \<open>The command log\<close>

text \<open>Cancellations follow the command they cancel; nothing but answers to queries follows the end
  of the workflow; sequence numbers and patch markers are not repeated.\<close>

definition starts :: "command list \<Rightarrow> (seq_kind \<times> nat) list" where
  "starts cs = List.map_filter start_of cs"

definition patches :: "command list \<Rightarrow> string list" where
  "patches cs = List.map_filter patch_of cs"

definition cancels_follow :: "command list \<Rightarrow> bool" where
  "cancels_follow cs \<longleftrightarrow> (\<forall>pre c post x. cs = pre @ c # post \<longrightarrow> cancel_of c = Some x \<longrightarrow> x \<in> set (starts pre))"

definition ends_once :: "command list \<Rightarrow> bool" where
  "ends_once cs \<longleftrightarrow> (\<forall>pre c post. cs = pre @ c # post \<longrightarrow> terminal c \<longrightarrow> list_all isQueryResponse post)"

lemma snoc_split: "cs @ [c] = pre @ d # post \<longleftrightarrow>
    (post = [] \<and> pre = cs \<and> d = c) \<or> (\<exists>p. post = p @ [c] \<and> cs = pre @ d # p)"
  by (cases post rule: rev_cases) auto

lemma map_filter_snoc: "List.map_filter f (xs @ [x]) = List.map_filter f xs @ (case f x of None \<Rightarrow> [] | Some y \<Rightarrow> [y])"
  by (simp add: List.map_filter_def split: option.split)

lemma in_map_filter: "y \<in> set (List.map_filter f xs) \<longleftrightarrow> (\<exists>x \<in> set xs. f x = Some y)"
  by (force simp: List.map_filter_def)

lemma starts_snoc: "starts (cs @ [c]) = starts cs @ (case start_of c of None \<Rightarrow> [] | Some y \<Rightarrow> [y])"
  by (simp add: starts_def map_filter_snoc)

lemma patches_snoc: "patches (cs @ [c]) = patches cs @ (case patch_of c of None \<Rightarrow> [] | Some y \<Rightarrow> [y])"
  by (simp add: patches_def map_filter_snoc)

lemma in_starts: "(k, s) \<in> set (starts (h @ commands a)) \<longleftrightarrow> used h a k s"
  by (simp add: starts_def in_map_filter used_def)

lemma cancels_follow_snoc:
  "cancels_follow (cs @ [c]) \<longleftrightarrow> cancels_follow cs \<and> (\<forall>x. cancel_of c = Some x \<longrightarrow> x \<in> set (starts cs))"
  by (auto simp: cancels_follow_def snoc_split)

lemma ends_once_snoc:
  "ends_once (cs @ [c]) \<longleftrightarrow> ends_once cs \<and> (isQueryResponse c \<or> (\<forall>d \<in> set cs. \<not> terminal d))"
proof
  assume e: "ends_once (cs @ [c])"
  have tail: "list_all isQueryResponse (p @ [c])" if "cs = pre @ d # p" "terminal d" for pre d p
    using e that unfolding ends_once_def by (metis append_Cons append_assoc)
  have "ends_once cs"
    unfolding ends_once_def
  proof (intro allI impI)
    fix pre d p
    assume "cs = pre @ d # p" and "terminal d"
    from tail [OF this] show "list_all isQueryResponse p" by simp
  qed
  moreover have "isQueryResponse c" if "d \<in> set cs" "terminal d" for d
    using split_list [OF that(1)] tail that(2) by fastforce
  ultimately show "ends_once cs \<and> (isQueryResponse c \<or> (\<forall>d \<in> set cs. \<not> terminal d))" by blast
next
  assume r: "ends_once cs \<and> (isQueryResponse c \<or> (\<forall>d \<in> set cs. \<not> terminal d))"
  show "ends_once (cs @ [c])"
    unfolding ends_once_def
  proof (intro allI impI)
    fix pre d post
    assume s: "cs @ [c] = pre @ d # post" and t: "terminal d"
    from s consider "post = []" | p where "post = p @ [c]" "cs = pre @ d # p"
      by (auto simp: snoc_split)
    then show "list_all isQueryResponse post"
    proof cases
      case 2
      then have "list_all isQueryResponse p" using r t unfolding ends_once_def by blast
      moreover have "isQueryResponse c" using r t 2 by auto
      ultimately show ?thesis using 2 by simp
    qed simp
  qed
qed

definition log_ok :: "command list \<Rightarrow> 'u act \<Rightarrow> bool" where
  "log_ok h a \<longleftrightarrow>
     distinct (starts (h @ commands a)) \<and> cancels_follow (h @ commands a) \<and> ends_once (h @ commands a) \<and>
     distinct (patches (h @ commands a)) \<and> set (patches (h @ commands a)) \<subseteq> set (sentPatches a) \<and>
     (completed a \<longleftrightarrow> (\<exists>c \<in> set (h @ commands a). terminal c)) \<and>
     (\<forall>k seq. k \<notin> {KTimer, KChildComplete} \<longrightarrow> jhas (completions a k) seq \<longrightarrow> completed a \<or> used h a (compl_seq k) seq)"

lemma terminal_not_response: "terminal c \<Longrightarrow> \<not> isQueryResponse c"
  by (cases c) auto

lemma terminal_neutral: "terminal c \<Longrightarrow> start_of c = None \<and> cancel_of c = None \<and> patch_of c = None"
  by (cases c) auto

lemma start_neutral: "start_of c = Some x \<Longrightarrow> cancel_of c = None \<and> patch_of c = None \<and> \<not> terminal c \<and> \<not> isQueryResponse c"
  by (cases c) auto

lemma cancel_neutral: "cancel_of c = Some x \<Longrightarrow> start_of c = None \<and> patch_of c = None \<and> \<not> terminal c \<and> \<not> isQueryResponse c"
  by (cases c) auto

text \<open>A command that the buffer takes.\<close>

lemma log_ok_push:
  assumes l: "log_ok h a" and "\<not> completed a \<or> isQueryResponse c"
    and "\<And>x. start_of c = Some x \<Longrightarrow> x \<notin> set (starts (h @ commands a))"
    and "\<And>x. cancel_of c = Some x \<Longrightarrow> x \<in> set (starts (h @ commands a))"
    and "terminal c = t" and "patch_of c = None"
  shows "log_ok h (pushCommand c t a)"
proof -
  have cmds: "h @ commands (pushCommand c t a) = (h @ commands a) @ [c]"
    using assms(2) by (simp add: commands_pushCommand)
  show ?thesis
    using assms terminal_not_response [of c]
    unfolding log_ok_def cmds
    by (auto simp del: append_assoc simp: starts_snoc patches_snoc cancels_follow_snoc ends_once_snoc used_pushCommand
        split: option.split)
qed

lemma log_ok_dropped: "log_ok h a \<Longrightarrow> completed a \<Longrightarrow> \<not> isQueryResponse c \<Longrightarrow> log_ok h (pushCommand c t a)"
  by (simp add: pushCommand_def log_ok_def)

lemma log_ok_same:
  assumes l: "log_ok h a" and c: "commands a' = commands a" and d: "completed a' = completed a"
    and p: "set (sentPatches a) \<subseteq> set (sentPatches a')"
    and k: "\<And>k seq. k \<notin> {KTimer, KChildComplete} \<Longrightarrow> jhas (completions a' k) seq \<Longrightarrow>
      jhas (completions a k) seq \<or> completed a \<or> used h a (compl_seq k) seq"
  shows "log_ok h a'"
proof -
  have u: "used h a' = used h a" by (simp add: used_def [abs_def] c)
  have "completed a \<or> used h a (compl_seq j) seq" if "j \<notin> {KTimer, KChildComplete}" "jhas (completions a' j) seq" for j seq
    using k [OF that] l that(1) unfolding log_ok_def by blast
  with l p show ?thesis unfolding log_ok_def c d u by blast
qed

lemma jhas_laws: "jhas (jset k v m) j \<longleftrightarrow> j = k \<or> jhas m j" "jhas (jdelete k m) j \<longleftrightarrow> j \<noteq> k \<and> jhas m j"
  by (simp_all add: jhas_def map_laws)

lemma log_ok_patch:
  assumes l: "log_ok h a" and p: "p \<notin> set (sentPatches a)"
  shows "log_ok h ((pushCommand (SetPatchMarker p d) False a)\<lparr>sentPatches := sentPatches a @ [p]\<rparr>)"
proof (cases "completed a")
  case True
  with l show ?thesis by (simp add: pushCommand_def log_ok_def used_def) blast
next
  case False
  let ?a = "(pushCommand (SetPatchMarker p d) False a)\<lparr>sentPatches := sentPatches a @ [p]\<rparr>"
  have cmds: "h @ commands ?a = (h @ commands a) @ [SetPatchMarker p d]"
    using False by (simp add: commands_pushCommand)
  show ?thesis
    using l p False unfolding log_ok_def cmds
    by (auto simp del: append_assoc simp: starts_snoc patches_snoc cancels_follow_snoc ends_once_snoc used_pushCommand)
qed

lemma eff_log_ok:
  assumes "eff h b a a'" and l: "log_ok h a"
  shows "log_ok h a'"
  using assms(1)
proof cases
  case (eff_push_start c k seq)
  show ?thesis
  proof (cases "completed a")
    case True
    with eff_push_start l start_neutral [OF eff_push_start(2)] show ?thesis by (simp add: log_ok_dropped)
  next
    case False
    with eff_push_start l start_neutral [OF eff_push_start(2)] show ?thesis
      by (auto intro!: log_ok_push simp: in_starts)
  qed
next
  case (eff_push_cancel c k seq)
  show ?thesis
  proof (cases "completed a")
    case True
    with eff_push_cancel l cancel_neutral [OF eff_push_cancel(2)] show ?thesis by (simp add: log_ok_dropped)
  next
    case False
    with l eff_push_cancel have "used h a (compl_seq k) seq" by (simp add: log_ok_def)
    with False eff_push_cancel l cancel_neutral [OF eff_push_cancel(2)] show ?thesis
      by (auto intro!: log_ok_push simp: in_starts)
  qed
next
  case (eff_push_neutral c)
  then show ?thesis
    using l log_ok_dropped [OF l, of c False] log_ok_push [OF l, of c False]
    by (cases "completed a \<and> \<not> isQueryResponse c") auto
next
  case (eff_push_terminal c)
  then show ?thesis
    using l log_ok_dropped [OF l, of c True] log_ok_push [OF l, of c True] terminal_neutral [of c] terminal_not_response [of c]
    by (cases "completed a") auto
next
  case (eff_push_patch p d)
  with log_ok_patch [OF l] show ?thesis by simp
next
  case (eff_set_completion k seq p)
  then show ?thesis by (auto intro!: log_ok_same [OF l] simp: jhas_laws split: if_splits)
next
  case (eff_del_completion k seq)
  then show ?thesis by (auto intro!: log_ok_same [OF l] simp: jhas_laws split: if_splits)
next
  case eff_frame
  then show ?thesis by (auto intro!: log_ok_same [OF l] simp: same_core_def)
qed (auto intro!: log_ok_same [OF l])

subsection \<open>Completions\<close>

text \<open>A sequence number allocated before the step whose completion is gone stays without one.\<close>

lemma eff_consumed:
  "eff h b a a' \<Longrightarrow> seq < nextSeqs b (compl_seq k) \<Longrightarrow> \<not> jhas (completions a k) seq \<Longrightarrow> \<not> jhas (completions a' k) seq"
  by (induction rule: eff.induct)
    (auto simp: jhas_laws same_core_def split: if_splits)

lemma effs_consumed:
  "effs h b a a' \<Longrightarrow> seq < nextSeqs b (compl_seq k) \<Longrightarrow> \<not> jhas (completions a k) seq \<Longrightarrow> \<not> jhas (completions a' k) seq"
  by (induction rule: rtranclp_induct) (auto dest: eff_consumed)

lemma effs_nextSeqs: "effs h b a a' \<Longrightarrow> nextSeqs a k \<le> nextSeqs a' k"
  by (induction rule: rtranclp_induct) (auto dest: eff_nextSeqs intro: le_trans)

lemma effs_log_ok: "effs h b a a' \<Longrightarrow> log_ok h a \<Longrightarrow> log_ok h a'"
  by (induction rule: rtranclp_induct) (auto dest: eff_log_ok)

subsection \<open>Scopes\<close>

text \<open>
  A scope comes after its parent; its own rejection is linked to the parent's or has happened; its
  promise is never resolved; its flag says that it was cancelled, or copies the parent's.
\<close>

definition scope_promise :: "'u act \<Rightarrow> nat \<Rightarrow> pid" where
  "scope_promise a s = sc_promise (scopes a ! s)"

definition scope_link :: "'u act \<Rightarrow> nat \<Rightarrow> bool" where
  "scope_link a s \<longleftrightarrow> (\<forall>q. sc_parent (scopes a ! s) = Some q \<longrightarrow> q < s \<and>
     (linked (heap a) (scope_promise a q) (RScopeReject s) \<or> outcome (heap a) (scope_promise a s) \<noteq> None))"

definition flag_ok :: "'u act \<Rightarrow> nat \<Rightarrow> bool" where
  "flag_ok a s \<longleftrightarrow> (outcome (heap a) (scope_promise a s) \<noteq> None \<longrightarrow> sc_flag (scopes a ! s)) \<and>
     (sc_flag (scopes a ! s) \<longrightarrow> outcome (heap a) (scope_promise a s) \<noteq> None \<or>
        (\<exists>q < s. sc_parent (scopes a ! s) = Some q \<and> sc_flag (scopes a ! q)))"

definition rejected_only :: "'u act \<Rightarrow> bool" where
  "rejected_only a \<longleftrightarrow>
     (\<forall>s < length (scopes a). \<forall>v. outcome (heap a) (scope_promise a s) \<noteq> Some (Resolved v)) \<and>
     (\<forall>s v. (RScopeReject s, Resolved v) \<notin> set (microtasks (heap a))) \<and>
     (\<forall>p < length (cells (heap a)). \<forall>s. RScopeReject s \<in> set (reactions (cells (heap a) ! p)) \<longrightarrow>
        p \<in> sc_promise ` set (scopes a))"

definition scopes_inv :: "'u act \<Rightarrow> bool" where
  "scopes_inv a \<longleftrightarrow> (\<forall>s < length (scopes a). scope_link a s \<and> flag_ok a s) \<and> rejected_only a \<and>
     distinct (map sc_promise (scopes a))"

lemma scope_promise_in: "s < length (scopes a) \<Longrightarrow> scope_promise a s \<in> sc_promise ` set (scopes a)"
  by (simp add: scope_promise_def)

lemma scope_not_plain: "s < length (scopes a) \<Longrightarrow> p \<in> plain a \<Longrightarrow> scope_promise a s \<noteq> p"
  using scope_promise_in [of s a] by (auto simp: plain_def)

lemma outcome_settle_other: "q \<noteq> p \<Longrightarrow> outcome (settle p st h) q = outcome h q"
  by (simp add: outcome_def settle_def)

lemma outcome_then_do [simp]: "outcome (then_do p r h) q = outcome h q"
  by (auto simp: outcome_def then_do_def nth_list_update split: option.split)

lemma outcome_new [simp]: "outcome (snd (new_promise own h)) q = outcome h q"
  by (auto simp: outcome_def new_promise_def nth_append less_Suc_eq)

lemma outcome_take [simp]: "outcome (take_microtask i h) q = outcome h q"
  by (simp add: outcome_def take_microtask_def)

text \<open>Steps that leave scopes, their outcomes and the links alone.\<close>

lemma scopes_inv_transfer:
  assumes i: "scopes_inv a" and s: "scopes a' = scopes a"
    and o: "\<And>q. q < length (scopes a) \<Longrightarrow> outcome (heap a') (scope_promise a q) = outcome (heap a) (scope_promise a q)"
    and l: "\<And>p s. p \<in> sc_promise ` set (scopes a) \<Longrightarrow> linked (heap a) p (RScopeReject s) \<Longrightarrow> linked (heap a') p (RScopeReject s)"
    and r: "rejected_only a'"
  shows "scopes_inv a'"
proof -
  have "scope_link a' q \<and> flag_ok a' q" if q: "q < length (scopes a)" for q
  proof -
    have sp: "scope_promise a' x = scope_promise a x" for x by (simp add: scope_promise_def s)
    have "scope_link a' q"
      using i q o l scope_promise_in [of _ a]
      unfolding scopes_inv_def scope_link_def sp s by (metis order_less_trans)
    moreover have "flag_ok a' q"
      using i q o unfolding scopes_inv_def flag_ok_def sp s by metis
    ultimately show ?thesis by blast
  qed
  then show ?thesis using r i by (simp add: scopes_inv_def s)
qed

lemma rejected_onlyI:
  assumes "rejected_only a" and "scopes a' = scopes a"
    and "\<And>s. s < length (scopes a) \<Longrightarrow> outcome (heap a') (scope_promise a s) = outcome (heap a) (scope_promise a s)"
    and "\<And>s v. (RScopeReject s, Resolved v) \<in> set (microtasks (heap a')) \<Longrightarrow> (RScopeReject s, Resolved v) \<in> set (microtasks (heap a))"
    and "\<And>p s. p < length (cells (heap a')) \<Longrightarrow> RScopeReject s \<in> set (reactions (cells (heap a') ! p)) \<Longrightarrow>
           p < length (cells (heap a)) \<and> RScopeReject s \<in> set (reactions (cells (heap a) ! p))"
  shows "rejected_only a'"
proof -
  have sp: "scope_promise a' s = scope_promise a s" for s by (simp add: scope_promise_def assms(2))
  show ?thesis
    using assms unfolding rejected_only_def sp assms(2) by metis
qed

lemma reactions_new: "p < length (cells (snd (new_promise own h))) \<Longrightarrow> r \<in> set (reactions (cells (snd (new_promise own h)) ! p)) \<Longrightarrow>
    p < length (cells h) \<and> r \<in> set (reactions (cells h ! p))"
  by (auto simp: new_promise_def nth_append less_Suc_eq)

lemma reactions_then: "q < length (cells h) \<Longrightarrow> r \<in> set (reactions (cells (then_do p r' h) ! q)) \<Longrightarrow>
    r \<noteq> r' \<Longrightarrow> r \<in> set (reactions (cells h ! q))"
  by (auto simp: then_do_def nth_list_update split: option.splits if_splits)

lemma reactions_settle: "q < length (cells h) \<Longrightarrow> r \<in> set (reactions (cells (settle p st h) ! q)) \<Longrightarrow> r \<in> set (reactions (cells h ! q))"
  by (auto simp: settle_def nth_list_update split: if_splits)

lemma microtasks_then: "(r, st) \<in> set (microtasks (then_do p r' h)) \<Longrightarrow>
    (r, st) \<in> set (microtasks h) \<or> (r = r' \<and> outcome h p = Some st)"
  by (auto simp: then_do_def outcome_def split: option.splits if_splits)

lemma microtasks_settle: "(r, st) \<in> set (microtasks (settle p st' h)) \<Longrightarrow>
    (r, st) \<in> set (microtasks h) \<or> (st = st' \<and> p < length (cells h) \<and> r \<in> set (reactions (cells h ! p)))"
  by (auto simp: settle_def split: if_splits)

lemma microtasks_take: "x \<in> set (microtasks (take_microtask i h)) \<Longrightarrow> x \<in> set (microtasks h)"
  by (auto simp: take_microtask_def dest: in_set_takeD in_set_dropD)

lemma cells_take [simp]: "cells (take_microtask i h) = cells h"
  by (simp add: take_microtask_def)

lemma microtasks_new [simp]: "microtasks (snd (new_promise own h)) = microtasks h"
  by (simp add: new_promise_def)

lemma scopes_inv_new_cell:
  assumes "scopes_inv a" shows "scopes_inv (new_cell own a)"
proof (rule scopes_inv_transfer [OF assms])
  show "rejected_only (new_cell own a)"
    by (rule rejected_onlyI [of a])
      (use assms in \<open>auto simp: scopes_inv_def new_cell_def dest: reactions_new\<close>)
qed (auto simp: new_cell_def intro: linked_new)

lemma scopes_inv_then:
  assumes i: "scopes_inv a" and r: "\<forall>s. r \<noteq> RScopeReject s" shows "scopes_inv (thenP p r a)"
proof (rule scopes_inv_transfer [OF i])
  show "rejected_only (thenP p r a)"
    by (rule rejected_onlyI [of a])
      (use i r in \<open>auto simp: scopes_inv_def thenP_def dest: microtasks_then reactions_then\<close>)
qed (auto simp: thenP_def intro: linked_then_do)

lemma scopes_inv_settle:
  assumes i: "scopes_inv a" and p: "p \<in> plain a" shows "scopes_inv (on_heap (settle p st) a)"
proof (rule scopes_inv_transfer [OF i])
  have p_len: "p < length (cells (heap a))" using p by (simp add: plain_def)
  have no: "RScopeReject s \<notin> set (reactions (cells (heap a) ! p))" for s
    using i p unfolding scopes_inv_def rejected_only_def plain_def by blast
  show "rejected_only (on_heap (settle p st) a)"
  proof (rule rejected_onlyI [of a])
    show "rejected_only a" using i by (simp add: scopes_inv_def)
    show "outcome (heap (on_heap (settle p st) a)) (scope_promise a s) = outcome (heap a) (scope_promise a s)"
      if "s < length (scopes a)" for s
      using scope_not_plain [OF that p] by (simp add: outcome_settle_other)
    show "(RScopeReject s, Resolved v) \<in> set (microtasks (heap a))"
      if "(RScopeReject s, Resolved v) \<in> set (microtasks (heap (on_heap (settle p st) a)))" for s v
      using microtasks_settle [of "RScopeReject s" "Resolved v" p st "heap a"] that no by auto
  qed (auto dest: reactions_settle)
qed (use p in \<open>auto simp: outcome_settle_other scope_not_plain intro: linked_settle\<close>)

lemma rejected_only_take:
  assumes "rejected_only a" shows "rejected_only (on_heap (take_microtask i) a)"
  by (rule rejected_onlyI [OF assms]) (auto dest: microtasks_take)

lemma scopes_inv_take:
  assumes i: "scopes_inv a" and n: "n < length (microtasks (heap a))" "\<forall>s. fst (microtasks (heap a) ! n) \<noteq> RScopeReject s"
  shows "scopes_inv (on_heap (take_microtask n) a)"
  by (rule scopes_inv_transfer [OF i])
    (use i n in \<open>auto simp: scopes_inv_def intro: rejected_only_take linked_take_microtask\<close>)

lemma scopes_inv_queue:
  assumes i: "scopes_inv a" and r: "\<forall>s. r \<noteq> RScopeReject s"
  shows "scopes_inv (on_heap (\<lambda>h. h\<lparr>microtasks := microtasks h @ [(r, st)]\<rparr>) a)"
proof (rule scopes_inv_transfer [OF i])
  have o: "outcome (h\<lparr>microtasks := m\<rparr>) q = outcome h q" for q m and h :: wheap by (simp add: outcome_def)
  show "rejected_only (on_heap (\<lambda>h. h\<lparr>microtasks := microtasks h @ [(r, st)]\<rparr>) a)"
    by (rule rejected_onlyI [of a]) (use i r in \<open>auto simp: scopes_inv_def o\<close>)
qed (auto simp: outcome_def linked_def split: option.splits)

lemma scopes_inv_same: "scopes_inv a \<Longrightarrow> heap a' = heap a \<Longrightarrow> scopes a' = scopes a \<Longrightarrow> scopes_inv a'"
  by (rule scopes_inv_transfer) (auto simp: scopes_inv_def rejected_only_def scope_promise_def)

text \<open>Rejecting a scope repairs that scope's own link.\<close>

lemma distinct_scope_promise:
  "distinct (map sc_promise (scopes a)) \<Longrightarrow> s < length (scopes a) \<Longrightarrow> q < length (scopes a) \<Longrightarrow>
   scope_promise a s = scope_promise a q \<longleftrightarrow> s = q"
  by (auto simp: scope_promise_def distinct_conv_nth)

lemma scopes_inv_reject:
  assumes link: "\<And>q. q < length (scopes a) \<Longrightarrow> q \<noteq> s \<Longrightarrow> scope_link a q"
    and order: "\<And>q. s < length (scopes a) \<Longrightarrow> sc_parent (scopes a ! s) = Some q \<Longrightarrow> q < s"
    and flag: "\<And>q. q < length (scopes a) \<Longrightarrow> flag_ok a q"
    and rej: "rejected_only a" and dist: "distinct (map sc_promise (scopes a))" and ok: "scopes_ok a"
  shows "scopes_inv (rejectScope s e a)"
proof (cases "s < length (scopes a)")
  case False
  then have "rejectScope s e a = a" by (simp add: rejectScope_def)
  with assms False show ?thesis by (auto simp: scopes_inv_def)
next
  case True
  let ?p = "scope_promise a s" and ?a = "rejectScope s e a"
  have heap': "heap ?a = settle ?p (Rejected e) (heap a)"
    using True by (simp add: rejectScope_def rejectP_def scope_promise_def)
  have scopes': "scopes ?a = (scopes a)[s := (scopes a ! s)\<lparr>sc_flag := True\<rparr>]"
    using True by (simp add: rejectScope_def rejectP_def)
  have sp: "scope_promise ?a q = scope_promise a q" if "q < length (scopes a)" for q
    using that by (cases "q = s") (simp_all add: scope_promise_def scopes')
  have par: "sc_parent (scopes ?a ! q) = sc_parent (scopes a ! q)" if "q < length (scopes a)" for q
    using that by (cases "q = s") (simp_all add: scopes')
  have p_len: "?p < length (cells (heap a))" using True ok by (simp add: scopes_ok_def scope_promise_def)
  have self: "outcome (heap ?a) ?p \<noteq> None"
    unfolding heap' using heap.out_settle_any [of "heap a" ?p "Rejected e"] p_len by (simp add: known_pid_def)
  have other: "outcome (heap ?a) (scope_promise a q) = outcome (heap a) (scope_promise a q)" if "q < length (scopes a)" "q \<noteq> s" for q
    unfolding heap' using that distinct_scope_promise [OF dist that(1) True] by (intro outcome_settle_other) simp
  have keep: "outcome (heap ?a) x \<noteq> None" if "outcome (heap a) x \<noteq> None" for x
    unfolding heap' using that heap.out_stable [of "heap a" x _ "HSettle ?p (Rejected e)"] by auto
  have "scope_link ?a q \<and> flag_ok ?a q" if q: "q < length (scopes a)" for q
  proof
    show "scope_link ?a q"
    proof (cases "q = s")
      case True
      with q self order show ?thesis by (auto simp: scope_link_def par sp)
    next
      case False
      with link [OF q False] q keep show ?thesis
        unfolding scope_link_def par [OF q] sp [OF q]
        using sp linked_settle [of "heap a" _ _ ?p "Rejected e"] heap' by (metis order_less_trans)
    qed
    show "flag_ok ?a q"
    proof (cases "q = s")
      case True
      with q self show ?thesis by (simp add: flag_ok_def sp scopes')
    next
      case False
      have "sc_flag (scopes ?a ! r)" if "sc_flag (scopes a ! r)" "r < q" for r
        using that q by (cases "r = s") (simp_all add: scopes')
      with False q flag [OF q] other [OF q False] show ?thesis
        by (auto simp: flag_ok_def sp par scopes')
    qed
  qed
  moreover have "rejected_only ?a"
    unfolding rejected_only_def
  proof (intro conjI allI impI)
    fix q v
    assume "q < length (scopes ?a)"
    then have q: "q < length (scopes a)" by simp
    show "outcome (heap ?a) (scope_promise ?a q) \<noteq> Some (Resolved v)"
    proof (cases "q = s")
      case True
      have "outcome (heap a) ?p = None \<Longrightarrow> outcome (heap ?a) ?p = Some (Rejected e)"
        unfolding heap' using heap.out_settle [of "heap a" ?p "Rejected e"] p_len by (simp add: known_pid_def)
      moreover have "outcome (heap a) ?p = Some y \<Longrightarrow> outcome (heap ?a) ?p = Some y" for y
        unfolding heap' using heap.out_stable [of "heap a" ?p y "HSettle ?p (Rejected e)"] by simp
      ultimately show ?thesis
        using rej q sp [OF q] True unfolding rejected_only_def by (cases "outcome (heap a) ?p") auto
    next
      case False
      with other [OF q False] sp [OF q] rej q show ?thesis by (simp add: rejected_only_def)
    qed
  next
    fix x v
    show "(RScopeReject x, Resolved v) \<notin> set (microtasks (heap ?a))"
      using microtasks_settle [of "RScopeReject x" "Resolved v" ?p "Rejected e" "heap a"] rej
      by (auto simp: heap' rejected_only_def)
  next
    fix x q
    assume "x < length (cells (heap ?a))" and "RScopeReject q \<in> set (reactions (cells (heap ?a) ! x))"
    then show "x \<in> sc_promise ` set (scopes ?a)"
      using reactions_settle [of x "heap a" "RScopeReject q" ?p "Rejected e"] rej
      by (auto simp: heap' rejected_only_def simp del: image_iff)
  qed
  ultimately show ?thesis
    using dist by (simp add: scopes_inv_def rejectScope_promises)
qed

lemma scopes_inv_rejectScope: "scopes_inv a \<Longrightarrow> scopes_ok a \<Longrightarrow> scopes_inv (rejectScope s e a)"
  by (rule scopes_inv_reject) (auto simp: scopes_inv_def scope_link_def)

lemma scopes_inv_microtask:
  assumes i: "scopes_inv a" and ok: "scopes_ok a" and n: "n < length (microtasks (heap a))"
    and m: "microtasks (heap a) ! n = (RScopeReject s, st)"
  shows "scopes_inv (on_rejected st (rejectScope s) (on_heap (take_microtask n) a))"
proof -
  let ?a = "on_heap (take_microtask n) a"
  have "(RScopeReject s, st) \<in> set (microtasks (heap a))"
    using nth_mem [OF n] m by simp
  then obtain e where e: "st = Rejected e"
    using i unfolding scopes_inv_def rejected_only_def by (cases st) auto
  have sp: "scope_promise ?a q = scope_promise a q" for q by (simp add: scope_promise_def)
  have "scopes_inv (rejectScope s e ?a)"
  proof (rule scopes_inv_reject)
    show "scope_link ?a q" if "q < length (scopes ?a)" "q \<noteq> s" for q
      using i that linked_take_microtask [OF _ n] m
      by (auto simp: scopes_inv_def scope_link_def sp)
    show "q < s" if "s < length (scopes ?a)" "sc_parent (scopes ?a ! s) = Some q" for q
      using i that by (auto simp: scopes_inv_def scope_link_def)
    show "flag_ok ?a q" if "q < length (scopes ?a)" for q
      using i that by (simp add: scopes_inv_def flag_ok_def sp)
    show "rejected_only ?a" using i by (simp add: scopes_inv_def rejected_only_take)
    show "distinct (map sc_promise (scopes ?a))" using i by (simp add: scopes_inv_def)
    show "scopes_ok ?a" using ok by (rule scopes_ok_take)
  qed
  with e show ?thesis by (simp add: on_rejected_def)
qed

lemma current_scope_less: "scopes_ok a \<Longrightarrow> current_scope q a < length (scopes a)"
  by (simp add: current_scope_def scopes_ok_def)

lemma scopes_inv_newScope:
  assumes i: "scopes_inv a" and ok: "scopes_ok a"
  shows "scopes_inv (snd (newScope par can a))"
proof -
  let ?a = "snd (newScope par can a)" and ?n = "length (scopes a)" and ?P = "length (cells (heap a))"
  let ?q = "current_scope par a"
  let ?pp = "scope_promise a ?q"
  have q: "?q < ?n" by (rule current_scope_less [OF ok])
  have scopes': "scopes ?a = scopes a @ [\<lparr>sc_cancellable = can, sc_parent = Some ?q, sc_flag = sc_flag (scopes a ! ?q), sc_promise = ?P\<rparr>]"
    by (simp add: newScope_def alloc_eq Let_def)
  have heap': "heap ?a = then_do ?pp (RScopeReject ?n) (snd (new_promise False (heap a)))"
    by (simp add: heap_newScope scope_promise_def)
  have sp: "scope_promise ?a s = scope_promise a s" if "s < ?n" for s
    using that by (simp add: scope_promise_def scopes' nth_append)
  have sp_new: "scope_promise ?a ?n = ?P" by (simp add: scope_promise_def scopes' nth_append)
  have out: "outcome (heap ?a) x = outcome (heap a) x" for x by (simp add: heap')
  have out_new: "outcome (heap ?a) ?P = None" unfolding out by (simp add: outcome_def)
  have pp_len: "?pp < length (cells (snd (new_promise False (heap a))))"
    using ok q by (simp add: scopes_ok_def scope_promise_def new_promise_def less_SucI)
  have lnk: "linked (heap ?a) ?pp (RScopeReject ?n)"
    unfolding heap' using heap.link_then [of "snd (new_promise False (heap a))" ?pp "RScopeReject ?n"] pp_len
    by (simp add: known_pid_def)
  have lnk_old: "linked (heap ?a) x r" if "linked (heap a) x r" for x r
    unfolding heap' by (intro linked_then_do linked_new that)
  have old: "scope_link ?a s \<and> flag_ok ?a s" if s: "s < ?n" for s
  proof -
    have "scope_link a s" "flag_ok a s" using i s by (auto simp: scopes_inv_def)
    then show ?thesis
      using s sp [OF s] sp lnk_old
      by (auto simp: scope_link_def flag_ok_def out scopes' nth_append)
  qed
  have new: "scope_link ?a ?n \<and> flag_ok ?a ?n"
    using q lnk out_new sp [OF q] sp_new by (auto simp: scope_link_def flag_ok_def scopes' nth_append)
  have "rejected_only ?a"
    unfolding rejected_only_def
  proof (intro conjI allI impI)
    fix s v
    assume "s < length (scopes ?a)"
    then have "s < ?n \<or> s = ?n" by (auto simp: scopes')
    then show "outcome (heap ?a) (scope_promise ?a s) \<noteq> Some (Resolved v)"
      using i sp out sp_new out_new by (auto simp: scopes_inv_def rejected_only_def)
  next
    fix s v
    show "(RScopeReject s, Resolved v) \<notin> set (microtasks (heap ?a))"
      using microtasks_then [of "RScopeReject s" "Resolved v" ?pp "RScopeReject ?n" "snd (new_promise False (heap a))"] i q
      by (auto simp: heap' scopes_inv_def rejected_only_def)
  next
    fix x s
    assume x: "x < length (cells (heap ?a))" and r: "RScopeReject s \<in> set (reactions (cells (heap ?a) ! x))"
    have promises: "sc_promise ` set (scopes ?a) = insert ?P (sc_promise ` set (scopes a))" by (rule newScope_fields)
    show "x \<in> sc_promise ` set (scopes ?a)"
    proof (cases "x = ?pp")
      case True
      then show ?thesis using scope_promise_in [OF q] promises by blast
    next
      case False
      then have "cells (heap ?a) ! x = cells (snd (new_promise False (heap a))) ! x"
        by (simp add: heap' then_do_def split: option.split)
      with x r have "x < length (cells (heap a)) \<and> RScopeReject s \<in> set (reactions (cells (heap a) ! x))"
        using reactions_new [of x False "heap a" "RScopeReject s"] by (simp add: heap')
      then show ?thesis using i promises unfolding scopes_inv_def rejected_only_def by blast
    qed
  qed
  moreover have "distinct (map sc_promise (scopes ?a))"
    using i ok by (auto simp: scopes' scopes_inv_def scopes_ok_def)
  ultimately show ?thesis
    using old new by (auto simp: scopes_inv_def scopes' less_Suc_eq)
qed

lemma eff_scopes_inv: "eff h b a a' \<Longrightarrow> scopes_inv a \<Longrightarrow> scopes_ok a \<Longrightarrow> scopes_inv a'"
proof (induction rule: eff.induct)
  case (eff_frame a a')
  then show ?case by (auto simp: same_core_def intro: scopes_inv_same)
qed (auto intro: scopes_inv_new_cell scopes_inv_then scopes_inv_settle scopes_inv_queue
      scopes_inv_rejectScope scopes_inv_newScope scopes_inv_same)

lemma effs_scopes_inv: "effs h b a a' \<Longrightarrow> scopes_inv a \<Longrightarrow> ok h b a \<Longrightarrow> scopes_inv a'"
proof (induction rule: rtranclp_induct)
  case (step y z)
  then show ?case using eff_scopes_inv [of h b y z] effs_ok [of h b a y] by (auto simp: ok_def)
qed simp

subsection \<open>Registered reactions and bounds\<close>

lemma linked_queue: "linked h p r \<Longrightarrow> linked (h\<lparr>microtasks := microtasks h @ xs\<rparr>) p r"
  by (auto simp: linked_def split: option.splits)

lemma linked_rejectScope: "linked (heap a) p r \<Longrightarrow> linked (heap (rejectScope s e a)) p r"
  by (auto simp: rejectScope_def rejectP_def intro: linked_settle)

lemma eff_linked: "eff h b a a' \<Longrightarrow> linked (heap a) p r \<Longrightarrow> linked (heap a') p r"
  by (induction rule: eff.induct)
    (auto simp: new_cell_def heap_thenP heap_newScope same_core_def
      intro: linked_new linked_then_do linked_settle linked_queue linked_rejectScope)

lemma effs_linked: "effs h b a a' \<Longrightarrow> linked (heap a) p r \<Longrightarrow> linked (heap a') p r"
  by (induction rule: rtranclp_induct) (auto dest: eff_linked)

definition compl_bounded :: "'u act \<Rightarrow> bool" where
  "compl_bounded a \<longleftrightarrow> (\<forall>k seq. jhas (completions a k) seq \<longrightarrow> seq < nextSeqs a (compl_seq k))"

lemma eff_compl_bounded: "eff h b a a' \<Longrightarrow> compl_bounded a \<Longrightarrow> compl_bounded a'"
  by (induction rule: eff.induct)
    (auto simp: compl_bounded_def jhas_laws same_core_def less_SucI split: if_splits)

lemma effs_compl_bounded: "effs h b a a' \<Longrightarrow> compl_bounded a \<Longrightarrow> compl_bounded a'"
  by (induction rule: rtranclp_induct) (auto dest: eff_compl_bounded)

lemma effs_commands: "effs h b a a' \<Longrightarrow> set (commands a) \<subseteq> set (commands a')"
proof (induction rule: rtranclp_induct)
  case (step y z)
  have "eff h b y z \<Longrightarrow> set (commands y) \<subseteq> set (commands z)"
    by (induction rule: eff.induct) (auto simp: commands_pushCommand same_core_def)
  with step show ?case by blast
qed simp

lemma effs_completed: "effs h b a a' \<Longrightarrow> completed a \<Longrightarrow> completed a'"
proof (induction rule: rtranclp_induct)
  case (step y z)
  have "eff h b y z \<Longrightarrow> completed y \<Longrightarrow> completed z"
    by (induction rule: eff.induct) (auto simp: same_core_def)
  with step show ?case by blast
qed simp

lemma effs_scopes: "effs h b a a' \<Longrightarrow> s < length (scopes a) \<Longrightarrow>
   s < length (scopes a') \<and> sc_promise (scopes a' ! s) = sc_promise (scopes a ! s) \<and>
   sc_parent (scopes a' ! s) = sc_parent (scopes a ! s) \<and> sc_cancellable (scopes a' ! s) = sc_cancellable (scopes a ! s)"
proof (induction rule: rtranclp_induct)
  case (step y z)
  have "eff h b y z \<Longrightarrow> s < length (scopes y) \<Longrightarrow>
    s < length (scopes z) \<and> sc_promise (scopes z ! s) = sc_promise (scopes y ! s) \<and>
    sc_parent (scopes z ! s) = sc_parent (scopes y ! s) \<and> sc_cancellable (scopes z ! s) = sc_cancellable (scopes y ! s)"
  proof (induction rule: eff.induct)
    case (eff_scope a q e)
    then show ?case
      by (cases "s = q") (auto simp: rejectScope_def rejectP_def nth_list_update)
  next
    case (eff_new_scope a par canc)
    then show ?case by (simp add: newScope_def alloc_eq Let_def nth_append)
  qed (auto simp: same_core_def)
  with step show ?case by auto
qed simp

end
