(* ===== verification/Runtime_Machine.thy ===== *)
theory Runtime_Machine
  imports Runtime_Invariants
begin

text \<open>
  The workflow context as a machine. An event is a call the worker makes into the context
  (\<open>activate\<close> with a batch of jobs, \<open>tryUnblockConditions\<close>, \<open>concludeActivation\<close>,
  \<open>getAndResetSinkCalls\<close>) or the execution of one queued reaction. Reactions may run in any order
  and user code may do anything at every point where it gets control, so whatever holds for all event
  lists holds for the order Node.js runs microtasks in and for every workflow program. The first
  component of the machine's state collects the commands of concluded activations.
\<close>

datatype 'u vm_event =
    VActivate activation_info nat "(job \<times> 'u user_op list) list"
  | VMicrotask nat "'u user_op list"
  | VUnblock
  | VConclude
  | VGetSinkCalls

type_synonym 'u vm = "command list \<times> 'u act"

text \<open>User code continues in its own continuations and in timeout callbacks only.\<close>

fun user_continues :: "reaction \<Rightarrow> wval settlement \<Rightarrow> bool" where
  "user_continues RUser st = True"
| "user_continues (RTimeoutCallback _) (Resolved _) = True"
| "user_continues _ _ = False"

definition run_microtask :: "rt \<Rightarrow> nat \<Rightarrow> 'u user_op list \<Rightarrow> 'u act \<Rightarrow> 'u act" where
  "run_microtask R i ops a =
     (if i < length (microtasks (heap a)) then
        (case microtasks (heap a) ! i of (r, st) \<Rightarrow>
           exec_ops R (if user_continues r st then ops else []) (run_reaction R r st (on_heap (take_microtask i) a)))
      else a)"

fun vm_step :: "rt \<Rightarrow> 'u vm \<Rightarrow> 'u vm_event \<Rightarrow> 'u vm" where
  "vm_step R (h, a) (VActivate i n jobs) = (h, snd (activate R i n jobs a))"
| "vm_step R (h, a) (VMicrotask i ops) = (h, run_microtask R i ops a)"
| "vm_step R (h, a) VUnblock = (h, snd (tryUnblockConditions a))"
| "vm_step R (h, a) VConclude = (case concludeActivation a of (cs, a') \<Rightarrow> (h @ cs, a'))"
| "vm_step R (h, a) VGetSinkCalls = (h, snd (getAndResetSinkCalls a))"

definition vm_run :: "rt \<Rightarrow> 'u vm \<Rightarrow> 'u vm_event list \<Rightarrow> 'u vm" where
  "vm_run R = run_steps (vm_step R)"

text \<open>Every command the workflow has produced so far.\<close>

fun all_commands :: "'u vm \<Rightarrow> command list" where
  "all_commands (h, a) = h @ commands a"

fun vm_inv :: "'u vm \<Rightarrow> bool" where
  "vm_inv (h, a) \<longleftrightarrow> ok h a a \<and> log_ok h a \<and> scopes_inv a \<and> compl_bounded a"

subsection \<open>The invariant holds initially and is preserved\<close>

lemma vm_inv_initial: "vm_inv ([], initial_act stacks hasW repl ps seed t u)"
  by (auto simp: initial_act_def ok_def used_def targets_ok_def scopes_ok_def plain_def pending_reactions_def owned_def
      new_promise_def empty_heap_def log_ok_def starts_def patches_def List.map_filter_def cancels_follow_def
      ends_once_def scopes_inv_def scope_link_def flag_ok_def rejected_only_def scope_promise_def outcome_def
      jhas_def jget_def compl_bounded_def less_Suc_eq)

lemma vm_inv_runs:
  assumes i: "vm_inv (h, a)" and r: "runs h a a x"
  shows "vm_inv (h, x)"
  using i r effs_log_ok [of h a a x] effs_scopes_inv [of h a a x] effs_compl_bounded [of h a a x]
  by (auto simp: runs_def ok_def)

lemma log_ok_take: "log_ok h (on_heap f a) = log_ok h a"
  by (simp add: log_ok_def)

lemma vm_inv_microtask:
  assumes i: "vm_inv (h, a)"
  shows "vm_inv (h, run_microtask R n ops a)"
proof (cases "n < length (microtasks (heap a))")
  case n: True
  obtain r st where m: "microtasks (heap a) ! n = (r, st)" by fastforce
  let ?t = "on_heap (take_microtask n) a"
  let ?x = "run_reaction R r st ?t"
  have run: "runs h a ?t ?x"
    using i n m by (intro runs_taken_reaction) auto
  have e: "effs h a ?t ?x" using run by (simp add: runs_def)
  have okx: "ok h ?x ?x" using run by (auto simp: runs_def ok_def)
  have "log_ok h ?x" using i effs_log_ok [OF e] by (simp add: log_ok_take)
  moreover have "compl_bounded ?x"
    using i effs_compl_bounded [OF e] by (simp add: compl_bounded_def)
  moreover have "scopes_inv ?x"
  proof (cases "\<exists>s. r = RScopeReject s")
    case True
    then obtain s where s: "r = RScopeReject s" ..
    show ?thesis
      using i scopes_inv_microtask [OF _ _ n, of s st] m by (auto simp: s ok_def)
  next
    case False
    then have "scopes_inv ?t"
      using i m n by (intro scopes_inv_take) auto
    moreover have "ok h a ?t" using i by (auto intro: ok_take)
    ultimately show ?thesis by (rule effs_scopes_inv [OF e])
  qed
  ultimately have x: "vm_inv (h, ?x)" using okx by simp
  have "vm_inv (h, exec_ops R (if user_continues r st then ops else []) ?x)"
    by (rule vm_inv_runs [OF x]) (intro runs_exec runs_refl okx)
  then show ?thesis
    using n m by (simp add: run_microtask_def)
qed (use i in \<open>simp add: run_microtask_def\<close>)

lemma vm_inv_conclude: "vm_inv (h, a) \<Longrightarrow> vm_inv (h @ commands a, a\<lparr>commands := []\<rparr>)"
proof -
  assume i: "vm_inv (h, a)"
  have u: "used (h @ commands a) (a\<lparr>commands := []\<rparr>) = used h a"
    by (simp add: used_def [abs_def])
  have p: "plain (a\<lparr>commands := []\<rparr>) = plain a" by (simp add: plain_def)
  show ?thesis
    using i by (auto simp: ok_def u targets_ok_def p scopes_ok_def log_ok_def compl_bounded_def
        intro: scopes_inv_same [of a])
qed

lemma vm_step_inv: "vm_inv m \<Longrightarrow> vm_inv (vm_step R m e)"
proof (induction R m e rule: vm_step.induct)
  case (1 R h a i n jobs)
  then have "runs h a a (snd (activate R i n jobs a))" by (intro runs_intros) simp
  with vm_inv_runs [OF 1] show ?case by simp
next
  case (2 R h a i ops)
  then show ?case using vm_inv_microtask by simp
next
  case (3 R h a)
  then have "runs h a a (snd (tryUnblockConditions a))" by (intro runs_intros) simp
  with vm_inv_runs [OF 3] show ?case by simp
next
  case (4 R h a)
  then show ?case using vm_inv_conclude by (simp add: concludeActivation_def getAndResetCommands_def)
next
  case (5 R h a)
  have "runs h a a (a\<lparr>sinkCalls := []\<rparr>)"
    by (rule runs_frame [OF runs_refl]) (use 5 in simp_all)
  with vm_inv_runs [OF 5] show ?case by (simp add: getAndResetSinkCalls_def)
qed

interpretation vm: machine "vm_step R" vm_inv "\<lambda>_ _. True" for R
  by unfold_locales (rule vm_step_inv)

lemma all_admissible_trivial: "vm.all_admissible R m es"
  by (induction es arbitrary: m) auto

text \<open>The states the machine can be in.\<close>

definition reachable :: "rt \<Rightarrow> 'u vm \<Rightarrow> bool" where
  "reachable R m \<longleftrightarrow> (\<exists>stacks hasW repl ps seed t u es. m = vm_run R ([], initial_act stacks hasW repl ps seed t u) es)"

lemma vm_run_inv: "vm_inv m \<Longrightarrow> vm_inv (vm_run R m es)"
  unfolding vm_run_def by (rule vm.run_inv) (simp_all add: all_admissible_trivial)

lemma reachable_inv: "reachable R m \<Longrightarrow> vm_inv m"
  unfolding reachable_def by (auto intro: vm_run_inv vm_inv_initial)

lemma reachable_run: "reachable R m \<Longrightarrow> reachable R (vm_run R m es)"
  unfolding reachable_def vm_run_def by (metis run_steps_append)

end
