(* ===== verification/Runtime_Properties.thy ===== *)
theory Runtime_Properties
  imports Runtime_Machine
begin

text \<open>
  What the invariant of the machine says about the program: the command log, the use of
  completions, the propagation of cancellation. Each property is instantiated on a concrete run.
\<close>

subsection \<open>Steps as effects\<close>

lemma vm_step_cases:
  assumes i: "vm_inv (h, a)" and s: "vm_step R (h, a) e = (h', a')"
  obtains (effects) "h' = h" "runs h a a a'"
  | (microtask) n r st x where "h' = h" "n < length (microtasks (heap a))" "microtasks (heap a) ! n = (r, st)"
      "x = run_reaction R r st (on_heap (take_microtask n) a)" "runs h a (on_heap (take_microtask n) a) x" "runs h a x a'"
  | (concluded) "h' = h @ commands a" "a' = a\<lparr>commands := []\<rparr>"
proof (cases e)
  case (VActivate i n jobs)
  have "runs h a a (snd (activate R i n jobs a))" using i by (intro runs_intros) simp
  with effects s VActivate show ?thesis by auto
next
  case (VMicrotask n ops)
  show ?thesis
  proof (cases "n < length (microtasks (heap a))")
    case True
    obtain r st where m: "microtasks (heap a) ! n = (r, st)" by fastforce
    let ?t = "on_heap (take_microtask n) a"
    let ?x = "run_reaction R r st ?t"
    have run: "runs h a ?t ?x" using i True m by (intro runs_taken_reaction) auto
    then have "runs h a ?x ?x" by (auto simp: runs_def)
    then have "runs h a ?x (exec_ops R (if user_continues r st then ops else []) ?x)" by (auto intro: runs_exec)
    with microtask [OF _ True m refl run] s VMicrotask True m show ?thesis
      by (auto simp: run_microtask_def)
  next
    case False
    have "runs h a a a" using i by (intro runs_refl) simp
    with effects s VMicrotask False show ?thesis by (auto simp: run_microtask_def)
  qed
next
  case VUnblock
  have "runs h a a (snd (tryUnblockConditions a))" using i by (intro runs_intros) simp
  with effects s VUnblock show ?thesis by auto
next
  case VConclude
  with concluded s show ?thesis by (auto simp: concludeActivation_def getAndResetCommands_def)
next
  case VGetSinkCalls
  have "runs h a a (a\<lparr>sinkCalls := []\<rparr>)" by (rule runs_frame [OF runs_refl]) (use i in simp_all)
  with effects s VGetSinkCalls show ?thesis by (auto simp: getAndResetSinkCalls_def)
qed

text \<open>An invariant over runs follows from its steps.\<close>

lemma vm_run_induct:
  assumes "vm_inv (h, a)" and "P h a" and "vm_run R (h, a) es = (h', a')"
    and step: "\<And>h a h' a' e. vm_inv (h, a) \<Longrightarrow> P h a \<Longrightarrow> vm_step R (h, a) e = (h', a') \<Longrightarrow> P h' a'"
  shows "P h' a'"
  using assms(1-3)
proof (induction es arbitrary: h a)
  case (Cons e es)
  obtain h1 a1 where s: "vm_step R (h, a) e = (h1, a1)" by fastforce
  with Cons.prems(1) have "vm_inv (h1, a1)" using vm_step_inv [of "(h, a)" R e] by simp
  with Cons step [OF Cons.prems(1,2) s] s show ?case by (simp add: vm_run_def)
qed (simp add: vm_run_def)

definition gone :: "compl_kind \<Rightarrow> nat \<Rightarrow> 'u act \<Rightarrow> bool" where
  "gone k seq a \<longleftrightarrow> seq < nextSeqs a (compl_seq k) \<and> \<not> jhas (completions a k) seq"

lemma runs_nextSeqs_mono: "runs h b t x \<Longrightarrow> nextSeqs t k \<le> nextSeqs x k"
  by (auto simp: runs_def intro: effs_nextSeqs)

lemma runs_gone: "runs h a t x \<Longrightarrow> gone k seq t \<Longrightarrow> nextSeqs t = nextSeqs a \<Longrightarrow> gone k seq x"
  using runs_nextSeqs_mono [of h a t x "compl_seq k"]
  by (auto simp: gone_def runs_def dest: effs_consumed)

lemma runs_gone_later: "runs h a t x \<Longrightarrow> gone k seq t \<Longrightarrow> seq < nextSeqs a (compl_seq k) \<Longrightarrow> gone k seq x"
  using runs_nextSeqs_mono [of h a t x "compl_seq k"]
  by (auto simp: gone_def runs_def dest: effs_consumed)

lemma vm_step_gone:
  assumes "vm_inv (h, a)" and "gone k seq a" and "vm_step R (h, a) e = (h', a')"
  shows "gone k seq a'"
  using assms(1,3)
proof (cases rule: vm_step_cases)
  case effects
  then show ?thesis using runs_gone [of h a a a'] assms(2) by simp
next
  case (microtask n r st x)
  have s: "seq < nextSeqs a (compl_seq k)" using assms(2) by (simp add: gone_def)
  have "gone k seq (on_heap (take_microtask n) a)" using assms(2) by (simp add: gone_def)
  from runs_gone_later [OF microtask(6) runs_gone_later [OF microtask(5) this s] s] show ?thesis .
next
  case concluded
  then show ?thesis using assms(2) by (simp add: gone_def)
qed

lemma vm_run_gone: "vm_inv (h, a) \<Longrightarrow> gone k seq a \<Longrightarrow> vm_run R (h, a) es = (h', a') \<Longrightarrow> gone k seq a'"
  by (rule vm_run_induct [where P = "\<lambda>h a. gone k seq a"]) (auto intro: vm_step_gone)

subsection \<open>A sample program\<close>

text \<open>
  The workflow function sleeps and asks twice for a patch; a cancellation of the workflow follows.
\<close>

fun sample_e2f :: "jsval \<Rightarrow> proto_failure res" where
  "sample_e2f v = Inr (ProtoFailure (Some ''m'') None None None None NoInfo)"

fun sample_f2e :: "proto_failure \<Rightarrow> jserror res" where
  "sample_f2e f = Inr (TemporalFailure BareTemporal ''m'' [] JUndefined (Some f))"

fun sample_query :: "nat query_fun" where
  "sample_query u args = QReturn (JStr ''s'')"

definition sample_rt :: rt where
  "sample_rt = \<lparr>lib = long64, pconv = sample_converter, sconv = sample_converter,
     e2f = sample_e2f, f2e = sample_f2e,
     rtext = sample_text, taskQueue = ''q'', namespace = ''ns'', workflowType = ''wf'', registeredActivityNames = []\<rparr>"

definition sample_options :: ActivityOptions where
  "sample_options = \<lparr>ao_activityId = None, ao_taskQueue = None, ao_heartbeatTimeout = None, ao_retry = None,
     ao_startToCloseTimeout = Some (DurNum (Fin 1000)), ao_scheduleToStartTimeout = None,
     ao_scheduleToCloseTimeout = None, ao_cancellationType = None, ao_allowEagerDispatch = None,
     ao_versioningIntent = None\<rparr>"

definition sample_state :: "nat act" where
  "sample_state = initial_act (sample_query, sample_query) True False [] [] (Fin 0) 0"

definition sample_info :: activation_info where
  "sample_info = \<lparr>ai_timestamp = None, ai_historyLength = Some 3, ai_isReplaying = None\<rparr>"

definition sample_start :: "nat vm_event list" where
  "sample_start = [VActivate sample_info 0 [(JStartWorkflow None,
      [OSleep 0 (DurNum (Fin 5000)), OPatched ''p'', OPatched ''p''])]]"

definition sample_cancel :: "nat vm_event list" where
  "sample_cancel = [VConclude, VActivate sample_info 0 [(JCancelWorkflow, [])], VMicrotask 0 [], VMicrotask 0 []]"

lemma reachable_sample: "reachable sample_rt (vm_run sample_rt ([], sample_state) es)"
  unfolding reachable_def sample_state_def by blast

lemma sample_start_log:
  "starts (all_commands (vm_run sample_rt ([], sample_state) sample_start)) = [(STimer, 1)]"
  by code_simp

subsection \<open>The command log\<close>

text \<open>C1. Whatever a workflow does and in whatever order its reactions run, no sequence number is
  used twice: the commands that start timers, activities (local or not), child workflows, signals to
  and cancellations of external workflows carry pairwise distinct numbers within their kind, over the
  whole life of the workflow.\<close>

theorem start_numbers_unique:
  assumes "reachable R m"
  shows "distinct (starts (all_commands m))"
  using reachable_inv [OF assms] by (cases m) (simp add: log_ok_def)

theorem start_numbers_unique_witness:
  "distinct (starts (all_commands (vm_run sample_rt ([], sample_state) sample_start)))
   \<and> starts (all_commands (vm_run sample_rt ([], sample_state) sample_start)) = [(STimer, 1)]"
  using start_numbers_unique [OF reachable_sample] sample_start_log by blast


definition sample_activity_run :: "nat vm_event list" where
  "sample_activity_run = [VActivate sample_info 0 [(JStartWorkflow None,
      [OScheduleActivity 0 ''act'' [] (Some sample_options), OCancelScope 0])], VMicrotask 0 [], VMicrotask 0 []]"

lemma sample_activity_log:
  "map cancel_of (all_commands (vm_run sample_rt ([], sample_state) sample_activity_run)) = [None, Some (SActivity, 1)]"
  by code_simp


text \<open>C2. A workflow ends at most once, and once it has ended nothing but answers to queries is sent:
  the state counts as completed exactly when one of the commands complete, fail, cancel or
  continue-as-new is in the log, and every command after it is a query response.\<close>

theorem workflow_ends_once:
  assumes "reachable R (h, a)"
  shows "(completed a \<longleftrightarrow> (\<exists>c \<in> set (all_commands (h, a)). terminal c)) \<and> ends_once (all_commands (h, a))"
  using reachable_inv [OF assms] by (simp add: log_ok_def)

definition sample_end :: "nat vm_event list" where
  "sample_end = [VActivate sample_info 0 [(JStartWorkflow None, [OSettle 1 (Resolved (WV (JStr ''done'')))])],
     VMicrotask 0 [], VConclude,
     VActivate sample_info 0 [(JQueryWorkflow \<lparr>qj_queryType = Some ''__stack_trace'', qj_queryId = Some ''q1'', qj_arguments = None\<rparr>, [])],
     VMicrotask 0 [], VActivate sample_info 0 [(JFireTimer (Some 1), [OSleep 0 (DurNum (Fin 5))])]]"

lemma sample_end_log:
  "map terminal (all_commands (vm_run sample_rt ([], sample_state) sample_end)) = [True, False]"
  by code_simp

theorem workflow_ends_once_witness:
  "\<exists>h a. vm_run sample_rt ([], sample_state) sample_end = (h, a) \<and> completed a \<and> ends_once (all_commands (h, a))
     \<and> map terminal (all_commands (h, a)) = [True, False]"
proof -
  obtain h a where r: "vm_run sample_rt ([], sample_state) sample_end = (h, a)" by fastforce
  have "reachable sample_rt (h, a)" unfolding r [symmetric] by (rule reachable_sample)
  note e = workflow_ends_once [OF this]
  have l: "map terminal (all_commands (h, a)) = [True, False]" using sample_end_log unfolding r .
  then have "True \<in> set (map terminal (all_commands (h, a)))" by (simp only: list.set) simp
  then have "completed a" using e by auto
  with e l r show ?thesis by (intro exI [of _ h] exI [of _ a] conjI) simp_all
qed

text \<open>C8. A patch marker is sent at most once per patch id, however often the workflow asks for the
  patch and whichever of patched and deprecatePatch it uses.\<close>

theorem patch_markers_unique:
  assumes "reachable R m"
  shows "distinct (patches (all_commands m))"
  using reachable_inv [OF assms] by (cases m) (simp add: log_ok_def)

lemma sample_start_patches:
  "patches (all_commands (vm_run sample_rt ([], sample_state) sample_start)) = [''p'']"
  by code_simp

theorem patch_markers_unique_witness:
  "distinct (patches (all_commands (vm_run sample_rt ([], sample_state) sample_start)))
   \<and> patches (all_commands (vm_run sample_rt ([], sample_state) sample_start)) = [''p'']"
  using patch_markers_unique [OF reachable_sample] sample_start_patches by blast

subsection \<open>Completions\<close>

lemma consume_gone: "gone k seq a \<Longrightarrow> consumeCompletion k seq a = (Inl (IllegalStateError (''No completion for taskSeq '' @ show_nat seq)), a)"
  by (simp add: gone_def consumeCompletion_def maybeConsumeCompletion_def jhas_def)

lemma consume_makes_gone:
  assumes i: "vm_inv (h, a)" and c: "consumeCompletion k seq a = (Inr p, a1)"
  shows "vm_inv (h, a1) \<and> gone k seq a1"
proof -
  have a1: "a1 = del_completion k seq a" "jhas (completions a k) seq"
    using c by (auto simp: consumeCompletion_def maybeConsumeCompletion_def jhas_def split: option.splits)
  have "runs h a a (del_completion k seq a)" using i by (intro runs_intros) simp
  moreover have "gone k seq (del_completion k seq a)"
    using a1(2) i by (auto simp: gone_def compl_bounded_def jhas_laws)
  ultimately show ?thesis using vm_inv_runs [OF i] a1(1) by simp
qed

text \<open>C3. A pending operation (timer, activity, start or completion of a child workflow, signal,
  cancellation of an external workflow) is resolved at most once: after its completion has been taken
  there is none for the same number at any later point of the workflow, so a second resolution is
  refused with an IllegalStateError.\<close>

theorem completion_consumed_once:
  assumes "reachable R (h, a)" and "consumeCompletion k seq a = (Inr p, a1)"
    and "vm_run R (h, a1) es = (h2, a2)"
  shows "consumeCompletion k seq a2 = (Inl (IllegalStateError (''No completion for taskSeq '' @ show_nat seq)), a2)"
proof -
  have "vm_inv (h, a1)" "gone k seq a1" using consume_makes_gone [OF reachable_inv [OF assms(1)] assms(2)] by auto
  from vm_run_gone [OF this assms(3)] show ?thesis by (rule consume_gone)
qed

lemma sample_start_pending:
  "fst (consumeCompletion KTimer 1 (snd (vm_run sample_rt ([], sample_state) sample_start))) = Inr 2"
  by code_simp

theorem completion_consumed_once_witness:
  "\<exists>a a1 a2. vm_run sample_rt ([], sample_state) sample_start = ([], a)
     \<and> consumeCompletion KTimer 1 a = (Inr 2, a1)
     \<and> snd (vm_run sample_rt ([], a1) sample_cancel) = a2
     \<and> fst (consumeCompletion KTimer 1 a2) = Inl (IllegalStateError (''No completion for taskSeq '' @ show_nat 1))"
proof -
  obtain h a where r: "vm_run sample_rt ([], sample_state) sample_start = (h, a)" by fastforce
  then have h: "h = []" by (auto simp: vm_run_def sample_start_def split: prod.splits)
  obtain a1 where c: "consumeCompletion KTimer 1 a = (Inr 2, a1)"
    using sample_start_pending r by (cases "consumeCompletion KTimer 1 a") auto
  obtain h2 a2 where e: "vm_run sample_rt (h, a1) sample_cancel = (h2, a2)" by fastforce
  have "reachable sample_rt (h, a)" unfolding r [symmetric] by (rule reachable_sample)
  from completion_consumed_once [OF this c e] r h c e show ?thesis by simp
qed

subsection \<open>Cancellation of scopes\<close>

text \<open>\<open>s\<close> is a descendant of \<open>q\<close> in the scope tree, or \<open>q\<close> itself.\<close>

inductive descendant :: "'u act \<Rightarrow> nat \<Rightarrow> nat \<Rightarrow> bool" for a q where
  self: "q < length (scopes a) \<Longrightarrow> descendant a q q"
| child: "descendant a q p \<Longrightarrow> s < length (scopes a) \<Longrightarrow> sc_parent (scopes a ! s) = Some p \<Longrightarrow> descendant a q s"

definition rejected_scope :: "'u act \<Rightarrow> nat \<Rightarrow> bool" where
  "rejected_scope a s \<longleftrightarrow> sc_flag (scopes a ! s) \<and> (\<exists>e. outcome (heap a) (sc_promise (scopes a ! s)) = Some (Rejected e))"

lemma quiescent_settled:
  assumes i: "scopes_inv a" and q: "microtasks (heap a) = []"
  shows "s < length (scopes a) \<Longrightarrow> sc_flag (scopes a ! s) \<Longrightarrow> outcome (heap a) (scope_promise a s) \<noteq> None"
proof (induction s rule: less_induct)
  case (less s)
  have l: "scope_link a s" "flag_ok a s" using i less.prems by (auto simp: scopes_inv_def)
  show ?case
  proof (rule ccontr)
    assume n: "\<not> outcome (heap a) (scope_promise a s) \<noteq> None"
    with l(2) less.prems obtain p where p: "p < s" "sc_parent (scopes a ! s) = Some p" "sc_flag (scopes a ! p)"
      by (auto simp: flag_ok_def)
    with less have "outcome (heap a) (scope_promise a p) \<noteq> None" by auto
    with q have "\<not> linked (heap a) (scope_promise a p) (RScopeReject s)" by (rule quiescent_not_linked)
    with l(1) p n show False by (simp add: scope_link_def)
  qed
qed

lemma quiescent_rejected:
  assumes i: "scopes_inv a" and q: "microtasks (heap a) = []" and s: "s < length (scopes a)" "sc_flag (scopes a ! s)"
  shows "rejected_scope a s"
proof -
  have "outcome (heap a) (scope_promise a s) \<noteq> None" by (rule quiescent_settled [OF i q s])
  moreover have "outcome (heap a) (scope_promise a s) \<noteq> Some (Resolved v)" for v
    using i s by (simp add: scopes_inv_def rejected_only_def)
  ultimately have "\<exists>e. outcome (heap a) (scope_promise a s) = Some (Rejected e)"
    by (metis not_None_eq settlement.exhaust)
  with s show ?thesis by (simp add: rejected_scope_def scope_promise_def)
qed

text \<open>C4. Cancellation reaches the whole subtree: once the queued reactions have run, every scope
  below a cancelled scope is cancelled too and its cancelRequested promise is rejected, however the
  cancellation, the creation of scopes and the reactions were interleaved. Scopes created as
  non-cancellable are no exception: the rejection passes through them to what is nested inside.\<close>

theorem cancellation_reaches_descendants:
  assumes "reachable R (h, a)" and "microtasks (heap a) = []" and "descendant a q s" and "sc_flag (scopes a ! q)"
  shows "rejected_scope a s"
proof -
  have i: "scopes_inv a" using reachable_inv [OF assms(1)] by simp
  from assms(3,4) have "s < length (scopes a) \<and> sc_flag (scopes a ! s)"
  proof (induction rule: descendant.induct)
    case (child p s)
    have p: "p < length (scopes a)" "sc_flag (scopes a ! p)" using child by auto
    have l: "scope_link a s" "flag_ok a s" using i child.hyps by (auto simp: scopes_inv_def)
    have "outcome (heap a) (scope_promise a p) \<noteq> None" by (rule quiescent_settled [OF i assms(2) p])
    with assms(2) have "\<not> linked (heap a) (scope_promise a p) (RScopeReject s)" by (rule quiescent_not_linked)
    with l child.hyps show ?case by (simp add: scope_link_def flag_ok_def)
  qed simp
  with i assms(2) show ?thesis by (intro quiescent_rejected) auto
qed

definition sample_scopes :: "nat vm_event list" where
  "sample_scopes = [VActivate sample_info 0 [(JStartWorkflow None,
      [ONewScope 0 False None, OCancelScope 0])], VMicrotask 0 []]"

lemma sample_scopes_state:
  "case vm_run sample_rt ([], sample_state) sample_scopes of (h, a) \<Rightarrow>
     microtasks (heap a) = [] \<and> map sc_parent (scopes a) = [None, Some 0] \<and> sc_flag (scopes a ! 0)"
  by code_simp

theorem cancellation_reaches_descendants_witness:
  "\<exists>h a. vm_run sample_rt ([], sample_state) sample_scopes = (h, a) \<and> descendant a 0 1 \<and> rejected_scope a 1"
proof -
  obtain h a where r: "vm_run sample_rt ([], sample_state) sample_scopes = (h, a)" by fastforce
  have s: "microtasks (heap a) = []" "map sc_parent (scopes a) = [None, Some 0]" "sc_flag (scopes a ! 0)"
    using sample_scopes_state unfolding r prod.case by blast+
  then obtain x y where sc: "scopes a = [x, y]" "sc_parent y = Some 0"
    by (auto simp: map_eq_Cons_conv)
  have "descendant a 0 0" using sc by (intro descendant.self) simp
  then have d: "descendant a 0 1" by (rule descendant.child) (simp_all add: sc)
  have "reachable sample_rt (h, a)" unfolding r [symmetric] by (rule reachable_sample)
  from cancellation_reaches_descendants [OF this s(1) d s(3)] r d show ?thesis by blast
qed

end
