(* ===== verification/Workflow_Vm.thy ===== *)
theory Workflow_Vm
  imports Runtime_Properties
begin

text \<open>
  \<open>BaseVMWorkflow\<close> of packages/worker/src/workflow/vm-shared.ts: how the worker drives a workflow
  context through one activation. The contexts are created with \<open>microtaskMode: 'afterEvaluate'\<close>, so a
  call into the context that returns is followed by its queued reactions, in order; a call that throws
  is not. Fuel bounds the reactions and the unblocking rounds: user code may keep either going for ever,
  which the worker answers with its execution timeout, here \<open>None\<close>.
\<close>

subsection \<open>Batches of jobs\<close>

text \<open>\<open>partition\<close> of packages/worker/src/utils.ts.\<close>

definition partition_by :: "('a \<Rightarrow> bool) \<Rightarrow> 'a list \<Rightarrow> 'a list \<times> 'a list" where
  "partition_by P xs = fold (\<lambda>v (yes, no). if P v then (yes @ [v], no) else (yes, no @ [v])) xs ([], [])"

lemma partition_by_acc:
  "fold (\<lambda>v (yes, no). if P v then (yes @ [v], no) else (yes, no @ [v])) xs (ys, zs) =
     (ys @ filter P xs, zs @ filter (\<lambda>x. \<not> P x) xs)"
  by (induction xs arbitrary: ys zs) auto

lemma partition_by_eq: "partition_by P xs = (filter P xs, filter (\<lambda>x. \<not> P x) xs)"
  by (simp add: partition_by_def partition_by_acc)

definition job_batches :: "(job \<times> 'o) list \<Rightarrow> (job \<times> 'o) list list" where
  "job_batches jobs =
     (let (patches, nonPatches) = partition_by (is_patch_job \<circ> fst) jobs;
          (signals, nonSignals) = partition_by (is_signal_job \<circ> fst) nonPatches;
          (queries, rest) = partition_by (is_query_job \<circ> fst) nonSignals
      in [patches, signals, rest, queries])"

subsection \<open>Driving the context\<close>

text \<open>What user code does when its continuation at the head of the queue runs.\<close>

type_synonym 'u schedule = "'u act \<Rightarrow> 'u user_op list"

text \<open>The reactions queued when a call into the context returns, first come first served.\<close>

fun drain :: "nat \<Rightarrow> rt \<Rightarrow> 'u schedule \<Rightarrow> 'u act \<Rightarrow> 'u act option" where
  "drain fuel R sched a =
     (if microtasks (heap a) = [] then Some a
      else case fuel of
        0 \<Rightarrow> None
      | Suc n \<Rightarrow> drain n R sched (run_microtask R 0 (sched a) a))"

declare drain.simps [simp del]

fun unblock_loop :: "nat \<Rightarrow> nat \<Rightarrow> rt \<Rightarrow> 'u schedule \<Rightarrow> 'u act \<Rightarrow> 'u thrown option" where
  "unblock_loop 0 fuel R sched a = None"
| "unblock_loop (Suc rounds) fuel R sched a =
     (case tryUnblockConditions a of
        (Inl e, a1) \<Rightarrow> Some (Some e, a1)
      | (Inr numUnblocked, a1) \<Rightarrow>
          (case drain fuel R sched a1 of
             None \<Rightarrow> None
           | Some a2 \<Rightarrow> if numUnblocked = 0 then Some (None, a2) else unblock_loop rounds fuel R sched a2))"

definition run_batch ::
  "nat \<Rightarrow> rt \<Rightarrow> 'u schedule \<Rightarrow> activation_info \<Rightarrow> nat \<Rightarrow> (job \<times> 'u user_op list) list \<Rightarrow> 'u act \<Rightarrow> 'u thrown option" where
  "run_batch fuel R sched i batchIndex jobs a =
     (case activate R i batchIndex jobs a of
        (Some e, a1) \<Rightarrow> Some (Some e, a1)
      | (None, a1) \<Rightarrow>
          (case drain fuel R sched a1 of
             None \<Rightarrow> None
           | Some a2 \<Rightarrow>
               if shouldUnblockConditions (fst (hd jobs)) then unblock_loop fuel fuel R sched a2
               else Some (None, a2)))"

fun run_batches ::
  "nat \<Rightarrow> rt \<Rightarrow> 'u schedule \<Rightarrow> activation_info \<Rightarrow> nat \<Rightarrow> (job \<times> 'u user_op list) list list \<Rightarrow> 'u act \<Rightarrow> 'u thrown option" where
  "run_batches fuel R sched i batchIndex [] a = Some (None, a)"
| "run_batches fuel R sched i batchIndex (jobs # bs) a =
     (if jobs = [] then run_batches fuel R sched i batchIndex bs a
      else case run_batch fuel R sched i batchIndex jobs a of
        Some (None, a1) \<Rightarrow> run_batches fuel R sched i (Suc batchIndex) bs a1
      | r \<Rightarrow> r)"

text \<open>What \<open>activate\<close> gives the worker; the commands of a failed activation are dropped.\<close>

datatype vm_completion = VMThrows jsval | VMFailed proto_failure | VMSuccessful "command list"

fun truthy_wval :: "wval \<Rightarrow> bool" where
  "truthy_wval (WV v) = truthy v"
| "truthy_wval _ = True"

definition finish_activation :: "rt \<Rightarrow> command list \<Rightarrow> 'u act \<Rightarrow> vm_completion" where
  "finish_activation R cs a =
     (case unhandled a of
        None \<Rightarrow> VMSuccessful cs
      | Some e \<Rightarrow>
          if truthy_wval e then (case e2f R (plain_value e) of Inl x \<Rightarrow> VMThrows x | Inr f \<Rightarrow> VMFailed f)
          else VMSuccessful cs)"

definition vm_activate ::
  "nat \<Rightarrow> rt \<Rightarrow> 'u schedule \<Rightarrow> activation_info \<Rightarrow> (job \<times> 'u user_op list) list option \<Rightarrow> 'u act \<Rightarrow>
   (vm_completion \<times> command list \<times> 'u act) option" where
  "vm_activate fuel R sched i jobs a =
     (case jobs of
        None \<Rightarrow> Some (VMThrows (throw_plain ''Error'' ''Expected workflow activation jobs to be defined''), [], a)
      | Some jobs \<Rightarrow>
          (case run_batches fuel R sched i 0 (job_batches jobs) a of
             None \<Rightarrow> None
           | Some (Some e, a1) \<Rightarrow> Some (VMThrows e, [], a1)
           | Some (None, a1) \<Rightarrow>
               (case concludeActivation a1 of (cs, a2) \<Rightarrow>
                  (case drain fuel R sched a2 of
                     None \<Rightarrow> None
                   | Some a3 \<Rightarrow> Some (finish_activation R cs a3, cs, a3)))))"

subsection \<open>The driver as a run of the machine\<close>

text \<open>\<open>steps_to R a a'\<close>: some calls and reactions, without a conclusion, lead from \<open>a\<close> to \<open>a'\<close>.\<close>

definition steps_to :: "rt \<Rightarrow> 'u act \<Rightarrow> 'u act \<Rightarrow> bool" where
  "steps_to R a a' \<longleftrightarrow> (\<forall>h. \<exists>es. vm_run R (h, a) es = (h, a'))"

lemma steps_to_refl: "steps_to R a a"
  unfolding steps_to_def vm_run_def by (metis run_steps.simps(1))

lemma steps_to_trans: "steps_to R a b \<Longrightarrow> steps_to R b c \<Longrightarrow> steps_to R a c"
  unfolding steps_to_def vm_run_def by (metis run_steps_append)

lemma steps_to_one: "(\<And>h. vm_step R (h, a) e = (h, a')) \<Longrightarrow> steps_to R a a'"
  unfolding steps_to_def vm_run_def by (metis run_steps.simps)

lemma steps_to_activate: "activate R i n jobs a = (t, a') \<Longrightarrow> steps_to R a a'"
  by (rule steps_to_one [of R a "VActivate i n jobs"]) simp

lemma steps_to_microtask: "steps_to R a (run_microtask R n ops a)"
  by (rule steps_to_one [of R a "VMicrotask n ops"]) simp

lemma steps_to_unblock: "tryUnblockConditions a = (t, a') \<Longrightarrow> steps_to R a a'"
  by (rule steps_to_one [of R a VUnblock]) simp

lemma steps_to_drain: "drain fuel R sched a = Some a' \<Longrightarrow> steps_to R a a'"
proof (induction fuel arbitrary: a)
  case 0
  then show ?case by (simp add: drain.simps [of 0] steps_to_refl split: if_splits)
next
  case (Suc n)
  then show ?case
    by (subst (asm) (2) drain.simps)
      (auto split: if_splits intro: steps_to_refl steps_to_trans [OF steps_to_microtask])
qed

lemma drain_empty: "drain fuel R sched a = Some a' \<Longrightarrow> microtasks (heap a') = []"
proof (induction fuel arbitrary: a)
  case 0
  then show ?case by (simp add: drain.simps [of 0] split: if_splits)
next
  case (Suc n)
  then show ?case by (subst (asm) (2) drain.simps) (auto split: if_splits)
qed

lemma drain_idle [simp]: "microtasks (heap a) = [] \<Longrightarrow> drain fuel R sched a = Some a"
  by (simp add: drain.simps)

lemma steps_to_unblock_loop: "unblock_loop rounds fuel R sched a = Some (t, a') \<Longrightarrow> steps_to R a a'"
proof (induction rounds arbitrary: a)
  case (Suc rounds)
  obtain r a1 where u: "tryUnblockConditions a = (r, a1)" by fastforce
  from u have s: "steps_to R a a1" by (rule steps_to_unblock)
  show ?case
  proof (cases r)
    case (Inl e)
    with Suc.prems u s show ?thesis by simp
  next
    case (Inr n)
    then obtain a2 where d: "drain fuel R sched a1 = Some a2" using Suc.prems u by (auto split: option.splits)
    with s have "steps_to R a a2" by (blast intro: steps_to_trans steps_to_drain)
    then show ?thesis using Suc Inr u d by (auto split: if_splits intro: steps_to_trans)
  qed
qed simp

lemma steps_to_run_batch: "run_batch fuel R sched i n jobs a = Some (t, a') \<Longrightarrow> steps_to R a a'"
  by (auto simp: run_batch_def split: prod.splits option.splits if_splits
      dest!: steps_to_activate [where a' = "_ :: 'u act"] steps_to_drain steps_to_unblock_loop intro: steps_to_trans)

lemma steps_to_run_batches: "run_batches fuel R sched i n bs a = Some (t, a') \<Longrightarrow> steps_to R a a'"
  by (induction fuel R sched i n bs a rule: run_batches.induct)
    (auto split: if_splits option.splits prod.splits dest: steps_to_run_batch intro: steps_to_refl steps_to_trans)

lemma steps_to_reachable: "steps_to R a a' \<Longrightarrow> reachable R (h, a) \<Longrightarrow> reachable R (h, a')"
  unfolding steps_to_def by (metis reachable_run)

lemma concluded_reachable: "reachable R (h, a) \<Longrightarrow> concludeActivation a = (cs, a') \<Longrightarrow> reachable R (h @ cs, a')"
  using reachable_run [of R "(h, a)" "[VConclude]"] by (simp add: vm_run_def)

end
