(* ===== verification/Vm_Properties.thy ===== *)
theory Vm_Properties
  imports Workflow_Vm "HOL-Library.Multiset"
begin

text \<open>
  What the worker can rely on when it drives a workflow: the order in which jobs are applied, the
  protocol an activation follows (so the invariants of the machine hold along it), that no condition is left blocked although
  it is true, and that queries are answered without side effects.
\<close>

subsection \<open>Order of jobs\<close>

fun job_rank :: "job \<Rightarrow> nat" where
  "job_rank (JNotifyHasPatch _) = 0"
| "job_rank (JSignalWorkflow _) = 1"
| "job_rank (JQueryWorkflow _) = 3"
| "job_rank _ = 2"

lemma rank_patch: "is_patch_job j \<longleftrightarrow> job_rank j = 0"
  by (cases j) auto

lemma rank_signal: "is_signal_job j \<longleftrightarrow> job_rank j = 1"
  by (cases j) auto

lemma rank_query: "is_query_job j \<longleftrightarrow> job_rank j = 3"
  by (cases j) auto

lemma rank_le: "job_rank j \<le> 3"
  by (cases j) auto

lemma job_batches_ranks:
  "job_batches js =
     [filter (\<lambda>j. job_rank (fst j) = 0) js, filter (\<lambda>j. job_rank (fst j) = 1) js,
      filter (\<lambda>j. job_rank (fst j) = 2) js, filter (\<lambda>j. job_rank (fst j) = 3) js]"
proof -
  have r: "0 < job_rank j \<and> job_rank j = Suc 0 \<longleftrightarrow> job_rank j = Suc 0"
    "0 < job_rank j \<and> job_rank j \<noteq> Suc 0 \<and> job_rank j \<noteq> 3 \<longleftrightarrow> job_rank j = 2"
    "0 < job_rank j \<and> job_rank j \<noteq> Suc 0 \<and> job_rank j = 3 \<longleftrightarrow> job_rank j = 3" for j
    by (cases j; simp)+
  show ?thesis
    by (simp add: job_batches_def partition_by_eq rank_patch rank_signal rank_query comp_def r)
qed

lemma concat_batches_insert:
  "mset (concat (job_batches (j # js))) = add_mset j (mset (concat (job_batches js)))"
  unfolding job_batches_ranks by (cases "fst j") auto

lemma mset_batches: "mset (concat (job_batches js)) = mset js"
proof (induction js)
  case Nil
  show ?case by (simp add: job_batches_ranks)
qed (simp add: concat_batches_insert)

lemma filter_rank:
  "filter (\<lambda>j. k = job_rank (fst j)) (filter (\<lambda>j. job_rank (fst j) = n) js) =
     (if k = n then filter (\<lambda>j. k = job_rank (fst j)) js else [])"
  by (induction js) (auto simp del: filter_filter)

text \<open>C9. The worker applies the jobs of an activation in the documented order: first the patch
  notifications, then the signals, then everything else, queries last, and within each of these groups
  in the order core sent them. It is the stable sort of the jobs by that rank: none is lost or repeated.\<close>

theorem jobs_applied_in_order:
  "concat (job_batches js) = sort_key (\<lambda>j. job_rank (fst j)) js"
proof (rule properties_for_sort_key [symmetric])
  show "mset (concat (job_batches js)) = mset js" by (rule mset_batches)
  show "filter (\<lambda>x. job_rank (fst k) = job_rank (fst x)) (concat (job_batches js)) =
      filter (\<lambda>x. job_rank (fst k) = job_rank (fst x)) js" for k :: "job \<times> 'a"
    by (cases "fst k") (simp_all add: job_batches_ranks filter_rank del: filter_filter)
  show "sorted (map (\<lambda>j. job_rank (fst j)) (concat (job_batches js)))"
    by (auto simp: job_batches_ranks sorted_append sorted_map sorted_wrt_filter intro: sorted_wrt_mono_rel [of _ "\<lambda>_ _. True"])
qed

subsection \<open>No condition is left behind\<close>

text \<open>A condition function that only looks at the state, and a state in which none of them would succeed.\<close>

definition pure_conditions :: "'u act \<Rightarrow> bool" where
  "pure_conditions a \<longleftrightarrow> (\<forall>(seq, c) \<in> set (blockedConditions a). \<forall>u. \<exists>b. c_fn c u = Inr (b, u))"

definition no_true_condition :: "'u act \<Rightarrow> bool" where
  "no_true_condition a \<longleftrightarrow> (\<forall>(seq, c) \<in> set (blockedConditions a). \<forall>u. c_fn c (ustate a) \<noteq> Inr (True, u))"

definition at_rest :: "'u act \<Rightarrow> bool" where
  "at_rest a \<longleftrightarrow> microtasks (heap a) = [] \<and> (pure_conditions a \<longrightarrow> no_true_condition a)"

lemma unblock_pass_none:
  "unblock_pass cs a = (Inr 0, a') \<Longrightarrow> (\<forall>(seq, c) \<in> set cs. \<forall>u. \<exists>b. c_fn c u = Inr (b, u)) \<Longrightarrow>
     a' = a \<and> (\<forall>(seq, c) \<in> set cs. \<forall>u. c_fn c (ustate a) \<noteq> Inr (True, u))"
proof (induction cs arbitrary: a)
  case (Cons x cs)
  obtain seq c where x: "x = (seq, c)" by fastforce
  with Cons.prems(2) have "\<forall>u. \<exists>b. c_fn c u = Inr (b, u)" by simp
  then obtain b where b: "c_fn c (ustate a) = Inr (b, ustate a)" by blast
  with Cons.prems(1) x have n: "\<not> b" by (auto split: prod.splits sum.splits if_splits)
  with Cons.prems(1) x b have "unblock_pass cs a = (Inr 0, a')" by simp
  with Cons.IH Cons.prems(2) have "a' = a \<and> (\<forall>(seq, c) \<in> set cs. \<forall>u. c_fn c (ustate a) \<noteq> Inr (True, u))"
    by (meson list.set_intros(2))
  with x b n show ?case by simp
qed simp

lemma unblock_pass_keeps:
  "unblock_pass cs a = (Inr 0, a') \<Longrightarrow> blockedConditions a' = blockedConditions a \<and> heap a' = heap a"
proof (induction cs arbitrary: a)
  case (Cons x cs)
  obtain seq c where x: "x = (seq, c)" by fastforce
  show ?case
  proof (cases "c_fn c (ustate a)")
    case (Inr y)
    obtain b u where y: "y = (b, u)" by fastforce
    have "\<not> b" using Cons.prems x Inr y by (auto split: prod.splits sum.splits)
    with Cons.prems x Inr y have "unblock_pass cs (a\<lparr>ustate := u\<rparr>) = (Inr 0, a')" by simp
    from Cons.IH [OF this] show ?thesis by simp
  qed (use Cons.prems x in simp)
qed simp

lemma unblock_none:
  assumes "tryUnblockConditions a = (Inr 0, a')"
  shows "heap a' = heap a" "pure_conditions a' \<Longrightarrow> no_true_condition a'"
proof -
  have p: "unblock_pass (blockedConditions a) a = (Inr 0, a')"
    using assms by (subst (asm) tryUnblockConditions.simps) (auto split: prod.splits sum.splits nat.splits)
  from unblock_pass_keeps [OF p] show "heap a' = heap a" by simp
  show "no_true_condition a'" if "pure_conditions a'"
    using unblock_pass_none [OF p] unblock_pass_keeps [OF p] that
    by (auto simp: pure_conditions_def no_true_condition_def)
qed

lemma unblock_loop_rest:
  "unblock_loop rounds fuel R sched a = Some (None, a') \<Longrightarrow> microtasks (heap a) = [] \<Longrightarrow> at_rest a'"
proof (induction rounds arbitrary: a)
  case (Suc rounds)
  obtain n a1 where u: "tryUnblockConditions a = (Inr n, a1)"
    using Suc.prems(1) by (cases "tryUnblockConditions a") (auto split: sum.splits)
  obtain a2 where d: "drain fuel R sched a1 = Some a2" using Suc.prems u by (auto split: option.splits)
  show ?case
  proof (cases "n = 0")
    case True
    with u unblock_none [of a a1] Suc.prems have "microtasks (heap a1) = []" by simp
    with True u d Suc.prems unblock_none(2) [of a a1] show ?thesis by (auto simp: at_rest_def)
  next
    case False
    then show ?thesis using Suc.IH [of a2] Suc.prems u d drain_empty [OF d] by simp
  qed
qed simp

text \<open>Queries leave the conditions and the user's state alone.\<close>

definition only_query_tasks :: "'u act \<Rightarrow> bool" where
  "only_query_tasks a \<longleftrightarrow> (\<forall>(r, st) \<in> set (microtasks (heap a)). \<exists>q. r = RQueryDone q)"

definition same_view :: "'u act \<Rightarrow> 'u act \<Rightarrow> bool" where
  "same_view a b \<longleftrightarrow> blockedConditions b = blockedConditions a \<and> ustate b = ustate a"

lemma same_view_rest: "same_view a b \<Longrightarrow> microtasks (heap b) = [] \<Longrightarrow> at_rest a \<Longrightarrow> at_rest b"
  by (auto simp: same_view_def at_rest_def pure_conditions_def no_true_condition_def)

lemma microtasks_settled:
  "microtasks (then_do (length (cells h)) r (settle (length (cells h)) st (snd (new_promise own h)))) = microtasks h @ [(r, st)]"
  by (simp add: then_do_def settle_def new_promise_def nth_append)

lemma queryWorkflow_frame:
  "queryWorkflow R q a = (t, b) \<Longrightarrow> only_query_tasks a \<Longrightarrow> same_view a b \<and> only_query_tasks b"
  by (auto simp: queryWorkflow_def alloc_def on_heap_def thenP_def same_view_def only_query_tasks_def microtasks_settled
      split: if_splits option.splits sum.splits)

lemma same_view_trans: "same_view a b \<Longrightarrow> same_view b c \<Longrightarrow> same_view a c"
  by (simp add: same_view_def)

lemma activate_queries_frame:
  "activate_jobs R js a = (t, b) \<Longrightarrow> \<forall>j \<in> set js. is_query_job (fst j) \<Longrightarrow> only_query_tasks a \<Longrightarrow>
     same_view a b \<and> only_query_tasks b"
proof (induction js arbitrary: a)
  case (Cons x js)
  obtain q ops where x: "x = (JQueryWorkflow q, ops)" using Cons.prems(2) by (cases x; cases "fst x") auto
  obtain t1 a1 where q: "queryWorkflow R q a = (t1, a1)" by fastforce
  note f = queryWorkflow_frame [OF q Cons.prems(3)]
  show ?case
  proof (cases t1)
    case None
    with Cons.prems(1) x q have "activate_jobs R js a1 = (t, b)" by (simp add: shouldUnblockConditions_def)
    from Cons.IH [OF this] Cons.prems(2) f show ?thesis by (auto intro: same_view_trans)
  qed (use Cons.prems x q f in auto)
qed (simp add: same_view_def)

lemma drain_queries_frame:
  "drain fuel R sched a = Some b \<Longrightarrow> only_query_tasks a \<Longrightarrow> same_view a b"
proof (induction fuel arbitrary: a)
  case 0
  then show ?case by (simp add: drain.simps [of 0] same_view_def split: if_splits)
next
  case (Suc n)
  show ?case
  proof (cases "microtasks (heap a)")
    case Nil
    then show ?thesis using Suc.prems by (simp add: same_view_def)
  next
    case (Cons m ms)
    then obtain q st where m: "m = (RQueryDone q, st)" using Suc.prems(2) by (auto simp: only_query_tasks_def)
    let ?b = "run_microtask R 0 (sched a) a"
    have "same_view a ?b \<and> only_query_tasks ?b"
      using Suc.prems(2) Cons m
      by (auto simp: run_microtask_def same_view_def only_query_tasks_def completeQuery_def failQuery_def
          pushCommand_def throw_unhandled_def on_heap_def take_microtask_def split: settlement.splits sum.splits)
    moreover have "drain n R sched ?b = Some b" using Suc.prems(1) Cons by (subst (asm) drain.simps) simp
    ultimately show ?thesis using Suc.IH by (blast intro: same_view_trans)
  qed
qed

lemma begin_activation_frame: "begin_activation R i a = (t, b) \<Longrightarrow> same_view a b \<and> heap b = heap a"
  by (auto simp: begin_activation_def same_view_def split: option.splits sum.splits)

lemma activate_frame:
  assumes "activate R i n js a = (t, b)" and "\<forall>j \<in> set js. is_query_job (fst j)" and "microtasks (heap a) = []"
  shows "same_view a b \<and> only_query_tasks b"
proof -
  obtain t1 a1 where p: "(if n = 0 then begin_activation R i a else (None, a)) = (t1, a1)" by fastforce
  then have f: "same_view a a1" "only_query_tasks a1"
    using begin_activation_frame [of R i a t1 a1] assms(3)
    by (auto simp: only_query_tasks_def same_view_def split: if_splits)
  show ?thesis
  proof (cases t1)
    case None
    with assms(1) p have "activate_jobs R js a1 = (t, b)" by (simp add: activate_def)
    from activate_queries_frame [OF this assms(2) f(2)] f(1) show ?thesis by (blast intro: same_view_trans)
  qed (use assms(1) p f in \<open>auto simp: activate_def\<close>)
qed

lemma run_batchD:
  assumes "run_batch fuel R sched i n js a = Some (None, b)"
  obtains a1 a2 where "activate R i n js a = (None, a1)" "drain fuel R sched a1 = Some a2"
    "if shouldUnblockConditions (fst (hd js)) then unblock_loop fuel fuel R sched a2 = Some (None, b) else b = a2"
  using assms by (auto simp: run_batch_def split: prod.splits option.splits if_splits)

lemma run_batch_rest:
  assumes b: "run_batch fuel R sched i n js a = Some (None, b)"
  shows "microtasks (heap a) = [] \<Longrightarrow> microtasks (heap b) = []"
    and "shouldUnblockConditions (fst (hd js)) \<Longrightarrow> at_rest b"
    and "\<forall>j \<in> set js. is_query_job (fst j) \<Longrightarrow> js \<noteq> [] \<Longrightarrow> at_rest a \<Longrightarrow> at_rest b"
proof -
  from b obtain a1 a2 where r: "activate R i n js a = (None, a1)" "drain fuel R sched a1 = Some a2"
    "if shouldUnblockConditions (fst (hd js)) then unblock_loop fuel fuel R sched a2 = Some (None, b) else b = a2"
    by (rule run_batchD)
  have e: "microtasks (heap a2) = []" using r(2) by (rule drain_empty)
  show u: "at_rest b" if "shouldUnblockConditions (fst (hd js))"
    using r(3) that e by (auto intro: unblock_loop_rest)
  show "microtasks (heap b) = []" if "microtasks (heap a) = []"
    using u r(3) e by (auto simp: at_rest_def split: if_splits)
  show "at_rest b" if q: "\<forall>j \<in> set js. is_query_job (fst j)" and n: "js \<noteq> []" and a: "at_rest a"
  proof -
    have "is_query_job (fst (hd js))" using q n by simp
    then have [simp]: "b = a2" using r(3) by (simp add: shouldUnblockConditions_def)
    have "same_view a a1 \<and> only_query_tasks a1" using activate_frame [OF r(1) q] a by (simp add: at_rest_def)
    with drain_queries_frame [OF r(2)] have "same_view a b" by (auto intro: same_view_trans)
    with a e show ?thesis by (auto intro: same_view_rest)
  qed
qed

lemma run_batches_step:
  assumes "run_batches fuel R sched i n (js # bs) a = Some (None, b)"
  obtains m a1 where "run_batches fuel R sched i m bs a1 = Some (None, b)"
    "js = [] \<and> a1 = a \<or> js \<noteq> [] \<and> run_batch fuel R sched i n js a = Some (None, a1)"
  using assms by (auto split: if_splits option.splits prod.splits)

lemma run_batches_rest:
  assumes r: "run_batches fuel R sched i n [ps, ss, os, qs] a = Some (None, b)" and e: "microtasks (heap a) = []"
    and s: "\<forall>j \<in> set ss \<union> set os. shouldUnblockConditions (fst j)" and q: "\<forall>j \<in> set qs. is_query_job (fst j)"
    and ne: "ss \<noteq> [] \<or> os \<noteq> []"
  shows "at_rest b"
proof -
  from r obtain m1 a1 where 1: "run_batches fuel R sched i m1 [ss, os, qs] a1 = Some (None, b)"
    "ps = [] \<and> a1 = a \<or> ps \<noteq> [] \<and> run_batch fuel R sched i n ps a = Some (None, a1)"
    by (rule run_batches_step)
  from 1(1) obtain m2 a2 where 2: "run_batches fuel R sched i m2 [os, qs] a2 = Some (None, b)"
    "ss = [] \<and> a2 = a1 \<or> ss \<noteq> [] \<and> run_batch fuel R sched i m1 ss a1 = Some (None, a2)"
    by (rule run_batches_step)
  from 2(1) obtain m3 a3 where 3: "run_batches fuel R sched i m3 [qs] a3 = Some (None, b)"
    "os = [] \<and> a3 = a2 \<or> os \<noteq> [] \<and> run_batch fuel R sched i m2 os a2 = Some (None, a3)"
    by (rule run_batches_step)
  from 3(1) obtain m4 a4 where 4: "run_batches fuel R sched i m4 [] a4 = Some (None, b)"
    "qs = [] \<and> a4 = a3 \<or> qs \<noteq> [] \<and> run_batch fuel R sched i m3 qs a3 = Some (None, a4)"
    by (rule run_batches_step)
  have "ss \<noteq> [] \<Longrightarrow> at_rest a2" using 2(2) s by (auto dest: run_batch_rest(2))
  then have "at_rest a3" using 3(2) s ne by (auto dest: run_batch_rest(2))
  then have "at_rest a4" using 4(2) q run_batch_rest(3) by blast
  with 4(1) show ?thesis by simp
qed

text \<open>C5. No wake-up is lost: after an activation with at least one job that is neither a patch
  notification nor a query, the queue of reactions is empty and no blocked condition is true in the state
  user code has reached (its condition functions only reading that state), whatever user code did when
  the jobs were applied and its continuations ran.\<close>

theorem no_wakeup_lost:
  assumes "vm_activate fuel R sched i (Some js) a = Some (VMSuccessful cs, cs, a')"
    and "microtasks (heap a) = []" and "\<exists>j \<in> set js. shouldUnblockConditions (fst j)"
    and "pure_conditions a'"
  shows "microtasks (heap a') = [] \<and> no_true_condition a'"
proof -
  obtain a1 where b: "run_batches fuel R sched i 0 (job_batches js) a = Some (None, a1)"
    "drain fuel R sched (a1\<lparr>commands := []\<rparr>) = Some a'"
    using assms(1)
    by (auto simp: vm_activate_def finish_activation_def concludeActivation_def getAndResetCommands_def
        split: option.splits prod.splits if_splits sum.splits)
  have "at_rest a1"
  proof (rule run_batches_rest [OF b(1) [unfolded job_batches_ranks] assms(2)])
    show "filter (\<lambda>j. job_rank (fst j) = 1) js \<noteq> [] \<or> filter (\<lambda>j. job_rank (fst j) = 2) js \<noteq> []"
    proof -
      obtain j where j: "j \<in> set js" "shouldUnblockConditions (fst j)" using assms(3) by blast
      then have "job_rank (fst j) = 1 \<or> job_rank (fst j) = 2"
        by (cases "fst j") (auto simp: shouldUnblockConditions_def)
      with j(1) show ?thesis by (auto simp: filter_empty_conv)
    qed
  qed (auto simp: shouldUnblockConditions_def rank_patch rank_query)
  moreover from this have "a' = a1\<lparr>commands := []\<rparr>" using b(2) by (simp add: at_rest_def)
  ultimately show ?thesis using assms(4)
    by (simp add: at_rest_def pure_conditions_def no_true_condition_def)
qed

text \<open>A workflow that waits for a condition over its Boolean state; a timer the workflow does not know fires too.\<close>

definition sample_waiting :: "bool act" where
  "sample_waiting = initial_act (\<lambda>_ _. QReturn (JStr ''s''), \<lambda>_ _. QReturn (JStr ''s'')) True False [] [] (Fin 0) False"

definition sample_wait_jobs :: "(job \<times> bool user_op list) list" where
  "sample_wait_jobs =
     [(JQueryWorkflow \<lparr>qj_queryType = Some ''__stack_trace'', qj_queryId = Some ''q1'', qj_arguments = None\<rparr>, []),
      (JStartWorkflow None, [OCondition 0 (\<lambda>u. Inr (u, u)) None])]"

lemma sample_wait_run:
  "case vm_activate 2 sample_rt (\<lambda>_. []) sample_info (Some sample_wait_jobs) sample_waiting of
     Some (VMSuccessful cs, cs', a') \<Rightarrow> cs = cs' \<and> length cs = 1 \<and> map fst (blockedConditions a') = [1] \<and> pure_conditions a'
   | _ \<Rightarrow> False"
  by code_simp

lemma successfulE:
  assumes "case x of Some (VMSuccessful cs, cs', a') \<Rightarrow> P cs cs' a' | _ \<Rightarrow> False"
  obtains cs cs' a' where "x = Some (VMSuccessful cs, cs', a')" "P cs cs' a'"
  using assms by (cases x; cases "fst (the x)") (auto intro: that)

theorem no_wakeup_lost_witness:
  "\<exists>cs a'. vm_activate 2 sample_rt (\<lambda>_. []) sample_info (Some sample_wait_jobs) sample_waiting = Some (VMSuccessful cs, cs, a')
     \<and> map fst (blockedConditions a') = [1] \<and> no_true_condition a'"
proof -
  obtain cs a' where r: "vm_activate 2 sample_rt (\<lambda>_. []) sample_info (Some sample_wait_jobs) sample_waiting = Some (VMSuccessful cs, cs, a')"
    "map fst (blockedConditions a') = [1]" "pure_conditions a'"
    using successfulE [OF sample_wait_run] by metis
  have "microtasks (heap sample_waiting) = []" by (simp add: sample_waiting_def initial_act_def new_promise_def empty_heap_def)
  moreover have "\<exists>j \<in> set sample_wait_jobs. shouldUnblockConditions (fst j)"
    by (simp add: sample_wait_jobs_def shouldUnblockConditions_def)
  ultimately have "no_true_condition a'" using no_wakeup_lost [OF r(1) _ _ r(3)] by simp
  with r show ?thesis by metis
qed

subsection \<open>The protocol of an activation\<close>

text \<open>
  What the worker promises the context, as a language of calls and reactions of the machine. Only when the queue is empty
  does the worker call; a queued reaction runs first, the oldest one, and continues as user code has it. The groups of jobs
  are activated by rank, those without a job left out, numbered from 0. After a group of signals or of other jobs, and
  after no other, the conditions are unblocked until a round unblocks none, before anything else is called. When no group
  is left the activation is concluded, once, and the reactions queued by then run. A call that throws is the last event.
  \<open>due\<close> is what is left of the groups, \<open>None\<close> once concluded, and \<open>thrown\<close> what the last call has thrown, if it has.
\<close>

definition job_group :: "(job \<times> 'o) list \<Rightarrow> nat \<Rightarrow> (job \<times> 'o) list" where
  "job_group js r = filter (\<lambda>j. job_rank (fst j) = r) js"

fun protocol ::
  "rt \<Rightarrow> 'u schedule \<Rightarrow> activation_info \<Rightarrow> (job \<times> 'u user_op list) list \<Rightarrow> jsval option \<Rightarrow>
   'u vm_event list \<Rightarrow> nat \<Rightarrow> bool \<Rightarrow> nat list option \<Rightarrow> 'u act \<Rightarrow> bool" where
  "protocol R sched i js thrown [] k unblock due a \<longleftrightarrow> microtasks (heap a) = [] \<and> due = None \<and> thrown = None"
| "protocol R sched i js thrown (VMicrotask n ops # es) k unblock due a \<longleftrightarrow>
     microtasks (heap a) \<noteq> [] \<and> n = 0 \<and> ops = sched a \<and>
     protocol R sched i js thrown es k unblock due (run_microtask R n ops a)"
| "protocol R sched i js thrown (VUnblock # es) k unblock due a \<longleftrightarrow>
     microtasks (heap a) = [] \<and> unblock \<and>
     (case tryUnblockConditions a of
        (Inl e, _) \<Rightarrow> es = [] \<and> thrown = Some e
      | (Inr unblocked, a1) \<Rightarrow> protocol R sched i js thrown es k (unblocked \<noteq> 0) due a1)"
| "protocol R sched i js thrown (VActivate i' n jobs # es) k unblock due a \<longleftrightarrow>
     microtasks (heap a) = [] \<and> \<not> unblock \<and> i' = i \<and> n = k \<and>
     (case due of
        Some (r # rs) \<Rightarrow>
          jobs = job_group js r \<and>
          (case activate R i k jobs a of
             (Some e, _) \<Rightarrow> es = [] \<and> thrown = Some e
           | (None, a1) \<Rightarrow> protocol R sched i js thrown es (Suc k) (r = 1 \<or> r = 2) (Some rs) a1)
      | _ \<Rightarrow> False)"
| "protocol R sched i js thrown (VConclude # es) k unblock due a \<longleftrightarrow>
     microtasks (heap a) = [] \<and> \<not> unblock \<and> due = Some [] \<and>
     protocol R sched i js thrown es k False None (snd (concludeActivation a))"
| "protocol R sched i js thrown (VGetSinkCalls # es) k unblock due a \<longleftrightarrow> False"

definition activation_groups :: "(job \<times> 'o) list \<Rightarrow> nat list" where
  "activation_groups js = filter (\<lambda>r. job_group js r \<noteq> []) [0, 1, 2, 3]"

definition follows_protocol ::
  "rt \<Rightarrow> 'u schedule \<Rightarrow> activation_info \<Rightarrow> (job \<times> 'u user_op list) list \<Rightarrow> jsval option \<Rightarrow> 'u vm_event list \<Rightarrow> 'u act \<Rightarrow> bool" where
  "follows_protocol R sched i js thrown es a \<longleftrightarrow>
     protocol R sched i js thrown es 0 False (Some (activation_groups js)) a"

text \<open>From the driver to a run: what the driver does is put before a run that does the rest.\<close>

definition accepts ::
  "rt \<Rightarrow> 'u schedule \<Rightarrow> activation_info \<Rightarrow> (job \<times> 'u user_op list) list \<Rightarrow> jsval option \<times> command list \<times> 'u act \<Rightarrow>
   nat \<Rightarrow> bool \<Rightarrow> nat list option \<Rightarrow> 'u act \<Rightarrow> bool" where
  "accepts R sched i js res k unblock due a \<longleftrightarrow>
     (case res of (thrown, cs, a') \<Rightarrow>
        \<exists>es. protocol R sched i js thrown es k unblock due a \<and> (\<forall>h. vm_run R (h, a) es = (h @ cs, a')))"

lemma accepts_end: "microtasks (heap a) = [] \<Longrightarrow> accepts R sched i js (None, [], a) k unblock None a"
  by (auto simp: accepts_def vm_run_def intro!: exI [of _ "[]"])

lemma accepts_step:
  assumes "accepts R sched i js res k' unblock' due' a1"
    and "\<And>es thrown. protocol R sched i js thrown es k' unblock' due' a1 \<Longrightarrow> protocol R sched i js thrown (e # es) k unblock due a"
    and "\<And>h. vm_step R (h, a) e = (h, a1)"
  shows "accepts R sched i js res k unblock due a"
proof -
  obtain thrown cs a' where res: "res = (thrown, cs, a')" by (cases res) auto
  with assms(1) obtain es where es: "protocol R sched i js thrown es k' unblock' due' a1" "\<forall>h. vm_run R (h, a1) es = (h @ cs, a')"
    by (auto simp: accepts_def)
  have "\<forall>h. vm_run R (h, a) (e # es) = (h @ cs, a')" using es(2) assms(3) by (simp add: vm_run_def)
  with assms(2) [OF es(1)] res show ?thesis by (auto simp: accepts_def)
qed

lemma accepts_throw:
  assumes "protocol R sched i js (Some e) [ev] k unblock due a" and "\<And>h. vm_step R (h, a) ev = (h, a1)"
  shows "accepts R sched i js (Some e, [], a1) k unblock due a"
  using assms by (auto simp: accepts_def vm_run_def intro!: exI [of _ "[ev]"])

lemma accepts_drain:
  "drain fuel R sched a = Some a1 \<Longrightarrow> accepts R sched i js res k unblock due a1 \<Longrightarrow> accepts R sched i js res k unblock due a"
proof (induction fuel arbitrary: a)
  case 0
  then show ?case by (simp add: drain.simps [of 0] split: if_splits)
next
  case (Suc n)
  show ?case
  proof (cases "microtasks (heap a) = []")
    case False
    then have "drain n R sched (run_microtask R 0 (sched a) a) = Some a1" using Suc.prems(1) by (subst (asm) drain.simps) simp
    from Suc.IH [OF this Suc.prems(2)] show ?thesis
      by (rule accepts_step [where e = "VMicrotask 0 (sched a)"]) (simp_all add: False)
  qed (use Suc.prems in simp)
qed

lemma accepts_unblock_loop:
  assumes "unblock_loop rounds fuel R sched a = Some (t, a1)" and "microtasks (heap a) = []"
    and "case t of None \<Rightarrow> accepts R sched i js res k False due a1 | Some e \<Rightarrow> res = (Some e, [], a1)"
  shows "accepts R sched i js res k True due a"
  using assms
proof (induction rounds arbitrary: a)
  case (Suc rounds)
  obtain r b where u: "tryUnblockConditions a = (r, b)" by fastforce
  show ?case
  proof (cases r)
    case (Inl e)
    with Suc.prems u have "t = Some e" "a1 = b" by auto
    with Suc.prems u Inl show ?thesis by (auto intro!: accepts_throw [where ev = VUnblock])
  next
    case (Inr m)
    obtain c where d: "drain fuel R sched b = Some c" using Suc.prems(1) u Inr by (auto split: option.splits)
    have "accepts R sched i js res k (m \<noteq> 0) due c"
    proof (cases "m = 0")
      case True
      then show ?thesis using Suc.prems u Inr d by auto
    next
      case False
      then show ?thesis using Suc.IH [of c] Suc.prems u Inr d drain_empty [OF d] by auto
    qed
    with d have "accepts R sched i js res k (m \<noteq> 0) due b" by (rule accepts_drain)
    then show ?thesis by (rule accepts_step [where e = VUnblock]) (simp_all add: u Inr Suc.prems(2))
  qed
qed simp

lemma group_unblocks: "job_group js r \<noteq> [] \<Longrightarrow> shouldUnblockConditions (fst (hd (job_group js r))) \<longleftrightarrow> r = 1 \<or> r = 2"
proof -
  assume "job_group js r \<noteq> []"
  then have "hd (job_group js r) \<in> set (job_group js r)" by simp
  then have "job_rank (fst (hd (job_group js r))) = r" by (simp add: job_group_def)
  then show ?thesis by (cases "fst (hd (job_group js r))") (auto simp: shouldUnblockConditions_def)
qed

lemma accepts_run_batches:
  assumes "run_batches fuel R sched i k (map (job_group js) rs) a = Some (t, a1)" and "\<forall>r \<in> set rs. job_group js r \<noteq> []"
    and "microtasks (heap a) = []"
    and "case t of None \<Rightarrow> microtasks (heap a1) = [] \<longrightarrow> (\<forall>k. accepts R sched i js res k False (Some []) a1) | Some e \<Rightarrow> res = (Some e, [], a1)"
  shows "accepts R sched i js res k False (Some rs) a"
  using assms
proof (induction rs arbitrary: a k)
  case (Cons r rs)
  let ?js = "job_group js r"
  have ne: "?js \<noteq> []" using Cons.prems(2) by simp
  obtain t1 b where act: "activate R i k ?js a = (t1, b)" by fastforce
  show ?case
  proof (cases t1)
    case (Some e)
    with Cons.prems act ne have "t = Some e" "a1 = b" by (auto simp: run_batch_def)
    with Cons.prems act Some show ?thesis by (auto intro!: accepts_throw [where ev = "VActivate i k ?js"])
  next
    case None
    then obtain c where d: "drain fuel R sched b = Some c"
      using Cons.prems(1) ne act by (auto simp: run_batch_def split: option.splits)
    note e = drain_empty [OF d]
    note rest = Cons.IH [of "Suc k"]
    have "accepts R sched i js res (Suc k) (r = 1 \<or> r = 2) (Some rs) c"
    proof (cases "r = 1 \<or> r = 2")
      case False
      then show ?thesis using rest [of c] Cons.prems ne act None d e by (simp add: run_batch_def group_unblocks)
    next
      case True
      then obtain t2 x where u: "unblock_loop fuel fuel R sched c = Some (t2, x)"
        using Cons.prems(1) ne act None d by (auto simp: run_batch_def group_unblocks split: option.splits)
      show ?thesis
      proof (cases t2)
        case N: None
        have "microtasks (heap x) = []" using unblock_loop_rest [OF u [unfolded N] e] by (simp add: at_rest_def)
        with True N u Cons.prems ne act None d have "accepts R sched i js res (Suc k) False (Some rs) x"
          by (intro rest) (simp_all add: run_batch_def group_unblocks)
        then show ?thesis using accepts_unblock_loop [OF u e] N True by simp
      next
        case (Some e')
        with True u Cons.prems ne act None d have "t = Some e'" "a1 = x" by (simp_all add: run_batch_def group_unblocks)
        then show ?thesis using accepts_unblock_loop [OF u e] Some True Cons.prems(4) by simp
      qed
    qed
    with d have "accepts R sched i js res (Suc k) (r = 1 \<or> r = 2) (Some rs) b" by (rule accepts_drain)
    then show ?thesis by (rule accepts_step [where e = "VActivate i k ?js"]) (simp_all add: act None Cons.prems(3))
  qed
qed simp

text \<open>From a run to the driver: more fuel changes no result, and \<open>resume\<close> is what is left of an activation at any point.\<close>

lemma drain_more: "drain fuel R sched a = Some b \<Longrightarrow> fuel \<le> fuel' \<Longrightarrow> drain fuel' R sched a = Some b"
proof (induction fuel arbitrary: a fuel')
  case 0
  then show ?case by (simp add: drain.simps [of 0] split: if_splits)
next
  case (Suc n)
  then obtain m where "fuel' = Suc m" "n \<le> m" by (metis Suc_le_D Suc_le_mono)
  with Suc show ?case by (auto simp: drain.simps [of "Suc _"] split: if_splits)
qed

lemma unblock_loop_more:
  "unblock_loop rounds fuel R sched a = Some x \<Longrightarrow> rounds \<le> rounds' \<Longrightarrow> fuel \<le> fuel' \<Longrightarrow> unblock_loop rounds' fuel' R sched a = Some x"
proof (induction rounds arbitrary: a rounds')
  case (Suc n)
  then obtain m where "rounds' = Suc m" "n \<le> m" by (metis Suc_le_D Suc_le_mono)
  with Suc show ?case by (auto dest: drain_more split: prod.splits sum.splits option.splits if_splits)
qed simp

lemma unblock_if_more:
  "(if u then unblock_loop n n R sched b else Some (None, b)) = Some x \<Longrightarrow> n \<le> m \<Longrightarrow>
     (if u then unblock_loop m m R sched b else Some (None, b)) = Some x"
  by (cases u) (auto intro: unblock_loop_more)

lemma run_batch_more:
  assumes "run_batch fuel R sched i k jobs a = Some x" and "fuel \<le> fuel'"
  shows "run_batch fuel' R sched i k jobs a = Some x"
proof -
  obtain t a1 where act: "activate R i k jobs a = (t, a1)" by fastforce
  show ?thesis
  proof (cases t)
    case None
    then obtain b where d: "drain fuel R sched a1 = Some b" using assms(1) act by (auto simp: run_batch_def split: option.splits)
    with assms(1) act None have "(if shouldUnblockConditions (fst (hd jobs)) then unblock_loop fuel fuel R sched b else Some (None, b)) = Some x"
      by (simp add: run_batch_def)
    from unblock_if_more [OF this assms(2)] drain_more [OF d assms(2)] act None show ?thesis by (simp add: run_batch_def)
  next
    case (Some e)
    with assms(1) act have "x = (Some e, a1)" by (simp add: run_batch_def)
    with act Some show ?thesis by (simp add: run_batch_def)
  qed
qed

lemma run_batches_more:
  "run_batches fuel R sched i k bs a = Some x \<Longrightarrow> fuel \<le> fuel' \<Longrightarrow> run_batches fuel' R sched i k bs a = Some x"
proof (induction bs arbitrary: a k)
  case (Cons js bs)
  then show ?case by (auto dest: run_batch_more split: prod.splits option.splits if_splits)
qed simp

definition conclude_rest :: "nat \<Rightarrow> rt \<Rightarrow> 'u schedule \<Rightarrow> 'u thrown \<Rightarrow> (jsval option \<times> command list \<times> 'u act) option" where
  "conclude_rest fuel R sched ta =
     (case ta of
        (Some e, a) \<Rightarrow> Some (Some e, [], a)
      | (None, a) \<Rightarrow> (case concludeActivation a of (cs, b) \<Rightarrow> map_option (\<lambda>c. (None, cs, c)) (drain fuel R sched b)))"

definition groups_rest ::
  "nat \<Rightarrow> rt \<Rightarrow> 'u schedule \<Rightarrow> activation_info \<Rightarrow> (job \<times> 'u user_op list) list \<Rightarrow> nat \<Rightarrow> nat list option \<Rightarrow> 'u thrown \<Rightarrow>
   (jsval option \<times> command list \<times> 'u act) option" where
  "groups_rest fuel R sched i js k due ta =
     (case ta of
        (Some e, a) \<Rightarrow> Some (Some e, [], a)
      | (None, a) \<Rightarrow>
          (case due of
             None \<Rightarrow> Some (None, [], a)
           | Some rs \<Rightarrow> Option.bind (run_batches fuel R sched i k (map (job_group js) rs) a) (conclude_rest fuel R sched)))"

definition resume ::
  "nat \<Rightarrow> rt \<Rightarrow> 'u schedule \<Rightarrow> activation_info \<Rightarrow> (job \<times> 'u user_op list) list \<Rightarrow> nat \<Rightarrow> bool \<Rightarrow> nat list option \<Rightarrow> 'u act \<Rightarrow>
   (jsval option \<times> command list \<times> 'u act) option" where
  "resume fuel R sched i js k unblock due a =
     Option.bind (drain fuel R sched a) (\<lambda>b.
       Option.bind (if unblock then unblock_loop fuel fuel R sched b else Some (None, b)) (groups_rest fuel R sched i js k due))"

lemma conclude_rest_more: "conclude_rest fuel R sched ta = Some x \<Longrightarrow> fuel \<le> fuel' \<Longrightarrow> conclude_rest fuel' R sched ta = Some x"
  by (auto simp: conclude_rest_def dest: drain_more split: prod.splits option.splits)

lemma groups_rest_more:
  "groups_rest fuel R sched i js k due ta = Some x \<Longrightarrow> fuel \<le> fuel' \<Longrightarrow> groups_rest fuel' R sched i js k due ta = Some x"
  by (auto simp: groups_rest_def bind_eq_Some_conv dest: run_batches_more conclude_rest_more split: prod.splits option.splits)

lemma resume_more:
  "resume fuel R sched i js k unblock due a = Some x \<Longrightarrow> fuel \<le> fuel' \<Longrightarrow> resume fuel' R sched i js k unblock due a = Some x"
  unfolding resume_def bind_eq_Some_conv by (blast intro: drain_more unblock_if_more groups_rest_more)

lemma resume_microtask:
  assumes "resume n R sched i js k unblock due (run_microtask R 0 (sched a) a) = Some x" and "microtasks (heap a) \<noteq> []"
  shows "resume (Suc n) R sched i js k unblock due a = Some x"
proof -
  have "drain (Suc n) R sched a = drain n R sched (run_microtask R 0 (sched a) a)" using assms(2) by (subst drain.simps) simp
  moreover obtain b ta where "drain n R sched (run_microtask R 0 (sched a) a) = Some b"
    "(if unblock then unblock_loop n n R sched b else Some (None, b)) = Some ta" "groups_rest n R sched i js k due ta = Some x"
    using assms(1) unfolding resume_def bind_eq_Some_conv by blast
  ultimately show ?thesis
    using unblock_if_more [of unblock n R sched b ta "Suc n"] groups_rest_more [of n R sched i js k due ta x "Suc n"]
    by (simp add: resume_def)
qed

lemma resume_unblock:
  assumes "resume n R sched i js k (m \<noteq> 0) due a1 = Some x" and "microtasks (heap a) = []" and "tryUnblockConditions a = (Inr m, a1)"
  shows "resume (Suc n) R sched i js k True due a = Some x"
proof -
  obtain b where b: "drain n R sched a1 = Some b"
    "Option.bind (if m \<noteq> 0 then unblock_loop n n R sched b else Some (None, b)) (groups_rest n R sched i js k due) = Some x"
    using assms(1) by (auto simp: resume_def bind_eq_Some_conv)
  then obtain ta where ta: "(if m \<noteq> 0 then unblock_loop n n R sched b else Some (None, b)) = Some ta" "groups_rest n R sched i js k due ta = Some x"
    by (auto simp: bind_eq_Some_conv)
  have "unblock_loop (Suc n) (Suc n) R sched a = Some ta"
    using ta(1) assms(3) drain_more [OF b(1), of "Suc n"] unblock_loop_more [of n n R sched b ta n "Suc n"] by (auto split: if_splits)
  then show ?thesis using groups_rest_more [OF ta(2), of "Suc n"] assms(2) by (simp add: resume_def)
qed

lemma resume_activate:
  assumes "resume n R sched i js (Suc k) (r = 1 \<or> r = 2) (Some rs) a1 = Some x" and "microtasks (heap a) = []"
    and "activate R i k (job_group js r) a = (None, a1)" and "job_group js r \<noteq> []"
  shows "resume n R sched i js k False (Some (r # rs)) a = Some x"
proof -
  obtain b ta where b: "drain n R sched a1 = Some b"
    "(if r = 1 \<or> r = 2 then unblock_loop n n R sched b else Some (None, b)) = Some ta"
    "groups_rest n R sched i js (Suc k) (Some rs) ta = Some x"
    using assms(1) by (auto simp: resume_def bind_eq_Some_conv)
  then have "run_batch n R sched i k (job_group js r) a = Some ta"
    using assms(3, 4) by (simp add: run_batch_def group_unblocks)
  then have "groups_rest n R sched i js k (Some (r # rs)) (None, a) = groups_rest n R sched i js (Suc k) (Some rs) ta"
    using assms(4) by (cases ta; cases "fst ta") (auto simp: groups_rest_def conclude_rest_def)
  with b(3) assms(2) show ?thesis by (simp add: resume_def)
qed

lemma resume_throws:
  "microtasks (heap a) = [] \<Longrightarrow> tryUnblockConditions a = (Inl e, a1) \<Longrightarrow>
     resume 1 R sched i js k True due a = Some (Some e, [], a1)"
  "microtasks (heap a) = [] \<Longrightarrow> activate R i k (job_group js r) a = (Some e, a1) \<Longrightarrow> job_group js r \<noteq> [] \<Longrightarrow>
     resume n R sched i js k False (Some (r # rs)) a = Some (Some e, [], a1)"
  by (simp_all add: resume_def groups_rest_def run_batch_def conclude_rest_def)

lemma resume_conclude:
  assumes "resume n R sched i js k False None a1 = Some (t, cs', a')" and "microtasks (heap a) = []"
    and "concludeActivation a = (cs, a1)"
  shows "cs' = [] \<and> resume n R sched i js k False (Some []) a = Some (t, cs, a')"
  using assms by (auto simp: resume_def groups_rest_def conclude_rest_def bind_eq_Some_conv)

lemma resume_of_run:
  "protocol R sched i js thrown es k unblock due a \<Longrightarrow> vm_run R (h, a) es = (h', a') \<Longrightarrow>
   (\<forall>rs. due = Some rs \<longrightarrow> (\<forall>r \<in> set rs. job_group js r \<noteq> [])) \<Longrightarrow> (unblock \<longrightarrow> due \<noteq> None) \<Longrightarrow>
     \<exists>fuel cs. h' = h @ cs \<and> resume fuel R sched i js k unblock due a = Some (thrown, cs, a')"
proof (induction R sched i js thrown es k unblock due a arbitrary: h rule: protocol.induct)
  case (1 R sched i js thrown k unblock due a)
  then show ?case by (auto simp: vm_run_def resume_def groups_rest_def)
next
  case (2 R sched i js thrown n ops es k unblock due a)
  then have c: "n = 0" "ops = sched a" "microtasks (heap a) \<noteq> []" by simp_all
  have p: "protocol R sched i js thrown es k unblock due (run_microtask R n ops a)" using 2(2) unfolding protocol.simps by blast
  have run: "vm_run R (h, run_microtask R n ops a) es = (h', a')" using 2(3) by (simp add: vm_run_def)
  from 2(1) [OF p run 2(4, 5)] c show ?case by (blast intro: resume_microtask)
next
  case (3 R sched i js thrown es k unblock due a)
  obtain r a1 where u: "tryUnblockConditions a = (r, a1)" by fastforce
  show ?case
  proof (cases r)
    case (Inl e)
    with 3 u show ?thesis by (auto simp: vm_run_def intro!: exI [of _ 1] exI [of _ "[]"] resume_throws(1))
  next
    case (Inr m)
    have run: "vm_run R (h, a1) es = (h', a')" using 3(3) u by (simp add: vm_run_def)
    have p: "protocol R sched i js thrown es k (m \<noteq> 0) due a1" "microtasks (heap a) = []" unblock using 3(2) u Inr by auto
    have "m \<noteq> 0 \<longrightarrow> due \<noteq> None" using 3(5) p(3) by simp
    from 3(1) [OF u [symmetric] Inr p(1) run 3(4) this] obtain fuel cs
      where s: "h' = h @ cs" "resume fuel R sched i js k (m \<noteq> 0) due a1 = Some (thrown, cs, a')" by blast
    from resume_unblock [OF s(2) p(2) u [unfolded Inr]] s(1) p(3) show ?thesis by auto
  qed
next
  case (4 R sched i js thrown i' n jobs es k unblock due a)
  from 4(2) obtain r rs where due: "due = Some (r # rs)" by (auto split: option.splits list.splits)
  with 4(2) have c: "microtasks (heap a) = []" "\<not> unblock" "i' = i" "n = k" "jobs = job_group js r" by auto
  have ne: "job_group js r \<noteq> []" using 4(4) due by simp
  obtain t a1 where act: "activate R i k (job_group js r) a = (t, a1)" by fastforce
  show ?case
  proof (cases t)
    case (Some e)
    with 4 due c act have "es = []" "thrown = Some e" "h' = h" "a' = a1" by (auto simp: vm_run_def)
    with resume_throws(2) [OF c(1) act [unfolded Some] ne] due c show ?thesis by auto
  next
    case None
    have run: "vm_run R (h, a1) es = (h', a')" using 4(3) act c by (simp add: vm_run_def)
    have p: "protocol R sched i js thrown es (Suc k) (r = 1 \<or> r = 2) (Some rs) a1" using 4(2) due c act None by auto
    from 4(1) [OF due refl act [folded c(5), symmetric] None p run] 4(4) due obtain fuel cs
      where s: "h' = h @ cs" "resume fuel R sched i js (Suc k) (r = 1 \<or> r = 2) (Some rs) a1 = Some (thrown, cs, a')" by auto
    from resume_activate [OF s(2) c(1) act [unfolded None] ne] s(1) due c show ?thesis by auto
  qed
next
  case (5 R sched i js thrown es k unblock due a)
  obtain cs a1 where con: "concludeActivation a = (cs, a1)" by fastforce
  have p: "protocol R sched i js thrown es k False None a1" "microtasks (heap a) = []" "\<not> unblock" "due = Some []" using 5(2) con by auto
  have run: "vm_run R (h @ cs, a1) es = (h', a')" using 5(3) con by (simp add: vm_run_def)
  from 5(1) [of "h @ cs"] p run con obtain fuel cs' where r: "h' = (h @ cs) @ cs'" "resume fuel R sched i js k False None a1 = Some (thrown, cs', a')"
    by auto
  from resume_conclude [OF r(2) p(2) con] r(1) p show ?case by auto
qed simp

lemma accepts_conclude:
  assumes "microtasks (heap a) = []" and "concludeActivation a = (cs, b)" and "drain fuel R sched b = Some a'"
  shows "accepts R sched i js (None, cs, a') k False (Some []) a"
proof -
  have "accepts R sched i js (None, [], a') k False None b"
    using assms(3) drain_empty [OF assms(3)] by (blast intro: accepts_drain accepts_end)
  then obtain es where es: "protocol R sched i js None es k False None b" "\<forall>h. vm_run R (h, b) es = (h, a')"
    by (auto simp: accepts_def)
  then have "\<forall>h. vm_run R (h, a) (VConclude # es) = (h @ cs, a')" using assms(2) by (simp add: vm_run_def)
  moreover have "protocol R sched i js None (VConclude # es) k False (Some []) a" using es(1) assms by simp
  ultimately show ?thesis unfolding accepts_def by blast
qed

lemma run_batches_nonempty: "run_batches fuel R sched i k (filter (\<lambda>js. js \<noteq> []) bs) a = run_batches fuel R sched i k bs a"
  by (induction bs arbitrary: a k) (auto split: option.splits prod.splits)

lemma map_activation_groups: "map (job_group js) (activation_groups js) = filter (\<lambda>b. b \<noteq> []) (job_batches js)"
  by (simp add: activation_groups_def job_batches_ranks job_group_def)

definition completion_of :: "rt \<Rightarrow> jsval option \<times> command list \<times> 'u act \<Rightarrow> vm_completion \<times> command list \<times> 'u act" where
  "completion_of R res = (case res of (thrown, cs, a') \<Rightarrow> (case thrown of Some e \<Rightarrow> VMThrows e | None \<Rightarrow> finish_activation R cs a', cs, a'))"

lemma vm_activate_resume:
  assumes "microtasks (heap a) = []"
  shows "vm_activate fuel R sched i (Some js) a =
     map_option (completion_of R) (resume fuel R sched i js 0 False (Some (activation_groups js)) a)"
  using assms
  by (auto simp: vm_activate_def resume_def groups_rest_def conclude_rest_def completion_of_def map_activation_groups run_batches_nonempty
      split: option.splits prod.splits)

lemma run_of_resume:
  assumes "resume fuel R sched i js 0 False (Some (activation_groups js)) a = Some res" and "microtasks (heap a) = []"
  shows "accepts R sched i js res 0 False (Some (activation_groups js)) a"
proof -
  obtain t a1 where b: "run_batches fuel R sched i 0 (map (job_group js) (activation_groups js)) a = Some (t, a1)"
    "conclude_rest fuel R sched (t, a1) = Some res"
    using assms by (auto simp: resume_def groups_rest_def bind_eq_Some_conv)
  show ?thesis
  proof (rule accepts_run_batches [OF b(1) _ assms(2)])
    show "case t of None \<Rightarrow> microtasks (heap a1) = [] \<longrightarrow> (\<forall>k. accepts R sched i js res k False (Some []) a1) | Some e \<Rightarrow> res = (Some e, [], a1)"
      using b(2) by (auto simp: conclude_rest_def intro: accepts_conclude split: option.splits prod.splits)
  qed (simp add: activation_groups_def)
qed

text \<open>C11. The worker drives an activation by the protocol and by nothing else: for some fuel the driver returns a completion,
  commands and a state exactly when the machine has a run that follows the protocol to that state, appending these commands
  to the earlier ones, and the completion is the error of the call that threw or else what the unhandled rejection and the
  commands give. So with enough fuel the driver returns whenever the protocol can be followed to its end.\<close>

theorem activation_follows_protocol:
  assumes "microtasks (heap a) = []"
  shows "(\<exists>fuel. vm_activate fuel R sched i (Some js) a = Some (r, cs, a')) \<longleftrightarrow>
     (\<exists>es thrown. follows_protocol R sched i js thrown es a \<and> vm_run R (h, a) es = (h @ cs, a')
        \<and> r = (case thrown of Some e \<Rightarrow> VMThrows e | None \<Rightarrow> finish_activation R cs a'))"
proof
  assume "\<exists>fuel. vm_activate fuel R sched i (Some js) a = Some (r, cs, a')"
  then obtain fuel thrown where res: "resume fuel R sched i js 0 False (Some (activation_groups js)) a = Some (thrown, cs, a')"
    "r = (case thrown of Some e \<Rightarrow> VMThrows e | None \<Rightarrow> finish_activation R cs a')"
    unfolding vm_activate_resume [OF assms] by (auto simp: completion_of_def)
  from run_of_resume [OF res(1) assms] obtain es where
    "follows_protocol R sched i js thrown es a" "vm_run R (h, a) es = (h @ cs, a')"
    unfolding accepts_def follows_protocol_def by auto
  with res(2) show "\<exists>es thrown. follows_protocol R sched i js thrown es a \<and> vm_run R (h, a) es = (h @ cs, a')
      \<and> r = (case thrown of Some e \<Rightarrow> VMThrows e | None \<Rightarrow> finish_activation R cs a')"
    by blast
next
  assume "\<exists>es thrown. follows_protocol R sched i js thrown es a \<and> vm_run R (h, a) es = (h @ cs, a')
      \<and> r = (case thrown of Some e \<Rightarrow> VMThrows e | None \<Rightarrow> finish_activation R cs a')"
  then obtain es thrown where es: "protocol R sched i js thrown es 0 False (Some (activation_groups js)) a"
    "vm_run R (h, a) es = (h @ cs, a')" "r = (case thrown of Some e \<Rightarrow> VMThrows e | None \<Rightarrow> finish_activation R cs a')"
    unfolding follows_protocol_def by blast
  have "\<forall>rs. Some (activation_groups js) = Some rs \<longrightarrow> (\<forall>r \<in> set rs. job_group js r \<noteq> [])"
    by (auto simp only: activation_groups_def set_filter option.inject)
  from resume_of_run [OF es(1, 2) this] obtain fuel where
    "resume fuel R sched i js 0 False (Some (activation_groups js)) a = Some (thrown, cs, a')"
    by (metis option.distinct(1) same_append_eq)
  with es(3) show "\<exists>fuel. vm_activate fuel R sched i (Some js) a = Some (r, cs, a')"
    unfolding vm_activate_resume [OF assms] by (auto simp: completion_of_def)
qed

text \<open>So the state after an activation, with its commands appended, is again one the machine can reach, and every invariant holds for it.\<close>

lemma activation_reachable:
  assumes "reachable R (h, a)" and "vm_activate fuel R sched i jobs a = Some (r, cs, a')"
  shows "reachable R (h @ cs, a')"
proof (cases jobs)
  case None
  with assms show ?thesis by (auto simp: vm_activate_def)
next
  case (Some js)
  obtain t a1 where b: "run_batches fuel R sched i 0 (job_batches js) a = Some (t, a1)"
    using assms(2) Some by (auto simp: vm_activate_def split: option.splits)
  with assms(1) have r1: "reachable R (h, a1)" by (blast intro: steps_to_reachable steps_to_run_batches)
  show ?thesis
  proof (cases t)
    case None
    obtain cs2 a2 where c: "concludeActivation a1 = (cs2, a2)" by fastforce
    with b None Some assms(2) have "drain fuel R sched a2 = Some a'" "cs = cs2"
      by (auto simp: vm_activate_def split: option.splits)
    with concluded_reachable [OF r1 c] show ?thesis by (blast intro: steps_to_reachable steps_to_drain)
  qed (use b r1 Some assms(2) in \<open>auto simp: vm_activate_def\<close>)
qed

text \<open>The workflow that waits: two calls, a round of unblocking, and the conclusion.\<close>

theorem activation_follows_protocol_witness:
  "\<exists>cs a' es. vm_activate 2 sample_rt (\<lambda>_. []) sample_info (Some sample_wait_jobs) sample_waiting = Some (VMSuccessful cs, cs, a')
     \<and> follows_protocol sample_rt (\<lambda>_. []) sample_info sample_wait_jobs None es sample_waiting \<and> vm_run sample_rt ([], sample_waiting) es = (cs, a')"
proof -
  obtain cs a' where r: "vm_activate 2 sample_rt (\<lambda>_. []) sample_info (Some sample_wait_jobs) sample_waiting = Some (VMSuccessful cs, cs, a')"
    using successfulE [OF sample_wait_run] by metis
  have e: "microtasks (heap sample_waiting) = []" by (simp add: sample_waiting_def initial_act_def new_promise_def empty_heap_def)
  from activation_follows_protocol [OF e, THEN iffD1, OF exI, OF r, of "[]"] obtain es thrown where
    "follows_protocol sample_rt (\<lambda>_. []) sample_info sample_wait_jobs thrown es sample_waiting" "vm_run sample_rt ([], sample_waiting) es = (cs, a')"
    "VMSuccessful cs = (case thrown of Some e \<Rightarrow> VMThrows e | None \<Rightarrow> finish_activation sample_rt cs a')"
    by auto
  with r show ?thesis by (cases thrown) auto
qed

subsection \<open>Queries\<close>

text \<open>The answer to a query, as a function of the handlers and the user's state.\<close>

definition query_task :: "rt \<Rightarrow> 'u act \<Rightarrow> query_job \<Rightarrow> wval settlement res" where
  "query_task R a q =
     and_then (arrayFromPayloads (pconv R) (qj_arguments q)) (\<lambda>args.
       Inr (queryWorkflowNextHandler (the (qj_queryType q)) args a))"

definition query_answer :: "rt \<Rightarrow> 'u act \<Rightarrow> query_job \<Rightarrow> command res" where
  "query_answer R a q =
     (if \<not> truthy_str (qj_queryType q) \<or> \<not> truthy_str (qj_queryId q) then Inl (TypeError ''Missing query activation attributes'')
      else and_then (query_task R a q) (\<lambda>st.
        case st of
          Resolved v \<Rightarrow> and_then (toPayload (pconv R) (plain_value v)) (\<lambda>p.
            Inr (RespondToQuery (the (qj_queryId q)) (QuerySucceeded p)))
        | Rejected e \<Rightarrow> and_then (e2f R (ensureTemporalFailure (rtext R) (plain_value e))) (\<lambda>f.
            Inr (RespondToQuery (the (qj_queryId q)) (QueryFailed f)))))"

definition same_handlers :: "'u act \<Rightarrow> 'u act \<Rightarrow> bool" where
  "same_handlers a b \<longleftrightarrow> queryHandlers b = queryHandlers a \<and> ustate b = ustate a"

lemma query_task_cong: "same_handlers a b \<Longrightarrow> query_task R b q = query_task R a q"
  unfolding query_task_def queryWorkflowNextHandler_def same_handlers_def by (elim conjE) (simp only:)

lemma queryWorkflow_asks:
  assumes "query_answer R a q = Inr c" and "workflowFunctionWasCalled a"
  obtains st h where "queryWorkflow R q a = (None, a\<lparr>heap := h\<rparr>)" "query_task R a q = Inr st"
    "microtasks h = microtasks (heap a) @ [(RQueryDone (the (qj_queryId q)), st)]"
proof -
  obtain args where args: "arrayFromPayloads (pconv R) (qj_arguments q) = Inr args"
    using assms(1) by (auto simp: query_answer_def query_task_def and_then_eq_Inr split: if_splits)
  let ?st = "queryWorkflowNextHandler (the (qj_queryType q)) args a"
  let ?p = "length (cells (heap a))"
  let ?h = "then_do ?p (RQueryDone (the (qj_queryId q))) (settle ?p ?st (snd (new_promise False (heap a))))"
  have "queryWorkflow R q a = (None, a\<lparr>heap := ?h\<rparr>)"
    using assms args
    by (auto simp: queryWorkflow_def query_answer_def alloc_def on_heap_def thenP_def truthy_str_def
        queryWorkflowNextHandler_def split: option.splits if_splits)
  moreover have "query_task R a q = Inr ?st" using args by (simp add: query_task_def)
  ultimately show ?thesis by (rule that) (rule microtasks_settled)
qed

lemma activate_jobs_ask:
  "workflowFunctionWasCalled a \<Longrightarrow> \<forall>q \<in> set qs. query_answer R a q = Inr (ans q) \<Longrightarrow>
   \<exists>h sts. activate_jobs R (map (\<lambda>q. (JQueryWorkflow q, ops q)) qs) a = (None, a\<lparr>heap := h\<rparr>)
     \<and> map Inr sts = map (query_task R a) qs
     \<and> microtasks h = microtasks (heap a) @ map2 (\<lambda>q st. (RQueryDone (the (qj_queryId q)), st)) qs sts"
proof (induction qs arbitrary: a)
  case Nil
  have "a = a\<lparr>heap := heap a\<rparr>" by simp
  then show ?case by (metis activate_jobs.simps(1) append_Nil2 list.simps(8) zip_Nil)
next
  case (Cons q qs)
  obtain st h where q: "queryWorkflow R q a = (None, a\<lparr>heap := h\<rparr>)" "query_task R a q = Inr st"
    "microtasks h = microtasks (heap a) @ [(RQueryDone (the (qj_queryId q)), st)]"
    using Cons.prems by (auto elim: queryWorkflow_asks)
  have c: "query_task R (a\<lparr>heap := h\<rparr>) x = query_task R a x" for x
    by (rule query_task_cong) (simp add: same_handlers_def)
  then have "query_answer R (a\<lparr>heap := h\<rparr>) x = query_answer R a x" for x by (simp add: query_answer_def)
  with Cons.prems Cons.IH [of "a\<lparr>heap := h\<rparr>"] obtain h' sts where
    "activate_jobs R (map (\<lambda>q. (JQueryWorkflow q, ops q)) qs) (a\<lparr>heap := h\<rparr>) = (None, a\<lparr>heap := h'\<rparr>)"
    "map Inr sts = map (query_task R a) qs"
    "microtasks h' = microtasks h @ map2 (\<lambda>q st. (RQueryDone (the (qj_queryId q)), st)) qs sts"
    using c by (auto cong: map_cong)
  with q show ?case
    by (intro exI [of _ h'] exI [of _ "st # sts"]) (simp add: shouldUnblockConditions_def)
qed

lemma push_response: "isQueryResponse c \<Longrightarrow> pushCommand c False a = a\<lparr>commands := commands a @ [c]\<rparr>"
  by (cases a) (simp add: pushCommand_def)

lemma answer_reaction:
  assumes "query_answer R b q = Inr c" and "query_task R b q = Inr st"
  shows "run_reaction R (RQueryDone (the (qj_queryId q))) st t = t\<lparr>commands := commands t @ [c]\<rparr>"
  using assms
  by (auto simp: query_answer_def and_then_eq_Inr completeQuery_def failQuery_def push_response
      split: if_splits settlement.splits)

lemma drain_answers:
  "microtasks (heap a) = map2 (\<lambda>q st. (RQueryDone (the (qj_queryId q)), st)) qs sts \<Longrightarrow>
   map Inr sts = map (query_task R b) qs \<Longrightarrow> \<forall>q \<in> set qs. query_answer R b q = Inr (ans q) \<Longrightarrow> length qs \<le> fuel \<Longrightarrow>
   \<exists>h. drain fuel R sched a = Some (a\<lparr>heap := h, commands := commands a @ map ans qs\<rparr>) \<and> microtasks h = []"
proof (induction qs arbitrary: sts a fuel)
  case Nil
  have "a = a\<lparr>heap := heap a, commands := commands a\<rparr>" by simp
  with Nil show ?case by (metis append_Nil2 drain_idle list.simps(8) zip_Nil)
next
  case (Cons q qs)
  then obtain st sts' n where s: "sts = st # sts'" "fuel = Suc n" "query_task R b q = Inr st"
    by (cases sts; cases fuel) auto
  let ?b = "run_microtask R 0 (sched a) a"
  have b: "?b = a\<lparr>heap := take_microtask 0 (heap a), commands := commands a @ [ans q]\<rparr>"
    using Cons.prems s answer_reaction [of R b q "ans q" st "a\<lparr>heap := take_microtask 0 (heap a)\<rparr>"]
    by (simp add: run_microtask_def on_heap_def del: run_reaction.simps)
  have m: "microtasks (heap ?b) = map2 (\<lambda>q st. (RQueryDone (the (qj_queryId q)), st)) qs sts'"
    using Cons.prems(1) s by (simp add: b take_microtask_def)
  have "map Inr sts' = map (query_task R b) qs" "\<forall>q \<in> set qs. query_answer R b q = Inr (ans q)" "length qs \<le> n"
    using Cons.prems s by simp_all
  from Cons.IH [OF m this] obtain h where
    "drain n R sched ?b = Some (?b\<lparr>heap := h, commands := commands ?b @ map ans qs\<rparr>)" "microtasks h = []" by blast
  moreover have "drain fuel R sched a = drain n R sched ?b"
    using Cons.prems(1) s by (subst drain.simps) simp
  ultimately show ?case by (intro exI [of _ h]) (simp add: b)
qed


definition sample_called :: "bool act" where
  "sample_called = sample_waiting\<lparr>workflowFunctionWasCalled := True\<rparr>"

definition sample_query_job :: query_job where
  "sample_query_job = \<lparr>qj_queryType = Some ''__stack_trace'', qj_queryId = Some ''q1'', qj_arguments = None\<rparr>"

definition sample_query_answer :: command where
  "sample_query_answer = (case query_answer sample_rt sample_called sample_query_job of Inr c \<Rightarrow> c | Inl _ \<Rightarrow> CancelWorkflowExecution)"

lemma sample_query_facts:
  "isl (query_answer sample_rt sample_called sample_query_job) = False"
  "fst (begin_activation sample_rt sample_info sample_called) = None"
  "isQueryResponse sample_query_answer"
  by code_simp+


end
