(* ===== verification/Heartbeats.thy ===== *)
theory Heartbeats
  imports Js_Values
begin

text \<open>
  \<open>Worker.activityHeartbeat$\<close> of packages/worker/src/worker.ts: the stream of heartbeat requests of
  all activities, grouped by task token (\<open>closeableGroupBy\<close> of rxutils.ts), a state mapper per group
  (\<open>mapWithState\<close>), the sending of heartbeats to core and the count of heartbeating activities.
  Callbacks are numbers. The asynchronous encoding of a heartbeat ends with an event of its own. What the
  stream does to its surroundings (heartbeats recorded by core, errors reported to activities, completion
  callbacks called) is kept in one log, in the order it happens. That the stream completes once the
  worker has drained is part of \<open>Worker_Status\<close>.
\<close>

subsection \<open>The state mapper of one activity\<close>

datatype hb_input = HCreate | HHeartbeat jsval | HCompletion bool nat | HFlush

record hb_state =
  closed :: bool
  processing :: bool
  completionCallback :: "nat option"
  pending :: "jsval option"

datatype hb_output = HSend jsval | HClose "nat option"

definition process :: "hb_state \<Rightarrow> jsval \<Rightarrow> hb_state \<times> hb_output option" where
  "process st hb = (st\<lparr>processing := True, pending := None\<rparr>, Some (HSend hb))"

definition storePending :: "hb_state \<Rightarrow> jsval \<Rightarrow> hb_state \<times> hb_output option" where
  "storePending st hb = (st\<lparr>pending := Some hb\<rparr>, None)"

definition complete :: "nat \<Rightarrow> hb_state \<times> hb_output option" where
  "complete callback =
     (\<lparr>closed = True, processing = False, completionCallback = None, pending = None\<rparr>, Some (HClose (Some callback)))"

definition opened_state :: hb_state where
  "opened_state = \<lparr>closed = False, processing = False, completionCallback = None, pending = None\<rparr>"

definition closed_state :: hb_state where
  "closed_state = \<lparr>closed = True, processing = False, completionCallback = None, pending = None\<rparr>"

fun hb_map :: "hb_state \<Rightarrow> hb_input \<Rightarrow> hb_state \<times> hb_output option" where
  "hb_map st HCreate = (opened_state, None)"
| "hb_map st (HHeartbeat hb) =
     (if closed st then (st, Some (HClose None))
      else if processing st then storePending st hb else process st hb)"
| "hb_map st HFlush =
     (if closed st then (st, Some (HClose None))
      else case pending st of
        Some hb \<Rightarrow> process st hb
      | None \<Rightarrow> (case completionCallback st of
          Some cb \<Rightarrow> complete cb
        | None \<Rightarrow> (st\<lparr>processing := False\<rparr>, None)))"
| "hb_map st (HCompletion flushRequired cb) =
     (if closed st then (st, Some (HClose None))
      else if processing st then
        (st\<lparr>pending := (if flushRequired then pending st else None), completionCallback := Some cb\<rparr>, None)
      else if \<not> flushRequired then complete cb
      else case pending st of
        Some hb \<Rightarrow> process (st\<lparr>completionCallback := Some cb\<rparr>) hb
      | None \<Rightarrow> complete cb)"

subsection \<open>All activities\<close>

type_synonym token = string

text \<open>
  A group: the mapper's state and whether a close request has ended its output. A send is a heartbeat
  whose asynchronous function has not returned; the flags tell whether it has sent its flush notification
  and whether it is going to throw. \<open>hb_failed\<close> is set once such a function has thrown: the error ends the
  whole stream, which then ignores its inputs, while the functions under way go on.
\<close>

text \<open>How the function that sends a heartbeat can end: the heartbeat is recorded, its details cannot be encoded, or
  \<open>recordActivityHeartbeat\<close> throws.\<close>

datatype send_outcome = Sent payload | EncodeThrew jsval | RecordThrew jsval

datatype hb_effect = Recorded token payload | ErrorReported token | CalledBack nat

record hb_group =
  g_state :: hb_state
  g_ended :: bool

record hb_send =
  s_token :: token
  s_details :: jsval
  s_flushed :: bool
  s_threw :: bool

record hb_sys =
  hb_groups :: "token \<Rightarrow> hb_group option"
  hb_sends :: "hb_send list"
  hb_log :: "hb_effect list"
  hb_failed :: bool
  numHeartbeatingActivities :: int

definition hb_init :: hb_sys where
  "hb_init = \<lparr>hb_groups = (\<lambda>_. None), hb_sends = [], hb_log = [], hb_failed = False,
     numHeartbeatingActivities = 0\<rparr>"

definition hb_onError :: "hb_sys \<Rightarrow> token list" where
  "hb_onError s = concat (map (\<lambda>e. case e of ErrorReported t \<Rightarrow> [t] | _ \<Rightarrow> []) (hb_log s))"

definition hb_called :: "hb_sys \<Rightarrow> nat list" where
  "hb_called s = concat (map (\<lambda>e. case e of CalledBack cb \<Rightarrow> [cb] | _ \<Rightarrow> []) (hb_log s))"

definition sending :: "token \<Rightarrow> hb_sys \<Rightarrow> bool" where
  "sending t s \<longleftrightarrow> t \<in> set (map s_token (hb_sends s))"

text \<open>The group closes once its output has ended and its sends have returned (\<open>tap({ complete: group$.close })\<close>).\<close>

definition end_group :: "token \<Rightarrow> hb_state \<Rightarrow> hb_sys \<Rightarrow> hb_sys" where
  "end_group t st s =
     s\<lparr>hb_groups := (hb_groups s)(t := (if sending t s then Some \<lparr>g_state = st, g_ended = True\<rparr> else None))\<rparr>"

definition emit :: "token \<Rightarrow> hb_state \<Rightarrow> hb_output option \<Rightarrow> hb_sys \<Rightarrow> hb_sys" where
  "emit t st out s =
     (case out of
        None \<Rightarrow> s\<lparr>hb_groups := (hb_groups s)(t \<mapsto> \<lparr>g_state = st, g_ended = False\<rparr>)\<rparr>
      | Some (HSend hb) \<Rightarrow>
          s\<lparr>hb_groups := (hb_groups s)(t \<mapsto> \<lparr>g_state = st, g_ended = False\<rparr>),
            hb_sends := hb_sends s @ [\<lparr>s_token = t, s_details = hb, s_flushed = False, s_threw = False\<rparr>]\<rparr>
      | Some (HClose cb) \<Rightarrow>
          end_group t st
            (s\<lparr>numHeartbeatingActivities := numHeartbeatingActivities s - 1,
               hb_log := hb_log s @ (case cb of Some c \<Rightarrow> [CalledBack c] | None \<Rightarrow> [])\<rparr>))"

text \<open>\<open>activityHeartbeatSubject.next\<close>: a missing group starts closed; an ended one, and a stream
  that has failed, ignore their input.\<close>

definition hb_next :: "token \<Rightarrow> hb_input \<Rightarrow> hb_sys \<Rightarrow> hb_sys" where
  "hb_next t i s =
     (let g = (case hb_groups s t of Some g \<Rightarrow> g | None \<Rightarrow> \<lparr>g_state = closed_state, g_ended = False\<rparr>) in
      if hb_failed s \<or> g_ended g then s
      else case hb_map (g_state g) i of
        (st, out) \<Rightarrow> emit t st out
          (if i = HCreate then s\<lparr>numHeartbeatingActivities := numHeartbeatingActivities s + 1\<rparr> else s))"

text \<open>The function that sends a heartbeat: it records the heartbeat or reports that it could not encode it, or
  the recording throws; then, in any case, it sends the flush.\<close>

definition hb_encoded :: "nat \<Rightarrow> send_outcome \<Rightarrow> hb_sys \<Rightarrow> hb_sys" where
  "hb_encoded n r s =
     (if n < length (hb_sends s) \<and> \<not> s_flushed (hb_sends s ! n) then
        (let x = hb_sends s ! n; threw = (case r of RecordThrew _ \<Rightarrow> True | _ \<Rightarrow> False);
             s1 = s\<lparr>hb_sends := (hb_sends s)[n := x\<lparr>s_flushed := True, s_threw := threw\<rparr>]\<rparr> in
         hb_next (s_token x) HFlush
           (case r of
              Sent p \<Rightarrow> s1\<lparr>hb_log := hb_log s1 @ [Recorded (s_token x) p]\<rparr>
            | EncodeThrew _ \<Rightarrow> s1\<lparr>hb_log := hb_log s1 @ [ErrorReported (s_token x)]\<rparr>
            | RecordThrew _ \<Rightarrow> s1))
      else s)"

text \<open>The promise of that function is settled; if it is rejected the stream fails.\<close>

definition hb_returned :: "nat \<Rightarrow> hb_sys \<Rightarrow> hb_sys" where
  "hb_returned n s =
     (if n < length (hb_sends s) \<and> s_flushed (hb_sends s ! n) then
        (let t = s_token (hb_sends s ! n);
             s1 = s\<lparr>hb_sends := take n (hb_sends s) @ drop (Suc n) (hb_sends s)\<rparr> in
         if s_threw (hb_sends s ! n) then s1\<lparr>hb_failed := True\<rparr>
         else case hb_groups s1 t of
           Some g \<Rightarrow>
             if g_ended g \<and> \<not> sending t s1 \<and> \<not> hb_failed s1 then s1\<lparr>hb_groups := (hb_groups s1)(t := None)\<rparr> else s1
         | None \<Rightarrow> s1)
      else s)"

datatype hb_event =
    EvCreate token
  | EvHeartbeat token jsval
  | EvCompletion token bool nat
  | EvEncoded nat send_outcome
  | EvReturned nat

fun hb_step :: "hb_sys \<Rightarrow> hb_event \<Rightarrow> hb_sys" where
  "hb_step s (EvCreate t) = hb_next t HCreate s"
| "hb_step s (EvHeartbeat t d) = hb_next t (HHeartbeat d) s"
| "hb_step s (EvCompletion t fl cb) = hb_next t (HCompletion fl cb) s"
| "hb_step s (EvEncoded n r) = hb_encoded n r s"
| "hb_step s (EvReturned n) = hb_returned n s"

subsection \<open>The invariant\<close>

text \<open>The heartbeats of an activity that are being encoded.\<close>

definition encoding :: "token \<Rightarrow> hb_sys \<Rightarrow> hb_send list" where
  "encoding t s = filter (\<lambda>x. s_token x = t \<and> \<not> s_flushed x) (hb_sends s)"

text \<open>A group is either open, with one heartbeat under way exactly if it is processing and nothing stored
  otherwise, or it has ended and only waits for its last send to return.\<close>

definition open_ok :: "hb_state \<Rightarrow> nat \<Rightarrow> bool" where
  "open_ok st n \<longleftrightarrow> \<not> closed st \<and> n = (if processing st then 1 else 0)
     \<and> (\<not> processing st \<longrightarrow> pending st = None \<and> completionCallback st = None)"

definition group_ok :: "token \<Rightarrow> hb_sys \<Rightarrow> bool" where
  "group_ok t s \<longleftrightarrow>
     (case hb_groups s t of
        None \<Rightarrow> \<not> sending t s
      | Some g \<Rightarrow> if g_ended g then encoding t s = [] \<and> sending t s else open_ok (g_state g) (length (encoding t s)))"

definition groups_ok :: "hb_sys \<Rightarrow> bool" where
  "groups_ok s \<longleftrightarrow> (\<forall>t. group_ok t s)"

text \<open>Once the stream has failed its groups no longer matter; the heartbeats under way only get fewer.\<close>

definition hb_inv :: "hb_sys \<Rightarrow> bool" where
  "hb_inv s \<longleftrightarrow> (if hb_failed s then \<forall>t. length (encoding t s) \<le> 1 else groups_ok s)"

text \<open>A task token names one execution of one activity, so it is created once.\<close>

fun hb_admissible :: "hb_sys \<Rightarrow> hb_event \<Rightarrow> bool" where
  "hb_admissible s (EvCreate t) = (hb_groups s t = None)"
| "hb_admissible s _ = True"

lemma group_ok_cong:
  "hb_groups s' t = hb_groups s t \<Longrightarrow> filter (\<lambda>x. s_token x = t) (hb_sends s') = filter (\<lambda>x. s_token x = t) (hb_sends s) \<Longrightarrow>
   group_ok t s' = group_ok t s"
proof -
  assume g: "hb_groups s' t = hb_groups s t"
    and f: "filter (\<lambda>x. s_token x = t) (hb_sends s') = filter (\<lambda>x. s_token x = t) (hb_sends s)"
  have "encoding t x = filter (\<lambda>x. \<not> s_flushed x) (filter (\<lambda>x. s_token x = t) (hb_sends x))" for x
    by (simp add: encoding_def conj_commute)
  then have e: "encoding t s' = encoding t s" by (simp only: f)
  have "sending t x \<longleftrightarrow> filter (\<lambda>x. s_token x = t) (hb_sends x) \<noteq> []" for x
    by (auto simp: sending_def filter_empty_conv)
  then have d: "sending t s' = sending t s" by (simp only: f)
  show ?thesis unfolding group_ok_def g e d ..
qed

lemma emit_other:
  "t \<noteq> u \<Longrightarrow> hb_groups (emit u st out s) t = hb_groups s t \<and>
     filter (\<lambda>x. s_token x = t) (hb_sends (emit u st out s)) = filter (\<lambda>x. s_token x = t) (hb_sends s)"
  by (auto simp: emit_def end_group_def split: option.splits hb_output.splits)

lemma hb_next_other: "t \<noteq> u \<Longrightarrow> group_ok t (hb_next u i s) = group_ok t s"
  by (rule group_ok_cong) (simp_all add: hb_next_def emit_other Let_def split: prod.splits)

text \<open>What an output does to the group it belongs to, given the heartbeats under way before it.\<close>

fun output_ok :: "hb_state \<Rightarrow> hb_output option \<Rightarrow> nat \<Rightarrow> bool" where
  "output_ok st None n = open_ok st n"
| "output_ok st (Some (HSend hb)) n = open_ok st (Suc n)"
| "output_ok st (Some (HClose cb)) n = (n = 0)"

lemma sending_encoding: "encoding t s \<noteq> [] \<Longrightarrow> sending t s"
  by (auto simp: encoding_def sending_def filter_empty_conv)

lemma emit_ok:
  "output_ok st out (length (encoding t s)) \<Longrightarrow> group_ok t (emit t st out s)"
proof (induction st out "length (encoding t s)" rule: output_ok.induct)
  case (2 st hb)
  then show ?case by (simp add: emit_def group_ok_def encoding_def)
next
  case (3 st cb)
  then show ?case by (auto simp: emit_def end_group_def group_ok_def encoding_def sending_def)
qed (simp add: emit_def group_ok_def encoding_def)

lemma hb_map_ok: "open_ok st n \<Longrightarrow> i \<noteq> HCreate \<Longrightarrow> i \<noteq> HFlush \<Longrightarrow> hb_map st i = (st', out) \<Longrightarrow> output_ok st' out n"
  by (cases i) (auto simp: open_ok_def process_def storePending_def complete_def split: if_splits option.splits)

lemma hb_map_flush_ok:
  "open_ok st 1 \<Longrightarrow> hb_map st HFlush = (st', out) \<Longrightarrow> output_ok st' out 0"
  by (auto simp: open_ok_def process_def complete_def split: if_splits option.splits)

lemma hb_next_ok:
  assumes nf: "\<not> hb_failed s" and g: "group_ok t s" and i: "i \<noteq> HFlush" and c: "i = HCreate \<Longrightarrow> hb_groups s t = None"
  shows "group_ok t (hb_next t i s)"
proof (cases "hb_groups s t")
  case None
  then have n: "encoding t s = []" using g sending_encoding by (fastforce simp: group_ok_def)
  obtain st out where m: "hb_map closed_state i = (st, out)" by fastforce
  then have "output_ok st out 0"
    using i by (cases i) (auto simp: closed_state_def opened_state_def open_ok_def)
  with n have "group_ok t (emit t st out (if i = HCreate then s\<lparr>numHeartbeatingActivities := numHeartbeatingActivities s + 1\<rparr> else s))"
    by (intro emit_ok) (simp add: encoding_def)
  then show ?thesis using None m nf by (simp add: hb_next_def)
next
  case (Some x)
  then have nc: "i \<noteq> HCreate" using c by auto
  show ?thesis
  proof (cases "g_ended x")
    case False
    obtain st out where m: "hb_map (g_state x) i = (st, out)" by fastforce
    have "open_ok (g_state x) (length (encoding t s))" using g Some False by (simp add: group_ok_def)
    from emit_ok [OF hb_map_ok [OF this nc i m]] Some False m nc nf show ?thesis by (simp add: hb_next_def)
  qed (use g Some in \<open>simp add: hb_next_def\<close>)
qed

lemma flush_ok:
  assumes nf: "\<not> hb_failed s1" and g: "group_ok t s" and n: "n < length (hb_sends s)" "hb_sends s ! n = x" "s_token x = t" "\<not> s_flushed x"
    and s1: "hb_groups s1 = hb_groups s" "hb_sends s1 = (hb_sends s)[n := x\<lparr>s_flushed := True, s_threw := b\<rparr>]"
  shows "group_ok t (hb_next t HFlush s1)"
proof -
  have l: "hb_sends s = take n (hb_sends s) @ x # drop (Suc n) (hb_sends s)"
    using id_take_nth_drop [OF n(1)] n(2) by simp
  have l1: "hb_sends s1 = take n (hb_sends s) @ x\<lparr>s_flushed := True, s_threw := b\<rparr> # drop (Suc n) (hb_sends s)"
    using s1(2) n(1) by (simp add: upd_conv_take_nth_drop)
  have e: "length (encoding t s) = Suc (length (encoding t s1))"
    unfolding encoding_def l1 by (subst l) (simp add: n)
  have "x \<in> set (encoding t s)" using n by (auto simp: encoding_def)
  with g obtain y where y: "hb_groups s t = Some y" "\<not> g_ended y" "open_ok (g_state y) (length (encoding t s))"
    using sending_encoding [of t s] by (fastforce simp: group_ok_def split: option.splits if_splits)
  then have e0: "length (encoding t s) = 1" "length (encoding t s1) = 0"
    using e by (auto simp: open_ok_def split: if_splits)
  obtain st out where m: "hb_map (g_state y) HFlush = (st, out)" by fastforce
  have "output_ok st out (length (encoding t s1))"
    using hb_map_flush_ok [OF _ m] y(3) e0 by simp
  from emit_ok [OF this] show ?thesis using y m s1(1) nf by (simp add: hb_next_def)
qed

text \<open>The state in which the flush of a heartbeat finds the stream.\<close>

definition sent_state :: "nat \<Rightarrow> send_outcome \<Rightarrow> hb_sys \<Rightarrow> hb_sys" where
  "sent_state n r s =
     (let x = hb_sends s ! n; threw = (case r of RecordThrew _ \<Rightarrow> True | _ \<Rightarrow> False);
          s1 = s\<lparr>hb_sends := (hb_sends s)[n := x\<lparr>s_flushed := True, s_threw := threw\<rparr>]\<rparr> in
      case r of
        Sent p \<Rightarrow> s1\<lparr>hb_log := hb_log s1 @ [Recorded (s_token x) p]\<rparr>
      | EncodeThrew _ \<Rightarrow> s1\<lparr>hb_log := hb_log s1 @ [ErrorReported (s_token x)]\<rparr>
      | RecordThrew _ \<Rightarrow> s1)"

lemma hb_encoded_eq:
  "hb_encoded n r s =
     (if n < length (hb_sends s) \<and> \<not> s_flushed (hb_sends s ! n)
      then hb_next (s_token (hb_sends s ! n)) HFlush (sent_state n r s) else s)"
  by (simp add: hb_encoded_def sent_state_def Let_def)

lemma hb_encoded_skip: "\<not> (n < length (hb_sends s) \<and> \<not> s_flushed (hb_sends s ! n)) \<Longrightarrow> hb_encoded n r s = s"
  unfolding hb_encoded_eq by (rule if_not_P)

lemma sent_state_fields:
  "hb_groups (sent_state n r s) = hb_groups s" "hb_failed (sent_state n r s) = hb_failed s"
  "\<exists>b. hb_sends (sent_state n r s) = (hb_sends s)[n := (hb_sends s ! n)\<lparr>s_flushed := True, s_threw := b\<rparr>]"
  "hb_log (sent_state n r s) = hb_log s @
     (case r of Sent p \<Rightarrow> [Recorded (s_token (hb_sends s ! n)) p] | EncodeThrew _ \<Rightarrow> [ErrorReported (s_token (hb_sends s ! n))]
      | RecordThrew _ \<Rightarrow> [])"
  by (auto simp: sent_state_def Let_def split: send_outcome.splits)

lemma filter_other:
  assumes "n < length xs" "\<not> P (xs ! n)" "\<not> P y"
  shows "filter P (xs[n := y]) = filter P xs"
  using assms id_take_nth_drop [OF assms(1)]
  by (simp add: upd_conv_take_nth_drop) (metis (mono_tags, lifting) filter.simps(2) filter_append)

lemma encoded_ok:
  assumes i: "groups_ok s" and nf: "\<not> hb_failed s"
  shows "group_ok t (hb_encoded n r s)"
proof (cases "n < length (hb_sends s) \<and> \<not> s_flushed (hb_sends s ! n)")
  case True
  let ?x = "hb_sends s ! n" and ?s2 = "sent_state n r s"
  obtain b where b: "hb_sends ?s2 = (hb_sends s)[n := ?x\<lparr>s_flushed := True, s_threw := b\<rparr>]"
    using sent_state_fields(3) by blast
  have eq: "hb_encoded n r s = hb_next (s_token ?x) HFlush ?s2"
    using True by (simp add: hb_encoded_eq)
  show ?thesis
  proof (cases "t = s_token ?x")
    case t: True
    show ?thesis
      unfolding eq t using i nf True b
      by (intro flush_ok [of _ _ s n ?x]) (auto simp: groups_ok_def sent_state_fields)
  next
    case False
    have "filter (\<lambda>x. s_token x = t) (hb_sends ?s2) = filter (\<lambda>x. s_token x = t) (hb_sends s)"
      unfolding b by (rule filter_other) (use False True in auto)
    then have "group_ok t ?s2 = group_ok t s" by (intro group_ok_cong) (simp_all add: sent_state_fields)
    with i False show ?thesis unfolding eq by (simp add: hb_next_other groups_ok_def)
  qed
next
  case False
  then show ?thesis using i by (simp add: hb_encoded_skip [OF False] groups_ok_def)
qed

lemma hb_returned_eq:
  assumes "n < length (hb_sends s)" "s_flushed (hb_sends s ! n)"
  shows "hb_sends (hb_returned n s) = take n (hb_sends s) @ drop (Suc n) (hb_sends s)"
    and "hb_failed (hb_returned n s) \<longleftrightarrow> hb_failed s \<or> s_threw (hb_sends s ! n)"
    and "encoding t (hb_returned n s) = encoding t s"
proof -
  show 1: "hb_sends (hb_returned n s) = take n (hb_sends s) @ drop (Suc n) (hb_sends s)"
    using assms by (simp add: hb_returned_def Let_def split: option.split)
  show "hb_failed (hb_returned n s) \<longleftrightarrow> hb_failed s \<or> s_threw (hb_sends s ! n)"
    using assms by (simp add: hb_returned_def Let_def split: option.split)
  have l: "hb_sends s = take n (hb_sends s) @ hb_sends s ! n # drop (Suc n) (hb_sends s)"
    using assms by (intro id_take_nth_drop) simp
  show "encoding t (hb_returned n s) = encoding t s"
    unfolding encoding_def 1 by (subst (3) l) (use assms in simp)
qed

lemma returned_ok:
  assumes i: "groups_ok s" and nf: "\<not> hb_failed (hb_returned n s)"
  shows "group_ok t (hb_returned n s)"
proof (cases "n < length (hb_sends s) \<and> s_flushed (hb_sends s ! n)")
  case True
  let ?u = "s_token (hb_sends s ! n)"
  let ?s1 = "s\<lparr>hb_sends := take n (hb_sends s) @ drop (Suc n) (hb_sends s)\<rparr>"
  have nt: "\<not> s_threw (hb_sends s ! n)" "\<not> hb_failed s" using nf True hb_returned_eq(2) by auto
  have l: "hb_sends s = take n (hb_sends s) @ hb_sends s ! n # drop (Suc n) (hb_sends s)"
    using True by (intro id_take_nth_drop) simp
  have e: "encoding x ?s1 = encoding x s" for x
    unfolding encoding_def by (subst (3) l) (use True in simp)
  have u: "sending ?u s" using True by (auto simp: sending_def)
  have g: "group_ok ?u s" using i by (simp add: groups_ok_def)
  show ?thesis
  proof (cases "t = ?u")
    case t: True
    with u g obtain y where y: "hb_groups s t = Some y" by (auto simp: group_ok_def split: option.splits)
    show ?thesis
      using g y t True nt e [of t]
      by (auto simp: hb_returned_def Let_def group_ok_def sending_def)
  next
    case False
    have f: "filter (\<lambda>x. s_token x = t) (hb_sends ?s1) = filter (\<lambda>x. s_token x = t) (hb_sends s)"
      by (subst (3) l) (use False in simp)
    have "group_ok t (hb_returned n s) = group_ok t s"
      by (rule group_ok_cong) (use f False True nt in \<open>auto simp: hb_returned_def Let_def split: option.splits\<close>)
    with i show ?thesis by (simp add: groups_ok_def)
  qed
next
  case False
  then have "hb_returned n s = s" unfolding hb_returned_def by (rule if_not_P)
  then show ?thesis using i by (simp add: groups_ok_def)
qed

lemma at_most_one: "group_ok t s \<Longrightarrow> length (encoding t s) \<le> 1"
  using sending_encoding [of t s]
  by (cases "encoding t s = []") (auto simp: group_ok_def open_ok_def split: option.splits if_splits)

text \<open>After a failure the stream starts no heartbeat.\<close>

lemma failed_next: "hb_failed s \<Longrightarrow> hb_next t i s = s"
  by (simp add: hb_next_def Let_def)

lemma failed_encoding:
  assumes "hb_failed s" "length (encoding t s) \<le> 1"
  shows "length (encoding t (hb_encoded n r s)) \<le> 1"
proof (cases "n < length (hb_sends s) \<and> \<not> s_flushed (hb_sends s ! n)")
  case True
  let ?P = "\<lambda>x. s_token x = t \<and> \<not> s_flushed x"
  obtain b where b: "hb_sends (sent_state n r s) = (hb_sends s)[n := (hb_sends s ! n)\<lparr>s_flushed := True, s_threw := b\<rparr>]"
    using sent_state_fields(3) by blast
  have "encoding t (sent_state n r s) = filter ?P (take n (hb_sends s)) @ filter ?P (drop (Suc n) (hb_sends s))"
    using True by (simp add: encoding_def b upd_conv_take_nth_drop)
  moreover have "hb_sends s = take n (hb_sends s) @ hb_sends s ! n # drop (Suc n) (hb_sends s)"
    using True by (intro id_take_nth_drop) simp
  then have "encoding t s = filter ?P (take n (hb_sends s)) @ filter ?P (hb_sends s ! n # drop (Suc n) (hb_sends s))"
    unfolding encoding_def by (metis filter_append)
  ultimately have "length (encoding t (sent_state n r s)) \<le> length (encoding t s)" by simp
  then show ?thesis using True assms by (simp add: hb_encoded_eq failed_next sent_state_fields)
next
  case False
  then show ?thesis using assms(2) by (simp add: hb_encoded_skip [OF False])
qed

lemma emit_failed [simp]: "hb_failed (emit t st out s) = hb_failed s"
  by (auto simp: emit_def end_group_def split: option.splits hb_output.splits)

lemma hb_next_failed [simp]: "hb_failed (hb_next t i s) = hb_failed s"
  by (simp add: hb_next_def Let_def split: option.splits prod.splits)

lemma hb_encoded_failed [simp]: "hb_failed (hb_encoded n r s) = hb_failed s"
  by (simp add: hb_encoded_eq sent_state_fields)

lemma hb_step_inv:
  assumes i: "hb_inv s" and a: "hb_admissible s e"
  shows "hb_inv (hb_step s e)"
proof (cases "hb_failed s")
  case True
  then have one: "length (encoding t s) \<le> 1" for t using i by (simp add: hb_inv_def)
  have "hb_failed (hb_returned n s) \<and> encoding t (hb_returned n s) = encoding t s" for n t
  proof (cases "n < length (hb_sends s) \<and> s_flushed (hb_sends s ! n)")
    case False
    then have "hb_returned n s = s" unfolding hb_returned_def by (rule if_not_P)
    then show ?thesis using True by simp
  qed (use True hb_returned_eq in auto)
  then show ?thesis
    using True one failed_encoding by (cases e) (simp_all add: hb_inv_def failed_next)
next
  case False
  then have g: "groups_ok s" using i by (simp add: hb_inv_def)
  have n: "group_ok t (hb_next u j s)" if "j \<noteq> HFlush" "j = HCreate \<Longrightarrow> hb_groups s u = None" for t u j
    using g that False hb_next_ok [of s t j] hb_next_other [of t u j s] by (cases "t = u") (auto simp: groups_ok_def)
  show ?thesis
  proof (cases "hb_failed (hb_step s e)")
    case True
    then obtain k where k: "e = EvReturned k" using False by (cases e) auto
    have "length (encoding t (hb_returned k s)) \<le> 1" for t
    proof (cases "k < length (hb_sends s) \<and> s_flushed (hb_sends s ! k)")
      case True
      then show ?thesis using at_most_one g hb_returned_eq(3) by (auto simp: groups_ok_def)
    next
      case other: False
      then have "hb_returned k s = s" unfolding hb_returned_def by (rule if_not_P)
      then show ?thesis using at_most_one g by (auto simp: groups_ok_def)
    qed
    then show ?thesis using True k by (simp add: hb_inv_def)
  next
    case nf: False
    have "group_ok t (hb_step s e)" for t
      using a n encoded_ok [OF g False] returned_ok [OF g] nf by (cases e) auto
    then show ?thesis using nf by (simp add: hb_inv_def groups_ok_def)
  qed
qed

interpretation hb: machine hb_step hb_inv hb_admissible
  by unfold_locales (rule hb_step_inv)

lemma hb_init_inv: "hb_inv hb_init"
  by (simp add: hb_inv_def groups_ok_def group_ok_def hb_init_def sending_def)

definition hb_reachable :: "hb_sys \<Rightarrow> bool" where
  "hb_reachable s \<longleftrightarrow> (\<exists>es. hb.all_admissible hb_init es \<and> s = run_steps hb_step hb_init es)"

lemma hb_reachable_inv: "hb_reachable s \<Longrightarrow> hb_inv s"
  unfolding hb_reachable_def using hb.run_inv [OF hb_init_inv] by auto

subsection \<open>Properties\<close>

text \<open>C35. However fast an activity heartbeats, at most one of its heartbeats is being encoded and sent
  at any time; the others replace each other in the pending slot.\<close>

theorem one_heartbeat_under_way:
  assumes "hb_reachable s"
  shows "length (encoding t s) \<le> 1"
  using hb_reachable_inv [OF assms] at_most_one by (auto simp: hb_inv_def groups_ok_def split: if_splits)

definition sample_beats :: "hb_event list" where
  "sample_beats = [EvCreate ''t'', EvHeartbeat ''t'' (JStr ''1''), EvHeartbeat ''t'' (JStr ''2''), EvHeartbeat ''t'' (JStr ''3'')]"

lemma sample_beats_reachable: "hb_reachable (run_steps hb_step hb_init sample_beats)"
  unfolding hb_reachable_def by (rule exI [of _ sample_beats]) (simp add: sample_beats_def hb_init_def)

theorem one_heartbeat_under_way_witness:
  "map s_details (encoding ''t'' (run_steps hb_step hb_init sample_beats)) = [JStr ''1'']
   \<and> length (encoding ''t'' (run_steps hb_step hb_init sample_beats)) \<le> 1"
proof
  show "map s_details (encoding ''t'' (run_steps hb_step hb_init sample_beats)) = [JStr ''1'']" by code_simp
qed (rule one_heartbeat_under_way [OF sample_beats_reachable])

text \<open>The oldest heartbeat of the activity that is being encoded, and letting up to \<open>k\<close> of them finish,
  each with what \<open>f\<close> encodes its details to; core accepts what it is given.\<close>

definition first_encoding :: "token \<Rightarrow> hb_sys \<Rightarrow> nat option" where
  "first_encoding t s =
     (case filter (\<lambda>n. s_token (hb_sends s ! n) = t \<and> \<not> s_flushed (hb_sends s ! n)) [0..<length (hb_sends s)] of
        [] \<Rightarrow> None | n # _ \<Rightarrow> Some n)"

definition sent_as :: "payload res \<Rightarrow> send_outcome" where
  "sent_as r = (case r of Inr p \<Rightarrow> Sent p | Inl e \<Rightarrow> EncodeThrew e)"

fun settle_sends :: "nat \<Rightarrow> token \<Rightarrow> (jsval \<Rightarrow> payload res) \<Rightarrow> hb_sys \<Rightarrow> hb_sys" where
  "settle_sends 0 t f s = s"
| "settle_sends (Suc k) t f s =
     (case first_encoding t s of
        None \<Rightarrow> s
      | Some n \<Rightarrow> settle_sends k t f (hb_encoded n (sent_as (f (s_details (hb_sends s ! n)))) s))"

lemma first_encodingD:
  "first_encoding t s = Some n \<Longrightarrow> n < length (hb_sends s) \<and> s_token (hb_sends s ! n) = t \<and> \<not> s_flushed (hb_sends s ! n)"
proof -
  assume "first_encoding t s = Some n"
  then obtain ns where
    "filter (\<lambda>n. s_token (hb_sends s ! n) = t \<and> \<not> s_flushed (hb_sends s ! n)) [0..<length (hb_sends s)] = n # ns"
    by (auto simp: first_encoding_def split: list.splits)
  then have "n \<in> set (filter (\<lambda>n. s_token (hb_sends s ! n) = t \<and> \<not> s_flushed (hb_sends s ! n)) [0..<length (hb_sends s)])"
    by simp
  then show ?thesis by simp
qed

lemma hb_next_open:
  "\<not> hb_failed s \<Longrightarrow> hb_groups s t = Some \<lparr>g_state = st, g_ended = False\<rparr> \<Longrightarrow> hb_map st i = (st', out) \<Longrightarrow> i \<noteq> HCreate \<Longrightarrow>
     hb_next t i s = emit t st' out s"
  by (simp add: hb_next_def)

lemma first_encoding_single:
  assumes "encoding t s = [x]"
  obtains n where "first_encoding t s = Some n" "hb_sends s ! n = x"
proof -
  let ?ns = "filter (\<lambda>n. s_token (hb_sends s ! n) = t \<and> \<not> s_flushed (hb_sends s ! n)) [0..<length (hb_sends s)]"
  have "hb_sends s = map (\<lambda>n. hb_sends s ! n) [0..<length (hb_sends s)]" by (simp add: map_nth)
  then have "encoding t s = map (\<lambda>n. hb_sends s ! n) ?ns"
    unfolding encoding_def by (metis (no_types, lifting) filter_cong filter_map comp_apply)
  with assms obtain n where "?ns = [n]" "hb_sends s ! n = x" by (auto simp: map_eq_Cons_conv)
  then show ?thesis by (intro that) (simp_all add: first_encoding_def)
qed

text \<open>What the end of an encoding does, seen from its activity.\<close>

definition effect_of :: "token \<Rightarrow> payload res \<Rightarrow> hb_effect" where
  "effect_of t r = (case r of Inr p \<Rightarrow> Recorded t p | Inl _ \<Rightarrow> ErrorReported t)"

lemma settle_sends_one:
  assumes nf: "\<not> hb_failed s" and e: "encoding t s = [x]" and g: "hb_groups s t = Some \<lparr>g_state = st, g_ended = False\<rparr>"
    and m: "hb_map st HFlush = (st', out)"
  obtains s2 where "\<And>k. settle_sends (Suc k) t f s = settle_sends k t f (emit t st' out s2)"
    "\<not> hb_failed s2" "encoding t s2 = []" "hb_groups s2 = hb_groups s" "hb_log s2 = hb_log s @ [effect_of t (f (s_details x))]"
proof -
  from e obtain n where n: "first_encoding t s = Some n" "hb_sends s ! n = x" by (rule first_encoding_single)
  note d = first_encodingD [OF n(1)]
  let ?r = "sent_as (f (s_details x))" let ?s2 = "sent_state n ?r s"
  have l: "hb_sends s = take n (hb_sends s) @ x # drop (Suc n) (hb_sends s)"
    using id_take_nth_drop [of n "hb_sends s"] d n(2) by simp
  obtain b where b: "hb_sends ?s2 = (hb_sends s)[n := x\<lparr>s_flushed := True, s_threw := b\<rparr>]"
    using sent_state_fields(3) [of n ?r s] n(2) by auto
  have "encoding t ?s2 = filter (\<lambda>x. s_token x = t \<and> \<not> s_flushed x) (take n (hb_sends s) @ drop (Suc n) (hb_sends s))"
    using d by (simp add: encoding_def b upd_conv_take_nth_drop)
  moreover have "length (encoding t s) =
      Suc (length (filter (\<lambda>x. s_token x = t \<and> \<not> s_flushed x) (take n (hb_sends s) @ drop (Suc n) (hb_sends s))))"
    unfolding encoding_def by (subst l) (use d n in simp)
  ultimately have enc: "encoding t ?s2 = []" using e by simp
  have "hb_next t HFlush ?s2 = emit t st' out ?s2"
    by (rule hb_next_open [OF _ _ m]) (use g nf in \<open>simp_all add: sent_state_fields\<close>)
  then have "hb_encoded n ?r s = emit t st' out ?s2"
    using d n by (simp add: hb_encoded_eq)
  then have "settle_sends (Suc k) t f s = settle_sends k t f (emit t st' out ?s2)" for k
    using n by simp
  moreover have "hb_log ?s2 = hb_log s @ [effect_of t (f (s_details x))]"
    using d n(2) by (simp add: sent_state_fields(4) sent_as_def effect_of_def split: sum.split)
  ultimately show ?thesis using enc nf by (intro that [of ?s2]) (simp_all add: sent_state_fields)
qed

lemma settle_none: "encoding t s = [] \<Longrightarrow> settle_sends k t f s = s"
proof (cases k)
  case (Suc n)
  assume "encoding t s = []"
  moreover have "n < length (hb_sends s) \<Longrightarrow> s_token (hb_sends s ! n) = t \<and> \<not> s_flushed (hb_sends s ! n) \<Longrightarrow>
      hb_sends s ! n \<in> set (encoding t s)" for n by (simp add: encoding_def)
  ultimately have "first_encoding t s = None" using first_encodingD [of t s] by (cases "first_encoding t s") force+
  with Suc show ?thesis by simp
qed simp

lemma closing_view:
  assumes "encoding t s = []"
  shows "hb_log (emit t st (Some (HClose (Some cb))) s) = hb_log s @ [CalledBack cb]"
    "encoding t (emit t st (Some (HClose (Some cb))) s) = []"
  using assms by (simp_all add: emit_def end_group_def encoding_def)

text \<open>C34. An activity that fails loses no progress: its last heartbeat is recorded by core, and only after that the
  completion callback its worker waits for is called. Of the activity's earlier heartbeats at most the one that was under way
  comes before it, recorded or reported as not encodable, whatever was stored; nothing of the activity is left under
  way. This needs the heartbeat stream not to have failed and core to accept what is recorded.\<close>

theorem last_heartbeat_flushed:
  assumes "hb_reachable s" and "\<not> hb_failed s" and "hb_groups s t = Some g" and "\<not> g_ended g"
    and "completionCallback (g_state g) = None" and "f d = Inr p"
    and "s' = settle_sends 2 t f (hb_step (hb_step s (EvHeartbeat t d)) (EvCompletion t True cb))"
  shows "(\<exists>before. hb_log s' = hb_log s @ before @ [Recorded t p, CalledBack cb]
      \<and> (before = [] \<or> before = [ErrorReported t] \<or> (\<exists>q. before = [Recorded t q])))
    \<and> encoding t s' = []"
proof -
  let ?st = "g_state g"
  have o: "open_ok ?st (length (encoding t s))"
    using hb_reachable_inv [OF assms(1)] assms(2-4) by (auto simp: hb_inv_def groups_ok_def group_ok_def dest!: spec [of _ t])
  have g: "hb_groups s t = Some \<lparr>g_state = ?st, g_ended = False\<rparr>" using assms(3,4) by (cases g) simp
  define s1 where "s1 = hb_step (hb_step s (EvHeartbeat t d)) (EvCompletion t True cb)"
  have s': "s' = settle_sends 2 t f s1" using assms(7) by (simp only: s1_def)
  let ?last = "\<lparr>s_token = t, s_details = d, s_flushed = False, s_threw = False\<rparr>"
  define st2 where "st2 = ?st\<lparr>processing := True, pending := None, completionCallback := Some cb\<rparr>"
  have m2: "hb_map st2 HFlush = (closed_state, Some (HClose (Some cb)))"
    using o by (simp add: open_ok_def st2_def complete_def closed_state_def)
  show ?thesis
  proof (cases "processing ?st")
    case True
    then obtain x where x: "encoding t s = [x]" using o by (auto simp: open_ok_def length_Suc_conv)
    let ?st1 = "?st\<lparr>pending := Some d, completionCallback := Some cb\<rparr>"
    have s1: "s1 = s\<lparr>hb_groups := (hb_groups s)(t \<mapsto> \<lparr>g_state = ?st1, g_ended = False\<rparr>)\<rparr>"
      using True o g assms(2) by (simp add: s1_def hb_next_def open_ok_def storePending_def emit_def)
    then have g1: "hb_groups s1 t = Some \<lparr>g_state = ?st1, g_ended = False\<rparr>" and nf1: "\<not> hb_failed s1"
      using assms(2) by simp_all
    have m1: "hb_map ?st1 HFlush = (st2, Some (HSend d))"
      using o by (simp add: open_ok_def process_def st2_def)
    have e1: "encoding t s1 = [x]" using x by (simp add: s1 encoding_def)
    obtain s2 where 2: "\<And>k. settle_sends (Suc k) t f s1 = settle_sends k t f (emit t st2 (Some (HSend d)) s2)"
        "\<not> hb_failed s2" "encoding t s2 = []" "hb_log s2 = hb_log s1 @ [effect_of t (f (s_details x))]"
      by (rule settle_sends_one [OF nf1 e1 g1 m1, of f]) blast
    define s3 where "s3 = emit t st2 (Some (HSend d)) s2"
    have e3: "encoding t s3 = [?last]" using 2(3) by (simp add: s3_def emit_def encoding_def)
    have g3: "hb_groups s3 t = Some \<lparr>g_state = st2, g_ended = False\<rparr>" and nf3: "\<not> hb_failed s3"
      using 2(2) by (simp_all add: s3_def emit_def)
    obtain s4 where 4: "\<And>k. settle_sends (Suc k) t f s3 = settle_sends k t f (emit t closed_state (Some (HClose (Some cb))) s4)"
        "encoding t s4 = []" "hb_log s4 = hb_log s3 @ [effect_of t (f (s_details ?last))]"
      by (rule settle_sends_one [OF nf3 e3 g3 m2, of f]) blast
    have "s' = emit t closed_state (Some (HClose (Some cb))) s4"
      using 2(1) [of 1] 4(1) [of 0] by (simp add: s' numeral_2_eq_2 s3_def)
    moreover have "hb_log s3 = hb_log s @ [effect_of t (f (s_details x))]" using 2(4) s1 by (simp add: s3_def emit_def)
    ultimately have "hb_log s' = hb_log s @ [effect_of t (f (s_details x))] @ [Recorded t p, CalledBack cb]" "encoding t s' = []"
      using closing_view [OF 4(2)] 4(3) assms(6) by (simp_all add: effect_of_def)
    then show ?thesis by (auto simp: effect_of_def split: sum.splits)
  next
    case False
    then have e: "encoding t s = []" "pending ?st = None" using o by (auto simp: open_ok_def)
    have s1: "s1 = s\<lparr>hb_groups := (hb_groups s)(t \<mapsto> \<lparr>g_state = st2, g_ended = False\<rparr>), hb_sends := hb_sends s @ [?last]\<rparr>"
      using False o g assms(2) by (simp add: s1_def st2_def hb_next_def open_ok_def process_def emit_def)
    then have g1: "hb_groups s1 t = Some \<lparr>g_state = st2, g_ended = False\<rparr>" and nf1: "\<not> hb_failed s1"
      using assms(2) by simp_all
    have e1: "encoding t s1 = [?last]" using e by (simp add: s1 encoding_def)
    obtain s4 where 4: "\<And>k. settle_sends (Suc k) t f s1 = settle_sends k t f (emit t closed_state (Some (HClose (Some cb))) s4)"
        "encoding t s4 = []" "hb_log s4 = hb_log s1 @ [effect_of t (f (s_details ?last))]"
      by (rule settle_sends_one [OF nf1 e1 g1 m2, of f]) blast
    have "s' = emit t closed_state (Some (HClose (Some cb))) s4"
      using 4(1) [of 1] settle_none [OF closing_view(2) [OF 4(2)]] by (simp add: s' numeral_2_eq_2)
    then show ?thesis using closing_view [OF 4(2)] 4(3) assms(6) s1 by (auto simp: effect_of_def)
  qed
qed

definition sample_encode :: "jsval \<Rightarrow> payload res" where
  "sample_encode v = (case v of JStr s \<Rightarrow> Inr \<lparr>metadata = None, payload_data = Some (map (\<lambda>c. of_nat (of_char c)) s)\<rparr> | _ \<Rightarrow> Inl JNull)"

theorem last_heartbeat_flushed_witness:
  "\<exists>s s' before. s = run_steps hb_step hb_init sample_beats
     \<and> s' = settle_sends 2 ''t'' sample_encode (hb_step (hb_step s (EvHeartbeat ''t'' (JStr ''4''))) (EvCompletion ''t'' True 7))
     \<and> hb_log s' = hb_log s @ before @ [Recorded ''t'' \<lparr>metadata = None, payload_data = Some [52]\<rparr>, CalledBack 7]"
proof -
  let ?s = "run_steps hb_step hb_init sample_beats"
  obtain g where g: "\<not> hb_failed ?s" "hb_groups ?s ''t'' = Some g" "\<not> g_ended g" "completionCallback (g_state g) = None"
    by (simp add: sample_beats_def hb_init_def hb_next_def emit_def closed_state_def opened_state_def process_def storePending_def)
  have "sample_encode (JStr ''4'') = Inr \<lparr>metadata = None, payload_data = Some [52]\<rparr>"
    by (simp add: sample_encode_def)
  from last_heartbeat_flushed [where f = sample_encode and d = "JStr ''4''" and cb = 7, OF sample_beats_reachable g this refl]
  show ?thesis by blast
qed

text \<open>If \<open>recordActivityHeartbeat\<close> throws, the flush is sent all the same, so the callback of a completed activity is
  called; then the stream fails, and with it the worker.\<close>

lemma record_throws:
  "let s = run_steps hb_step hb_init
      [EvCreate ''t'', EvHeartbeat ''t'' JNull, EvCompletion ''t'' True 1, EvEncoded 0 (RecordThrew JNull)] in
     hb_log s = [CalledBack 1] \<and> \<not> hb_failed s \<and> hb_failed (hb_step s (EvReturned 0))"
  by (simp add: hb_init_def hb_next_def emit_def closed_state_def opened_state_def process_def complete_def
      hb_encoded_def hb_returned_def end_group_def sending_def)

text \<open>A heartbeat of an activity that has already completed is not ignored: it opens a group that
  starts closed, whose close request lowers the number of heartbeating activities once more. The number
  a worker reports in its status can therefore fall below the true one, and below zero.\<close>

theorem late_heartbeat_miscounts:
  assumes "hb_reachable s" and "\<not> hb_failed s" and "hb_groups s t = None"
  shows "hb_step s (EvHeartbeat t d) = s\<lparr>numHeartbeatingActivities := numHeartbeatingActivities s - 1\<rparr>"
proof -
  have "\<not> sending t s" using hb_reachable_inv [OF assms(1)] assms(2,3)
    by (auto simp: hb_inv_def groups_ok_def group_ok_def dest!: spec [of _ t])
  moreover from this have "\<not> sending t (s\<lparr>numHeartbeatingActivities := n\<rparr>)" for n by (simp add: sending_def)
  moreover have "(hb_groups s)(t := None) = hb_groups s" using assms(3) by (simp add: fun_upd_idem)
  ultimately show ?thesis using assms(2,3) by (simp add: hb_next_def emit_def end_group_def closed_state_def)
qed

definition sample_late :: "hb_event list" where
  "sample_late = [EvCreate ''t'', EvCompletion ''t'' False 1]"

theorem late_heartbeat_miscounts_witness:
  "numHeartbeatingActivities (run_steps hb_step hb_init sample_late) = 0
   \<and> numHeartbeatingActivities (hb_step (run_steps hb_step hb_init sample_late) (EvHeartbeat ''t'' JNull)) = -1"
proof -
  let ?s = "run_steps hb_step hb_init sample_late"
  have r: "hb_reachable ?s"
    unfolding hb_reachable_def by (rule exI [of _ sample_late]) (simp add: sample_late_def hb_init_def)
  have "\<not> hb_failed ?s" "hb_groups ?s ''t'' = None" "numHeartbeatingActivities ?s = 0"
    by (simp_all add: sample_late_def hb_init_def hb_next_def emit_def end_group_def closed_state_def opened_state_def
        complete_def sending_def)
  with late_heartbeat_miscounts [OF r] show ?thesis by simp
qed

end
