(* ===== verification/Codecs.thy ===== *)
theory Codecs
  imports Runtime_Effects
begin

text \<open>
  Payload codecs: packages/common/src/internal-non-workflow/codec-helpers.ts and the codec runner of
  packages/worker/src/workflow-codec-runner.ts, which decodes the activations core sends and encodes the
  completions it gets back. A codec is user code, a pair of functions on lists of payloads that may fail.
  Where the source awaits several encodings with \<open>Promise.all\<close>, the first failure in the order of the
  elements is the result.
\<close>

record codec =
  codec_encode :: "payload list \<Rightarrow> payload list res"
  codec_decode :: "payload list \<Rightarrow> payload list res"

record data_converter =
  dc_payloadConverter :: converter
  dc_codecs :: "codec list"
  dc_errorToFailure :: "jsval \<Rightarrow> proto_failure res"
  dc_failureToError :: "proto_failure \<Rightarrow> jserror res"

subsection \<open>Chains of codecs\<close>

definition decode :: "codec list \<Rightarrow> payload list \<Rightarrow> payload list res" where
  "decode codecs payloads = fold (\<lambda>c r. and_then r (codec_decode c)) (rev codecs) (Inr payloads)"

definition encode :: "codec list \<Rightarrow> payload list \<Rightarrow> payload list res" where
  "encode codecs payloads = fold (\<lambda>c r. and_then r (codec_encode c)) codecs (Inr payloads)"

definition for_option :: "('a \<Rightarrow> 'b res) \<Rightarrow> 'a option \<Rightarrow> 'b option res" where
  "for_option f x = (case x of None \<Rightarrow> Inr None | Some y \<Rightarrow> and_then (f y) (\<lambda>z. Inr (Some z)))"

definition encodeOptional :: "codec list \<Rightarrow> payload list option \<Rightarrow> payload list option res" where
  "encodeOptional codecs = for_option (encode codecs)"

definition decodeOptional :: "codec list \<Rightarrow> payload list option \<Rightarrow> payload list option res" where
  "decodeOptional codecs = for_option (decode codecs)"

text \<open>The first element of the result; an empty result gives \<open>undefined\<close>.\<close>

definition first_of :: "payload list \<Rightarrow> payload option" where
  "first_of ps = (case ps of [] \<Rightarrow> None | p # _ \<Rightarrow> Some p)"

definition encodeSingle :: "codec list \<Rightarrow> payload \<Rightarrow> payload option res" where
  "encodeSingle codecs p = and_then (encode codecs [p]) (\<lambda>ps. Inr (first_of ps))"

definition decodeSingle :: "codec list \<Rightarrow> payload \<Rightarrow> payload option res" where
  "decodeSingle codecs p = and_then (decode codecs [p]) (\<lambda>ps. Inr (first_of ps))"

definition encodeOptionalSingle :: "codec list \<Rightarrow> payload option \<Rightarrow> payload option res" where
  "encodeOptionalSingle codecs p = (case p of None \<Rightarrow> Inr None | Some p \<Rightarrow> encodeSingle codecs p)"

definition decodeOptionalSingle :: "codec list \<Rightarrow> payload option \<Rightarrow> payload option res" where
  "decodeOptionalSingle codecs p = (case p of None \<Rightarrow> Inr None | Some p \<Rightarrow> decodeSingle codecs p)"

subsection \<open>Maps of payloads\<close>

definition map_values :: "('a \<Rightarrow> 'b res) \<Rightarrow> (string, 'a) jsmap \<Rightarrow> (string, 'b) jsmap res" where
  "map_values f m = map_res (\<lambda>(k, v). and_then (f v) (\<lambda>w. Inr (k, w))) m"

text \<open>The value of an entry is the whole decoded list, not its first element.\<close>

definition decodeOptionalMap :: "codec list \<Rightarrow> (string, payload) jsmap option \<Rightarrow> (string, payload list) jsmap option res" where
  "decodeOptionalMap codecs = for_option (map_values (\<lambda>p. decode codecs [p]))"

definition encodeMap :: "codec list \<Rightarrow> (string, payload) jsmap option \<Rightarrow> (string, payload option) jsmap option res" where
  "encodeMap codecs = for_option (map_values (encodeSingle codecs))"

definition encodeToPayload :: "data_converter \<Rightarrow> jsval \<Rightarrow> payload option res" where
  "encodeToPayload dc v =
     and_then (toPayload (dc_payloadConverter dc) v) (encodeSingle (dc_codecs dc))"

definition decodeArrayFromPayloads :: "data_converter \<Rightarrow> payload list option \<Rightarrow> jsval list res" where
  "decodeArrayFromPayloads dc ps =
     and_then (decodeOptional (dc_codecs dc) ps) (arrayFromPayloads (dc_payloadConverter dc))"

definition decodeFromPayloadsAtIndex :: "data_converter \<Rightarrow> nat \<Rightarrow> payload list option \<Rightarrow> jsval res" where
  "decodeFromPayloadsAtIndex dc n ps =
     and_then (decodeOptional (dc_codecs dc) ps) (fromPayloadsAtIndex (dc_payloadConverter dc) n)"

definition encodeToPayloads :: "data_converter \<Rightarrow> jsval list \<Rightarrow> payload list option res" where
  "encodeToPayloads dc vs =
     (if vs = [] then Inr None
      else and_then (toPayloads (dc_payloadConverter dc) vs) (\<lambda>ps.
        case ps of None \<Rightarrow> Inr None | Some ps \<Rightarrow> and_then (encode (dc_codecs dc) ps) (\<lambda>qs. Inr (Some qs))))"

text \<open>A decoder that returns no payload for one is left to the converter, which reads \<open>undefined\<close>.\<close>

definition decodeMapFromPayloads :: "data_converter \<Rightarrow> (string, payload) jsmap option \<Rightarrow> (string, jsval) jsmap option res" where
  "decodeMapFromPayloads dc = for_option (map_values (\<lambda>p.
     and_then (decodeSingle (dc_codecs dc) p) (\<lambda>q.
       case q of None \<Rightarrow> Inl (TypeError (''Cannot read properties of undefined (reading '' @ [CHR 0x27] @ ''metadata'' @ [CHR 0x27] @ '')''))
               | Some q \<Rightarrow> fromPayload (dc_payloadConverter dc) q)))"

definition encodeMapToPayloads :: "data_converter \<Rightarrow> (string, jsval) jsmap \<Rightarrow> (string, payload option) jsmap res" where
  "encodeMapToPayloads dc = map_values (\<lambda>v.
     and_then (toPayload (dc_payloadConverter dc) v) (encodeSingle (dc_codecs dc)))"

subsection \<open>Failures\<close>

text \<open>\<open>encodeFailure\<close> and \<open>decodeFailure\<close> are the same traversal with the two directions of the chain.\<close>

fun convert_info :: "(payload list \<Rightarrow> payload list res) \<Rightarrow> failure_info \<Rightarrow> failure_info res" where
  "convert_info f (ApplicationInfo ty nr det) = and_then (for_option f det) (\<lambda>d. Inr (ApplicationInfo ty nr d))"
| "convert_info f (TimeoutInfo ty det) = and_then (for_option f det) (\<lambda>d. Inr (TimeoutInfo ty d))"
| "convert_info f (CanceledInfo det) = and_then (for_option f det) (\<lambda>d. Inr (CanceledInfo d))"
| "convert_info f (ResetWorkflowInfo det) = and_then (for_option f det) (\<lambda>d. Inr (ResetWorkflowInfo d))"
| "convert_info f i = Inr i"

definition convert_attributes :: "(payload list \<Rightarrow> payload list res) \<Rightarrow> payload option \<Rightarrow> payload option res" where
  "convert_attributes f p = (case p of None \<Rightarrow> Inr None | Some p \<Rightarrow> and_then (f [p]) (\<lambda>ps. Inr (first_of ps)))"

fun convert_failure :: "(payload list \<Rightarrow> payload list res) \<Rightarrow> proto_failure \<Rightarrow> proto_failure res" where
  "convert_failure f (ProtoFailure msg src st attrs cause info) =
     and_then (convert_attributes f attrs) (\<lambda>attrs'.
     and_then (case cause of None \<Rightarrow> Inr None | Some c \<Rightarrow> and_then (convert_failure f c) (\<lambda>c'. Inr (Some c'))) (\<lambda>cause'.
     and_then (convert_info f info) (\<lambda>info'.
       Inr (ProtoFailure msg src st attrs' cause' info'))))"

definition encodeFailure :: "codec list \<Rightarrow> proto_failure \<Rightarrow> proto_failure res" where
  "encodeFailure codecs = convert_failure (encode codecs)"

definition decodeFailure :: "codec list \<Rightarrow> proto_failure \<Rightarrow> proto_failure res" where
  "decodeFailure codecs = convert_failure (decode codecs)"

definition encodeOptionalFailure :: "codec list \<Rightarrow> proto_failure option \<Rightarrow> proto_failure option res" where
  "encodeOptionalFailure codecs = for_option (encodeFailure codecs)"

definition decodeOptionalFailure :: "codec list \<Rightarrow> proto_failure option \<Rightarrow> proto_failure option res" where
  "decodeOptionalFailure codecs = for_option (decodeFailure codecs)"

definition encodeErrorToFailure :: "data_converter \<Rightarrow> jsval \<Rightarrow> proto_failure res" where
  "encodeErrorToFailure dc e = and_then (dc_errorToFailure dc e) (encodeFailure (dc_codecs dc))"

definition decodeOptionalFailureToOptionalError :: "data_converter \<Rightarrow> proto_failure option \<Rightarrow> jserror option res" where
  "decodeOptionalFailureToOptionalError dc =
     for_option (\<lambda>f. and_then (decodeFailure (dc_codecs dc) f) (dc_failureToError dc))"

subsection \<open>Activations\<close>

fun decode_result :: "codec list \<Rightarrow> activity_result \<Rightarrow> activity_result res" where
  "decode_result cs (ActCompleted r) = and_then (decodeOptionalSingle cs r) (\<lambda>r'. Inr (ActCompleted r'))"
| "decode_result cs (ActFailed f) = and_then (decodeOptionalFailure cs f) (\<lambda>f'. Inr (ActFailed f'))"
| "decode_result cs (ActCancelled f) = and_then (decodeOptionalFailure cs f) (\<lambda>f'. Inr (ActCancelled f'))"
| "decode_result cs r = Inr r"

fun decode_child_start :: "codec list \<Rightarrow> child_start_status \<Rightarrow> child_start_status res" where
  "decode_child_start cs (ChildStartCancelled f) = and_then (decodeOptionalFailure cs f) (\<lambda>f'. Inr (ChildStartCancelled f'))"
| "decode_child_start cs st = Inr st"

text \<open>The jobs as the workflow context sees them; the details of a cancellation, which nothing reads, are left out.\<close>

fun decode_job :: "codec list \<Rightarrow> job \<Rightarrow> job res" where
  "decode_job cs (JStartWorkflow args) = and_then (decodeOptional cs args) (\<lambda>a. Inr (JStartWorkflow a))"
| "decode_job cs (JQueryWorkflow q) =
     and_then (decodeOptional cs (qj_arguments q)) (\<lambda>a. Inr (JQueryWorkflow (q\<lparr>qj_arguments := a\<rparr>)))"
| "decode_job cs (JSignalWorkflow j) =
     and_then (decodeOptional cs (sj_input j)) (\<lambda>a. Inr (JSignalWorkflow (j\<lparr>sj_input := a\<rparr>)))"
| "decode_job cs (JResolveActivity s r) = and_then (for_option (decode_result cs) r) (\<lambda>r'. Inr (JResolveActivity s r'))"
| "decode_job cs (JResolveChild s r) = and_then (for_option (decode_result cs) r) (\<lambda>r'. Inr (JResolveChild s r'))"
| "decode_job cs (JResolveChildStart s st) = and_then (decode_child_start cs st) (\<lambda>st'. Inr (JResolveChildStart s st'))"
| "decode_job cs (JResolveSignalExternal s f) =
     and_then (decodeOptionalFailure cs f) (\<lambda>f'. Inr (JResolveSignalExternal s f'))"
| "decode_job cs (JResolveRequestCancel s f) =
     and_then (decodeOptionalFailure cs f) (\<lambda>f'. Inr (JResolveRequestCancel s f'))"
| "decode_job cs j = Inr j"

definition decodeActivation :: "codec list \<Rightarrow> job list \<Rightarrow> job list res" where
  "decodeActivation cs = map_res (decode_job cs)"

text \<open>The other payloads of a start job. The decoded memo holds a list for each key.\<close>

record 'm start_payloads =
  sp_continuedFailure :: "proto_failure option"
  sp_memo :: 'm
  sp_lastCompletionResult :: "payload list option"

definition decode_start_payloads ::
  "codec list \<Rightarrow> (string, payload) jsmap option start_payloads \<Rightarrow> (string, payload list) jsmap option start_payloads res" where
  "decode_start_payloads cs p =
     and_then (decodeOptionalFailure cs (sp_continuedFailure p)) (\<lambda>f.
     and_then (decodeOptionalMap cs (sp_memo p)) (\<lambda>m.
     and_then (decodeOptional cs (sp_lastCompletionResult p)) (\<lambda>r.
       Inr \<lparr>sp_continuedFailure = f, sp_memo = m, sp_lastCompletionResult = r\<rparr>)))"

subsection \<open>Completions\<close>

text \<open>
  The single payload of a field. A codec that returns no payload for one is outside the model of a
  completion, where the field would be missing: it is an error here.
\<close>

definition encode_field :: "codec list \<Rightarrow> payload \<Rightarrow> payload res" where
  "encode_field cs p =
     and_then (encodeSingle cs p) (\<lambda>q. case q of None \<Rightarrow> Inl (throw_plain ''Error'' ''codec returned no payload'') | Some q \<Rightarrow> Inr q)"

definition encode_memo :: "codec list \<Rightarrow> (string, payload) jsmap option \<Rightarrow> (string, payload) jsmap option res" where
  "encode_memo cs = for_option (map_values (encode_field cs))"

fun encode_command :: "codec list \<Rightarrow> command \<Rightarrow> command res" where
  "encode_command cs (ScheduleActivity n a) =
     and_then (encodeOptional cs (aa_arguments a)) (\<lambda>x. Inr (ScheduleActivity n (a\<lparr>aa_arguments := x\<rparr>)))"
| "encode_command cs (ScheduleLocalActivity n a) =
     and_then (encodeOptional cs (la_arguments a)) (\<lambda>x. Inr (ScheduleLocalActivity n (a\<lparr>la_arguments := x\<rparr>)))"
| "encode_command cs (StartChildWorkflowExecution n a) =
     and_then (encodeOptional cs (ca_input a)) (\<lambda>x.
     and_then (encode_memo cs (ca_memo a)) (\<lambda>m. Inr (StartChildWorkflowExecution n (a\<lparr>ca_input := x, ca_memo := m\<rparr>))))"
| "encode_command cs (SignalExternalWorkflowExecution n name args t) =
     and_then (encodeOptional cs args) (\<lambda>x. Inr (SignalExternalWorkflowExecution n name x t))"
| "encode_command cs (RespondToQuery qid (QuerySucceeded p)) =
     and_then (encode_field cs p) (\<lambda>q. Inr (RespondToQuery qid (QuerySucceeded q)))"
| "encode_command cs (RespondToQuery qid (QueryFailed f)) =
     and_then (encodeFailure cs f) (\<lambda>g. Inr (RespondToQuery qid (QueryFailed g)))"
| "encode_command cs (CompleteWorkflowExecution p) = and_then (encode_field cs p) (\<lambda>q. Inr (CompleteWorkflowExecution q))"
| "encode_command cs (FailWorkflowExecution f) = and_then (encodeFailure cs f) (\<lambda>g. Inr (FailWorkflowExecution g))"
| "encode_command cs (ContinueAsNewWorkflowExecution a) =
     and_then (encodeOptional cs (na_arguments a)) (\<lambda>x.
     and_then (encode_memo cs (na_memo a)) (\<lambda>m. Inr (ContinueAsNewWorkflowExecution (a\<lparr>na_arguments := x, na_memo := m\<rparr>))))"
| "encode_command cs c = Inr c"

definition encodeCompletion :: "codec list \<Rightarrow> command list \<Rightarrow> command list res" where
  "encodeCompletion cs = map_res (encode_command cs)"

subsection \<open>Round trips\<close>

text \<open>What \<open>PayloadCodec\<close> promises: decoding undoes encoding, and payloads are encoded one by one.\<close>

definition codec_lossless :: "codec \<Rightarrow> bool" where
  "codec_lossless c \<longleftrightarrow> (\<forall>ps qs. codec_encode c ps = Inr qs \<longrightarrow> codec_decode c qs = Inr ps)"

definition one_to_one :: "codec \<Rightarrow> bool" where
  "one_to_one c \<longleftrightarrow> (\<forall>ps qs. codec_encode c ps = Inr qs \<longrightarrow> length qs = length ps)"

lemma encode_simps [simp]:
  "encode [] ps = Inr ps"
  "encode (cs @ [c]) ps = and_then (encode cs ps) (codec_encode c)"
  by (simp_all add: encode_def)

lemma decode_simps [simp]:
  "decode [] ps = Inr ps"
  "decode (cs @ [c]) ps = and_then (codec_decode c ps) (decode cs)"
proof -
  have e: "fold (\<lambda>c r. and_then r (codec_decode c)) xs (and_then m Inr) = and_then m (\<lambda>ps. fold (\<lambda>c r. and_then r (codec_decode c)) xs (Inr ps))"
    for xs and m :: "payload list res"
  proof (cases m)
    case (Inl e)
    have "fold (\<lambda>c r. and_then r (codec_decode c)) xs (Inl e) = Inl e" by (induction xs) auto
    with Inl show ?thesis by simp
  qed simp
  have "and_then m Inr = m" for m :: "payload list res" by (cases m) auto
  then show "decode (cs @ [c]) ps = and_then (codec_decode c ps) (decode cs)"
    using e [of "rev cs" "codec_decode c ps"] by (simp add: decode_def [abs_def])
qed (simp add: decode_def)

lemma decode_encode: "\<forall>c \<in> set cs. codec_lossless c \<Longrightarrow> encode cs ps = Inr qs \<Longrightarrow> decode cs qs = Inr ps"
  by (induction cs arbitrary: qs rule: rev_induct) (auto simp: and_then_eq_Inr codec_lossless_def)

text \<open>What one side encodes with its chain of codecs the other side decodes to the same payloads,
  in particular although the chain is run in the opposite order.\<close>

theorem codec_chain_roundtrip:
  assumes "\<forall>c \<in> set cs. codec_lossless c" and "encode cs ps = Inr qs"
  shows "decode cs qs = Inr ps"
  by (rule decode_encode [OF assms])

definition prefix_codec :: "8 word \<Rightarrow> codec" where
  "prefix_codec b = \<lparr>
     codec_encode = (\<lambda>ps. Inr (map (\<lambda>p. p\<lparr>payload_data := map_option ((#) b) (payload_data p)\<rparr>) ps)),
     codec_decode = (\<lambda>ps. if \<forall>p \<in> set ps. case payload_data p of Some (c # _) \<Rightarrow> c = b | Some [] \<Rightarrow> False | None \<Rightarrow> True
       then Inr (map (\<lambda>p. p\<lparr>payload_data := map_option tl (payload_data p)\<rparr>) ps)
       else Inl (throw_plain ''Error'' ''unknown encoding''))\<rparr>"

lemma prefix_codec_ok: "codec_lossless (prefix_codec b)" "one_to_one (prefix_codec b)"
  by (auto simp: codec_lossless_def one_to_one_def prefix_codec_def option.map_comp comp_def option.map_ident intro!: map_idI split: option.splits)

theorem codec_chain_roundtrip_witness:
  "encode [prefix_codec 1, prefix_codec 2] [\<lparr>metadata = None, payload_data = Some [7]\<rparr>] = Inr [\<lparr>metadata = None, payload_data = Some [2, 1, 7]\<rparr>]
   \<and> decode [prefix_codec 1, prefix_codec 2] [\<lparr>metadata = None, payload_data = Some [2, 1, 7]\<rparr>] = Inr [\<lparr>metadata = None, payload_data = Some [7]\<rparr>]"
proof -
  have e: "encode [prefix_codec 1, prefix_codec 2] [\<lparr>metadata = None, payload_data = Some [7]\<rparr>] = Inr [\<lparr>metadata = None, payload_data = Some [2, 1, 7]\<rparr>]"
    by (simp add: encode_def prefix_codec_def)
  from codec_chain_roundtrip [OF _ e] e prefix_codec_ok(1) show ?thesis by simp
qed

lemma encode_length: "\<forall>c \<in> set cs. one_to_one c \<Longrightarrow> encode cs ps = Inr qs \<Longrightarrow> length qs = length ps"
  by (induction cs arbitrary: qs rule: rev_induct) (auto simp: and_then_eq_Inr one_to_one_def)

lemma for_option_back: "for_option f x = Inr y \<Longrightarrow> (\<And>a b. f a = Inr b \<Longrightarrow> g b = Inr a) \<Longrightarrow> for_option g y = Inr x"
  by (cases x) (auto simp: for_option_def and_then_eq_Inr)

lemma convert_failure_back:
  assumes "\<forall>ps qs. e ps = Inr qs \<longrightarrow> d qs = Inr ps \<and> length qs = length ps" and "convert_failure e f = Inr g"
  shows "convert_failure d g = Inr f"
  using assms
proof (induction e f arbitrary: g rule: convert_failure.induct)
  case (1 e msg src st attrs cause info)
  have inv: "e ps = Inr qs \<Longrightarrow> d qs = Inr ps" and len: "e ps = Inr qs \<Longrightarrow> length qs = length ps" for ps qs
    using "1.prems"(1) by auto
  from "1.prems"(2) obtain a c i where
    a: "convert_attributes e attrs = Inr a" and i: "convert_info e info = Inr i"
    and c: "(case cause of None \<Rightarrow> Inr None | Some c \<Rightarrow> and_then (convert_failure e c) (\<lambda>c'. Inr (Some c'))) = Inr c"
    and g: "g = ProtoFailure msg src st a c i"
    by (auto simp: and_then_eq_Inr)
  have "convert_attributes d a = Inr attrs"
  proof (cases attrs)
    case (Some p)
    then obtain ps where ps: "e [p] = Inr ps" "a = first_of ps"
      using a by (auto simp: convert_attributes_def and_then_eq_Inr)
    then have "length ps = 1" using len [of "[p]" ps] by simp
    then obtain q where "ps = [q]" by (auto simp: length_Suc_conv)
    with ps inv [of "[p]" ps] Some show ?thesis by (simp add: convert_attributes_def first_of_def)
  qed (use a in \<open>simp add: convert_attributes_def\<close>)
  moreover have "(case c of None \<Rightarrow> Inr None | Some c \<Rightarrow> and_then (convert_failure d c) (\<lambda>c'. Inr (Some c'))) = Inr cause"
    using c "1.IH" a "1.prems"(1) by (cases cause) (auto simp: and_then_eq_Inr)
  moreover have "convert_info d i = Inr info"
    using i for_option_back [of e _ _ d] inv by (cases info) (auto simp: and_then_eq_Inr)
  ultimately show ?case by (simp add: g)
qed

text \<open>A failure encoded for the wire decodes to itself: its encoded attributes, the details of its
  application, timeout, cancellation or reset information and those of all its causes.\<close>

theorem failure_codec_roundtrip:
  assumes "\<forall>c \<in> set cs. codec_lossless c \<and> one_to_one c" and "encodeFailure cs f = Inr g"
  shows "decodeFailure cs g = Inr f"
  using assms(2) unfolding encodeFailure_def decodeFailure_def
  by (rule convert_failure_back [rotated]) (use assms(1) decode_encode [of cs] encode_length [of cs] in blast)

definition sample_failure :: proto_failure where
  "sample_failure = ProtoFailure (Some ''m'') None None (Some \<lparr>metadata = None, payload_data = Some [1]\<rparr>)
     (Some (ProtoFailure None None None None None (CanceledInfo (Some [\<lparr>metadata = None, payload_data = Some []\<rparr>]))))
     (ApplicationInfo None None (Some [\<lparr>metadata = None, payload_data = Some [2]\<rparr>]))"

theorem failure_codec_roundtrip_witness:
  "\<exists>g. encodeFailure [prefix_codec 9] sample_failure = Inr g \<and> g \<noteq> sample_failure \<and> decodeFailure [prefix_codec 9] g = Inr sample_failure"
proof -
  obtain g where g: "encodeFailure [prefix_codec 9] sample_failure = Inr g" "g \<noteq> sample_failure"
    by (simp add: encodeFailure_def sample_failure_def convert_attributes_def first_of_def encode_def prefix_codec_def for_option_def)
  from failure_codec_roundtrip [OF _ g(1)] g prefix_codec_ok show ?thesis by auto
qed

subsection \<open>What encoding leaves alone\<close>

fun command_search_attributes :: "command \<Rightarrow> (string, payload) jsmap option" where
  "command_search_attributes (UpsertWorkflowSearchAttributes m) = Some m"
| "command_search_attributes (StartChildWorkflowExecution _ a) = ca_searchAttributes a"
| "command_search_attributes (ContinueAsNewWorkflowExecution a) = na_searchAttributes a"
| "command_search_attributes _ = None"

lemma encode_command_shape:
  "encode_command cs c = Inr d \<Longrightarrow> start_of d = start_of c \<and> cancel_of d = cancel_of c \<and> terminal d = terminal c
     \<and> patch_of d = patch_of c \<and> command_search_attributes d = command_search_attributes c"
  by (induction cs c rule: encode_command.induct) (auto simp: and_then_eq_Inr)

lemma map_res_shape: "map_res f xs = Inr ys \<Longrightarrow> (\<And>x y. f x = Inr y \<Longrightarrow> g y = g x) \<Longrightarrow> map g ys = map g xs"
  by (induction xs arbitrary: ys) (auto simp: and_then_eq_Inr)

text \<open>Encoding a completion keeps the command log: the same operations are started, cancelled,
  marked and ended in the same order with the same sequence numbers, whatever the codecs do; and search
  attributes are sent as they are, since the server has to read them.\<close>

theorem encoding_keeps_commands:
  assumes "encodeCompletion cs cmds = Inr cmds'"
  shows "map start_of cmds' = map start_of cmds \<and> map cancel_of cmds' = map cancel_of cmds
    \<and> map terminal cmds' = map terminal cmds \<and> map patch_of cmds' = map patch_of cmds
    \<and> map command_search_attributes cmds' = map command_search_attributes cmds"
  using assms unfolding encodeCompletion_def
  by (intro conjI; rule map_res_shape) (auto dest: encode_command_shape)

theorem encoding_keeps_commands_witness:
  "\<exists>cmds'. encodeCompletion [prefix_codec 9]
       [SignalExternalWorkflowExecution 4 ''s'' (Some [\<lparr>metadata = None, payload_data = Some [1]\<rparr>]) (ChildTarget ''w''),
        CompleteWorkflowExecution \<lparr>metadata = None, payload_data = Some [1]\<rparr>] = Inr cmds'
     \<and> map start_of cmds' = [Some (SSignal, 4), None] \<and> map terminal cmds' = [False, True]"
proof -
  let ?c = "[SignalExternalWorkflowExecution 4 ''s'' (Some [\<lparr>metadata = None, payload_data = Some [1]\<rparr>]) (ChildTarget ''w''),
        CompleteWorkflowExecution \<lparr>metadata = None, payload_data = Some [1]\<rparr>]"
  obtain d where d: "encodeCompletion [prefix_codec 9] ?c = Inr d"
    by (simp add: encodeCompletion_def encodeOptional_def for_option_def encode_field_def encodeSingle_def first_of_def
        encode_def prefix_codec_def)
  from encoding_keeps_commands [OF d] d show ?thesis by simp
qed

text \<open>The memo of a start job is not decoded like the other payloads: \<open>decodeOptionalMap\<close> keeps the
  list the codecs return for each value, so every entry the workflow context gets is a list with the
  decoded payload in it, not the payload.\<close>

theorem decoded_memo_holds_lists:
  assumes "\<forall>c \<in> set cs. codec_lossless c" and "\<forall>(k, v) \<in> set m. encode cs [w v] = Inr [v]"
  shows "decodeOptionalMap cs (Some m) = Inr (Some (map (\<lambda>(k, v). (k, [w v])) m))"
proof -
  have "decode cs [v] = Inr [w v]" if "(k, v) \<in> set m" for k v
    using assms that by (intro decode_encode) auto
  then have "map_values (\<lambda>p. decode cs [p]) m = Inr (map (\<lambda>(k, v). (k, [w v])) m)"
    unfolding map_values_def by (intro map_res_Inr) auto
  then show ?thesis by (simp add: decodeOptionalMap_def for_option_def)
qed

theorem decoded_memo_holds_lists_witness:
  "decodeOptionalMap [prefix_codec 9] (Some [(''k'', \<lparr>metadata = None, payload_data = Some [9, 1]\<rparr>)]) =
     Inr (Some [(''k'', [\<lparr>metadata = None, payload_data = Some [1]\<rparr>])])"
  using decoded_memo_holds_lists [of "[prefix_codec 9]" "[(''k'', \<lparr>metadata = None, payload_data = Some [9, 1]\<rparr>)]"
      "\<lambda>_. \<lparr>metadata = None, payload_data = Some [1]\<rparr>"] prefix_codec_ok(1)
  by (simp add: encode_def prefix_codec_def)

end
