(* ===== verification/Interceptors.thy ===== *)
theory Interceptors
  imports Sdk_Prelude
begin

text \<open>
  The composition of interceptors, packages/common/src/interceptors.ts. An interceptor implements some of the
  methods of its interface; a method takes the input and the function \<open>next\<close> to go on with.
\<close>

type_synonym ('i, 'o) next_fn = "'i \<Rightarrow> 'o"

type_synonym ('m, 'i, 'o) interceptor = "'m \<Rightarrow> ('i \<Rightarrow> ('i, 'o) next_fn \<Rightarrow> 'o) option"

text \<open>The loop \<open>for (let i = interceptors.length - 1; i >= 0; --i)\<close>; the argument is \<open>i + 1\<close>.\<close>

fun compose_from :: "nat \<Rightarrow> ('m, 'i, 'o) interceptor list \<Rightarrow> 'm \<Rightarrow> ('i, 'o) next_fn \<Rightarrow> ('i, 'o) next_fn" where
  "compose_from 0 interceptors method nxt = nxt"
| "compose_from (Suc i) interceptors method nxt =
     (case (interceptors ! i) method of
        Some f \<Rightarrow> compose_from i interceptors method (\<lambda>input. f input nxt)
      | None \<Rightarrow> compose_from i interceptors method nxt)"

definition composeInterceptors :: "('m, 'i, 'o) interceptor list \<Rightarrow> 'm \<Rightarrow> ('i, 'o) next_fn \<Rightarrow> ('i, 'o) next_fn" where
  "composeInterceptors interceptors method nxt = compose_from (length interceptors) interceptors method nxt"

lemma compose_from_take: "n \<le> length xs \<Longrightarrow> compose_from n (xs @ ys) m nxt = compose_from n xs m nxt"
  by (induction n arbitrary: nxt) (auto simp: nth_append split: option.splits)

lemma compose_snoc:
  "composeInterceptors (xs @ [i]) m nxt =
     composeInterceptors xs m (case i m of Some f \<Rightarrow> (\<lambda>input. f input nxt) | None \<Rightarrow> nxt)"
  by (simp add: composeInterceptors_def compose_from_take nth_append split: option.splits)

lemma compose_empty [simp]: "composeInterceptors [] m nxt = nxt"
  by (simp add: composeInterceptors_def)

lemma compose_append: "composeInterceptors (xs @ ys) m nxt = composeInterceptors xs m (composeInterceptors ys m nxt)"
  by (induction ys arbitrary: nxt rule: rev_induct) (simp_all add: compose_snoc flip: append_assoc)

lemma compose_Cons:
  "composeInterceptors (i # xs) m nxt =
     (case i m of Some f \<Rightarrow> (\<lambda>input. f input (composeInterceptors xs m nxt)) | None \<Rightarrow> composeInterceptors xs m nxt)"
  using compose_append [of "[i]" xs m nxt] compose_snoc [of "[]" i m] by simp

text \<open>The loop, which wraps the last interceptor first, makes the first interceptor that implements the
  method the outermost one: the call goes through those that implement it, in the order of the list.\<close>

theorem interceptors_nest_in_order:
  "composeInterceptors interceptors method nxt =
     foldr (\<lambda>f nx input. f input nx) (List.map_filter (\<lambda>i. i method) interceptors) nxt"
  by (induction interceptors) (auto simp: compose_Cons List.map_filter_simps split: option.splits)

end
