(* ===== verification/Worker_Activities.thy ===== *)
theory Worker_Activities
  imports Codecs Heartbeats Interceptors "HOL-Library.Multiset"
begin

text \<open>
  How a worker runs activities: \<open>Worker.activityOperator\<close> of packages/worker/src/worker.ts and the class
  \<open>Activity\<close> of packages/worker/src/activity.ts. The tasks of one task token form a group that keeps the
  running activity; its heartbeats go to the heartbeat stream. The enum of cancel reasons is generated code: a task
  carries the reason's name. Tokens are the base64 task tokens.
\<close>

subsection \<open>Activities\<close>

record activity_start =
  st_activityId :: string
  st_workflowExecution :: "string \<times> string"
  st_attempt :: nat
  st_isLocal :: bool
  st_activityType :: string
  st_workflowType :: string
  st_workflowNamespace :: string
  st_heartbeatDetails :: "payload list option"
  st_scheduledTime :: "tstamp option"
  st_startToCloseTimeout :: "tstamp option"
  st_scheduleToCloseTimeout :: "tstamp option"
  st_input :: "payload list option"
  st_headerFields :: "(string, payload) jsmap option"

datatype act_task = TaskStart activity_start | TaskCancel "string option" | TaskEmpty

record activity_info =
  info_token :: token
  info_taskQueue :: string
  info_activityId :: string
  info_workflowExecution :: "string \<times> string"
  info_attempt :: nat
  info_isLocal :: bool
  info_activityType :: string
  info_workflowType :: string
  info_heartbeatDetails :: jsval
  info_activityNamespace :: string
  info_workflowNamespace :: string
  info_scheduledTimestampMs :: jsnum
  info_startToCloseTimeoutMs :: jsnum
  info_scheduleToCloseTimeoutMs :: jsnum
  info_heartbeatTimeoutMs :: "jsnum option"

text \<open>\<open>a_cancelled\<close> is what the promise of \<open>Context.cancelled\<close> is rejected with, \<open>a_input\<close> what the function runs with.\<close>

record activity_input =
  input_args :: "jsval list"
  input_headers :: "(string, payload) jsmap"

record activity =
  a_info :: activity_info
  a_input :: activity_input
  a_cancelReason :: "string option"
  a_aborted :: bool
  a_cancelled :: "jsval option"

definition new_activity :: "activity_info \<Rightarrow> activity_input \<Rightarrow> activity" where
  "new_activity info inp = \<lparr>a_info = info, a_input = inp, a_cancelReason = None, a_aborted = False, a_cancelled = None\<rparr>"

definition cancel_activity :: "string \<Rightarrow> activity \<Rightarrow> activity" where
  "cancel_activity reason a =
     a\<lparr>a_cancelReason := Some reason, a_aborted := True,
       a_cancelled := (case a_cancelled a of None \<Rightarrow> Some (cancelled_failure reason) | Some e \<Rightarrow> Some e)\<rparr>"

text \<open>\<open>Context.heartbeat\<close> and the options of the worker that activities use.\<close>

record act_env =
  ae_lib :: "64 word libs"
  ae_dc :: data_converter
  ae_text :: text_env
  ae_taskQueue :: string
  ae_namespace :: string
  ae_activities :: "(string \<times> bool) list"

subsection \<open>The result of an activity\<close>

datatype exec_result =
    ECompleted "payload option"
  | EFailed proto_failure
  | ECancelled proto_failure
  | EWillCompleteAsync

definition is_complete_async :: "jsval \<Rightarrow> bool" where
  "is_complete_async err = (case err of JError (PlainError cls _ _ _) \<Rightarrow> cls = ''CompleteAsyncError'' | _ \<Rightarrow> False)"

definition is_abort_error :: "jsval \<Rightarrow> bool" where
  "is_abort_error err = (case err of JError (PlainError cls _ _ _) \<Rightarrow> cls = ''AbortError'' | _ \<Rightarrow> False)"

definition HEARTBEAT_DETAILS_CONVERSION_FAILED :: string where
  "HEARTBEAT_DETAILS_CONVERSION_FAILED = ''HEARTBEAT_DETAILS_CONVERSION_FAILED''"

definition retryable :: "string \<Rightarrow> string \<Rightarrow> jsval" where
  "retryable msg ty = JError (TemporalFailure (ApplicationFailure (Some ty) (Some False) (Some [])) msg [] JUndefined None)"

fun without_stack :: "proto_failure \<Rightarrow> proto_failure" where
  "without_stack (ProtoFailure m s st ea c i) = ProtoFailure m s None ea c i"

text \<open>
  \<open>Activity.run\<close>: what the chain of interceptors around the function returned or threw, and the reason of the
  last cancellation. Left is an error of the failure converter, with which the promise of \<open>run\<close> is rejected.
\<close>

definition run_result :: "act_env \<Rightarrow> string option \<Rightarrow> jsval res \<Rightarrow> exec_result res" where
  "run_result E cancelReason finished =
     (case and_then finished (encodeToPayload (ae_dc E)) of
        Inr p \<Rightarrow> Inr (ECompleted p)
      | Inl err \<Rightarrow>
          if is_complete_async err then Inr EWillCompleteAsync
          else if cancelReason = Some HEARTBEAT_DETAILS_CONVERSION_FAILED then
            and_then (encodeErrorToFailure (ae_dc E) (retryable (the cancelReason) ''CancelledFailure'')) (\<lambda>f. Inr (EFailed f))
          else if truthy_str cancelReason \<and> isCancelledFailure err then
            and_then (encodeErrorToFailure (ae_dc E) err) (\<lambda>f. Inr (ECancelled (without_stack f)))
          else if truthy_str cancelReason \<and> is_abort_error err then
            Inr (ECancelled (ProtoFailure None (Some FAILURE_SOURCE) None None None (CanceledInfo None)))
          else and_then (encodeErrorToFailure (ae_dc E) (ensureApplicationFailure (ae_text E) err)) (\<lambda>f. Inr (EFailed f)))"

definition is_failed :: "exec_result \<Rightarrow> bool" where
  "is_failed r = (case r of EFailed _ \<Rightarrow> True | _ \<Rightarrow> False)"

subsection \<open>Tasks\<close>

definition extractActivityInfo :: "act_env \<Rightarrow> token \<Rightarrow> activity_start \<Rightarrow> activity_info res" where
  "extractActivityInfo E tok start =
     and_then (decodeFromPayloadsAtIndex (ae_dc E) 0 (st_heartbeatDetails start)) (\<lambda>details.
     and_then (tsToMs (ae_lib E) (st_scheduledTime start)) (\<lambda>scheduled.
     and_then (tsToMs (ae_lib E) (st_startToCloseTimeout start)) (\<lambda>startToClose.
     and_then (tsToMs (ae_lib E) (st_scheduleToCloseTimeout start)) (\<lambda>scheduleToClose.
       Inr \<lparr>info_token = tok, info_taskQueue = ae_taskQueue E, info_activityId = st_activityId start,
            info_workflowExecution = st_workflowExecution start, info_attempt = st_attempt start, info_isLocal = st_isLocal start,
            info_activityType = st_activityType start, info_workflowType = st_workflowType start, info_heartbeatDetails = details,
            info_activityNamespace = ae_namespace E, info_workflowNamespace = st_workflowNamespace start,
            info_scheduledTimestampMs = scheduled, info_startToCloseTimeoutMs = startToClose,
            info_scheduleToCloseTimeoutMs = scheduleToClose, info_heartbeatTimeoutMs = None\<rparr>))))"

definition errorMessage :: "jsval \<Rightarrow> string option" where
  "errorMessage err = (case err of JStr s \<Rightarrow> Some s | JError (PlainError _ m _ _) \<Rightarrow> Some m
     | JError (TemporalFailure _ m _ _ _) \<Rightarrow> Some m | _ \<Rightarrow> None)"

definition not_registered :: "string \<Rightarrow> string \<Rightarrow> exec_result" where
  "not_registered activityType available =
     EFailed (ProtoFailure (Some (''Activity function '' @ activityType
         @ '' is not registered on this Worker, available activities: '' @ available)) None None None None
       (ApplicationInfo (Some ''NotFoundError'') (Some False) None))"

definition bad_args :: "string \<Rightarrow> jsval \<Rightarrow> exec_result" where
  "bad_args activityType err =
     EFailed (ProtoFailure (Some (''Failed to parse activity args for activity '' @ activityType @ '': ''
         @ (case errorMessage err of Some m \<Rightarrow> m | None \<Rightarrow> ''undefined''))) None None None None
       (ApplicationInfo (case err of JError _ \<Rightarrow> Some (constructor_name err) | _ \<Rightarrow> None) (Some False) None))"

text \<open>The output of the state mapper for a task; \<open>Inl\<close> is a throw, which fails the stream and so the worker.\<close>

datatype task_output = OResult exec_result | ORun | OIgnore

definition start_activity :: "act_env \<Rightarrow> token \<Rightarrow> activity_start \<Rightarrow> activity option \<Rightarrow> (activity option \<times> task_output) res" where
  "start_activity E tok start state =
     (if state \<noteq> None then Inl (IllegalStateError (''Got start event for an already running activity: '' @ tok))
      else and_then (extractActivityInfo E tok start) (\<lambda>info.
        if map_of (ae_activities E) (info_activityType info) \<noteq> Some True then
          and_then (jsonStringify (ae_text E) (JArr (map (JStr \<circ> fst) (ae_activities E)))) (\<lambda>available.
            Inr (None, OResult (not_registered (info_activityType info) available)))
        else (case decodeArrayFromPayloads (ae_dc E) (st_input start) of
            Inl err \<Rightarrow> Inr (None, OResult (bad_args (info_activityType info) err))
          | Inr args \<Rightarrow>
              Inr (Some (new_activity info \<lparr>input_args = args,
                     input_headers = (case st_headerFields start of Some h \<Rightarrow> h | None \<Rightarrow> [])\<rparr>), ORun))))"

definition cancel_task :: "string option \<Rightarrow> activity option \<Rightarrow> activity option \<times> task_output" where
  "cancel_task reason state =
     (case state of
        None \<Rightarrow> (None, OIgnore)
      | Some a \<Rightarrow> (Some (cancel_activity (case reason of None \<Rightarrow> ''WORKER_SHUTDOWN'' | Some r \<Rightarrow> r) a), OIgnore))"

fun map_task :: "act_env \<Rightarrow> token \<Rightarrow> act_task \<Rightarrow> activity option \<Rightarrow> (activity option \<times> task_output) res" where
  "map_task E tok TaskEmpty state = Inl (TypeError ''Got an activity task without a \"variant\" attribute'')"
| "map_task E tok (TaskStart start) state = start_activity E tok start state"
| "map_task E tok (TaskCancel reason) state = Inr (cancel_task reason state)"

subsection \<open>The worker\<close>

record act_worker =
  aw_groups :: "token \<Rightarrow> activity option option"
  aw_running :: "token list"
  aw_hb :: hb_sys
  aw_callbacks :: nat
  aw_waiting :: "(nat \<times> token \<times> exec_result) list"
  aw_completions :: "(token \<times> exec_result) list"
  numInFlightActivities :: int
  aw_failed :: bool

definition aw_init :: act_worker where
  "aw_init = \<lparr>aw_groups = (\<lambda>_. None), aw_running = [], aw_hb = hb_init, aw_callbacks = 0, aw_waiting = [], aw_completions = [],
     numInFlightActivities = 0, aw_failed = False\<rparr>"

definition on_hb :: "(hb_sys \<Rightarrow> hb_sys) \<Rightarrow> act_worker \<Rightarrow> act_worker" where
  "on_hb f s = s\<lparr>aw_hb := f (aw_hb s)\<rparr>"

definition handle_task :: "act_env \<Rightarrow> token \<Rightarrow> act_task \<Rightarrow> act_worker \<Rightarrow> act_worker" where
  "handle_task E tok task s =
     (case map_task E tok task (case aw_groups s tok of Some st \<Rightarrow> st | None \<Rightarrow> None) of
        Inl e \<Rightarrow> s\<lparr>aw_failed := True\<rparr>
      | Inr (state, out) \<Rightarrow>
          let s1 = s\<lparr>aw_groups := (aw_groups s)(tok := Some state)\<rparr> in
          (case out of
             OIgnore \<Rightarrow> s1
           | OResult r \<Rightarrow> s1\<lparr>aw_completions := aw_completions s1 @ [(tok, r)]\<rparr>
           | ORun \<Rightarrow> (on_hb (hb_next tok HCreate) s1)
               \<lparr>numInFlightActivities := numInFlightActivities s1 + 1, aw_running := aw_running s1 @ [tok]\<rparr>))"

text \<open>The promise of \<open>Activity.run\<close> is settled; the completion of a failed activity waits for its callback.\<close>

definition cancel_reason_of :: "token \<Rightarrow> act_worker \<Rightarrow> string option" where
  "cancel_reason_of tok s = (case aw_groups s tok of Some (Some a) \<Rightarrow> a_cancelReason a | _ \<Rightarrow> None)"

definition handle_finish :: "act_env \<Rightarrow> token \<Rightarrow> jsval res \<Rightarrow> act_worker \<Rightarrow> act_worker" where
  "handle_finish E tok finished s =
     (if tok \<notin> set (aw_running s) then s
      else let s1 = s\<lparr>numInFlightActivities := numInFlightActivities s - 1, aw_running := remove1 tok (aw_running s),
                      aw_groups := (aw_groups s)(tok := None)\<rparr> in
        (case run_result E (cancel_reason_of tok s) finished of
           Inl e \<Rightarrow> s1\<lparr>aw_failed := True\<rparr>
         | Inr r \<Rightarrow>
             let n = aw_callbacks s1;
                 s2 = (on_hb (hb_next tok (HCompletion (is_failed r) n)) s1)\<lparr>aw_callbacks := Suc n\<rparr> in
             if is_failed r then s2\<lparr>aw_waiting := aw_waiting s2 @ [(n, tok, r)]\<rparr>
             else s2\<lparr>aw_completions := aw_completions s2 @ [(tok, r)]\<rparr>))"

definition handle_flushed :: "nat \<Rightarrow> act_worker \<Rightarrow> act_worker" where
  "handle_flushed n s =
     (case map_of (aw_waiting s) n of
        Some (tok, r) \<Rightarrow>
          if n \<in> set (hb_called (aw_hb s)) then
            s\<lparr>aw_waiting := remove1 (n, tok, r) (aw_waiting s), aw_completions := aw_completions s @ [(tok, r)]\<rparr>
          else s
      | None \<Rightarrow> s)"

text \<open>\<open>onError\<close> of a heartbeat cancels the activity it belongs to.\<close>

definition cancel_token :: "token \<Rightarrow> act_worker \<Rightarrow> act_worker" where
  "cancel_token tok s =
     (case aw_groups s tok of
        Some (Some a) \<Rightarrow> s\<lparr>aw_groups := (aw_groups s)(tok \<mapsto> Some (cancel_activity HEARTBEAT_DETAILS_CONVERSION_FAILED a))\<rparr>
      | _ \<Rightarrow> s)"

definition handle_encoded :: "nat \<Rightarrow> send_outcome \<Rightarrow> act_worker \<Rightarrow> act_worker" where
  "handle_encoded n r s =
     (let hb' = hb_encoded n r (aw_hb s) in
      fold cancel_token (drop (length (hb_onError (aw_hb s))) (hb_onError hb')) (s\<lparr>aw_hb := hb'\<rparr>))"

text \<open>A heartbeat whose recording has thrown fails the heartbeat stream and so the worker.\<close>

definition handle_returned :: "nat \<Rightarrow> act_worker \<Rightarrow> act_worker" where
  "handle_returned n s =
     (let hb' = hb_returned n (aw_hb s) in s\<lparr>aw_hb := hb', aw_failed := aw_failed s \<or> hb_failed hb'\<rparr>)"

datatype act_event =
    ATask token act_task
  | AHeartbeat token jsval
  | AFinish token "jsval res"
  | AEncoded nat send_outcome
  | AReturned nat
  | AFlushed nat

fun act_step :: "act_env \<Rightarrow> act_worker \<Rightarrow> act_event \<Rightarrow> act_worker" where
  "act_step E s (ATask tok task) = (if aw_failed s then s else handle_task E tok task s)"
| "act_step E s (AHeartbeat tok details) = (if aw_failed s then s else on_hb (hb_next tok (HHeartbeat details)) s)"
| "act_step E s (AFinish tok finished) = (if aw_failed s then s else handle_finish E tok finished s)"
| "act_step E s (AEncoded n r) = (if aw_failed s then s else handle_encoded n r s)"
| "act_step E s (AReturned n) = (if aw_failed s then s else handle_returned n s)"
| "act_step E s (AFlushed n) = (if aw_failed s then s else handle_flushed n s)"

subsection \<open>What the steps change\<close>

lemma map_task_cases:
  assumes "map_task E tok task st = Inr (st', out)"
  obtains (ignored) reason where "task = TaskCancel reason" "out = OIgnore" "(st', OIgnore) = cancel_task reason st"
    | (answered) start r where "task = TaskStart start" "st = None" "st' = None" "out = OResult (EFailed r)"
    | (started) start a where "task = TaskStart start" "st = None" "st' = Some a" "a_cancelReason a = None" "out = ORun"
proof (cases task)
  case (TaskStart start)
  with assms show thesis
    by (auto simp: start_activity_def and_then_eq_Inr not_registered_def bad_args_def new_activity_def
        split: if_splits sum.splits intro: answered started)
next
  case (TaskCancel reason)
  with assms show thesis by (intro ignored [of reason]) (auto simp: cancel_task_def split: option.splits)
qed (use assms in simp)

lemma returned_fields [simp]:
  "aw_groups (handle_returned n s) = aw_groups s" "aw_running (handle_returned n s) = aw_running s"
  "aw_waiting (handle_returned n s) = aw_waiting s" "aw_completions (handle_returned n s) = aw_completions s"
  "numInFlightActivities (handle_returned n s) = numInFlightActivities s" "aw_callbacks (handle_returned n s) = aw_callbacks s"
  by (simp_all add: handle_returned_def Let_def)

lemma on_hb_fields [simp]:
  "aw_groups (on_hb f s) = aw_groups s" "aw_running (on_hb f s) = aw_running s" "aw_waiting (on_hb f s) = aw_waiting s"
  "aw_completions (on_hb f s) = aw_completions s" "numInFlightActivities (on_hb f s) = numInFlightActivities s"
  "aw_failed (on_hb f s) = aw_failed s" "aw_callbacks (on_hb f s) = aw_callbacks s"
  by (simp_all add: on_hb_def)

lemma cancel_token_fields [simp]:
  "aw_running (cancel_token t s) = aw_running s" "aw_waiting (cancel_token t s) = aw_waiting s"
  "aw_completions (cancel_token t s) = aw_completions s" "numInFlightActivities (cancel_token t s) = numInFlightActivities s"
  "aw_failed (cancel_token t s) = aw_failed s"
  by (simp_all add: cancel_token_def split: option.split)

lemma cancel_tokens_fields [simp]:
  "aw_running (fold cancel_token ts s) = aw_running s" "aw_waiting (fold cancel_token ts s) = aw_waiting s"
  "aw_completions (fold cancel_token ts s) = aw_completions s"
  "numInFlightActivities (fold cancel_token ts s) = numInFlightActivities s" "aw_failed (fold cancel_token ts s) = aw_failed s"
  by (induction ts arbitrary: s) simp_all

definition runs_in :: "act_worker \<Rightarrow> token \<Rightarrow> bool" where
  "runs_in s t \<longleftrightarrow> (\<exists>a. aw_groups s t = Some (Some a))"

lemma runs_in_completions [simp]: "runs_in (s\<lparr>aw_completions := c\<rparr>) = runs_in s"
  by (simp add: runs_in_def fun_eq_iff)

lemma runs_in_cancel [simp]: "runs_in (cancel_token t s) = runs_in s"
  by (auto simp: runs_in_def cancel_token_def fun_eq_iff split: option.split)

lemma runs_in_cancels [simp]: "runs_in (fold cancel_token ts s) = runs_in s"
  by (induction ts arbitrary: s) simp_all

lemma encoded_fields [simp]:
  "aw_running (handle_encoded n r s) = aw_running s" "aw_waiting (handle_encoded n r s) = aw_waiting s"
  "aw_completions (handle_encoded n r s) = aw_completions s"
  "numInFlightActivities (handle_encoded n r s) = numInFlightActivities s" "aw_failed (handle_encoded n r s) = aw_failed s"
  "runs_in (handle_encoded n r s) = runs_in s"
  by (simp_all add: handle_encoded_def Let_def, simp add: runs_in_def fun_eq_iff)

subsection \<open>The running activities\<close>

definition aw_inv :: "act_worker \<Rightarrow> bool" where
  "aw_inv s \<longleftrightarrow> distinct (aw_running s) \<and> set (aw_running s) = {t. runs_in s t} \<and> numInFlightActivities s = int (length (aw_running s))"

lemma handle_task_eq:
  assumes "map_task E tok task (case aw_groups s tok of Some st \<Rightarrow> st | None \<Rightarrow> None) = Inr (st', out)"
    and "s1 = s\<lparr>aw_groups := (aw_groups s)(tok := Some st')\<rparr>"
  shows "handle_task E tok task s = (case out of
      OIgnore \<Rightarrow> s1
    | OResult r \<Rightarrow> s1\<lparr>aw_completions := aw_completions s1 @ [(tok, r)]\<rparr>
    | ORun \<Rightarrow> (on_hb (hb_next tok HCreate) s1)
        \<lparr>numInFlightActivities := numInFlightActivities s1 + 1, aw_running := aw_running s1 @ [tok]\<rparr>)"
  using assms(1) unfolding assms(2) handle_task_def by (cases out) (simp_all add: Let_def)

lemma handle_task_inv:
  assumes "aw_inv s"
  shows "aw_inv (handle_task E tok task s)"
proof -
  let ?st = "case aw_groups s tok of Some st \<Rightarrow> st | None \<Rightarrow> None"
  have st: "?st \<noteq> None \<longleftrightarrow> runs_in s tok" by (auto simp: runs_in_def split: option.split)
  show ?thesis
  proof (cases "map_task E tok task ?st")
    case (Inl e)
    then show ?thesis using assms by (simp add: handle_task_def aw_inv_def runs_in_def)
  next
    case (Inr x)
    obtain st' out where x: "x = (st', out)" by fastforce
    note m = Inr [unfolded x]
    note h = handle_task_eq [OF m refl]
    from m show ?thesis
    proof (cases rule: map_task_cases)
      case (ignored reason)
      then have "st' \<noteq> None \<longleftrightarrow> runs_in s tok" using st by (auto simp: cancel_task_def split: option.splits)
      then have "runs_in (s\<lparr>aw_groups := (aw_groups s)(tok := Some st')\<rparr>) = runs_in s"
        by (auto simp: runs_in_def fun_eq_iff)
      then show ?thesis using assms ignored(2) unfolding h by (simp add: aw_inv_def)
    next
      case (answered start r)
      then have "runs_in (s\<lparr>aw_groups := (aw_groups s)(tok := Some st')\<rparr>) = runs_in s"
        using st by (auto simp: runs_in_def fun_eq_iff)
      then show ?thesis using assms answered(4) unfolding h by (simp add: aw_inv_def)
    next
      case (started start a)
      then have n: "\<not> runs_in s tok" using st by simp
      then have "tok \<notin> set (aw_running s)" using assms by (simp add: aw_inv_def)
      then show ?thesis using assms started(3,5) unfolding h by (auto simp: aw_inv_def runs_in_def)
    qed
  qed
qed

lemma length_remove_running: "t \<in> set ts \<Longrightarrow> int (length (remove1 t ts)) = int (length ts) - 1"
  using length_pos_if_in_set [of t ts] by (simp add: length_remove1 of_nat_diff Suc_le_eq)

lemma handle_finish_inv: "aw_inv s \<Longrightarrow> aw_inv (handle_finish E tok r s)"
  using length_remove_running [of tok "aw_running s"]
  by (auto simp: handle_finish_def Let_def aw_inv_def runs_in_def set_remove1_eq
      split: sum.splits)

lemma act_step_inv: "aw_inv s \<Longrightarrow> aw_inv (act_step E s e)"
proof (cases e)
  case (AFlushed n)
  then show "aw_inv s \<Longrightarrow> ?thesis"
    by (auto simp: handle_flushed_def aw_inv_def runs_in_def split: option.split)
qed (auto simp: handle_task_inv handle_finish_inv, auto simp: aw_inv_def runs_in_def)

interpretation av: machine "act_step E" aw_inv "\<lambda>_ _. True" for E
  by unfold_locales (rule act_step_inv)

lemma act_admissible: "av.all_admissible E s es"
  by (induction es arbitrary: s) auto

text \<open>The number of activities in flight that a worker reports is the number of activities that run, of which each
  task token has at most one; these are the tokens whose group holds an activity.\<close>

theorem activities_in_flight:
  "let s = run_steps (act_step E) aw_init es in
     numInFlightActivities s = int (length (aw_running s)) \<and> distinct (aw_running s)
     \<and> set (aw_running s) = {t. \<exists>a. aw_groups s t = Some (Some a)}"
  using av.run_inv [of aw_init E es] act_admissible [of E aw_init es]
  by (simp add: aw_inv_def runs_in_def aw_init_def Let_def)

subsection \<open>Every activity task is answered\<close>

text \<open>The tokens of the start tasks, and of the tasks answered or still under way.\<close>

fun start_tokens :: "act_event list \<Rightarrow> token list" where
  "start_tokens [] = []"
| "start_tokens (ATask tok (TaskStart _) # es) = tok # start_tokens es"
| "start_tokens (_ # es) = start_tokens es"

definition accounted :: "act_worker \<Rightarrow> token multiset" where
  "accounted s = mset (map fst (aw_completions s)) + mset (aw_running s) + mset (map (fst \<circ> snd) (aw_waiting s))"

lemma accounted_frame [simp]:
  "accounted (on_hb f s) = accounted s" "accounted (handle_encoded n r s) = accounted s"
  "accounted (handle_returned n s) = accounted s"
  "accounted (s\<lparr>aw_groups := g\<rparr>) = accounted s"
  by (simp_all add: accounted_def)

lemma accounted_task:
  assumes "\<not> aw_failed (handle_task E tok task s)"
  shows "accounted (handle_task E tok task s) = accounted s + mset (start_tokens [ATask tok task])"
proof (cases "map_task E tok task (case aw_groups s tok of Some st \<Rightarrow> st | None \<Rightarrow> None)")
  case (Inl e)
  with assms show ?thesis by (simp add: handle_task_def)
next
  case (Inr x)
  obtain st' out where x: "x = (st', out)" by fastforce
  note h = handle_task_eq [OF Inr [unfolded x] refl]
  from Inr [unfolded x] show ?thesis
    unfolding h by (cases rule: map_task_cases) (simp_all add: accounted_def)
qed

lemma accounted_finish: "\<not> aw_failed (handle_finish E tok r s) \<Longrightarrow> accounted (handle_finish E tok r s) = accounted s"
  by (auto simp: handle_finish_def Let_def accounted_def split: sum.splits)

lemma mset_map_remove1: "x \<in> set xs \<Longrightarrow> mset (map f xs) = add_mset (f x) (mset (map f (remove1 x xs)))"
  by (induction xs) auto

lemma accounted_flushed: "accounted (handle_flushed n s) = accounted s"
proof (cases "map_of (aw_waiting s) n")
  case (Some x)
  obtain tok r where x: "x = (tok, r)" by fastforce
  then have "(n, tok, r) \<in> set (aw_waiting s)" using Some by (simp add: map_of_SomeD)
  then have "mset (map (fst \<circ> snd) (aw_waiting s)) = add_mset tok (mset (map (fst \<circ> snd) (remove1 (n, tok, r) (aw_waiting s))))"
    using mset_map_remove1 [of _ _ "fst \<circ> snd"] by fastforce
  with Some x show ?thesis by (simp add: handle_flushed_def accounted_def)
qed (simp add: handle_flushed_def)

lemma accounted_step:
  "\<not> aw_failed (act_step E s e) \<Longrightarrow> accounted (act_step E s e) = accounted s + mset (start_tokens [e])"
  by (cases e) (auto simp: accounted_task accounted_finish accounted_flushed)

lemma failed_stays: "aw_failed s \<Longrightarrow> run_steps (act_step E) s es = s"
proof (induction es)
  case (Cons e es)
  then show ?case by (cases e) simp_all
qed simp

lemma start_tokens_Cons: "start_tokens (e # es) = start_tokens [e] @ start_tokens es"
proof (cases e)
  case (ATask tok task)
  then show ?thesis by (cases task) simp_all
qed simp_all

lemma accounted_run:
  "\<not> aw_failed (run_steps (act_step E) s es) \<Longrightarrow>
   accounted (run_steps (act_step E) s es) = accounted s + mset (start_tokens es)"
proof (induction es arbitrary: s)
  case (Cons e es)
  have "\<not> aw_failed (act_step E s e)" using Cons.prems failed_stays by fastforce
  with Cons show ?case by (simp add: accounted_step start_tokens_Cons [of e es])
qed simp

text \<open>C15. Every start task has its place: as long as the worker has not failed, the tokens of the start tasks it was
  given are, each as often, those it has sent a completion for, those that run, and those whose failure waits for the
  last heartbeat to be flushed. So no task gets two completions, and none is lost.\<close>

theorem activity_tasks_conserved:
  assumes "s = run_steps (act_step E) aw_init es" and "\<not> aw_failed s"
  shows "mset (map fst (aw_completions s)) + mset (aw_running s) + mset (map (fst \<circ> snd) (aw_waiting s))
    = mset (start_tokens es)"
  using accounted_run [of E aw_init es] assms by (simp add: accounted_def aw_init_def)

subsection \<open>Cancellation\<close>

definition cancel_asked :: "act_event list \<Rightarrow> token \<Rightarrow> bool" where
  "cancel_asked es t \<longleftrightarrow> (\<exists>reason. ATask t (TaskCancel reason) \<in> set es)"

definition reasons_ok :: "act_event list \<Rightarrow> act_worker \<Rightarrow> bool" where
  "reasons_ok es s \<longleftrightarrow> (\<forall>t a r. aw_groups s t = Some (Some a) \<and> a_cancelReason a = Some r
     \<longrightarrow> r = HEARTBEAT_DETAILS_CONVERSION_FAILED \<or> cancel_asked es t)"

definition results_ok :: "act_event list \<Rightarrow> act_worker \<Rightarrow> bool" where
  "results_ok es s \<longleftrightarrow> (\<forall>t f. (t, ECancelled f) \<in> set (aw_completions s) \<longrightarrow> cancel_asked es t)
     \<and> (\<forall>w \<in> set (aw_waiting s). is_failed (snd (snd w)))"

lemma asked_snoc: "cancel_asked es t \<Longrightarrow> cancel_asked (es @ [e]) t"
  by (auto simp: cancel_asked_def)

lemma reasons_snoc: "reasons_ok es s \<Longrightarrow> reasons_ok (es @ [e]) s"
  by (auto simp: reasons_ok_def dest: asked_snoc)

lemma results_snoc: "results_ok es s \<Longrightarrow> results_ok (es @ [e]) s"
  by (auto simp: results_ok_def dest: asked_snoc)

lemma ok_frames [simp]:
  "reasons_ok es (s\<lparr>aw_failed := b\<rparr>) = reasons_ok es s" "reasons_ok es (s\<lparr>aw_hb := hb\<rparr>) = reasons_ok es s"
  "reasons_ok es (handle_returned n s) = reasons_ok es s" "results_ok es (handle_returned n s) = results_ok es s"
  "reasons_ok es (on_hb g s) = reasons_ok es s" "results_ok es (on_hb g s) = results_ok es s"
  "results_ok es (s\<lparr>aw_failed := b\<rparr>) = results_ok es s" "results_ok es (handle_encoded n r s) = results_ok es s"
  by (simp_all add: reasons_ok_def results_ok_def)

lemma cancelled_resultD:
  "run_result E cancelReason finished = Inr (ECancelled f) \<Longrightarrow>
     \<exists>r. cancelReason = Some r \<and> r \<noteq> HEARTBEAT_DETAILS_CONVERSION_FAILED"
  by (auto simp: run_result_def truthy_str_def and_then_eq_Inr split: sum.splits if_splits option.splits)

lemma reasons_cancel_token: "reasons_ok es s \<Longrightarrow> reasons_ok es (cancel_token t s)"
  by (auto simp: reasons_ok_def cancel_token_def cancel_activity_def split: option.splits)

lemma reasons_cancel_tokens: "reasons_ok es s \<Longrightarrow> reasons_ok es (fold cancel_token ts s)"
  by (induction ts arbitrary: s) (simp_all add: reasons_cancel_token)

lemma reasons_task: "reasons_ok es s \<Longrightarrow> reasons_ok (es @ [ATask tok task]) (handle_task E tok task s)"
proof (cases "map_task E tok task (case aw_groups s tok of Some st \<Rightarrow> st | None \<Rightarrow> None)")
  case (Inl e)
  then show "reasons_ok es s \<Longrightarrow> ?thesis" by (simp add: handle_task_def reasons_snoc)
next
  case (Inr x)
  assume i: "reasons_ok es s"
  obtain st' out where x: "x = (st', out)" by fastforce
  note h = handle_task_eq [OF Inr [unfolded x] refl]
  have g: "aw_groups (handle_task E tok task s) = (aw_groups s)(tok := Some st')"
    unfolding h by (simp split: task_output.split)
  have new: "st' = Some a \<Longrightarrow> a_cancelReason a = Some r \<Longrightarrow> cancel_asked (es @ [ATask tok task]) tok" for a r
    using Inr [unfolded x] by (cases rule: map_task_cases) (auto simp: cancel_asked_def)
  show ?thesis using i new unfolding reasons_ok_def g by (auto dest: asked_snoc)
qed

lemma results_task: "results_ok es s \<Longrightarrow> results_ok (es @ [ATask tok task]) (handle_task E tok task s)"
proof (cases "map_task E tok task (case aw_groups s tok of Some st \<Rightarrow> st | None \<Rightarrow> None)")
  case (Inl e)
  then show "results_ok es s \<Longrightarrow> ?thesis" by (simp add: handle_task_def results_snoc)
next
  case (Inr x)
  assume i: "results_ok es s"
  obtain st' out where x: "x = (st', out)" by fastforce
  note h = handle_task_eq [OF Inr [unfolded x] refl]
  from Inr [unfolded x] show ?thesis using results_snoc [OF i, of "ATask tok task"]
    unfolding h by (cases rule: map_task_cases) (simp_all add: results_ok_def)
qed

lemma finish_ok:
  assumes "reasons_ok es s" "results_ok es s"
  shows "reasons_ok es (handle_finish E tok r s) \<and> results_ok es (handle_finish E tok r s)"
proof -
  have "run_result E (cancel_reason_of tok s) r = Inr (ECancelled f) \<Longrightarrow> cancel_asked es tok" for f
    using cancelled_resultD [of E "cancel_reason_of tok s" r f] assms(1)
    by (auto simp: reasons_ok_def cancel_reason_of_def split: option.splits)
  then show ?thesis
    using assms by (auto simp: handle_finish_def Let_def reasons_ok_def results_ok_def split: sum.split)
qed

lemma flushed_ok:
  assumes "results_ok es s"
  shows "results_ok es (handle_flushed n s)"
proof (cases "map_of (aw_waiting s) n")
  case (Some x)
  then have "is_failed (snd x)" using assms by (auto simp: results_ok_def dest!: map_of_SomeD)
  with Some assms show ?thesis
    by (cases x) (auto simp: handle_flushed_def results_ok_def is_failed_def dest: notin_set_remove1)
qed (simp add: handle_flushed_def assms)

lemma cancel_step_ok:
  assumes "reasons_ok es s" "results_ok es s"
  shows "reasons_ok (es @ [e]) (act_step E s e) \<and> results_ok (es @ [e]) (act_step E s e)"
proof (cases "aw_failed s")
  case True
  then show ?thesis using assms reasons_snoc results_snoc by (cases e) auto
next
  case False
  have g: "aw_groups (handle_flushed n s) = aw_groups s" for n by (simp add: handle_flushed_def split: option.split)
  have "reasons_ok es (handle_encoded n r s)" for n r
    unfolding handle_encoded_def Let_def using assms(1) by (intro reasons_cancel_tokens) simp
  moreover have "reasons_ok es (handle_flushed n s)" for n using assms(1) by (simp add: reasons_ok_def g)
  ultimately show ?thesis
    using False assms finish_ok [OF assms] flushed_ok [OF assms(2)]
    by (cases e) (simp_all add: reasons_snoc results_snoc reasons_task results_task)
qed

lemma cancel_run_ok:
  "reasons_ok es (run_steps (act_step E) aw_init es) \<and> results_ok es (run_steps (act_step E) aw_init es)"
proof (induction es rule: rev_induct)
  case Nil
  then show ?case by (simp add: reasons_ok_def results_ok_def aw_init_def)
next
  case (snoc e es)
  then show ?case by (simp add: run_steps_append cancel_step_ok)
qed

text \<open>C16. A worker reports an activity as cancelled only if it was sent a cancellation for it, whatever the activity
  throws: a \<open>CancelledFailure\<close> the activity makes up, or the one a heartbeat that cannot be encoded raises, is a failure.\<close>

theorem cancelled_only_on_request:
  assumes "s = run_steps (act_step E) aw_init es" and "(t, ECancelled f) \<in> set (aw_completions s)"
  shows "\<exists>reason. ATask t (TaskCancel reason) \<in> set es"
  using cancel_run_ok [of es E] assms by (auto simp: results_ok_def cancel_asked_def)

definition sample_act_env :: act_env where
  "sample_act_env = \<lparr>ae_lib = long64,
     ae_dc = \<lparr>dc_payloadConverter = sample_converter, dc_codecs = [],
              dc_errorToFailure = (\<lambda>_. Inr (ProtoFailure (Some ''e'') None None None None NoInfo)),
              dc_failureToError = (\<lambda>_. Inl JNull)\<rparr>,
     ae_text = \<lparr>stringOf = (\<lambda>_. []), jsonStringify = (\<lambda>_. Inr [])\<rparr>, ae_taskQueue = ''q'', ae_namespace = ''ns'',
     ae_activities = [(''act'', True)]\<rparr>"

definition sample_task :: "string \<Rightarrow> act_task" where
  "sample_task ty = TaskStart \<lparr>st_activityId = ''1'', st_workflowExecution = (''w'', ''r''), st_attempt = 1, st_isLocal = False,
     st_activityType = ty, st_workflowType = ''wf'', st_workflowNamespace = ''ns'', st_heartbeatDetails = None,
     st_scheduledTime = Some \<lparr>seconds = Some 1, nanos = None\<rparr>, st_startToCloseTimeout = Some \<lparr>seconds = Some 1, nanos = None\<rparr>,
     st_scheduleToCloseTimeout = Some \<lparr>seconds = Some 1, nanos = None\<rparr>, st_input = None, st_headerFields = None\<rparr>"

definition sample_acts :: "act_event list" where
  "sample_acts = [ATask ''a'' (sample_task ''act''), ATask ''b'' (sample_task ''none''), ATask ''c'' (sample_task ''act''),
     ATask ''a'' (TaskCancel (Some ''CANCELLED'')), AFinish ''a'' (Inl (cancelled_failure ''CANCELLED'')),
     AFinish ''c'' (Inl (cancelled_failure ''mine''))]"

lemma sample_acts_run:
  "\<not> aw_failed (run_steps (act_step sample_act_env) aw_init sample_acts)"
  "length (aw_completions (run_steps (act_step sample_act_env) aw_init sample_acts)) = 2"
  "case aw_completions (run_steps (act_step sample_act_env) aw_init sample_acts) of
     [(_, EFailed _), (t, ECancelled f)] \<Rightarrow> t = ''a'' | _ \<Rightarrow> False"
  "aw_running (run_steps (act_step sample_act_env) aw_init sample_acts) = []"
  by code_simp+

theorem activity_tasks_conserved_witness:
  "size (mset (map (fst \<circ> snd) (aw_waiting (run_steps (act_step sample_act_env) aw_init sample_acts)))) = 1"
proof -
  have "start_tokens sample_acts = [''a'', ''b'', ''c'']" by (simp add: sample_acts_def sample_task_def)
  with activity_tasks_conserved [OF refl sample_acts_run(1)] sample_acts_run(2,4)
  have "size (mset (map fst (aw_completions (run_steps (act_step sample_act_env) aw_init sample_acts)))
      + mset (map (fst \<circ> snd) (aw_waiting (run_steps (act_step sample_act_env) aw_init sample_acts)))) = 3"
    by simp
  with sample_acts_run(2) show ?thesis by simp
qed

theorem cancelled_only_on_request_witness: "\<exists>reason. ATask ''a'' (TaskCancel reason) \<in> set sample_acts"
proof -
  obtain f where "(''a'', ECancelled f) \<in> set (aw_completions (run_steps (act_step sample_act_env) aw_init sample_acts))"
    using sample_acts_run(3) by (auto split: list.splits prod.splits exec_result.splits)
  then show ?thesis by (rule cancelled_only_on_request [OF refl])
qed

end
