(* ===== verification/Worker_Workflows.thy ===== *)
theory Worker_Workflows
  imports Codecs
begin

text \<open>
  How a worker runs workflows: \<open>Worker.workflowOperator\<close> and \<open>processSinkCalls\<close> of
  packages/worker/src/worker.ts. The activations of one run form a group that keeps the workflow
  instance; they are handled one after the other. The instances (a VM context in a thread) and user code
  are functions of an environment; \<open>'w\<close> is an instance.
\<close>

subsection \<open>Activations from core\<close>

record evict_job =
  ev_reason :: "string option"
  ev_message :: "string option"

record proto_parent =
  pp_workflowId :: "string option"
  pp_runId :: "string option"
  pp_namespace :: "string option"

record start_workflow =
  sw_workflowId :: "string option"
  sw_workflowType :: "string option"
  sw_randomnessSeed :: "bytes option"
  sw_firstExecutionRunId :: "string option"
  sw_attempt :: "nat option"
  sw_startTime :: "tstamp option"
  sw_arguments :: "payload list option"
  sw_payloads :: "(string, payload) jsmap option start_payloads"
  sw_parentWorkflowInfo :: "proto_parent option"
  sw_workflowExecutionTimeout :: "tstamp option"
  sw_workflowRunTimeout :: "tstamp option"
  sw_workflowTaskTimeout :: "tstamp option"
  sw_continuedFromExecutionRunId :: "string option"
  sw_retryPolicy :: "64 word proto_retry_policy option"
  sw_cronSchedule :: "string option"
  sw_workflowExecutionExpirationTime :: "tstamp option"
  sw_cronScheduleToScheduleInterval :: "tstamp option"
  sw_searchAttributes :: "(string, payload) jsmap option"

datatype wjob = WStart start_workflow | WRemoveFromCache evict_job | WJob job

record wactivation =
  wa_runId :: string
  wa_timestamp :: "tstamp option"
  wa_isReplaying :: bool
  wa_historyLength :: nat
  wa_jobs :: "wjob list"

subsection \<open>Workflow information\<close>

record ParentWorkflowInfo =
  parent_workflowId :: string
  parent_runId :: string
  parent_namespace :: string

record WorkflowInfo =
  wi_workflowId :: string
  wi_runId :: string
  wi_workflowType :: string
  wi_searchAttributes :: "(string, jsval) jsmap"
  wi_memo :: "(string, jsval) jsmap option"
  wi_parent :: "ParentWorkflowInfo option"
  wi_lastResult :: jsval
  wi_lastFailure :: "jserror option"
  wi_historyLength :: nat
  wi_taskQueue :: string
  wi_namespace :: string
  wi_firstExecutionRunId :: string
  wi_continuedFromExecutionRunId :: "string option"
  wi_startTime :: jsnum
  wi_runStartTime :: jsnum
  wi_executionTimeoutMs :: "jsnum option"
  wi_executionExpirationTime :: "jsnum option"
  wi_runTimeoutMs :: "jsnum option"
  wi_taskTimeoutMs :: jsnum
  wi_retryPolicy :: "retry_policy option"
  wi_attempt :: nat
  wi_cronSchedule :: "string option"
  wi_cronScheduleToScheduleInterval :: "jsnum option"
  wi_isReplaying :: bool

definition convertToParentWorkflowType :: "proto_parent option \<Rightarrow> ParentWorkflowInfo option res" where
  "convertToParentWorkflowType p =
     (case p of
        None \<Rightarrow> Inr None
      | Some p \<Rightarrow>
          if \<not> truthy_str (pp_workflowId p) \<or> \<not> truthy_str (pp_runId p) \<or> \<not> truthy_str (pp_namespace p)
          then Inl (IllegalStateError ''Parent INamespacedWorkflowExecution is missing a field that should be defined'')
          else Inr (Some \<lparr>parent_workflowId = the (pp_workflowId p), parent_runId = the (pp_runId p),
                          parent_namespace = the (pp_namespace p)\<rparr>))"

definition non_empty :: "string option \<Rightarrow> string option" where
  "non_empty s = (if truthy_str s then s else None)"

definition non_zero :: "jsnum option \<Rightarrow> jsnum option" where
  "non_zero n = (case n of Some x \<Rightarrow> if js_num_truthy x then Some x else None | None \<Rightarrow> None)"

text \<open>What a worker is given: its options, the runtime of workflow instances and the injected sinks.\<close>

datatype worker_error = WError jsval | WUnexpected jsval

datatype activation_completion = ACSuccessful "command list" | ACFailed proto_failure

type_synonym ext_call = "string \<times> string \<times> jsval list"

record sink_fn =
  callDuringReplay :: bool
  sink_throws :: "WorkflowInfo \<Rightarrow> jsval list \<Rightarrow> bool"

record 'w worker_env =
  we_lib :: "64 word libs"
  we_dc :: data_converter
  we_sconv :: converter
  we_taskQueue :: string
  we_namespace :: string
  we_create :: "WorkflowInfo \<Rightarrow> bytes \<Rightarrow> jsnum \<Rightarrow> string list \<Rightarrow> worker_error + 'w"
  we_activate :: "wactivation \<Rightarrow> wjob list \<Rightarrow> 'w \<Rightarrow> (worker_error + activation_completion) \<times> 'w"
  we_sinkCalls :: "'w \<Rightarrow> (worker_error + ext_call list) \<times> 'w"
  we_dispose :: "'w \<Rightarrow> worker_error option"
  we_sinks :: "string \<Rightarrow> string \<Rightarrow> sink_fn option"

definition workflow_info :: "'w worker_env \<Rightarrow> wactivation \<Rightarrow> start_workflow \<Rightarrow> WorkflowInfo res" where
  "workflow_info E act sw =
     and_then (mapFromPayloads (we_sconv E) (sw_searchAttributes sw)) (\<lambda>sa.
     and_then (decodeMapFromPayloads (we_dc E) (sp_memo (sw_payloads sw))) (\<lambda>memo.
     and_then (convertToParentWorkflowType (sw_parentWorkflowInfo sw)) (\<lambda>parent.
     and_then (decodeFromPayloadsAtIndex (we_dc E) 0 (sp_lastCompletionResult (sw_payloads sw))) (\<lambda>lastResult.
     and_then (decodeOptionalFailureToOptionalError (we_dc E) (sp_continuedFailure (sw_payloads sw))) (\<lambda>lastFailure.
     and_then (tsToDate (we_lib E) (sw_startTime sw)) (\<lambda>startTime.
     and_then (tsToDate (we_lib E) (wa_timestamp act)) (\<lambda>runStartTime.
     and_then (optionalTsToMs (we_lib E) (sw_workflowExecutionTimeout sw)) (\<lambda>executionTimeout.
     and_then (optionalTsToDate (we_lib E) (sw_workflowExecutionExpirationTime sw)) (\<lambda>expiration.
     and_then (optionalTsToMs (we_lib E) (sw_workflowRunTimeout sw)) (\<lambda>runTimeout.
     and_then (tsToMs (we_lib E) (sw_workflowTaskTimeout sw)) (\<lambda>taskTimeout.
     and_then (decompileRetryPolicy (we_lib E) (sw_retryPolicy sw)) (\<lambda>retry.
     and_then (optionalTsToMs (we_lib E) (sw_cronScheduleToScheduleInterval sw)) (\<lambda>cronInterval.
       Inr \<lparr>wi_workflowId = the (sw_workflowId sw), wi_runId = wa_runId act, wi_workflowType = the (sw_workflowType sw),
            wi_searchAttributes = (case sa of Some m \<Rightarrow> m | None \<Rightarrow> []), wi_memo = memo, wi_parent = parent,
            wi_lastResult = lastResult, wi_lastFailure = lastFailure, wi_historyLength = wa_historyLength act,
            wi_taskQueue = we_taskQueue E, wi_namespace = we_namespace E,
            wi_firstExecutionRunId = the (sw_firstExecutionRunId sw),
            wi_continuedFromExecutionRunId = non_empty (sw_continuedFromExecutionRunId sw),
            wi_startTime = startTime, wi_runStartTime = runStartTime, wi_executionTimeoutMs = executionTimeout,
            wi_executionExpirationTime = expiration, wi_runTimeoutMs = runTimeout, wi_taskTimeoutMs = taskTimeout,
            wi_retryPolicy = retry, wi_attempt = the (sw_attempt sw), wi_cronSchedule = non_empty (sw_cronSchedule sw),
            wi_cronScheduleToScheduleInterval = non_zero cronInterval, wi_isReplaying = wa_isReplaying act\<rparr>)))))))))))))"

subsection \<open>Sinks\<close>

datatype sink_effect = SinkCalled string string "jsval list" | SinkFailed string string | SinkMissing string string

definition sink_effects :: "'w worker_env \<Rightarrow> WorkflowInfo \<Rightarrow> bool \<Rightarrow> ext_call \<Rightarrow> sink_effect list" where
  "sink_effects E info replaying c =
     (case c of (iface, fn, args) \<Rightarrow>
        (case we_sinks E iface fn of
           None \<Rightarrow> [SinkMissing iface fn]
         | Some dep \<Rightarrow>
             if callDuringReplay dep \<or> \<not> replaying then
               SinkCalled iface fn args # (if sink_throws dep info args then [SinkFailed iface fn] else [])
             else []))"

definition processSinkCalls :: "'w worker_env \<Rightarrow> ext_call list \<Rightarrow> WorkflowInfo \<Rightarrow> bool \<Rightarrow> sink_effect list" where
  "processSinkCalls E externalCalls info replaying = concat (map (sink_effects E info replaying) externalCalls)"

subsection \<open>The state of the worker\<close>

record 'w wf =
  wf_workflow :: 'w
  wf_info :: WorkflowInfo

datatype wcompletion = WSuccessful string "command list" | WFailed string proto_failure

fun completion_run :: "wcompletion \<Rightarrow> string" where
  "completion_run (WSuccessful r _) = r"
| "completion_run (WFailed r _) = r"

record 'w worker =
  wk_groups :: "string \<Rightarrow> 'w wf option option"
  wk_live :: "string list"
  numInFlightActivations :: int
  numCachedWorkflows :: int
  wk_evictions :: "(string \<times> evict_job) list"
  wk_sinks :: "sink_effect list"
  wk_completions :: "wcompletion list"
  wk_failed :: bool

definition init_worker :: "'w worker" where
  "init_worker = \<lparr>wk_groups = (\<lambda>_. None), wk_live = [], numInFlightActivations = 0, numCachedWorkflows = 0,
     wk_evictions = [], wk_sinks = [], wk_completions = [], wk_failed = False\<rparr>"

type_synonym ('w, 'a) handled = "(worker_error + 'a) \<times> 'w worker"

definition well_formed_start :: "start_workflow \<Rightarrow> bool" where
  "well_formed_start sw \<longleftrightarrow> sw_workflowId sw \<noteq> None \<and> sw_workflowType sw \<noteq> None \<and> sw_randomnessSeed sw \<noteq> None
     \<and> sw_firstExecutionRunId sw \<noteq> None \<and> sw_attempt sw \<noteq> None \<and> sw_startTime sw \<noteq> None"

fun find_start :: "wjob list \<Rightarrow> start_workflow option" where
  "find_start [] = None"
| "find_start (WStart sw # js) = Some sw"
| "find_start (_ # js) = find_start js"

text \<open>\<open>activation.jobs.splice(removeFromCacheIx, 1)\<close>: the first eviction job and the others.\<close>

fun split_eviction :: "wjob list \<Rightarrow> evict_job option \<times> wjob list" where
  "split_eviction [] = (None, [])"
| "split_eviction (WRemoveFromCache e # js) = (Some e, js)"
| "split_eviction (j # js) = (case split_eviction js of (e, rest) \<Rightarrow> (e, j # rest))"

fun patch_ids :: "wjob list \<Rightarrow> string list res" where
  "patch_ids [] = Inr []"
| "patch_ids (WJob (JNotifyHasPatch p) # js) =
     (if truthy_str p then and_then (patch_ids js) (\<lambda>ps. Inr (the p # ps))
      else Inl (TypeError ''Got a patch without a patchId''))"
| "patch_ids (_ # js) = patch_ids js"

text \<open>The workflow instance of a start job; \<open>show_jobs\<close> is \<open>JSON.stringify\<close> of the malformed job.\<close>

definition create_workflow ::
  "'w worker_env \<Rightarrow> (start_workflow \<Rightarrow> string) \<Rightarrow> wactivation \<Rightarrow> wjob list \<Rightarrow> 'w worker \<Rightarrow> ('w, 'w wf) handled" where
  "create_workflow E show_job act jobs s =
     (case find_start jobs of
        None \<Rightarrow> (Inl (WError (IllegalStateError ''Received workflow activation for an untracked workflow with no start workflow job'')), s)
      | Some sw \<Rightarrow>
          if \<not> well_formed_start sw then (Inl (WError (TypeError (''Malformed StartWorkflow activation: '' @ show_job sw))), s)
          else if wa_timestamp act = None then
            (Inl (WError (TypeError ''Got activation with no timestamp, cannot create a new Workflow instance'')), s)
          else (case and_then (workflow_info E act sw) (\<lambda>info.
                     and_then (patch_ids jobs) (\<lambda>patches.
                     and_then (tsToMs (we_lib E) (wa_timestamp act)) (\<lambda>t. Inr (info, patches, t)))) of
             Inl e \<Rightarrow> (Inl (WError e), s)
           | Inr (info, patches, t) \<Rightarrow>
               (case we_create E info (the (sw_randomnessSeed sw)) t patches of
                  Inl e \<Rightarrow> (Inl e, s)
                | Inr w \<Rightarrow> (Inr \<lparr>wf_workflow = w, wf_info = info\<rparr>,
                    s\<lparr>numCachedWorkflows := numCachedWorkflows s + 1, wk_live := wk_live s @ [wa_runId act]\<rparr>))))"

text \<open>
  Payloads in the jobs are decoded, commands and failures in the completion encoded. The other decoded
  payloads of a start job matter only if they fail to decode: the context reads none of them.
\<close>

fun decode_wjob :: "codec list \<Rightarrow> wjob \<Rightarrow> wjob res" where
  "decode_wjob cs (WStart sw) =
     and_then (decodeOptional cs (sw_arguments sw)) (\<lambda>args.
     and_then (decode_start_payloads cs (sw_payloads sw)) (\<lambda>_. Inr (WStart (sw\<lparr>sw_arguments := args\<rparr>))))"
| "decode_wjob cs (WJob j) = and_then (decode_job cs j) (\<lambda>j'. Inr (WJob j'))"
| "decode_wjob cs j = Inr j"

definition encode_activation_completion :: "codec list \<Rightarrow> string \<Rightarrow> activation_completion \<Rightarrow> wcompletion res" where
  "encode_activation_completion cs runId c =
     (case c of
        ACSuccessful cmds \<Rightarrow> and_then (encodeCompletion cs cmds) (\<lambda>ds. Inr (WSuccessful runId ds))
      | ACFailed f \<Rightarrow> and_then (encodeFailure cs f) (\<lambda>g. Inr (WFailed runId g)))"

text \<open>The \<open>finally\<close> block: unless the error is fatal, the sink calls of the workflow are processed.\<close>

definition collect_sinks :: "'w worker_env \<Rightarrow> bool \<Rightarrow> worker_error + wcompletion \<Rightarrow> 'w wf \<Rightarrow> 'w worker \<Rightarrow>
    (worker_error + wcompletion) \<times> 'w wf \<times> 'w worker" where
  "collect_sinks E replaying r w s =
     (case r of
        Inl (WUnexpected e) \<Rightarrow> (r, w, s)
      | _ \<Rightarrow>
          (case we_sinkCalls E (wf_workflow w) of
             (Inl e, w') \<Rightarrow> (Inl e, w\<lparr>wf_workflow := w'\<rparr>, s)
           | (Inr externalCalls, w') \<Rightarrow>
               (r, w\<lparr>wf_workflow := w'\<rparr>, s\<lparr>wk_sinks := wk_sinks s @ processSinkCalls E externalCalls (wf_info w) replaying\<rparr>)))"

definition lift_error :: "'a res \<Rightarrow> worker_error + 'a" where
  "lift_error r = (case r of Inl e \<Rightarrow> Inl (WError e) | Inr x \<Rightarrow> Inr x)"

definition run_activation :: "'w worker_env \<Rightarrow> wactivation \<Rightarrow> wjob list \<Rightarrow> 'w wf \<Rightarrow> 'w worker \<Rightarrow>
    (worker_error + wcompletion) \<times> 'w wf \<times> 'w worker" where
  "run_activation E act jobs w s =
     (case map_res (decode_wjob (dc_codecs (we_dc E))) jobs of
        Inl e \<Rightarrow> collect_sinks E (wa_isReplaying act) (Inl (WError e)) w s
      | Inr decoded \<Rightarrow>
          (case we_activate E act decoded (wf_workflow w) of
             (Inl e, w') \<Rightarrow> collect_sinks E (wa_isReplaying act) (Inl e) (w\<lparr>wf_workflow := w'\<rparr>) s
           | (Inr c, w') \<Rightarrow>
               collect_sinks E (wa_isReplaying act)
                 (lift_error (encode_activation_completion (dc_codecs (we_dc E)) (wa_runId act) c)) (w\<lparr>wf_workflow := w'\<rparr>) s))"

subsection \<open>Handling an activation\<close>

text \<open>The output: the new state of the group, whether it closes, and the completion unless it is synthetic.\<close>

type_synonym 'w activation_output = "'w wf option \<times> bool \<times> wcompletion option"

definition process_activation ::
  "'w worker_env \<Rightarrow> (start_workflow \<Rightarrow> string) \<Rightarrow> bool \<Rightarrow> wactivation \<Rightarrow> 'w wf option \<Rightarrow> 'w worker \<Rightarrow> ('w, 'w activation_output) handled" where
  "process_activation E show_job synthetic act state s =
     (case split_eviction (wa_jobs act) of (evict, jobs) \<Rightarrow>
        let close = (evict \<noteq> None);
            s1 = (case evict of Some e \<Rightarrow> s\<lparr>wk_evictions := wk_evictions s @ [(wa_runId act, e)]\<rparr> | None \<Rightarrow> s) in
        if jobs = [] then
          (case (case state of Some w \<Rightarrow> we_dispose E (wf_workflow w) | None \<Rightarrow> None) of
             Some e \<Rightarrow> (Inl e, s1)
           | None \<Rightarrow>
               let s2 = (if state = None then s1 else s1\<lparr>wk_live := remove1 (wa_runId act) (wk_live s1)\<rparr>) in
               if \<not> close then (Inl (WError (IllegalStateError ''Got a Workflow activation with no jobs'')), s2)
               else (Inr (None, close, if synthetic then None else Some (WSuccessful (wa_runId act) [])), s2))
        else
          (case (case state of Some w \<Rightarrow> (Inr w, s1) | None \<Rightarrow> create_workflow E show_job act jobs s1) of
             (Inl e, s2) \<Rightarrow> (Inl e, s2)
           | (Inr w, s2) \<Rightarrow>
               (case run_activation E act jobs w s2 of
                  (Inl e, w', s3) \<Rightarrow> (Inl e, s3)
                | (Inr c, w', s3) \<Rightarrow> (Inr (Some w', close, Some c), s3))))"

text \<open>The \<open>catch\<close> clause: a fatal error fails the worker, any other one is the run's completion.\<close>

definition recover :: "'w worker_env \<Rightarrow> wactivation \<Rightarrow> ('w, 'w activation_output) handled \<Rightarrow> ('w, 'w activation_output) handled" where
  "recover E act r =
     (case r of
        (Inl (WError e), s) \<Rightarrow>
          (case encodeErrorToFailure (we_dc E) e of
             Inl e' \<Rightarrow> (Inl (WError e'), s)
           | Inr f \<Rightarrow> (Inr (None, True, Some (WFailed (wa_runId act) f)), s))
      | _ \<Rightarrow> r)"

definition set_group :: "string \<Rightarrow> 'w wf option option \<Rightarrow> 'w worker \<Rightarrow> 'w worker" where
  "set_group r g s = s\<lparr>wk_groups := (wk_groups s)(r := g)\<rparr>"

definition handle_activation ::
  "'w worker_env \<Rightarrow> (start_workflow \<Rightarrow> string) \<Rightarrow> bool \<Rightarrow> wactivation \<Rightarrow> 'w worker \<Rightarrow> 'w worker" where
  "handle_activation E show_job synthetic act s =
     (let state = (case wk_groups s (wa_runId act) of None \<Rightarrow> None | Some st \<Rightarrow> st);
          s1 = s\<lparr>numInFlightActivations := numInFlightActivations s + 1\<rparr> in
      case recover E act (process_activation E show_job synthetic act state s1) of
        (Inl e, s2) \<Rightarrow> s2\<lparr>wk_failed := True\<rparr>
      | (Inr (state', close, c), s2) \<Rightarrow>
          let s3 = s2\<lparr>numInFlightActivations := numInFlightActivations s2 - 1,
                     wk_completions := wk_completions s2 @ (case c of Some c \<Rightarrow> [c] | None \<Rightarrow> [])\<rparr> in
          if close then (set_group (wa_runId act) None s3)\<lparr>numCachedWorkflows := numCachedWorkflows s3 - 1\<rparr>
          else set_group (wa_runId act) (Some state') s3)"

text \<open>
  The events: an activation from core, or, once the poller has stopped, the eviction a group makes up for
  itself. A worker whose stream has failed handles nothing more.
\<close>

datatype worker_event = WActivation wactivation | WShutdownEviction string

definition shutdown_eviction :: "string \<Rightarrow> wactivation" where
  "shutdown_eviction r = \<lparr>wa_runId = r, wa_timestamp = None, wa_isReplaying = False, wa_historyLength = 0,
     wa_jobs = [WRemoveFromCache \<lparr>ev_reason = Some ''FATAL'', ev_message = Some ''Shutting down''\<rparr>]\<rparr>"

fun worker_step :: "'w worker_env \<Rightarrow> (start_workflow \<Rightarrow> string) \<Rightarrow> 'w worker \<Rightarrow> worker_event \<Rightarrow> 'w worker" where
  "worker_step E show_job s (WActivation act) = (if wk_failed s then s else handle_activation E show_job False act s)"
| "worker_step E show_job s (WShutdownEviction r) =
     (if wk_failed s \<or> wk_groups s r = None then s else handle_activation E show_job True (shutdown_eviction r) s)"

subsection \<open>Every activation is answered\<close>

lemma collect_sinks_run:
  "collect_sinks E b r w s = (Inr c, w', s') \<Longrightarrow> r = Inr c"
  by (auto simp: collect_sinks_def split: sum.splits worker_error.splits prod.splits)

lemma encode_activation_run: "encode_activation_completion cs r c = Inr d \<Longrightarrow> completion_run d = r"
  by (auto simp: encode_activation_completion_def and_then_eq_Inr split: activation_completion.splits)

lemma run_activation_run: "run_activation E act jobs w s = (Inr c, w', s') \<Longrightarrow> completion_run c = wa_runId act"
  by (auto simp: run_activation_def lift_error_def split: sum.splits prod.splits dest!: collect_sinks_run dest: encode_activation_run)

lemma collect_sinks_frame:
  "collect_sinks E b r w s = (x, w', s') \<Longrightarrow> wk_completions s' = wk_completions s \<and> wk_groups s' = wk_groups s
     \<and> numCachedWorkflows s' = numCachedWorkflows s \<and> wk_live s' = wk_live s \<and> numInFlightActivations s' = numInFlightActivations s
     \<and> wf_info w' = wf_info w"
  by (auto simp: collect_sinks_def split: sum.splits worker_error.splits prod.splits)

lemma run_activation_frame:
  "run_activation E act jobs w s = (x, w', s') \<Longrightarrow> wk_completions s' = wk_completions s \<and> wk_groups s' = wk_groups s
     \<and> numCachedWorkflows s' = numCachedWorkflows s \<and> wk_live s' = wk_live s \<and> numInFlightActivations s' = numInFlightActivations s"
  by (auto simp: run_activation_def split: sum.splits prod.splits dest!: collect_sinks_frame)

lemma create_workflow_frame:
  "create_workflow E show_job act jobs s = (x, s') \<Longrightarrow> wk_completions s' = wk_completions s \<and> wk_groups s' = wk_groups s
     \<and> numInFlightActivations s' = numInFlightActivations s
     \<and> (if isl x then numCachedWorkflows s' = numCachedWorkflows s \<and> wk_live s' = wk_live s
        else numCachedWorkflows s' = numCachedWorkflows s + 1 \<and> wk_live s' = wk_live s @ [wa_runId act])"
  by (auto simp: create_workflow_def split: option.splits if_splits sum.splits)

text \<open>What one activation can do, case by case.\<close>

lemma process_cases:
  assumes "process_activation E show_job synthetic act state s = (r, s')"
  obtains (disposed) jobs where "split_eviction (wa_jobs act) = (jobs, [])"
      "wk_completions s' = wk_completions s" "wk_groups s' = wk_groups s" "numInFlightActivations s' = numInFlightActivations s"
      "numCachedWorkflows s' = numCachedWorkflows s"
      "\<forall>x. r = Inr x \<longrightarrow> x = (None, True, if synthetic then None else Some (WSuccessful (wa_runId act) []))
         \<and> wk_live s' = (if state = None then wk_live s else remove1 (wa_runId act) (wk_live s))"
    | (ran) jobs evict where "split_eviction (wa_jobs act) = (evict, jobs)" "jobs \<noteq> []"
      "wk_completions s' = wk_completions s" "wk_groups s' = wk_groups s" "numInFlightActivations s' = numInFlightActivations s"
      "\<forall>x. r = Inr x \<longrightarrow> (\<exists>w c. x = (Some w, evict \<noteq> None, Some c) \<and> completion_run c = wa_runId act
         \<and> (if state = None then numCachedWorkflows s' = numCachedWorkflows s + 1 \<and> wk_live s' = wk_live s @ [wa_runId act]
            else numCachedWorkflows s' = numCachedWorkflows s \<and> wk_live s' = wk_live s))"
proof -
  obtain evict jobs where sp: "split_eviction (wa_jobs act) = (evict, jobs)" by fastforce
  let ?s1 = "case evict of Some e \<Rightarrow> s\<lparr>wk_evictions := wk_evictions s @ [(wa_runId act, e)]\<rparr> | None \<Rightarrow> s"
  have s1: "wk_completions ?s1 = wk_completions s" "wk_groups ?s1 = wk_groups s" "numInFlightActivations ?s1 = numInFlightActivations s"
    "numCachedWorkflows ?s1 = numCachedWorkflows s" "wk_live ?s1 = wk_live s"
    by (simp_all split: option.splits)
  show ?thesis
  proof (cases "jobs = []")
    case True
    then show ?thesis
      using assms sp s1 by (intro disposed) (auto simp: process_activation_def Let_def split: option.splits if_splits)
  next
    case False
    obtain w s2 where c: "(case state of Some w \<Rightarrow> (Inr w, ?s1) | None \<Rightarrow> create_workflow E show_job act jobs ?s1) = (w, s2)"
      by fastforce
    then have f: "wk_completions s2 = wk_completions s" "wk_groups s2 = wk_groups s" "numInFlightActivations s2 = numInFlightActivations s"
      "\<not> isl w \<Longrightarrow> if state = None then numCachedWorkflows s2 = numCachedWorkflows s + 1 \<and> wk_live s2 = wk_live s @ [wa_runId act]
          else numCachedWorkflows s2 = numCachedWorkflows s \<and> wk_live s2 = wk_live s"
      using s1 create_workflow_frame [of E show_job act jobs ?s1 w s2] by (auto split: option.splits)
    show ?thesis
    proof (cases w)
      case (Inl e)
      with assms sp False c have "(r, s') = (Inl e, s2)" by (simp add: process_activation_def Let_def)
      with f show ?thesis using sp False by (intro ran) auto
    next
      case (Inr v)
      obtain y v' s3 where ra: "run_activation E act jobs v s2 = (y, v', s3)" by (metis prod_cases3)
      with assms sp False c Inr have "(r, s') = (case y of Inl e \<Rightarrow> (Inl e, s3) | Inr c \<Rightarrow> (Inr (Some v', evict \<noteq> None, Some c), s3))"
        by (simp add: process_activation_def Let_def split: sum.splits)
      then show ?thesis
        using sp False f Inr run_activation_frame [OF ra] run_activation_run [of E act jobs v s2 _ v' s3] ra
        by (intro ran) (auto split: sum.splits)
    qed
  qed
qed

text \<open>The shape of a handled activation.\<close>

lemma handle_result:
  assumes "recover E act (process_activation E show_job synthetic act
      (case wk_groups s (wa_runId act) of None \<Rightarrow> None | Some st \<Rightarrow> st)
      (s\<lparr>numInFlightActivations := numInFlightActivations s + 1\<rparr>)) = (Inr (state', close, c), s2)"
  shows "handle_activation E show_job synthetic act s =
     (let s3 = s2\<lparr>numInFlightActivations := numInFlightActivations s2 - 1,
                  wk_completions := wk_completions s2 @ (case c of Some c \<Rightarrow> [c] | None \<Rightarrow> [])\<rparr> in
      if close then (set_group (wa_runId act) None s3)\<lparr>numCachedWorkflows := numCachedWorkflows s3 - 1\<rparr>
      else set_group (wa_runId act) (Some state') s3)"
  using assms by (simp add: handle_activation_def)

lemma recover_cases:
  assumes "recover E act (r, s) = (r', s')"
  obtains (same) "r' = r" "s' = s" | (failed) f where "r' = Inr (None, True, Some (WFailed (wa_runId act) f))" "s' = s"
    | (fatal) e where "r' = Inl e" "s' = s"
  using assms by (auto simp: recover_def split: sum.splits worker_error.splits)

text \<open>C39. A worker answers every activation it polls: as long as it does not fail altogether, handling an
  activation adds exactly one completion, for the run the activation was for, and leaves the number of
  activations in flight as it was, whatever errors creating or running the workflow raised.\<close>

theorem activation_answered_once:
  assumes "\<not> wk_failed (worker_step E show_job s (WActivation act))"
  shows "\<exists>c. wk_completions (worker_step E show_job s (WActivation act)) = wk_completions s @ [c] \<and> completion_run c = wa_runId act
    \<and> numInFlightActivations (worker_step E show_job s (WActivation act)) = numInFlightActivations s"
proof -
  have nf: "\<not> wk_failed s" using assms by auto
  let ?state = "case wk_groups s (wa_runId act) of None \<Rightarrow> None | Some st \<Rightarrow> st"
  let ?s1 = "s\<lparr>numInFlightActivations := numInFlightActivations s + 1\<rparr>"
  obtain r sp where p: "process_activation E show_job False act ?state ?s1 = (r, sp)" by fastforce
  obtain r' s2 where rc: "recover E act (r, sp) = (r', s2)" by fastforce
  from p have c: "wk_completions sp = wk_completions s" "numInFlightActivations sp = numInFlightActivations s + 1"
    by (cases rule: process_cases; simp)+
  from rc have s2: "s2 = sp" by (cases rule: recover_cases) auto
  show ?thesis
  proof (cases r')
    case (Inl e)
    then have "wk_failed (worker_step E show_job s (WActivation act))"
      using nf p rc by (simp add: handle_activation_def)
    with assms show ?thesis by simp
  next
    case (Inr x)
    obtain st close co where x: "x = (st, close, co)" by (metis prod_cases3)
    have "\<exists>d. co = Some d \<and> completion_run d = wa_runId act"
      using rc
    proof (cases rule: recover_cases)
      case same
      then have "r = Inr (st, close, co)" using Inr x by simp
      with p show ?thesis by (cases rule: process_cases) auto
    qed (use Inr x in auto)
    then show ?thesis
      using nf p rc Inr x c s2 handle_result [of E act show_job False s st close co s2]
      by (auto simp: Let_def set_group_def)
  qed
qed

subsection \<open>The workflow cache\<close>

text \<open>
  What handling an activation does to the group of its run and to the instance in it, apart from the counter: the group closes
  if there is an eviction job or an error is raised, and the instance is disposed of if there is one and no other job.
\<close>

definition state_of :: "'w worker \<Rightarrow> string \<Rightarrow> 'w wf option" where
  "state_of s r = (case wk_groups s r of None \<Rightarrow> None | Some st \<Rightarrow> st)"

definition group_closes :: "'w worker_env \<Rightarrow> (start_workflow \<Rightarrow> string) \<Rightarrow> bool \<Rightarrow> 'w worker \<Rightarrow> wactivation \<Rightarrow> bool" where
  "group_closes E show_job synthetic s act \<longleftrightarrow>
     fst (split_eviction (wa_jobs act)) \<noteq> None \<or>
     isl (fst (process_activation E show_job synthetic act (state_of s (wa_runId act))
       (s\<lparr>numInFlightActivations := numInFlightActivations s + 1\<rparr>)))"

definition instance_disposed :: "'w worker_env \<Rightarrow> wactivation \<Rightarrow> 'w wf option \<Rightarrow> bool" where
  "instance_disposed E act state \<longleftrightarrow> snd (split_eviction (wa_jobs act)) = [] \<and>
     (case state of None \<Rightarrow> False | Some w \<Rightarrow> we_dispose E (wf_workflow w) = None)"

text \<open>A group that closes without an instance being disposed of, and the number of these along a run of the worker.\<close>

definition drifts :: "'w worker_env \<Rightarrow> (start_workflow \<Rightarrow> string) \<Rightarrow> bool \<Rightarrow> 'w worker \<Rightarrow> wactivation \<Rightarrow> bool" where
  "drifts E show_job synthetic s act \<longleftrightarrow>
     group_closes E show_job synthetic s act \<and> \<not> instance_disposed E act (state_of s (wa_runId act))"

fun event_drifts :: "'w worker_env \<Rightarrow> (start_workflow \<Rightarrow> string) \<Rightarrow> 'w worker \<Rightarrow> worker_event \<Rightarrow> bool" where
  "event_drifts E show_job s (WActivation act) = drifts E show_job False s act"
| "event_drifts E show_job s (WShutdownEviction r) = (wk_groups s r \<noteq> None \<and> drifts E show_job True s (shutdown_eviction r))"

fun drift :: "'w worker_env \<Rightarrow> (start_workflow \<Rightarrow> string) \<Rightarrow> 'w worker \<Rightarrow> worker_event list \<Rightarrow> nat" where
  "drift E show_job s [] = 0"
| "drift E show_job s (e # es) = (if event_drifts E show_job s e then 1 else 0) + drift E show_job (worker_step E show_job s e) es"

lemma process_effects:
  assumes "process_activation E show_job synthetic act state s = (r, s')"
  shows "wk_groups s' = wk_groups s"
    and "snd (split_eviction (wa_jobs act)) = [] \<Longrightarrow> numCachedWorkflows s' = numCachedWorkflows s
      \<and> wk_live s' = (if instance_disposed E act state then remove1 (wa_runId act) (wk_live s) else wk_live s)"
    and "snd (split_eviction (wa_jobs act)) \<noteq> [] \<Longrightarrow>
      numCachedWorkflows s' = numCachedWorkflows s \<and> wk_live s' = wk_live s \<and> (state = None \<longrightarrow> isl r)
      \<or> numCachedWorkflows s' = numCachedWorkflows s + 1 \<and> wk_live s' = wk_live s @ [wa_runId act] \<and> state = None"
    and "\<not> isl r \<Longrightarrow> (\<exists>st c. r = Inr (st, fst (split_eviction (wa_jobs act)) \<noteq> None, c)
      \<and> (fst (split_eviction (wa_jobs act)) = None \<longrightarrow> snd (split_eviction (wa_jobs act)) \<noteq> [] \<and> st \<noteq> None))"
proof -
  obtain evict jobs where sp: "split_eviction (wa_jobs act) = (evict, jobs)" by fastforce
  let ?s1 = "case evict of Some e \<Rightarrow> s\<lparr>wk_evictions := wk_evictions s @ [(wa_runId act, e)]\<rparr> | None \<Rightarrow> s"
  have s1: "wk_groups ?s1 = wk_groups s" "numCachedWorkflows ?s1 = numCachedWorkflows s" "wk_live ?s1 = wk_live s"
    by (simp_all split: option.splits)
  have empty: "wk_groups s' = wk_groups s \<and> numCachedWorkflows s' = numCachedWorkflows s
      \<and> wk_live s' = (if instance_disposed E act state then remove1 (wa_runId act) (wk_live s) else wk_live s)
      \<and> (\<not> isl r \<longrightarrow> evict \<noteq> None \<and> (\<exists>c. r = Inr (None, True, c)))" if "jobs = []"
    using assms sp s1 that
    by (auto simp: process_activation_def instance_disposed_def Let_def split: option.splits if_splits)
  have full: "wk_groups s' = wk_groups s \<and>
      (numCachedWorkflows s' = numCachedWorkflows s \<and> wk_live s' = wk_live s \<and> (state = None \<longrightarrow> isl r)
       \<or> numCachedWorkflows s' = numCachedWorkflows s + 1 \<and> wk_live s' = wk_live s @ [wa_runId act] \<and> state = None)
      \<and> (\<not> isl r \<longrightarrow> (\<exists>w c. r = Inr (Some w, evict \<noteq> None, c)))" if ne: "jobs \<noteq> []"
  proof -
    obtain w s2 where c: "(case state of Some w \<Rightarrow> (Inr w, ?s1) | None \<Rightarrow> create_workflow E show_job act jobs ?s1) = (w, s2)"
      by fastforce
    then have f: "wk_groups s2 = wk_groups s"
      "if state = None \<and> \<not> isl w then numCachedWorkflows s2 = numCachedWorkflows s + 1 \<and> wk_live s2 = wk_live s @ [wa_runId act]
          else numCachedWorkflows s2 = numCachedWorkflows s \<and> wk_live s2 = wk_live s"
      using s1 create_workflow_frame [of E show_job act jobs ?s1 w s2] by (auto split: option.splits if_splits)
    show ?thesis
    proof (cases w)
      case (Inl e)
      with assms sp ne c have "(r, s') = (Inl e, s2)" by (simp add: process_activation_def Let_def)
      with f Inl show ?thesis by auto
    next
      case (Inr v)
      obtain y v' s3 where ra: "run_activation E act jobs v s2 = (y, v', s3)" by (metis prod_cases3)
      with assms sp ne c Inr have "(r, s') = (case y of Inl e \<Rightarrow> (Inl e, s3) | Inr c \<Rightarrow> (Inr (Some v', evict \<noteq> None, Some c), s3))"
        by (simp add: process_activation_def Let_def split: sum.splits)
      then show ?thesis
        using f Inr run_activation_frame [OF ra] by (cases state) (auto split: sum.splits)
    qed
  qed
  show "wk_groups s' = wk_groups s" using empty full by blast
  show "snd (split_eviction (wa_jobs act)) = [] \<Longrightarrow> numCachedWorkflows s' = numCachedWorkflows s
      \<and> wk_live s' = (if instance_disposed E act state then remove1 (wa_runId act) (wk_live s) else wk_live s)"
    using empty sp by simp
  show "snd (split_eviction (wa_jobs act)) \<noteq> [] \<Longrightarrow>
      numCachedWorkflows s' = numCachedWorkflows s \<and> wk_live s' = wk_live s \<and> (state = None \<longrightarrow> isl r)
      \<or> numCachedWorkflows s' = numCachedWorkflows s + 1 \<and> wk_live s' = wk_live s @ [wa_runId act] \<and> state = None"
    using full sp by simp
  show "\<not> isl r \<Longrightarrow> (\<exists>st c. r = Inr (st, fst (split_eviction (wa_jobs act)) \<noteq> None, c)
      \<and> (fst (split_eviction (wa_jobs act)) = None \<longrightarrow> snd (split_eviction (wa_jobs act)) \<noteq> [] \<and> st \<noteq> None))"
    using empty full sp by (cases "jobs = []") auto
qed

text \<open>Every instance that a group holds is among the live ones.\<close>

definition tracked :: "'w worker \<Rightarrow> bool" where
  "tracked s \<longleftrightarrow> (\<forall>r w. wk_groups s r = Some (Some w) \<longrightarrow> r \<in> set (wk_live s))"

text \<open>The invariant as long as no group has closed without disposing of its instance.\<close>

definition worker_inv :: "'w worker \<Rightarrow> bool" where
  "worker_inv s \<longleftrightarrow> distinct (wk_live s) \<and> (\<forall>r. wk_groups s r = None \<longleftrightarrow> r \<notin> set (wk_live s)) \<and> (\<forall>r. wk_groups s r \<noteq> Some None)"

lemma length_remove1_int: "r \<in> set l \<Longrightarrow> int (length (remove1 r l)) = int (length l) - 1"
  using length_pos_if_in_set [of r l] by (simp add: length_remove1 of_nat_diff Suc_le_eq)

text \<open>Handling an activation, in one view: what the processing left, then the close.\<close>

lemma handle_view:
  assumes nf: "\<not> wk_failed (handle_activation E show_job synthetic act s)"
    and s1: "s1 = s\<lparr>numInFlightActivations := numInFlightActivations s + 1\<rparr>"
  obtains r sp where "process_activation E show_job synthetic act (state_of s (wa_runId act)) s1 = (r, sp)"
    "group_closes E show_job synthetic s act \<longleftrightarrow> fst (split_eviction (wa_jobs act)) \<noteq> None \<or> isl r"
    "wk_live (handle_activation E show_job synthetic act s) = wk_live sp"
    "numCachedWorkflows (handle_activation E show_job synthetic act s) =
       numCachedWorkflows sp - (if group_closes E show_job synthetic s act then 1 else 0)"
    "group_closes E show_job synthetic s act \<Longrightarrow>
       wk_groups (handle_activation E show_job synthetic act s) = (wk_groups sp)(wa_runId act := None)"
    "\<not> group_closes E show_job synthetic s act \<Longrightarrow>
       \<exists>w. wk_groups (handle_activation E show_job synthetic act s) = (wk_groups sp)(wa_runId act := Some (Some w))"
proof -
  obtain r sp where p: "process_activation E show_job synthetic act (state_of s (wa_runId act)) s1 = (r, sp)" by fastforce
  obtain r' s2 where rc: "recover E act (r, sp) = (r', s2)" by fastforce
  have closes: "group_closes E show_job synthetic s act \<longleftrightarrow> fst (split_eviction (wa_jobs act)) \<noteq> None \<or> isl r"
    using p s1 by (simp add: group_closes_def)
  have s2: "s2 = sp" using rc by (cases rule: recover_cases) auto
  have h: "recover E act (process_activation E show_job synthetic act
      (case wk_groups s (wa_runId act) of None \<Rightarrow> None | Some st \<Rightarrow> st) (s\<lparr>numInFlightActivations := numInFlightActivations s + 1\<rparr>)) = (r', s2)"
    using p rc s1 by (simp add: state_of_def)
  obtain st close c where r': "r' = Inr (st, close, c)"
  proof (cases r')
    case (Inl e)
    then have "wk_failed (handle_activation E show_job synthetic act s)" using h by (simp add: handle_activation_def)
    with nf show ?thesis by simp
  qed (metis prod_cases3 that)
  have close: "close = group_closes E show_job synthetic s act \<and> (\<not> close \<longrightarrow> st \<noteq> None)"
  proof (cases r)
    case (Inl e)
    then have "close" using rc r' by (auto simp: recover_def split: worker_error.splits sum.splits)
    then show ?thesis using Inl closes by simp
  next
    case (Inr x)
    then have "r = Inr (st, close, c)" using rc r' by (simp add: recover_def)
    then show ?thesis using Inr process_effects(4) [OF p] closes by auto
  qed
  note hr = handle_result [OF h [unfolded r']]
  show ?thesis
    using close s2 by (intro that [OF p closes]) (auto simp: hr Let_def set_group_def)
qed

lemma handle_counts:
  assumes nf: "\<not> wk_failed (handle_activation E show_job synthetic act s)" and t: "tracked s"
    and s': "s' = handle_activation E show_job synthetic act s"
  shows "tracked s' \<and> numCachedWorkflows s' - int (length (wk_live s')) =
      numCachedWorkflows s - int (length (wk_live s)) - (if drifts E show_job synthetic s act then 1 else 0)"
proof -
  let ?r = "wa_runId act" and ?s1 = "s\<lparr>numInFlightActivations := numInFlightActivations s + 1\<rparr>"
  obtain r sp where v: "process_activation E show_job synthetic act (state_of s ?r) ?s1 = (r, sp)"
    "group_closes E show_job synthetic s act \<longleftrightarrow> fst (split_eviction (wa_jobs act)) \<noteq> None \<or> isl r"
    "wk_live s' = wk_live sp"
    "numCachedWorkflows s' = numCachedWorkflows sp - (if group_closes E show_job synthetic s act then 1 else 0)"
    "group_closes E show_job synthetic s act \<Longrightarrow> wk_groups s' = (wk_groups sp)(?r := None)"
    "\<not> group_closes E show_job synthetic s act \<Longrightarrow> \<exists>w. wk_groups s' = (wk_groups sp)(?r := Some (Some w))"
    unfolding s' by (rule handle_view [OF nf refl]) blast
  note e = process_effects [OF v(1)]
  have live: "state_of s ?r \<noteq> None \<Longrightarrow> ?r \<in> set (wk_live s)"
    using t by (auto simp: tracked_def state_of_def split: option.splits)
  show ?thesis
  proof (cases "snd (split_eviction (wa_jobs act)) = []")
    case True
    have c: "group_closes E show_job synthetic s act"
      using v(2) e(4) True by auto
    have d: "instance_disposed E act (state_of s ?r) \<Longrightarrow> ?r \<in> set (wk_live s)"
      using live by (auto simp: instance_disposed_def split: option.splits)
    have "tracked s'"
      using t v(3) v(5) [OF c] e(1) e(2) [OF True] by (auto simp: tracked_def in_set_remove1)
    moreover have "numCachedWorkflows s' - int (length (wk_live s')) =
        numCachedWorkflows s - int (length (wk_live s)) - (if drifts E show_job synthetic s act then 1 else 0)"
      using v(3,4) c e(2) [OF True] d length_remove1_int [of ?r "wk_live s"] by (auto simp: drifts_def)
    ultimately show ?thesis ..
  next
    case False
    have nd: "\<not> instance_disposed E act (state_of s ?r)" using False by (simp add: instance_disposed_def)
    note l = e(3) [OF False]
    have sub: "x \<in> set (wk_live s) \<Longrightarrow> x \<in> set (wk_live sp)" for x using l by auto
    have "?r \<in> set (wk_live sp)" if "\<not> group_closes E show_job synthetic s act"
      using l live that v(2) by (cases "state_of s ?r = None") auto
    note kept = this
    have "x \<in> set (wk_live s')" if x: "wk_groups s' x = Some (Some w)" for x w
    proof (cases "x = ?r")
      case True
      then have "\<not> group_closes E show_job synthetic s act" using v(5) x by auto
      with kept True show ?thesis using v(3) by simp
    next
      case other: False
      then have "wk_groups s x = Some (Some w)"
        using v(5,6) e(1) x by (cases "group_closes E show_job synthetic s act") auto
      then have "x \<in> set (wk_live s)" using t by (simp add: tracked_def)
      then show ?thesis using sub v(3) by simp
    qed
    then have "tracked s'" by (simp add: tracked_def)
    then show ?thesis using v(3,4) l nd by (auto simp: drifts_def)
  qed
qed

lemma handle_inv:
  assumes nf: "\<not> wk_failed (handle_activation E show_job synthetic act s)" and i: "worker_inv s"
    and nd: "\<not> drifts E show_job synthetic s act"
  shows "worker_inv (handle_activation E show_job synthetic act s)"
proof -
  let ?r = "wa_runId act" and ?s1 = "s\<lparr>numInFlightActivations := numInFlightActivations s + 1\<rparr>"
  let ?s' = "handle_activation E show_job synthetic act s"
  obtain r sp where v: "process_activation E show_job synthetic act (state_of s ?r) ?s1 = (r, sp)"
    "group_closes E show_job synthetic s act \<longleftrightarrow> fst (split_eviction (wa_jobs act)) \<noteq> None \<or> isl r"
    "wk_live ?s' = wk_live sp"
    "group_closes E show_job synthetic s act \<Longrightarrow> wk_groups ?s' = (wk_groups sp)(?r := None)"
    "\<not> group_closes E show_job synthetic s act \<Longrightarrow> \<exists>w. wk_groups ?s' = (wk_groups sp)(?r := Some (Some w))"
    by (rule handle_view [OF nf refl]) blast
  note e = process_effects [OF v(1)]
  have st: "state_of s ?r = None \<longleftrightarrow> ?r \<notin> set (wk_live s)"
  proof -
    have "wk_groups s ?r = None \<longleftrightarrow> ?r \<notin> set (wk_live s)" "wk_groups s ?r \<noteq> Some None"
      using i by (simp_all add: worker_inv_def)
    then show ?thesis by (cases "wk_groups s ?r") (auto simp: state_of_def)
  qed
  show ?thesis
  proof (cases "group_closes E show_job synthetic s act")
    case True
    then have d: "instance_disposed E act (state_of s ?r)" using nd by (simp add: drifts_def)
    then have "snd (split_eviction (wa_jobs act)) = []" by (simp add: instance_disposed_def)
    then have "wk_live ?s' = remove1 ?r (wk_live s)" using e(2) d v(3) by simp
    then show ?thesis using i v(4) [OF True] e(1) by (auto simp: worker_inv_def set_remove1_eq)
  next
    case False
    then have ne: "snd (split_eviction (wa_jobs act)) \<noteq> []" using v(2) e(4) by auto
    obtain w where g: "wk_groups ?s' = (wk_groups sp)(?r := Some (Some w))" using v(5) [OF False] by blast
    show ?thesis
      using e(3) [OF ne] False v(2,3) e(1) i st g by (auto simp: worker_inv_def)
  qed
qed

lemma failed_steps: "wk_failed s \<Longrightarrow> run_steps (worker_step E show_job) s es = s"
proof (induction es)
  case (Cons e es)
  then show ?case by (cases e) simp_all
qed simp

lemma step_counts:
  assumes "\<not> wk_failed (worker_step E show_job s e)" and "tracked s" and "s' = worker_step E show_job s e"
  shows "tracked s' \<and> numCachedWorkflows s' - int (length (wk_live s')) =
      numCachedWorkflows s - int (length (wk_live s)) - (if event_drifts E show_job s e then 1 else 0)"
    and "worker_inv s \<Longrightarrow> \<not> event_drifts E show_job s e \<Longrightarrow> worker_inv s'"
  using assms handle_counts [OF _ assms(2) refl] handle_inv [of E show_job _ _ s] by (cases e; auto)+

lemma run_counts:
  assumes "\<not> wk_failed (run_steps (worker_step E show_job) s es)" and "tracked s"
  shows "numCachedWorkflows (run_steps (worker_step E show_job) s es) - int (length (wk_live (run_steps (worker_step E show_job) s es))) =
      numCachedWorkflows s - int (length (wk_live s)) - int (drift E show_job s es)
    \<and> (worker_inv s \<longrightarrow> drift E show_job s es = 0 \<longrightarrow> worker_inv (run_steps (worker_step E show_job) s es))"
  using assms
proof (induction es arbitrary: s)
  case (Cons e es)
  have nf: "\<not> wk_failed (worker_step E show_job s e)" using Cons.prems(1) failed_steps by fastforce
  note c = step_counts [OF nf Cons.prems(2) refl]
  have "\<not> wk_failed (run_steps (worker_step E show_job) (worker_step E show_job s e) es)" using Cons.prems(1) by simp
  from Cons.IH [OF this] c show ?case by auto
qed simp

text \<open>C40. Whatever activations and evictions a worker handles without failing, the number of cached workflows it reports is
  the number of workflow instances it has created and not disposed of, less one for every group that has closed without
  disposing of an instance: the group of a failed activation, of an eviction that came with other jobs, and of an eviction of
  a run the worker does not have. If there was no such group, the live instances are exactly the runs that have a group,
  each with one instance.\<close>

theorem cached_workflows_counted:
  fixes s :: "'w worker"
  assumes "s = run_steps (worker_step E show_job) init_worker es" and "\<not> wk_failed s"
  shows "numCachedWorkflows s = int (length (wk_live s)) - int (drift E show_job init_worker es)
    \<and> (0 < drift E show_job init_worker es \<or> distinct (wk_live s) \<and> set (wk_live s) = {r. wk_groups s r \<noteq> None})"
proof -
  have "tracked (init_worker :: 'w worker)" "worker_inv (init_worker :: 'w worker)"
    "numCachedWorkflows (init_worker :: 'w worker) = 0" "wk_live (init_worker :: 'w worker) = []"
    by (simp_all add: tracked_def worker_inv_def init_worker_def)
  then have c: "numCachedWorkflows s - int (length (wk_live s)) = - int (drift E show_job init_worker es)"
    "drift E show_job init_worker es = 0 \<Longrightarrow> worker_inv s"
    using run_counts [of E show_job init_worker es] assms by simp_all
  moreover have "worker_inv s \<Longrightarrow> distinct (wk_live s) \<and> set (wk_live s) = {r. wk_groups s r \<noteq> None}"
    unfolding worker_inv_def by auto
  ultimately show ?thesis by (cases "drift E show_job init_worker es = 0") (simp, simp)
qed

text \<open>The three ways in which a group closes without disposing of an instance.\<close>

lemma drift_cases:
  assumes "drifts E show_job synthetic s act"
  obtains (failed) "isl (fst (process_activation E show_job synthetic act (state_of s (wa_runId act))
      (s\<lparr>numInFlightActivations := numInFlightActivations s + 1\<rparr>)))"
    | (with_jobs) e jobs where "split_eviction (wa_jobs act) = (Some e, jobs)" "jobs \<noteq> []"
    | (unknown) e where "split_eviction (wa_jobs act) = (Some e, [])" "state_of s (wa_runId act) = None"
proof (cases "isl (fst (process_activation E show_job synthetic act (state_of s (wa_runId act))
      (s\<lparr>numInFlightActivations := numInFlightActivations s + 1\<rparr>)))")
  case False
  obtain evict jobs where sp: "split_eviction (wa_jobs act) = (evict, jobs)" by fastforce
  then obtain e where e: "evict = Some e" using assms False by (auto simp: drifts_def group_closes_def)
  show ?thesis
  proof (cases "jobs = []")
    case True
    have "state_of s (wa_runId act) = None"
      using assms False sp True
      by (auto simp: drifts_def instance_disposed_def process_activation_def Let_def e split: option.splits)
    then show ?thesis using unknown sp e True by blast
  qed (use with_jobs sp e in blast)
qed (rule failed)

definition unit_codec_env :: "unit worker_env" where
  "unit_codec_env = \<lparr>we_lib = long64,
     we_dc = \<lparr>dc_payloadConverter = sample_converter, dc_codecs = [],
              dc_errorToFailure = (\<lambda>_. Inr (ProtoFailure (Some ''e'') None None None None NoInfo)),
              dc_failureToError = (\<lambda>_. Inl JNull)\<rparr>,
     we_sconv = sample_converter, we_taskQueue = ''q'', we_namespace = ''ns'',
     we_create = (\<lambda>_ _ _ _. Inr ()),
     we_activate = (\<lambda>act _ w. (if wa_isReplaying act then Inl (WError JNull) else Inr (ACSuccessful [CancelWorkflowExecution]), w)),
     we_sinkCalls = (\<lambda>w. (Inr [], w)), we_dispose = (\<lambda>_. None), we_sinks = (\<lambda>_ _. None)\<rparr>"

definition sample_start_workflow :: start_workflow where
  "sample_start_workflow = \<lparr>sw_workflowId = Some ''w'', sw_workflowType = Some ''wf'', sw_randomnessSeed = Some [1],
     sw_firstExecutionRunId = Some ''r'', sw_attempt = Some 1, sw_startTime = Some \<lparr>seconds = Some 1, nanos = None\<rparr>,
     sw_arguments = None, sw_payloads = \<lparr>sp_continuedFailure = None, sp_memo = None, sp_lastCompletionResult = None\<rparr>,
     sw_parentWorkflowInfo = None, sw_workflowExecutionTimeout = None, sw_workflowRunTimeout = None,
     sw_workflowTaskTimeout = Some \<lparr>seconds = Some 10, nanos = None\<rparr>, sw_continuedFromExecutionRunId = None, sw_retryPolicy = None,
     sw_cronSchedule = None, sw_workflowExecutionExpirationTime = None, sw_cronScheduleToScheduleInterval = None,
     sw_searchAttributes = None\<rparr>"

definition sample_first :: "bool \<Rightarrow> wactivation" where
  "sample_first replaying = \<lparr>wa_runId = ''r'', wa_timestamp = Some \<lparr>seconds = Some 2, nanos = None\<rparr>, wa_isReplaying = replaying,
     wa_historyLength = 3, wa_jobs = [WStart sample_start_workflow]\<rparr>"

definition sample_evict :: wactivation where
  "sample_evict = \<lparr>wa_runId = ''r'', wa_timestamp = None, wa_isReplaying = False, wa_historyLength = 3,
     wa_jobs = [WRemoveFromCache \<lparr>ev_reason = None, ev_message = None\<rparr>]\<rparr>"

definition sample_worker :: "wactivation list \<Rightarrow> unit worker" where
  "sample_worker acts = run_steps (worker_step unit_codec_env (\<lambda>_. [])) init_worker (map WActivation acts)"

text \<open>A run, evaluated: a workflow is created and evicted, with other jobs beside the eviction or alone, and twice.\<close>

definition sample_evict_with :: wactivation where
  "sample_evict_with = sample_evict\<lparr>wa_jobs := [WJob JCancelWorkflow, WRemoveFromCache \<lparr>ev_reason = None, ev_message = None\<rparr>]\<rparr>"

lemma sample_drift:
  "drift unit_codec_env (\<lambda>_. []) init_worker (map WActivation [sample_first False, sample_evict]) = 0"
  "drift unit_codec_env (\<lambda>_. []) init_worker (map WActivation [sample_first False, sample_evict_with]) = 1"
  "drift unit_codec_env (\<lambda>_. []) init_worker (map WActivation [sample_first False, sample_evict, sample_evict]) = 1"
  "\<not> wk_failed (sample_worker [sample_first False, sample_evict])"
  "\<not> wk_failed (sample_worker [sample_first False, sample_evict_with])"
  "wk_live (sample_worker [sample_first False, sample_evict_with]) = [''r'']"
  by code_simp+

lemma sample_worker_runs:
  "wk_live (sample_worker [sample_first False]) = [''r'']"
  "wk_live (sample_worker [sample_first False, sample_evict]) = []"
  "numCachedWorkflows (sample_worker [sample_first False]) = 1"
  "wk_failed (worker_step unit_codec_env (\<lambda>_. []) init_worker (WActivation (sample_first True))) = False"
  by code_simp+

theorem activation_answered_once_witness:
  "\<exists>c. wk_completions (worker_step unit_codec_env (\<lambda>_. []) init_worker (WActivation (sample_first True))) = wk_completions init_worker @ [c]
    \<and> completion_run c = ''r''
    \<and> numInFlightActivations (worker_step unit_codec_env (\<lambda>_. []) init_worker (WActivation (sample_first True))) = 0"
  using activation_answered_once [of unit_codec_env "\<lambda>_. []" init_worker "sample_first True"] sample_worker_runs(4)
  by (simp add: sample_first_def init_worker_def)

theorem cached_workflows_counted_witness:
  "set (wk_live (sample_worker [sample_first False, sample_evict]))
     = {r. wk_groups (sample_worker [sample_first False, sample_evict]) r \<noteq> None}
   \<and> numCachedWorkflows (sample_worker [sample_first False, sample_evict_with]) = 0"
proof -
  note c = cached_workflows_counted [of _ unit_codec_env "\<lambda>_. []"]
  have "set (wk_live (sample_worker [sample_first False, sample_evict]))
     = {r. wk_groups (sample_worker [sample_first False, sample_evict]) r \<noteq> None}"
    using c [of "sample_worker [sample_first False, sample_evict]"
        "map WActivation [sample_first False, sample_evict]"] sample_drift(1,4)
    by (simp add: sample_worker_def)
  moreover have "numCachedWorkflows (sample_worker [sample_first False, sample_evict_with]) = 0"
    using c [of "sample_worker [sample_first False, sample_evict_with]"
        "map WActivation [sample_first False, sample_evict_with]"] sample_drift(2,5,6)
    by (simp add: sample_worker_def)
  ultimately show ?thesis ..
qed

subsection \<open>After a failed activation\<close>

lemma failed_run:
  assumes "split_eviction (wa_jobs act) = (None, jobs)" "jobs \<noteq> []"
    and "process_activation E show_job synthetic act (Some w) s = (Inl e, s')"
  shows "wk_groups s' = wk_groups s \<and> numCachedWorkflows s' = numCachedWorkflows s \<and> wk_live s' = wk_live s"
proof -
  obtain y v' s3 where ra: "run_activation E act jobs w s = (y, v', s3)" by (metis prod_cases3)
  with assms show ?thesis using run_activation_frame [OF ra] by (auto simp: process_activation_def Let_def split: sum.splits)
qed

lemma evicted_without_state:
  assumes "split_eviction (wa_jobs act) = (Some e, [])" "wk_groups s (wa_runId act) = None" "\<not> wk_failed s"
  shows "worker_step E show_job s (WActivation act) =
    s\<lparr>wk_evictions := wk_evictions s @ [(wa_runId act, e)], wk_completions := wk_completions s @ [WSuccessful (wa_runId act) []],
      numCachedWorkflows := numCachedWorkflows s - 1\<rparr>"
  using assms by (simp add: handle_activation_def process_activation_def recover_def set_group_def Let_def fun_upd_idem)

lemma run_activation_failed_flag: "run_activation E act jobs w s = (x, w', s') \<Longrightarrow> wk_failed s' = wk_failed s"
  by (auto simp: run_activation_def collect_sinks_def split: sum.splits prod.splits worker_error.splits)

text \<open>When an activation of a cached workflow fails, its group is closed without disposing of the
  instance, to wait for core's eviction; when that eviction comes it opens a new group, which has no instance
  to dispose of. The instance stays alive, while the number of cached workflows has gone down by two.\<close>

theorem failed_activation_leaks:
  assumes "\<not> wk_failed s" and "wk_groups s (wa_runId act) = Some (Some w)" and "wa_runId act \<in> set (wk_live s)"
    and "split_eviction (wa_jobs act) = (None, jobs)" and "jobs \<noteq> []"
    and "fst (process_activation E show_job False act (Some w) (s\<lparr>numInFlightActivations := numInFlightActivations s + 1\<rparr>))
         = Inl (WError err)"
    and "encodeErrorToFailure (we_dc E) err = Inr f"
    and "wa_runId ev = wa_runId act" and "split_eviction (wa_jobs ev) = (Some e, [])"
    and "t = worker_step E show_job (worker_step E show_job s (WActivation act)) (WActivation ev)"
  shows "wk_groups t (wa_runId act) = None \<and> wk_live t = wk_live s \<and> wa_runId act \<in> set (wk_live t)
    \<and> numCachedWorkflows t = numCachedWorkflows s - 2"
proof -
  let ?s1 = "s\<lparr>numInFlightActivations := numInFlightActivations s + 1\<rparr>"
  let ?m = "worker_step E show_job s (WActivation act)"
  obtain sp where p: "process_activation E show_job False act (Some w) ?s1 = (Inl (WError err), sp)"
    using assms(6) by (metis prod.collapse)
  note fr = failed_run [OF assms(4,5) p]
  have nf: "wk_failed sp = wk_failed s"
  proof -
    obtain y v' s3 where ra: "run_activation E act jobs w ?s1 = (y, v', s3)" by (metis prod_cases3)
    with assms(4,5) p show ?thesis
      using run_activation_failed_flag [OF ra] by (auto simp: process_activation_def Let_def split: sum.splits)
  qed
  have h: "recover E act (process_activation E show_job False act
      (case wk_groups s (wa_runId act) of None \<Rightarrow> None | Some st \<Rightarrow> st) ?s1) = (Inr (None, True, Some (WFailed (wa_runId act) f)), sp)"
    using p assms(2,7) by (simp add: recover_def)
  have m: "wk_groups ?m (wa_runId ev) = None" "wk_live ?m = wk_live s" "numCachedWorkflows ?m = numCachedWorkflows s - 1" "\<not> wk_failed ?m"
    using assms(1,8) fr nf handle_result [OF h] by (simp_all add: set_group_def Let_def)
  show ?thesis
    using evicted_without_state [OF assms(9) m(1,4), of E show_job] m assms(3,8) unfolding assms(10) by simp
qed

definition sample_again :: wactivation where
  "sample_again = \<lparr>wa_runId = ''r'', wa_timestamp = None, wa_isReplaying = True, wa_historyLength = 5, wa_jobs = [WJob JCancelWorkflow]\<rparr>"

lemma sample_again_facts:
  "\<not> wk_failed (sample_worker [sample_first False])"
  "wk_groups (sample_worker [sample_first False]) ''r'' \<noteq> None"
  "wk_groups (sample_worker [sample_first False]) ''r'' \<noteq> Some None"
  "numCachedWorkflows (sample_worker [sample_first False]) = 1"
  by code_simp+

theorem failed_activation_leaks_witness:
  "numCachedWorkflows (sample_worker [sample_first False, sample_again, sample_evict]) = - 1
   \<and> wk_live (sample_worker [sample_first False, sample_again, sample_evict]) = [''r'']"
proof -
  let ?s = "sample_worker [sample_first False]"
  obtain w where w: "wk_groups ?s ''r'' = Some (Some w)" using sample_again_facts(2,3)
    by (cases "wk_groups ?s ''r''"; cases "the (wk_groups ?s ''r'')") auto
  have f: "fst (process_activation unit_codec_env (\<lambda>_. []) False sample_again (Some w) (?s\<lparr>numInFlightActivations := numInFlightActivations ?s + 1\<rparr>))
     = Inl (WError JNull)"
    by (simp add: process_activation_def sample_again_def run_activation_def collect_sinks_def unit_codec_env_def Let_def)
  have c: "encodeErrorToFailure (we_dc unit_codec_env) JNull = Inr (ProtoFailure (Some ''e'') None None None None NoInfo)"
    by (simp add: encodeErrorToFailure_def unit_codec_env_def) code_simp
  have "sample_worker [sample_first False, sample_again, sample_evict]
      = worker_step unit_codec_env (\<lambda>_. []) (worker_step unit_codec_env (\<lambda>_. []) ?s (WActivation sample_again)) (WActivation sample_evict)"
    by (simp add: sample_worker_def)
  from failed_activation_leaks [OF _ _ _ _ _ f c _ _ this, of "[WJob JCancelWorkflow]" "\<lparr>ev_reason = None, ev_message = None\<rparr>"]
  show ?thesis using w sample_again_facts sample_worker_runs(1) by (simp add: sample_again_def sample_evict_def)
qed

end
