(* ===== verification/Worker_Status.thy ===== *)
theory Worker_Status
  imports Js_Values
begin

text \<open>
  The life cycle of a worker: \<open>State\<close>, \<open>run\<close>, \<open>shutdown\<close>, \<open>forceShutdown$\<close>, \<open>pollLoop$\<close> and \<open>runUntil\<close> of
  packages/worker/src/worker.ts. The streams that \<open>run\<close> merges are the unexpected errors, the forced shutdown, the
  heartbeats, and the workflows merged with the activities; what goes on in a stream is the events it ends with.
\<close>

subsection \<open>Worker states\<close>

datatype State = INITIALIZED | RUNNING | STOPPED | STOPPING | DRAINING | DRAINED | FAILED

datatype poller_state = POLLING | SHUTDOWN | POLL_FAILED

text \<open>The options that matter: registered workflows and activities, \<open>shutdownForceTimeMs\<close>.\<close>

record run_options =
  has_workflows :: bool
  has_activities :: bool
  shutdownForceTimeMs :: "nat option"

text \<open>
  \<open>st_log\<close> are the values of \<open>stateSubject\<close>, the last one first. \<open>st_initiating\<close>: \<open>initiateShutdown\<close> has not
  settled. \<open>st_deadline\<close>: the delayed error of \<open>forceShutdown$\<close>. \<open>st_wf\<close> and \<open>st_act\<close>: the stream is not complete.
  \<open>st_hb\<close>: the heartbeats whose asynchronous functions have not returned; the heartbeat stream waits for these.
\<close>

record wstatus =
  st_log :: "State list"
  st_clock :: nat
  st_stopped_at :: "nat option"
  st_initiating :: bool
  st_deadline :: "nat option"
  workflowPollerState :: poller_state
  activityPollerState :: poller_state
  st_wf :: bool
  st_act :: bool
  st_hb :: nat
  st_error :: "jsval option"
  st_thrown :: "jsval list"

definition run_state :: "wstatus \<Rightarrow> State" where
  "run_state s = hd (st_log s)"

definition set_state :: "State \<Rightarrow> wstatus \<Rightarrow> wstatus" where
  "set_state x s = s\<lparr>st_log := x # st_log s\<rparr>"

definition new_worker :: wstatus where
  "new_worker = \<lparr>st_log = [INITIALIZED], st_clock = 0, st_stopped_at = None, st_initiating = False, st_deadline = None,
     workflowPollerState = POLLING, activityPollerState = POLLING, st_wf = False, st_act = False, st_hb = 0, st_error = None, st_thrown = []\<rparr>"

definition subscribed :: "wstatus \<Rightarrow> bool" where
  "subscribed s \<longleftrightarrow> run_state s \<in> {RUNNING, STOPPING, DRAINING}"

definition throws :: "jsval \<Rightarrow> wstatus \<Rightarrow> wstatus" where
  "throws e s = s\<lparr>st_thrown := st_thrown s @ [e]\<rparr>"

subsection \<open>The merged stream\<close>

text \<open>
  When workflows and activities are complete the state becomes \<open>DRAINED\<close>. That completes the stream of unexpected errors,
  decides the race of \<open>forceShutdown$\<close> and ends the input of the heartbeats; the stream of the heartbeats itself
  is complete only when no heartbeat is under way. With the last stream complete the state becomes \<open>STOPPED\<close>. An
  error of any stream is \<open>FAILED\<close>.
\<close>

definition check_stopped :: "wstatus \<Rightarrow> wstatus" where
  "check_stopped s = (if run_state s = DRAINED \<and> st_hb s = 0 then set_state STOPPED s else s)"

definition check_drained :: "wstatus \<Rightarrow> wstatus" where
  "check_drained s = (if st_wf s \<or> st_act s then s else check_stopped ((set_state DRAINED s)\<lparr>st_deadline := None\<rparr>))"

definition fail_run :: "jsval \<Rightarrow> wstatus \<Rightarrow> wstatus" where
  "fail_run e s = (set_state FAILED s)\<lparr>st_error := Some e, st_deadline := None\<rparr>"

text \<open>\<open>run\<close>: without workflows or activities the stream completes at once, its poller state is \<open>SHUTDOWN\<close>.\<close>

definition call_run :: "run_options \<Rightarrow> wstatus \<Rightarrow> wstatus" where
  "call_run R s =
     (if run_state s \<noteq> INITIALIZED then throws (IllegalStateError ''Poller was already started'') s
      else check_drained
        ((set_state RUNNING s)
         \<lparr>st_wf := has_workflows R, st_act := has_activities R,
          workflowPollerState := (if has_workflows R then POLLING else SHUTDOWN),
          activityPollerState := (if has_activities R then POLLING else SHUTDOWN)\<rparr>))"

definition call_shutdown :: "run_options \<Rightarrow> wstatus \<Rightarrow> wstatus" where
  "call_shutdown R s =
     (if run_state s \<noteq> RUNNING then throws (IllegalStateError ''Not running'') s
      else (set_state STOPPING s)
        \<lparr>st_initiating := True, st_stopped_at := Some (st_clock s),
         st_deadline := map_option (\<lambda>ms. st_clock s + ms) (shutdownForceTimeMs R)\<rparr>)"

definition shutdown_initiated :: "unit res \<Rightarrow> wstatus \<Rightarrow> wstatus" where
  "shutdown_initiated r s =
     (if \<not> st_initiating s then s
      else let s1 = s\<lparr>st_initiating := False\<rparr> in
        (case r of
           Inr _ \<Rightarrow> if run_state s1 = STOPPING then set_state DRAINING s1 else s1
         | Inl e \<Rightarrow> if subscribed s1 then fail_run e s1 else s1))"

text \<open>\<open>pollLoop$\<close>: a \<open>ShutdownError\<close> ends the loop, any other error is the stream's.\<close>

definition is_shutdown_error :: "jsval \<Rightarrow> bool" where
  "is_shutdown_error e = (case e of JError (PlainError cls _ _ _) \<Rightarrow> cls = ''ShutdownError'' | _ \<Rightarrow> False)"

fun poll_loop :: "'a res list \<Rightarrow> 'a list \<times> jsval option option" where
  "poll_loop [] = ([], None)"
| "poll_loop (Inr x # rs) = (case poll_loop rs of (xs, e) \<Rightarrow> (x # xs, e))"
| "poll_loop (Inl e # rs) = ([], Some (if is_shutdown_error e then None else Some e))"

definition workflow_poll_failed :: "jsval \<Rightarrow> wstatus \<Rightarrow> wstatus" where
  "workflow_poll_failed e s =
     (if is_shutdown_error e then s\<lparr>workflowPollerState := SHUTDOWN\<rparr>
      else fail_run e (s\<lparr>workflowPollerState := POLL_FAILED\<rparr>))"

definition activity_poll_failed :: "jsval \<Rightarrow> wstatus \<Rightarrow> wstatus" where
  "activity_poll_failed e s =
     (if is_shutdown_error e then s\<lparr>activityPollerState := SHUTDOWN\<rparr>
      else fail_run e (s\<lparr>activityPollerState := POLL_FAILED\<rparr>))"

text \<open>The function that sends a heartbeat is called, and its promise is settled.\<close>

definition heartbeat_settled :: "unit res \<Rightarrow> wstatus \<Rightarrow> wstatus" where
  "heartbeat_settled r s =
     (if st_hb s = 0 then s
      else let s1 = s\<lparr>st_hb := st_hb s - 1\<rparr> in
        (case r of
           Inr _ \<Rightarrow> check_stopped s1
         | Inl e \<Rightarrow> if subscribed s1 \<or> run_state s1 = DRAINED then fail_run e s1 else s1))"

datatype status_event =
    CallRun
  | CallShutdown
  | ShutdownInitiated "unit res"
  | WorkflowPollError jsval
  | ActivityPollError jsval
  | WorkflowsComplete
  | ActivitiesComplete
  | StreamError jsval
  | HeartbeatStarts
  | HeartbeatSettled "unit res"
  | TimePasses nat

text \<open>The delayed error of \<open>forceShutdown$\<close>, in whatever state the worker is by then.\<close>

definition force_shutdown :: "wstatus \<Rightarrow> wstatus" where
  "force_shutdown s =
     (case st_deadline s of
        Some d \<Rightarrow>
          if d \<le> st_clock s then
            fail_run (throw_plain ''GracefulShutdownPeriodExpiredError'' ''Timed out while waiting for worker to shutdown gracefully'') s
          else s
      | None \<Rightarrow> s)"

fun status_step :: "run_options \<Rightarrow> wstatus \<Rightarrow> status_event \<Rightarrow> wstatus" where
  "status_step R s CallRun = call_run R s"
| "status_step R s CallShutdown = call_shutdown R s"
| "status_step R s (ShutdownInitiated r) = shutdown_initiated r s"
| "status_step R s (WorkflowPollError e) =
     (if subscribed s \<and> workflowPollerState s = POLLING then workflow_poll_failed e s else s)"
| "status_step R s (ActivityPollError e) =
     (if subscribed s \<and> activityPollerState s = POLLING then activity_poll_failed e s else s)"
| "status_step R s WorkflowsComplete =
     (if subscribed s \<and> st_wf s \<and> workflowPollerState s = SHUTDOWN then check_drained (s\<lparr>st_wf := False\<rparr>) else s)"
| "status_step R s ActivitiesComplete =
     (if subscribed s \<and> st_act s \<and> activityPollerState s = SHUTDOWN then check_drained (s\<lparr>st_act := False\<rparr>) else s)"
| "status_step R s (StreamError e) = (if subscribed s then fail_run e s else s)"
| "status_step R s HeartbeatStarts = (if subscribed s then s\<lparr>st_hb := Suc (st_hb s)\<rparr> else s)"
| "status_step R s (HeartbeatSettled r) = heartbeat_settled r s"
| "status_step R s (TimePasses d) = force_shutdown (s\<lparr>st_clock := st_clock s + d\<rparr>)"

subsection \<open>The transitions of a worker\<close>

fun may_follow :: "State \<Rightarrow> State set" where
  "may_follow INITIALIZED = {RUNNING}"
| "may_follow RUNNING = {STOPPING, DRAINED, FAILED}"
| "may_follow STOPPING = {DRAINING, DRAINED, FAILED}"
| "may_follow DRAINING = {DRAINED, FAILED}"
| "may_follow DRAINED = {STOPPED, FAILED}"
| "may_follow STOPPED = {}"
| "may_follow FAILED = {}"

fun state_path :: "State list \<Rightarrow> bool" where
  "state_path [] = False"
| "state_path [x] = (x = INITIALIZED)"
| "state_path (x # y # xs) = (x \<in> may_follow y \<and> state_path (y # xs))"

definition status_inv :: "run_options \<Rightarrow> wstatus \<Rightarrow> bool" where
  "status_inv R s \<longleftrightarrow> state_path (st_log s)
     \<and> (run_state s = INITIALIZED \<longrightarrow> st_deadline s = None \<and> st_stopped_at s = None \<and> \<not> st_initiating s)
     \<and> (run_state s = RUNNING \<longrightarrow> st_deadline s = None \<and> st_stopped_at s = None)
     \<and> (run_state s \<in> {STOPPING, DRAINING} \<longrightarrow>
          (\<exists>t. st_stopped_at s = Some t \<and> st_deadline s = map_option (\<lambda>ms. t + ms) (shutdownForceTimeMs R)))
     \<and> (subscribed s \<longrightarrow> (st_wf s \<or> st_act s)
          \<and> (\<forall>d. st_deadline s = Some d \<longrightarrow> st_clock s < d \<or> Some (st_clock s) = st_stopped_at s))
     \<and> (\<not> subscribed s \<longrightarrow> st_deadline s = None) \<and> (run_state s = DRAINED \<longrightarrow> 0 < st_hb s)"

lemma run_state_set [simp]: "run_state (set_state x s) = x"
  by (simp add: run_state_def set_state_def)

lemma set_state_fields [simp]:
  "st_clock (set_state x s) = st_clock s" "st_stopped_at (set_state x s) = st_stopped_at s"
  "st_initiating (set_state x s) = st_initiating s" "st_deadline (set_state x s) = st_deadline s"
  "st_wf (set_state x s) = st_wf s" "st_act (set_state x s) = st_act s" "st_hb (set_state x s) = st_hb s" "st_log (set_state x s) = x # st_log s"
  by (simp_all add: set_state_def)

lemma run_state_log [simp]:
  "run_state (s\<lparr>st_clock := c\<rparr>) = run_state s" "run_state (s\<lparr>st_wf := b\<rparr>) = run_state s"
  "run_state (s\<lparr>st_act := b\<rparr>) = run_state s" "run_state (s\<lparr>st_initiating := b\<rparr>) = run_state s"
  "run_state (s\<lparr>st_deadline := d\<rparr>) = run_state s" "run_state (s\<lparr>st_stopped_at := t\<rparr>) = run_state s"
  "run_state (s\<lparr>st_hb := n\<rparr>) = run_state s" "run_state (s\<lparr>st_error := e\<rparr>) = run_state s" "run_state (s\<lparr>st_thrown := es\<rparr>) = run_state s"
  "run_state (s\<lparr>workflowPollerState := p\<rparr>) = run_state s" "run_state (s\<lparr>activityPollerState := p\<rparr>) = run_state s"
  by (simp_all add: run_state_def)

lemma path_step: "state_path l \<Longrightarrow> x \<in> may_follow (hd l) \<Longrightarrow> state_path (x # l)"
  by (cases l) auto

lemma inv_path: "status_inv R s \<Longrightarrow> x \<in> may_follow (run_state s) \<Longrightarrow> state_path (x # st_log s)"
  by (auto simp: status_inv_def run_state_def intro: path_step)

lemma fail_run_inv: "status_inv R s \<Longrightarrow> subscribed s \<or> run_state s = DRAINED \<Longrightarrow> status_inv R (fail_run e s)"
proof -
  assume "status_inv R s" "subscribed s \<or> run_state s = DRAINED"
  then have "state_path (FAILED # st_log s)" by (intro inv_path) (auto simp: subscribed_def)
  then show ?thesis by (simp add: status_inv_def subscribed_def fail_run_def)
qed

text \<open>The invariant without the one clause that the completion of a stream breaks for a moment.\<close>

lemma check_drained_inv:
  assumes "state_path (st_log s)" "run_state s \<in> {RUNNING, STOPPING, DRAINING}"
    and "run_state s = RUNNING \<Longrightarrow> st_deadline s = None \<and> st_stopped_at s = None"
    and "run_state s \<in> {STOPPING, DRAINING} \<Longrightarrow>
          \<exists>t. st_stopped_at s = Some t \<and> st_deadline s = map_option (\<lambda>ms. t + ms) (shutdownForceTimeMs R)"
    and "\<And>d. st_deadline s = Some d \<Longrightarrow> st_clock s < d \<or> Some (st_clock s) = st_stopped_at s"
  shows "status_inv R (check_drained s)"
proof (cases "st_wf s \<or> st_act s")
  case True
  with assms show ?thesis
    unfolding check_drained_def status_inv_def subscribed_def by (cases "run_state s") simp_all
next
  case False
  have "DRAINED \<in> may_follow (hd (st_log s))" using assms(2) by (auto simp: run_state_def)
  then have "state_path (DRAINED # st_log s)" by (rule path_step [OF assms(1)])
  moreover from this have "state_path (STOPPED # DRAINED # st_log s)" by simp
  ultimately show ?thesis using False by (simp add: check_drained_def check_stopped_def status_inv_def subscribed_def)
qed

lemma completed_inv:
  assumes "status_inv R s" "subscribed s"
  shows "status_inv R (check_drained (s\<lparr>st_wf := False\<rparr>))" "status_inv R (check_drained (s\<lparr>st_act := False\<rparr>))"
  using assms by (intro check_drained_inv; simp add: status_inv_def subscribed_def)+

lemma call_run_inv:
  assumes "status_inv R s"
  shows "status_inv R (call_run R s)"
proof (cases "run_state s = INITIALIZED")
  case True
  then have "state_path (RUNNING # st_log s)" using assms by (intro inv_path) auto
  moreover have "st_deadline s = None" "st_stopped_at s = None" using True assms by (simp_all add: status_inv_def)
  ultimately have "status_inv R (check_drained ((set_state RUNNING s)
         \<lparr>st_wf := has_workflows R, st_act := has_activities R,
          workflowPollerState := (if has_workflows R then POLLING else SHUTDOWN),
          activityPollerState := (if has_activities R then POLLING else SHUTDOWN)\<rparr>))"
    by (intro check_drained_inv) simp_all
  with True show ?thesis by (simp add: call_run_def)
next
  case False
  then show ?thesis using assms by (simp add: call_run_def throws_def status_inv_def subscribed_def)
qed

lemma call_shutdown_inv:
  assumes "status_inv R s"
  shows "status_inv R (call_shutdown R s)"
proof (cases "run_state s = RUNNING")
  case True
  then have "state_path (STOPPING # st_log s)" using assms by (intro inv_path) auto
  moreover have "st_wf s \<or> st_act s" using True assms by (simp add: status_inv_def subscribed_def)
  ultimately show ?thesis using True by (simp add: call_shutdown_def status_inv_def subscribed_def)
next
  case False
  then show ?thesis using assms by (simp add: call_shutdown_def throws_def status_inv_def subscribed_def)
qed

lemma draining_inv:
  assumes "status_inv R s" "run_state s = STOPPING"
  shows "status_inv R (set_state DRAINING s)"
proof -
  have "state_path (DRAINING # st_log s)" using assms by (intro inv_path) auto
  with assms show ?thesis by (simp add: status_inv_def subscribed_def)
qed

lemma initiated_inv: "status_inv R s \<Longrightarrow> status_inv R (s\<lparr>st_initiating := False\<rparr>)"
  by (simp add: status_inv_def subscribed_def)

lemma subscribed_log [simp]:
  "subscribed (s\<lparr>st_initiating := b\<rparr>) = subscribed s" "subscribed (s\<lparr>workflowPollerState := p\<rparr>) = subscribed s"
  "subscribed (s\<lparr>activityPollerState := p\<rparr>) = subscribed s" "subscribed (s\<lparr>st_clock := c\<rparr>) = subscribed s"
  by (simp_all add: subscribed_def)

lemma heartbeat_settled_inv:
  assumes i: "status_inv R s"
  shows "status_inv R (heartbeat_settled r s)"
proof (cases "st_hb s = 0")
  case False
  let ?s = "s\<lparr>st_hb := st_hb s - 1\<rparr>"
  have sub: "subscribed ?s = subscribed s" by (simp add: subscribed_def)
  show ?thesis
  proof (cases "run_state s = DRAINED")
    case True
    then have p: "state_path (STOPPED # st_log s)" "state_path (FAILED # st_log s)"
      using i by (auto intro!: inv_path)
    have "st_deadline s = None" using i True by (simp add: status_inv_def subscribed_def)
    then show ?thesis
      using p True False i
      by (cases r) (auto simp: heartbeat_settled_def check_stopped_def fail_run_def status_inv_def subscribed_def Let_def)
  next
    case nd: False
    then have "status_inv R ?s" using i sub by (simp add: status_inv_def)
    then show ?thesis
      using False nd fail_run_inv [of R ?s] by (cases r) (simp_all add: heartbeat_settled_def check_stopped_def Let_def)
  qed
qed (use i in \<open>simp add: heartbeat_settled_def\<close>)

lemma heartbeat_starts_inv: "status_inv R s \<Longrightarrow> subscribed s \<Longrightarrow> status_inv R (s\<lparr>st_hb := Suc (st_hb s)\<rparr>)"
  by (auto simp: status_inv_def subscribed_def)

lemma shutdown_initiated_inv: "status_inv R s \<Longrightarrow> status_inv R (shutdown_initiated r s)"
  using draining_inv [OF initiated_inv] fail_run_inv [OF initiated_inv] initiated_inv
  by (simp add: shutdown_initiated_def Let_def split: sum.split)

lemma poller_inv:
  "status_inv R s \<Longrightarrow> status_inv R (s\<lparr>workflowPollerState := p\<rparr>)" "status_inv R s \<Longrightarrow> status_inv R (s\<lparr>activityPollerState := p\<rparr>)"
  by (simp_all add: status_inv_def subscribed_def)

lemma no_deadline: "status_inv R s \<Longrightarrow> st_deadline s = Some d \<Longrightarrow> subscribed s"
  by (auto simp: status_inv_def)

lemma time_inv:
  assumes "status_inv R s"
  shows "status_inv R (force_shutdown (s\<lparr>st_clock := st_clock s + d\<rparr>))"
proof (cases "\<exists>t. st_deadline s = Some t \<and> t \<le> st_clock s + d")
  case True
  then obtain t where t: "st_deadline s = Some t" "t \<le> st_clock s + d" by blast
  with no_deadline [OF assms] have sub: "subscribed s" by blast
  have "state_path (FAILED # st_log s)" using assms sub by (intro inv_path) (auto simp: subscribed_def)
  with t show ?thesis by (simp add: force_shutdown_def fail_run_def status_inv_def subscribed_def)
next
  case False
  then have "force_shutdown (s\<lparr>st_clock := st_clock s + d\<rparr>) = s\<lparr>st_clock := st_clock s + d\<rparr>"
    by (auto simp: force_shutdown_def split: option.split)
  moreover have "status_inv R (s\<lparr>st_clock := st_clock s + d\<rparr>)"
    using assms False by (simp add: status_inv_def subscribed_def) (metis not_le)
  ultimately show ?thesis by simp
qed

lemma status_step_inv: "status_inv R s \<Longrightarrow> status_inv R (status_step R s e)"
  using heartbeat_settled_inv heartbeat_starts_inv call_run_inv call_shutdown_inv shutdown_initiated_inv completed_inv fail_run_inv time_inv
    poller_inv fail_run_inv [OF poller_inv(1)] fail_run_inv [OF poller_inv(2)]
  by (cases e) (simp_all add: workflow_poll_failed_def activity_poll_failed_def)

interpretation st: machine "status_step R" "status_inv R" "\<lambda>_ _. True" for R
  by unfold_locales (rule status_step_inv)

lemma new_worker_inv: "status_inv R new_worker"
  by (simp add: status_inv_def new_worker_def run_state_def subscribed_def)

lemma status_admissible: "st.all_admissible R s es"
  by (induction es arbitrary: s) auto

lemma status_run_inv: "status_inv R (run_steps (status_step R) new_worker es)"
  using st.run_inv [OF new_worker_inv status_admissible] .

text \<open>C17. Whatever is called and whatever happens, a worker goes only through the transitions of its life cycle:
  \<open>INITIALIZED\<close>, \<open>RUNNING\<close>, \<open>STOPPING\<close>, \<open>DRAINING\<close>, \<open>DRAINED\<close>, \<open>STOPPED\<close>, where \<open>STOPPING\<close> and \<open>DRAINING\<close> may be
  skipped and every state in which a stream runs may end in \<open>FAILED\<close>, \<open>DRAINED\<close> included, in which heartbeats may
  still be under way; \<open>STOPPED\<close> and \<open>FAILED\<close> are final.\<close>

theorem worker_life_cycle: "state_path (st_log (run_steps (status_step R) new_worker es))"
  using status_run_inv by (simp add: status_inv_def)

text \<open>C18. Once \<open>shutdown\<close> has been called on a worker with a forced shutdown after \<open>ms\<close> milliseconds, no more than these
  pass before it is \<open>STOPPED\<close> or \<open>FAILED\<close>, unless it is \<open>DRAINED\<close> with a heartbeat still under way: the race against the
  forced shutdown is decided by \<open>DRAINED\<close>, so nothing bounds the time that heartbeat takes.\<close>

theorem forced_shutdown_bound:
  assumes "s = run_steps (status_step R) new_worker es" and "st_stopped_at s = Some t"
    and "shutdownForceTimeMs R = Some ms" and "t + ms \<le> st_clock s" and "0 < ms"
  shows "run_state s = STOPPED \<or> run_state s = FAILED \<or> (run_state s = DRAINED \<and> 0 < st_hb s)"
proof -
  have "status_inv R s" using status_run_inv assms(1) by simp
  then show ?thesis using assms(2-5) by (cases "run_state s") (auto simp: status_inv_def subscribed_def)
qed

text \<open>Such a worker stays as it is however much time passes, until the heartbeat is settled; if that throws it fails, although
  it was drained.\<close>

lemma drained_worker_waits:
  assumes "s = run_steps (status_step R) new_worker es" and "run_state s = DRAINED"
  shows "run_state (status_step R s (TimePasses d)) = DRAINED"
    and "run_state (status_step R s (HeartbeatSettled (Inl e))) = FAILED"
proof -
  have "status_inv R s" using status_run_inv assms(1) by simp
  then have "st_deadline s = None" "0 < st_hb s" using assms(2) by (simp_all add: status_inv_def subscribed_def)
  then show "run_state (status_step R s (TimePasses d)) = DRAINED" "run_state (status_step R s (HeartbeatSettled (Inl e))) = FAILED"
    using assms(2) by (simp_all add: force_shutdown_def heartbeat_settled_def fail_run_def Let_def)
qed

lemma heartbeats_settle:
  "run_state s = DRAINED \<Longrightarrow> 0 < st_hb s \<Longrightarrow>
     run_state (run_steps (status_step R) s (replicate (st_hb s) (HeartbeatSettled (Inr ())))) = STOPPED"
proof (induction "st_hb s" arbitrary: s)
  case (Suc n)
  have s: "heartbeat_settled (Inr ()) s = check_stopped (s\<lparr>st_hb := n\<rparr>)"
    by (simp add: heartbeat_settled_def flip: Suc.hyps(2))
  show ?case
  proof (cases n)
    case 0
    then show ?thesis using Suc.prems by (simp add: s check_stopped_def flip: Suc.hyps(2))
  next
    case (Suc m)
    then have "check_stopped (s\<lparr>st_hb := n\<rparr>) = s\<lparr>st_hb := n\<rparr>" by (simp add: check_stopped_def)
    then show ?thesis using Suc Suc.hyps(1) [of "s\<lparr>st_hb := n\<rparr>"] Suc.prems s by (simp flip: Suc.hyps(2))
  qed
qed simp

text \<open>A worker whose workflows and activities complete after their polls have shut down stops once the heartbeats under
  way have been sent, whether or not core has confirmed the shutdown.\<close>

theorem drained_worker_stops:
  assumes "s = run_steps (status_step R) new_worker es" and "subscribed s"
    and "workflowPollerState s = SHUTDOWN" and "activityPollerState s = SHUTDOWN"
  shows "run_state (run_steps (status_step R) s
    ([WorkflowsComplete, ActivitiesComplete] @ replicate (st_hb s) (HeartbeatSettled (Inr ())))) = STOPPED"
proof -
  let ?u = "run_steps (status_step R) s [WorkflowsComplete, ActivitiesComplete]"
  have "st_wf s \<or> st_act s" using status_run_inv [of R es] assms(1,2) by (simp add: status_inv_def)
  then have "?u = check_stopped ?u \<and> st_hb ?u = st_hb s \<and> run_state ?u = (if st_hb s = 0 then STOPPED else DRAINED)"
    using assms(2-4)
    by (cases "st_wf s"; cases "st_act s") (simp_all add: check_drained_def check_stopped_def subscribed_def)
  then show ?thesis using heartbeats_settle [of ?u R] by (cases "st_hb s = 0") (simp_all add: run_steps_append)
qed

text \<open>A worker that core has let drain within the time of the forced shutdown still fails at the end of it: the error
  is raised unless the worker is drained by then, not, as documented, if the worker remains \<open>STOPPING\<close>.\<close>

theorem draining_worker_forced:
  assumes "s = run_steps (status_step R) new_worker es" and "run_state s = RUNNING" and "shutdownForceTimeMs R = Some ms"
    and "u = run_steps (status_step R) s [CallShutdown, ShutdownInitiated (Inr ())]" and "ms \<le> d"
  shows "run_state u = DRAINING \<and> run_state (status_step R u (TimePasses d)) = FAILED"
  using assms(2,3,5) unfolding assms(4)
  by (simp add: call_shutdown_def shutdown_initiated_def Let_def force_shutdown_def fail_run_def)

definition sample_options :: run_options where
  "sample_options = \<lparr>has_workflows = True, has_activities = False, shutdownForceTimeMs = Some 10\<rparr>"

definition sample_stop :: "status_event list" where
  "sample_stop = [CallRun, CallShutdown, WorkflowPollError (throw_plain ''ShutdownError'' [])]"

lemma sample_status:
  "run_state (run_steps (status_step sample_options) new_worker [CallRun]) = RUNNING"
  "st_stopped_at (run_steps (status_step sample_options) new_worker (sample_stop @ [TimePasses 11])) = Some 0"
  "st_clock (run_steps (status_step sample_options) new_worker (sample_stop @ [TimePasses 11])) = 11"
  "run_state (run_steps (status_step sample_options) new_worker sample_stop) = STOPPING"
  "workflowPollerState (run_steps (status_step sample_options) new_worker sample_stop) = SHUTDOWN"
  "activityPollerState (run_steps (status_step sample_options) new_worker sample_stop) = SHUTDOWN"
  "st_hb (run_steps (status_step sample_options) new_worker sample_stop) = 0"
  "st_hb (run_steps (status_step sample_options) new_worker (sample_stop @ [TimePasses 11])) = 0"
  "run_state (run_steps (status_step sample_options) new_worker
     ([CallRun, HeartbeatStarts] @ tl sample_stop @ [WorkflowsComplete, TimePasses 11])) = DRAINED"
  by code_simp+

theorem forced_shutdown_bound_witness:
  "run_state (run_steps (status_step sample_options) new_worker (sample_stop @ [TimePasses 11])) \<in> {STOPPED, FAILED}"
  using forced_shutdown_bound [OF refl sample_status(2), of 10] sample_status(3,8) by (simp add: sample_options_def)

theorem drained_worker_stops_witness:
  "run_state (run_steps (status_step sample_options) new_worker (sample_stop @ [WorkflowsComplete, ActivitiesComplete])) = STOPPED"
  using drained_worker_stops [OF refl, of sample_options sample_stop] sample_status(4-7)
  by (simp add: subscribed_def run_steps_append)

theorem draining_worker_forced_witness:
  "run_state (run_steps (status_step sample_options) new_worker [CallRun, CallShutdown, ShutdownInitiated (Inr ()), TimePasses 10]) = FAILED"
  using draining_worker_forced [OF refl sample_status(1) _ refl, of 10 10] by (simp add: sample_options_def)

end
