(* ===== verification/Worker_Replay.thy ===== *)
theory Worker_Replay
  imports Worker_Workflows Worker_Status
begin

text \<open>
  Running a worker for something: \<open>runUntil\<close>, \<open>runReplayHistory\<close>, \<open>runReplayHistories\<close> and \<open>validateHistory\<close> of
  packages/worker/src/worker.ts, and packages/worker/src/replay.ts. An asynchronous generator is its state and the
  function \<open>next\<close>; core's answer to a history it is given is an input.
\<close>

subsection \<open>Two promises\<close>

definition CombinedWorkerRunError :: "string \<Rightarrow> jsval \<Rightarrow> jsval \<Rightarrow> jsval" where
  "CombinedWorkerRunError msg workerError innerError =
     JError (PlainError ''CombinedWorkerRunError'' msg [] (JObj [(''workerError'', workerError), (''innerError'', innerError)]))"

definition runUntil :: "'r res \<Rightarrow> unit res \<Rightarrow> 'r res" where
  "runUntil innerResult workerRunResult =
     (case workerRunResult of
        Inl w \<Rightarrow>
          (case innerResult of
             Inl i \<Rightarrow> Inl (CombinedWorkerRunError ''Worker terminated with fatal error in `runUntil`'' w i)
           | Inr _ \<Rightarrow> Inl w)
      | Inr _ \<Rightarrow> innerResult)"

subsection \<open>The result of a replay\<close>

text \<open>The members of the generated enum \<open>EvictionReason\<close>; a reason it does not have is ignored by the \<open>switch\<close>.\<close>

definition not_an_error :: "string list" where
  "not_an_error = [''LANG_REQUESTED'', ''CACHE_FULL'']"

definition internal_reasons :: "string list" where
  "internal_reasons = [''UNSPECIFIED'', ''CACHE_MISS'', ''TASK_NOT_FOUND'', ''UNHANDLED_COMMAND'', ''PAGINATION_OR_HISTORY_FETCH'', ''FATAL'']"

definition show_message :: "string option \<Rightarrow> string" where
  "show_message m = (case m of Some s \<Rightarrow> s | None \<Rightarrow> ''undefined'')"

definition evictionReasonToReplayError :: "evict_job \<Rightarrow> jsval option" where
  "evictionReasonToReplayError job =
     (let internal = (\<lambda>code. Some (throw_plain ''ReplayError''
            (''Replay failed due to internal SDK issue. Code: '' @ code @ '', Details: '' @ show_message (ev_message job)))) in
      case ev_reason job of
        None \<Rightarrow> internal ''absent''
      | Some r \<Rightarrow>
          if r = ''NONDETERMINISM'' then
            Some (throw_plain ''DeterminismViolationError''
              (''Replay failed with a nondeterminism error. This means that the workflow code as written ''
               @ ''is not compatible with the history that was fed in. Details: '' @ show_message (ev_message job)))
          else if r = ''LANG_FAIL'' then
            Some (throw_plain ''ReplayError'' (''Replay failed due workflow task failure. Details: '' @ show_message (ev_message job)))
          else if r \<in> set not_an_error then None
          else if r = ''UNSPECIFIED'' then internal ''absent''
          else if r \<in> set internal_reasons then internal r
          else None)"

subsection \<open>Histories\<close>

text \<open>\<open>historyFromJSON\<close> is a parameter. \<open>events[0]\<close> of a value that is no array is \<open>undefined\<close> or throws.\<close>

definition validateHistory :: "(jsval \<Rightarrow> jsval res) \<Rightarrow> jsval \<Rightarrow> jsval res" where
  "validateHistory historyFromJSON history =
     (if js_typeof history \<noteq> ''object'' \<or> history = JNull then
        Inl (TypeError (''Expected a non-null history object, got '' @ js_typeof history))
      else case obj_field history ''events'' of
        JArr (e # _) \<Rightarrow>
          if e = JNull \<or> e = JUndefined then Inl (TypeError ''Cannot destructure property of undefined'')
          else (case obj_field e ''eventId'' of JStr _ \<Rightarrow> historyFromJSON history | _ \<Rightarrow> Inr history)
      | _ \<Rightarrow> Inl (TypeError ''Cannot destructure property of undefined''))"

subsection \<open>Replaying histories one by one\<close>

text \<open>What follows when a history is pushed: the push throws, the run ends first, or core evicts the workflow.\<close>

datatype history_outcome = PushFailed jsval | RunEnded jsval | EvictionsDone | Evicted string evict_job

record replay_result =
  rr_workflowId :: string
  rr_runId :: string
  rr_error :: "jsval option"

text \<open>
  \<open>rp_run\<close> is how the run of the worker ends, \<open>rp_closes\<close> whether \<open>closeHistoryStream\<close> returns; if it throws, the worker is
  not told to shut down.
\<close>

record replay =
  rp_histories :: "(jsval \<times> string) res list"
  rp_outcomes :: "history_outcome list"
  rp_run :: "unit res"
  rp_closes :: bool
  rp_done :: bool
  rp_shutdown :: bool

datatype iteration = Yield replay_result | Done | Threw jsval

text \<open>The \<open>finally\<close> block: the stream is closed and the worker shut down, errors of which are ignored, then the run is
  awaited.\<close>

definition run_error :: "unit res \<Rightarrow> jsval" where
  "run_error r = (case r of Inr _ \<Rightarrow> throw_plain ''ShutdownError'' ''Worker was shutdown'' | Inl e \<Rightarrow> e)"

definition replay_finish :: "jsval option \<Rightarrow> replay \<Rightarrow> iteration \<times> replay" where
  "replay_finish innerError s =
     (let s1 = s\<lparr>rp_done := True, rp_shutdown := rp_shutdown s \<or> rp_closes s\<rparr>; err = run_error (rp_run s);
          inner = (if innerError = Some JUndefined then None else innerError) in
      (if is_shutdown_error err then (case inner of Some i \<Rightarrow> Threw i | None \<Rightarrow> Done)
       else (case inner of
           None \<Rightarrow> Threw err
         | Some i \<Rightarrow> Threw (CombinedWorkerRunError ''Worker run failed with inner error'' err i)), s1))"

text \<open>\<open>next\<close> of the generator. A missing outcome is the run that ends while a history is replayed.\<close>

definition replay_next :: "(jsval \<Rightarrow> jsval res) \<Rightarrow> replay \<Rightarrow> iteration \<times> replay" where
  "replay_next historyFromJSON s =
     (if rp_done s then (Done, s)
      else case rp_histories s of
        [] \<Rightarrow> replay_finish None s
      | Inl e # hs \<Rightarrow> replay_finish (Some e) (s\<lparr>rp_histories := hs\<rparr>)
      | Inr (history, workflowId) # hs \<Rightarrow>
          let s1 = s\<lparr>rp_histories := hs, rp_outcomes := tl (rp_outcomes s)\<rparr> in
          (case validateHistory historyFromJSON history of
             Inl e \<Rightarrow> replay_finish (Some e) s1
           | Inr _ \<Rightarrow>
               (case (if rp_outcomes s = [] then RunEnded (run_error (rp_run s)) else hd (rp_outcomes s)) of
                  PushFailed e \<Rightarrow> replay_finish (Some e) s1
                | RunEnded e \<Rightarrow> replay_finish (Some e) s1
                | EvictionsDone \<Rightarrow> replay_finish None s1
                | Evicted runId job \<Rightarrow>
                    (Yield \<lparr>rr_workflowId = workflowId, rr_runId = runId, rr_error = evictionReasonToReplayError job\<rparr>, s1))))"

text \<open>A consumer that iterates to the end.\<close>

lemma replay_finish_done: "replay_finish i s = (x, s') \<Longrightarrow> rp_done s' \<and> rp_shutdown s' = (rp_shutdown s \<or> rp_closes s) \<and> (\<forall>r. x \<noteq> Yield r)"
  by (auto simp: replay_finish_def Let_def split: if_splits option.splits)

lemma replay_next_cases:
  assumes "replay_next f s = (x, s')"
  obtains (over) "rp_done s" "x = Done" "s' = s"
    | (ended) "\<not> rp_done s" "rp_done s'" "rp_shutdown s' = (rp_shutdown s \<or> rp_closes s)" "\<forall>r. x \<noteq> Yield r"
    | (yielded) h hs where "\<not> rp_done s" "rp_histories s = h # hs" "rp_histories s' = hs" "rp_done s' = rp_done s"
        "rp_shutdown s' = rp_shutdown s" "rp_closes s' = rp_closes s" "rp_outcomes s' = tl (rp_outcomes s)" "\<exists>r. x = Yield r"
  using assms
  by (auto simp: replay_next_def Let_def split: if_splits list.splits sum.splits prod.splits history_outcome.splits
      dest!: replay_finish_done) blast+

function replay_all :: "(jsval \<Rightarrow> jsval res) \<Rightarrow> replay \<Rightarrow> replay_result list \<times> iteration \<times> replay" where
  "replay_all f s =
     (case replay_next f s of
        (Yield r, s') \<Rightarrow> (case replay_all f s' of (rs, x, t) \<Rightarrow> (r # rs, x, t))
      | (x, s') \<Rightarrow> ([], x, s'))"
  by pat_completeness auto

termination
proof (relation "measure (\<lambda>(f, s). length (rp_histories s))")
  fix f s s' x r
  assume "(x, s') = replay_next f s" "x = Yield r"
  then have "replay_next f s = (Yield r, s')" by simp
  then show "((f, s'), f, s) \<in> measure (\<lambda>(f, s). length (rp_histories s))"
    by (cases rule: replay_next_cases) auto
qed auto

declare replay_all.simps [simp del]

definition runReplayHistory :: "(jsval \<Rightarrow> jsval res) \<Rightarrow> jsval \<Rightarrow> string option \<Rightarrow> (jsval \<Rightarrow> replay) \<Rightarrow> unit res \<times> replay option" where
  "runReplayHistory f history workflowId start =
     (case validateHistory f history of
        Inl e \<Rightarrow> (Inl e, None)
      | Inr validated \<Rightarrow>
          (case replay_next f ((start validated)
              \<lparr>rp_histories := [Inr (validated, case workflowId of Some w \<Rightarrow> w | None \<Rightarrow> ''fake'')]\<rparr>) of
             (Done, s) \<Rightarrow> (Inl (IllegalStateError ''Expected at least one replay result''), Some s)
           | (Threw e, s) \<Rightarrow> (Inl e, Some s)
           | (Yield r, s) \<Rightarrow> ((case rr_error r of Some e \<Rightarrow> Inl e | None \<Rightarrow> Inr ()), Some s)))"

text \<open>C23. Replaying histories ends after no more results than there are histories, in the order in which they were given,
  and the worker has then been shut down, unless the history stream could not be closed.\<close>

theorem replay_ends:
  assumes "\<not> rp_done s" and "replay_all f s = (rs, x, t)"
  shows "(rp_shutdown t \<longleftrightarrow> rp_shutdown s \<or> rp_closes s) \<and> rp_done t \<and> (\<forall>r. x \<noteq> Yield r)
    \<and> map rr_workflowId rs = take (length rs) (map (case_sum (\<lambda>_. []) snd) (rp_histories s))"
  using assms
proof (induction f s arbitrary: rs x t rule: replay_all.induct)
  case (1 f s)
  obtain y s' where n: "replay_next f s = (y, s')" by fastforce
  then show ?case
  proof (cases rule: replay_next_cases)
    case over
    with "1.prems" show ?thesis by simp
  next
    case ended
    then show ?thesis using "1.prems" n by (auto simp: replay_all.simps [of f s] split: iteration.splits)
  next
    case (yielded h hs)
    then obtain r where y: "y = Yield r" by blast
    obtain rs' x' t' where a: "replay_all f s' = (rs', x', t')" by (metis prod_cases3)
    with "1.prems"(2) n y have e: "rs = r # rs'" "x = x'" "t = t'" by (simp_all add: replay_all.simps [of f s])
    have "\<exists>hist w. h = Inr (hist, w) \<and> rr_workflowId r = w"
      using n y yielded(1,2)
      by (auto simp: replay_next_def Let_def split: sum.splits prod.splits history_outcome.splits dest: replay_finish_done)
    then show ?thesis using "1.IH" [OF n [symmetric] y _ a] yielded e by auto
  qed
qed

text \<open>\<open>runReplayHistory\<close> asks its generator for one result only: when core evicts the replayed workflow, the result
  is returned or thrown while the generator waits after its \<open>yield\<close>, and the worker it runs is not shut down.\<close>

theorem single_replay_leaves_worker:
  assumes "validateHistory f history = Inr validated" and "validateHistory f validated = Inr validated'"
    and "\<not> rp_done (start validated)" and "\<not> rp_shutdown (start validated)"
    and "rp_outcomes (start validated) = Evicted runId job # out"
  shows "\<exists>s. runReplayHistory f history workflowId start =
      ((case evictionReasonToReplayError job of Some e \<Rightarrow> Inl e | None \<Rightarrow> Inr ()), Some s)
    \<and> \<not> rp_shutdown s \<and> \<not> rp_done s"
  using assms by (simp add: runReplayHistory_def replay_next_def Let_def)

text \<open>No error is lost: \<open>runUntil\<close> returns a value exactly if neither promise was rejected, and otherwise throws an
  error that is the rejection or has it among its causes.\<close>

lemma runUntil_reports_errors:
  "(runUntil i w = Inr x \<longleftrightarrow> i = Inr x \<and> w = Inr ()) \<and>
   (i = Inl e \<or> w = Inl e \<longleftrightarrow>
      runUntil i w = Inl e \<and> (isl i \<longleftrightarrow> \<not> isl w) \<or>
      (\<exists>e1 e2. e \<in> {e1, e2} \<and> w = Inl e1 \<and> i = Inl e2
        \<and> runUntil i w = Inl (CombinedWorkerRunError ''Worker terminated with fatal error in `runUntil`'' e1 e2)))"
  by (cases i; cases w) (auto simp: runUntil_def)

definition sample_history :: jsval where
  "sample_history = JObj [(''events'', JArr [JObj [(''eventId'', JNum (int_num 1))]])]"

definition sample_replay :: "jsval \<Rightarrow> replay" where
  "sample_replay h = \<lparr>rp_histories = [Inr (h, ''w1''), Inr (h, ''w2'')],
     rp_outcomes = [Evicted ''r1'' \<lparr>ev_reason = Some ''LANG_REQUESTED'', ev_message = None\<rparr>], rp_run = Inl (throw_plain ''Error'' ''core''),
     rp_closes = True, rp_done = False, rp_shutdown = False\<rparr>"

lemma sample_valid: "validateHistory Inr sample_history = Inr sample_history"
  by (simp add: validateHistory_def sample_history_def)

lemma sample_replay_run:
  "replay_all Inr (sample_replay sample_history) = (rs, x, t) \<Longrightarrow> rs = [\<lparr>rr_workflowId = ''w1'', rr_runId = ''r1'', rr_error = None\<rparr>]"
  by (simp add: sample_replay_def sample_valid replay_all.simps replay_next_def replay_finish_def Let_def run_error_def
      is_shutdown_error_def throw_plain_def evictionReasonToReplayError_def not_an_error_def)

theorem replay_ends_witness:
  "\<exists>rs x t. replay_all Inr (sample_replay sample_history) = (rs, x, t) \<and> length rs = 1 \<and> rp_shutdown t
    \<and> map rr_workflowId rs = take 1 [''w1'', ''w2'']"
proof -
  obtain rs x t where r: "replay_all Inr (sample_replay sample_history) = (rs, x, t)" by (metis prod_cases3)
  moreover have "\<not> rp_done (sample_replay sample_history)" by (simp add: sample_replay_def)
  ultimately show ?thesis using replay_ends [OF _ r] sample_replay_run [OF r] by (auto simp: sample_replay_def)
qed

theorem single_replay_leaves_worker_witness:
  "\<exists>s. runReplayHistory Inr sample_history None sample_replay = (Inr (), Some s) \<and> \<not> rp_shutdown s \<and> \<not> rp_done s"
  using single_replay_leaves_worker [OF sample_valid sample_valid, of sample_replay "''r1''"
      "\<lparr>ev_reason = Some ''LANG_REQUESTED'', ev_message = None\<rparr>" "[]" None]
  by (simp add: sample_replay_def evictionReasonToReplayError_def not_an_error_def)

end
