(* ===== verification/Grpc_Retry.thy ===== *)
theory Grpc_Retry
  imports Sdk_Prelude
begin

text \<open>
  The retry interceptor of the client, packages/client/src/grpc-retry.ts. A status code is its name in the enum of
  the gRPC library, numbers are rationals, \<open>Math.random()\<close> is an argument. What the library relies on: an attempt
  receives its message, which is \<open>null\<close> when it fails, and then its status.
\<close>

subsection \<open>Options\<close>

record StatusObject =
  code :: string
  details :: string

record GrpcRetryOptions =
  delayFunction :: "nat \<Rightarrow> StatusObject \<Rightarrow> rat \<Rightarrow> rat"
  retryableDecider :: "nat \<Rightarrow> StatusObject \<Rightarrow> bool"

record BackoffOptions =
  factor :: rat
  maxAttempts :: rat
  maxJitter :: rat
  initialIntervalMs :: "StatusObject \<Rightarrow> rat"
  maxIntervalMs :: "StatusObject \<Rightarrow> rat"

record PartialBackoffOptions =
  opt_factor :: "rat option"
  opt_maxAttempts :: "rat option"
  opt_maxJitter :: "rat option"
  opt_initialIntervalMs :: "(StatusObject \<Rightarrow> rat) option"
  opt_maxIntervalMs :: "(StatusObject \<Rightarrow> rat) option"

definition defaultInitialIntervalMs :: "StatusObject \<Rightarrow> rat" where
  "defaultInitialIntervalMs status = (if code status = ''RESOURCE_EXHAUSTED'' then 1000 else 20)"

definition or_default :: "'a option \<Rightarrow> 'a \<Rightarrow> 'a" where
  "or_default x d = (case x of Some y \<Rightarrow> y | None \<Rightarrow> d)"

definition withDefaultBackoffOptions :: "PartialBackoffOptions \<Rightarrow> BackoffOptions" where
  "withDefaultBackoffOptions p =
     \<lparr>factor = or_default (opt_factor p) 2, maxAttempts = or_default (opt_maxAttempts p) 10,
      maxJitter = or_default (opt_maxJitter p) (1 / 10),
      initialIntervalMs = or_default (opt_initialIntervalMs p) defaultInitialIntervalMs, maxIntervalMs = (\<lambda>_. 10000)\<rparr>"

definition retryableCodes :: "string list" where
  "retryableCodes = [''UNKNOWN'', ''RESOURCE_EXHAUSTED'', ''UNAVAILABLE'', ''ABORTED'', ''DATA_LOSS'', ''OUT_OF_RANGE'']"

definition isRetryableError :: "StatusObject \<Rightarrow> bool" where
  "isRetryableError status \<longleftrightarrow> code status \<in> set retryableCodes"

definition jitter :: "rat \<Rightarrow> rat \<Rightarrow> rat" where
  "jitter m random = 1 - m + random * m * 2"

definition defaultGrpcRetryOptions :: "PartialBackoffOptions \<Rightarrow> GrpcRetryOptions" where
  "defaultGrpcRetryOptions options =
     (let b = withDefaultBackoffOptions options in
      \<lparr>delayFunction = (\<lambda>attempt status random.
         min (maxIntervalMs b status) (factor b ^ attempt * initialIntervalMs b status) * jitter (maxJitter b) random),
       retryableDecider = (\<lambda>attempt status. rat_of_nat attempt < maxAttempts b \<and> isRetryableError status)\<rparr>)"

subsection \<open>The interceptor\<close>

text \<open>
  One call. \<open>rc_sent\<close> are the messages sent, one for each attempt; \<open>rc_delays\<close> the delays of the timers set;
  \<open>rc_timer\<close> tells whether one is running, \<open>rc_open\<close> whether an attempt is under way.
\<close>

record ('q, 'a) retry_call =
  rc_attempt :: nat
  rc_open :: bool
  rc_timer :: bool
  rc_savedSendMessage :: 'q
  rc_savedReceiveMessage :: 'a
  rc_sent :: "'q list"
  rc_delays :: "rat list"
  rc_retried :: "StatusObject list"
  rc_delivered :: "('a \<times> StatusObject) list"

definition start_call :: "'q \<Rightarrow> 'a \<Rightarrow> ('q, 'a) retry_call" where
  "start_call request undef = \<lparr>rc_attempt = 1, rc_open = True, rc_timer = False, rc_savedSendMessage = request,
     rc_savedReceiveMessage = undef, rc_sent = [request], rc_delays = [], rc_retried = [], rc_delivered = []\<rparr>"

definition onReceiveStatus :: "GrpcRetryOptions \<Rightarrow> StatusObject \<Rightarrow> rat \<Rightarrow> ('q, 'a) retry_call \<Rightarrow> ('q, 'a) retry_call" where
  "onReceiveStatus R status random s =
     (let s1 = s\<lparr>rc_open := False\<rparr> in
      if retryableDecider R (rc_attempt s1) status then
        s1\<lparr>rc_timer := True, rc_delays := rc_delays s1 @ [delayFunction R (rc_attempt s1) status random],
           rc_retried := rc_retried s1 @ [status]\<rparr>
      else s1\<lparr>rc_delivered := rc_delivered s1 @ [(rc_savedReceiveMessage s1, status)]\<rparr>)"

definition retry :: "('q, 'a) retry_call \<Rightarrow> ('q, 'a) retry_call" where
  "retry s = s\<lparr>rc_timer := False, rc_attempt := rc_attempt s + 1, rc_open := True,
     rc_sent := rc_sent s @ [rc_savedSendMessage s]\<rparr>"

datatype 'a retry_event = ReceiveMessage 'a | ReceiveStatus StatusObject rat | TimerFires

fun retry_step :: "GrpcRetryOptions \<Rightarrow> ('q, 'a) retry_call \<Rightarrow> 'a retry_event \<Rightarrow> ('q, 'a) retry_call" where
  "retry_step R s (ReceiveMessage m) = (if rc_open s then s\<lparr>rc_savedReceiveMessage := m\<rparr> else s)"
| "retry_step R s (ReceiveStatus status random) = (if rc_open s then onReceiveStatus R status random s else s)"
| "retry_step R s TimerFires = (if rc_timer s then retry s else s)"

subsection \<open>Attempts and delays\<close>

definition random_ok :: "'a retry_event \<Rightarrow> bool" where
  "random_ok e = (case e of ReceiveStatus _ r \<Rightarrow> 0 \<le> r \<and> r < 1 | _ \<Rightarrow> True)"

text \<open>The invariant: the request is sent once for each attempt, attempts are retried for retryable errors only and
  within the limit, delays are within the bounds, and one status is delivered, to end the call.\<close>

definition retry_inv :: "'q \<Rightarrow> PartialBackoffOptions \<Rightarrow> ('q, 'a) retry_call \<Rightarrow> bool" where
  "retry_inv request p s \<longleftrightarrow>
     rc_savedSendMessage s = request \<and> rc_sent s = replicate (rc_attempt s) request \<and> 1 \<le> rc_attempt s
     \<and> length (rc_retried s) = (if rc_timer s then rc_attempt s else rc_attempt s - 1)
     \<and> length (rc_delays s) = length (rc_retried s)
     \<and> (1 < rc_attempt s \<or> rc_timer s \<longrightarrow> rat_of_nat (length (rc_retried s)) < or_default (opt_maxAttempts p) 10)
     \<and> (\<forall>st \<in> set (rc_retried s). isRetryableError st)
     \<and> length (rc_delivered s) = (if rc_open s \<or> rc_timer s then 0 else 1)
     \<and> \<not> (rc_open s \<and> rc_timer s)"

definition delays_ok :: "PartialBackoffOptions \<Rightarrow> ('q, 'a) retry_call \<Rightarrow> bool" where
  "delays_ok p s \<longleftrightarrow> (\<forall>d \<in> set (rc_delays s). 0 \<le> d \<and> d \<le> 10000 * (1 + or_default (opt_maxJitter p) (1 / 10)))"

definition sane_options :: "PartialBackoffOptions \<Rightarrow> bool" where
  "sane_options p \<longleftrightarrow> 0 \<le> or_default (opt_factor p) 2 \<and> 0 \<le> or_default (opt_maxJitter p) (1 / 10)
     \<and> or_default (opt_maxJitter p) (1 / 10) \<le> 1
     \<and> (\<forall>st. 0 \<le> or_default (opt_initialIntervalMs p) defaultInitialIntervalMs st)"

lemma jitter_bounds:
  assumes "0 \<le> m" "m \<le> 1" "0 \<le> r" "r < 1"
  shows "0 \<le> jitter m r" "jitter m r \<le> 1 + m"
proof -
  have "0 \<le> m * r" "m * r \<le> m * 1" using assms by (simp, intro mult_left_mono) simp_all
  then show "0 \<le> jitter m r" "jitter m r \<le> 1 + m" using assms by (simp_all add: jitter_def)
qed

lemma delay_bounds:
  assumes "sane_options p" "0 \<le> r" "r < 1"
  shows "0 \<le> delayFunction (defaultGrpcRetryOptions p) n st r"
    and "delayFunction (defaultGrpcRetryOptions p) n st r \<le> 10000 * (1 + or_default (opt_maxJitter p) (1 / 10))"
proof -
  let ?m = "or_default (opt_maxJitter p) (1 / 10)"
  let ?b = "min 10000 (or_default (opt_factor p) 2 ^ n * or_default (opt_initialIntervalMs p) defaultInitialIntervalMs st)"
  have j: "0 \<le> jitter ?m r" "jitter ?m r \<le> 1 + ?m" using jitter_bounds assms by (simp_all add: sane_options_def)
  have b: "0 \<le> ?b" "?b \<le> 10000" using assms(1) by (simp_all add: sane_options_def)
  have d: "delayFunction (defaultGrpcRetryOptions p) n st r = ?b * jitter ?m r"
    by (simp add: defaultGrpcRetryOptions_def withDefaultBackoffOptions_def Let_def)
  show "0 \<le> delayFunction (defaultGrpcRetryOptions p) n st r" unfolding d using b j by simp
  show "delayFunction (defaultGrpcRetryOptions p) n st r \<le> 10000 * (1 + ?m)"
    unfolding d using mult_mono [OF b(2) j(2) _ j(1)] by simp
qed

lemma decider: "retryableDecider (defaultGrpcRetryOptions p) n st \<longleftrightarrow>
    rat_of_nat n < or_default (opt_maxAttempts p) 10 \<and> isRetryableError st"
  by (simp add: defaultGrpcRetryOptions_def withDefaultBackoffOptions_def Let_def)

lemma retry_inv_message [simp]: "retry_inv q p (s\<lparr>rc_savedReceiveMessage := m\<rparr>) = retry_inv q p s"
  by (simp add: retry_inv_def)

lemma retry_step_inv:
  assumes "retry_inv q p s"
  shows "retry_inv q p (retry_step (defaultGrpcRetryOptions p) s e)"
proof (cases e)
  case (ReceiveMessage m)
  then show ?thesis using assms by simp
next
  case (ReceiveStatus st r)
  then show ?thesis
    using assms by (cases "rc_attempt s") (auto simp: retry_inv_def onReceiveStatus_def Let_def decider)
next
  case TimerFires
  then show ?thesis using assms by (auto simp: retry_inv_def retry_def replicate_append_same)
qed

lemma retry_step_delays:
  assumes "delays_ok p s" "sane_options p" "random_ok e"
  shows "delays_ok p (retry_step (defaultGrpcRetryOptions p) s e)"
  using assms delay_bounds [OF assms(2)]
  by (cases e) (auto simp: delays_ok_def onReceiveStatus_def Let_def retry_def random_ok_def)

interpretation gr: machine "retry_step (defaultGrpcRetryOptions p)" "\<lambda>s. retry_inv q p s \<and> delays_ok p s"
    "\<lambda>_ e. sane_options p \<and> random_ok e" for p q
  by unfold_locales (auto intro: retry_step_inv retry_step_delays)

lemma start_call_inv: "retry_inv q p (start_call q u) \<and> delays_ok p (start_call q u)"
  by (simp add: retry_inv_def delays_ok_def start_call_def)

lemma retry_admissible: "sane_options p \<Longrightarrow> \<forall>e \<in> set es. random_ok e \<Longrightarrow> gr.all_admissible p s es"
proof (induction es arbitrary: s)
  case Nil
  show ?case unfolding gr.all_admissible.simps ..
next
  case (Cons e es)
  have "gr.all_admissible p (retry_step (defaultGrpcRetryOptions p) s e) es" using Cons.prems by (intro Cons.IH) auto
  with Cons.prems show ?case unfolding gr.all_admissible.simps by auto
qed

text \<open>C25. With the default behaviour a call is attempted at most \<open>maxAttempts\<close> times, and at least once; it is retried only
  for retryable errors, each attempt sends the same request, each delay is at most 10 seconds plus jitter, and at
  most one response is delivered, for the last attempt.\<close>

theorem grpc_retries_bounded:
  assumes "sane_options p" and "\<forall>e \<in> set es. random_ok e"
    and "s = run_steps (retry_step (defaultGrpcRetryOptions p)) (start_call request undef) es"
  shows "rat_of_nat (length (rc_sent s)) \<le> max 1 (of_int \<lceil>or_default (opt_maxAttempts p) 10\<rceil>)
    \<and> set (rc_sent s) = {request} \<and> (\<forall>st \<in> set (rc_retried s). isRetryableError st)
    \<and> (\<forall>d \<in> set (rc_delays s). 0 \<le> d \<and> d \<le> 10000 * (1 + or_default (opt_maxJitter p) (1 / 10)))
    \<and> length (rc_delivered s) \<le> 1"
proof -
  have i: "retry_inv request p s" "delays_ok p s"
    using gr.run_inv [OF start_call_inv [of request p undef] retry_admissible [OF assms(1,2), of "start_call request undef"]]
    unfolding assms(3) by simp_all
  have "rat_of_nat (rc_attempt s) \<le> max 1 (of_int \<lceil>or_default (opt_maxAttempts p) 10\<rceil>)"
  proof (cases "1 < rc_attempt s")
    case True
    have "int (rc_attempt s) - 1 < \<lceil>or_default (opt_maxAttempts p) 10\<rceil>"
      using i(1) True by (auto simp: retry_inv_def less_ceiling_iff of_nat_diff split: if_splits)
    then have "int (rc_attempt s) \<le> \<lceil>or_default (opt_maxAttempts p) 10\<rceil>" by simp
    then show ?thesis by (metis max.coboundedI2 of_int_le_iff of_int_of_nat_eq)
  qed simp
  then show ?thesis using i by (auto simp: retry_inv_def delays_ok_def split: if_splits)
qed

definition sample_backoff :: PartialBackoffOptions where
  "sample_backoff = \<lparr>opt_factor = None, opt_maxAttempts = Some 2, opt_maxJitter = None, opt_initialIntervalMs = None,
     opt_maxIntervalMs = Some (\<lambda>_. 5)\<rparr>"

lemma sample_sane: "sane_options sample_backoff"
  by (simp add: sane_options_def sample_backoff_def or_default_def defaultInitialIntervalMs_def)

theorem grpc_retries_bounded_witness:
  "rat_of_nat (length (rc_sent (run_steps (retry_step (defaultGrpcRetryOptions sample_backoff)) (start_call ''q'' None)
     [ReceiveStatus \<lparr>code = ''UNAVAILABLE'', details = []\<rparr> (1 / 2), TimerFires, ReceiveMessage (Some ''r'')]))) \<le> 2"
  using grpc_retries_bounded [OF sample_sane _ refl,
      of "[ReceiveStatus \<lparr>code = ''UNAVAILABLE'', details = []\<rparr> (1 / 2), TimerFires, ReceiveMessage (Some ''r'')]" "''q''" None]
  by (simp add: random_ok_def sample_backoff_def or_default_def)

end
