(* ===== verification/Schedules.thy ===== *)
theory Schedules
  imports Codecs
begin

text \<open>
  Schedules of the client: packages/client/src/schedule-helpers.ts with the parts of schedule-types.ts it works on.
  A schedule specification is encoded for the server, which sends it back to be described; the description can be
  used for an update. Values of a specification are JavaScript values, as the code checks them.
\<close>

subsection \<open>Fields of a calendar\<close>

record irange =
  r_start :: jsnum
  r_end :: jsnum
  r_step :: jsnum

text \<open>\<open>makeCalendarSpecFieldCoders\<close>: the arguments of a field.\<close>

record coder =
  c_fieldName :: string
  c_encodeValue :: "jsval \<Rightarrow> jsnum option"
  c_decodeValue :: "jsnum \<Rightarrow> jsval"
  c_default :: "irange list"
  c_matchAll :: "irange list"

definition mk_range :: "int \<Rightarrow> int \<Rightarrow> int \<Rightarrow> irange" where
  "mk_range a b c = \<lparr>r_start = int_num a, r_end = int_num b, r_step = int_num c\<rparr>"

definition number_in :: "int \<Rightarrow> int \<Rightarrow> jsval \<Rightarrow> jsnum option" where
  "number_in lo hi x = (case x of JNum n \<Rightarrow> if js_le (int_num lo) n \<and> js_le n (int_num hi) then Some n else None | _ \<Rightarrow> None)"

definition MONTHS :: "string list" where
  "MONTHS = [''JANUARY'', ''FEBRUARY'', ''MARCH'', ''APRIL'', ''MAY'', ''JUNE'', ''JULY'', ''AUGUST'', ''SEPTEMBER'', ''OCTOBER'',
     ''NOVEMBER'', ''DECEMBER'']"

definition DAYS_OF_WEEK :: "string list" where
  "DAYS_OF_WEEK = [''SUNDAY'', ''MONDAY'', ''TUESDAY'', ''WEDNESDAY'', ''THURSDAY'', ''FRIDAY'', ''SATURDAY'']"

fun index_of :: "string list \<Rightarrow> jsval \<Rightarrow> nat option" where
  "index_of (s # ss) (JStr t) = (if s = t then Some 0 else map_option Suc (index_of ss (JStr t)))"
| "index_of _ _ = None"

text \<open>\<open>names[i]\<close> for a number \<open>i\<close>.\<close>

definition name_at :: "string list \<Rightarrow> jsnum \<Rightarrow> jsval" where
  "name_at names i =
     (case i of
        Fin q \<Rightarrow> if js_isInteger i \<and> 0 \<le> q \<and> q < of_nat (length names) then JStr (names ! nat \<lfloor>q\<rfloor>) else JUndefined
      | _ \<Rightarrow> JUndefined)"

fun js_pred :: "jsnum \<Rightarrow> jsnum" where
  "js_pred (Fin q) = Fin (q - 1)"
| "js_pred n = n"

definition secondCoder :: coder where
  "secondCoder = \<lparr>c_fieldName = ''second'', c_encodeValue = number_in 0 59, c_decodeValue = JNum,
     c_default = [mk_range 0 0 0], c_matchAll = [mk_range 0 59 1]\<rparr>"

definition minuteCoder :: coder where
  "minuteCoder = \<lparr>c_fieldName = ''minute'', c_encodeValue = number_in 0 59, c_decodeValue = JNum,
     c_default = [mk_range 0 0 0], c_matchAll = [mk_range 0 59 1]\<rparr>"

definition hourCoder :: coder where
  "hourCoder = \<lparr>c_fieldName = ''hour'', c_encodeValue = number_in 0 23, c_decodeValue = JNum,
     c_default = [mk_range 0 0 0], c_matchAll = [mk_range 0 23 1]\<rparr>"

definition dayOfMonthCoder :: coder where
  "dayOfMonthCoder = \<lparr>c_fieldName = ''dayOfMonth'', c_encodeValue = number_in 0 31, c_decodeValue = JNum,
     c_default = [mk_range 1 31 1], c_matchAll = [mk_range 1 31 1]\<rparr>"

definition monthCoder :: coder where
  "monthCoder = \<lparr>c_fieldName = ''month'', c_encodeValue = (\<lambda>x. map_option (\<lambda>i. int_num (int i + 1)) (index_of MONTHS x)),
     c_decodeValue = (\<lambda>n. name_at MONTHS (js_pred n)), c_default = [mk_range 1 12 1], c_matchAll = [mk_range 1 12 1]\<rparr>"

definition yearCoder :: coder where
  "yearCoder = \<lparr>c_fieldName = ''year'', c_encodeValue = (\<lambda>x. case x of JNum n \<Rightarrow> Some n | _ \<Rightarrow> None), c_decodeValue = JNum,
     c_default = [], c_matchAll = []\<rparr>"

definition dayOfWeekCoder :: coder where
  "dayOfWeekCoder = \<lparr>c_fieldName = ''dayOfWeek'', c_encodeValue = (\<lambda>x. map_option (\<lambda>i. int_num (int i)) (index_of DAYS_OF_WEEK x)),
     c_decodeValue = name_at DAYS_OF_WEEK, c_default = [mk_range 0 6 1], c_matchAll = [mk_range 0 6 1]\<rparr>"

text \<open>\<open>encoder\<close>: an item is a range, of which \<open>start\<close> is a value of the field, or a value of the field.\<close>

definition encode_range :: "coder \<Rightarrow> jsval \<Rightarrow> irange option" where
  "encode_range c item =
     (if js_typeof item = ''object'' \<and> obj_field item ''start'' \<noteq> JUndefined then
        (case c_encodeValue c (obj_field item ''start'') of
           None \<Rightarrow> None
         | Some start \<Rightarrow>
             Some \<lparr>r_start = start,
                   r_end = (if obj_field item ''end'' \<noteq> JUndefined then
                              (case c_encodeValue c (obj_field item ''end'') of Some e \<Rightarrow> e | None \<Rightarrow> start)
                            else int_num 1),
                   r_step = (case obj_field item ''step'' of
                               JNum n \<Rightarrow> if js_lt (int_num 0) n then n else int_num 1
                             | _ \<Rightarrow> int_num 1)\<rparr>)
      else None)"

definition quoted :: "string \<Rightarrow> string" where
  "quoted s = [CHR 0x27] @ s @ [CHR 0x27]"

definition encode_item :: "text_env \<Rightarrow> coder \<Rightarrow> jsval \<Rightarrow> irange res" where
  "encode_item T c item =
     (if item = JNull then Inl (TypeError ''Cannot read properties of null (reading start)'')
      else case encode_range c item of
        Some r \<Rightarrow> Inr r
      | None \<Rightarrow>
          (case (if item \<noteq> JUndefined then c_encodeValue c item else None) of
             Some v \<Rightarrow> Inr \<lparr>r_start = v, r_end = v, r_step = int_num 1\<rparr>
           | None \<Rightarrow> Inl (TypeError (''Invalid CalendarSpec component for field '' @ c_fieldName c @ '': '' @ quoted (stringOf T item)
                            @ '' of type '' @ quoted (js_typeof item)))))"

definition encoder :: "text_env \<Rightarrow> coder \<Rightarrow> jsval \<Rightarrow> irange list res" where
  "encoder T c input =
     (case input of
        JUndefined \<Rightarrow> Inr (c_default c)
      | JArr items \<Rightarrow> map_res (encode_item T c) items
      | _ \<Rightarrow> if input = JStr ''*'' then Inr (c_matchAll c) else map_res (encode_item T c) [input])"

definition decode_range :: "coder \<Rightarrow> irange \<Rightarrow> jsval" where
  "decode_range c pb =
     (let start = c_decodeValue c (r_start pb) in
      JObj [(''start'', start),
            (''end'', if js_lt (r_start pb) (r_end pb) then
                        (case c_decodeValue c (r_end pb) of JUndefined \<Rightarrow> start | JNull \<Rightarrow> start | e \<Rightarrow> e)
                      else start),
            (''step'', JNum (if js_lt (int_num 0) (r_step pb) then r_step pb else int_num 1))])"

definition decoder :: "coder \<Rightarrow> irange list option \<Rightarrow> jsval list" where
  "decoder c input = (case input of None \<Rightarrow> [] | Some pbs \<Rightarrow> map (decode_range c) pbs)"

subsection \<open>Calendars\<close>

text \<open>\<open>CalendarSpec\<close>, and its description, whose fields are arrays of ranges.\<close>

record calendar_spec =
  cs_second :: jsval
  cs_minute :: jsval
  cs_hour :: jsval
  cs_dayOfMonth :: jsval
  cs_month :: jsval
  cs_year :: jsval
  cs_dayOfWeek :: jsval
  cs_comment :: "string option"

record structured_calendar =
  sc_second :: "irange list option"
  sc_minute :: "irange list option"
  sc_hour :: "irange list option"
  sc_dayOfMonth :: "irange list option"
  sc_month :: "irange list option"
  sc_year :: "irange list option"
  sc_dayOfWeek :: "irange list option"
  sc_comment :: "string option"

definition encode_calendar :: "text_env \<Rightarrow> calendar_spec \<Rightarrow> structured_calendar res" where
  "encode_calendar T spec =
     and_then (encoder T secondCoder (cs_second spec)) (\<lambda>se.
     and_then (encoder T minuteCoder (cs_minute spec)) (\<lambda>mi.
     and_then (encoder T hourCoder (cs_hour spec)) (\<lambda>ho.
     and_then (encoder T dayOfMonthCoder (cs_dayOfMonth spec)) (\<lambda>dm.
     and_then (encoder T monthCoder (cs_month spec)) (\<lambda>mo.
     and_then (encoder T yearCoder (cs_year spec)) (\<lambda>ye.
     and_then (encoder T dayOfWeekCoder (cs_dayOfWeek spec)) (\<lambda>dw.
       Inr \<lparr>sc_second = Some se, sc_minute = Some mi, sc_hour = Some ho, sc_dayOfMonth = Some dm, sc_month = Some mo,
            sc_year = Some ye, sc_dayOfWeek = Some dw, sc_comment = cs_comment spec\<rparr>)))))))"

definition encodeOptionalStructuredCalendarSpecs :: "text_env \<Rightarrow> calendar_spec list option \<Rightarrow> structured_calendar list option res" where
  "encodeOptionalStructuredCalendarSpecs T = for_option (map_res (encode_calendar T))"

definition decode_calendar :: "structured_calendar \<Rightarrow> calendar_spec" where
  "decode_calendar pb =
     \<lparr>cs_second = JArr (decoder secondCoder (sc_second pb)), cs_minute = JArr (decoder minuteCoder (sc_minute pb)),
      cs_hour = JArr (decoder hourCoder (sc_hour pb)), cs_dayOfMonth = JArr (decoder dayOfMonthCoder (sc_dayOfMonth pb)),
      cs_month = JArr (decoder monthCoder (sc_month pb)), cs_year = JArr (decoder yearCoder (sc_year pb)),
      cs_dayOfWeek = JArr (decoder dayOfWeekCoder (sc_dayOfWeek pb)), cs_comment = sc_comment pb\<rparr>"

definition decodeOptionalStructuredCalendarSpecs :: "structured_calendar list option \<Rightarrow> calendar_spec list" where
  "decodeOptionalStructuredCalendarSpecs input = (case input of None \<Rightarrow> [] | Some pbs \<Rightarrow> map decode_calendar pbs)"

subsection \<open>Specifications\<close>

record interval_spec =
  i_every :: duration
  i_offset :: "duration option"

record schedule_spec =
  calendars :: "calendar_spec list option"
  intervals :: "interval_spec list option"
  cronExpressions :: "string list option"
  skip_calendars :: "calendar_spec list option"
  startAt :: "jsnum option"
  endAt :: "jsnum option"
  spec_jitter :: "duration option"
  timezone :: "string option"

record 'l proto_schedule_spec =
  ps_structuredCalendar :: "structured_calendar list option"
  ps_interval :: "('l ts option \<times> 'l ts option) list option"
  ps_cronString :: "string list option"
  ps_excludeStructuredCalendar :: "structured_calendar list option"
  ps_startTime :: "'l ts option"
  ps_endTime :: "'l ts option"
  ps_jitter :: "'l ts option"
  ps_timezoneName :: "string option"

definition encode_interval :: "'l libs \<Rightarrow> interval_spec \<Rightarrow> ('l ts option \<times> 'l ts option) res" where
  "encode_interval L i =
     and_then (msToTs L (i_every i)) (\<lambda>every. and_then (msOptionalToTs L (i_offset i)) (\<lambda>phase. Inr (Some every, phase)))"

definition encodeScheduleSpec :: "'l libs \<Rightarrow> text_env \<Rightarrow> schedule_spec \<Rightarrow> 'l proto_schedule_spec res" where
  "encodeScheduleSpec L T spec =
     and_then (encodeOptionalStructuredCalendarSpecs T (calendars spec)) (\<lambda>cals.
     and_then (for_option (map_res (encode_interval L)) (intervals spec)) (\<lambda>ints.
     and_then (encodeOptionalStructuredCalendarSpecs T (skip_calendars spec)) (\<lambda>skips.
     and_then (optionalDateToTs L (startAt spec)) (\<lambda>st.
     and_then (optionalDateToTs L (endAt spec)) (\<lambda>en.
     and_then (msOptionalToTs L (spec_jitter spec)) (\<lambda>ji.
       Inr \<lparr>ps_structuredCalendar = cals, ps_interval = ints, ps_cronString = cronExpressions spec,
            ps_excludeStructuredCalendar = skips, ps_startTime = st, ps_endTime = en, ps_jitter = ji,
            ps_timezoneName = timezone spec\<rparr>))))))"

text \<open>A description of an interval that lacks \<open>every\<close> has it \<open>undefined\<close>, which no later operation accepts.\<close>

definition decode_interval :: "'l libs \<Rightarrow> 'l ts option \<times> 'l ts option \<Rightarrow> interval_spec res" where
  "decode_interval L i =
     and_then (optionalTsToMs L (fst i)) (\<lambda>every.
     and_then (optionalTsToMs L (snd i)) (\<lambda>offset.
       Inr \<lparr>i_every = (case every of Some n \<Rightarrow> DurNum n | None \<Rightarrow> DurNum NaN), i_offset = map_option DurNum offset\<rparr>))"

definition decodeScheduleSpec :: "'l libs \<Rightarrow> 'l proto_schedule_spec \<Rightarrow> schedule_spec res" where
  "decodeScheduleSpec L pb =
     and_then (map_res (decode_interval L) (case ps_interval pb of None \<Rightarrow> [] | Some is \<Rightarrow> is)) (\<lambda>ints.
     and_then (optionalTsToDate L (ps_startTime pb)) (\<lambda>st.
     and_then (optionalTsToDate L (ps_endTime pb)) (\<lambda>en.
     and_then (optionalTsToMs L (ps_jitter pb)) (\<lambda>ji.
       Inr \<lparr>calendars = Some (decodeOptionalStructuredCalendarSpecs (ps_structuredCalendar pb)), intervals = Some ints,
            cronExpressions = None,
            skip_calendars = Some (decodeOptionalStructuredCalendarSpecs (ps_excludeStructuredCalendar pb)),
            startAt = st, endAt = en, spec_jitter = map_option DurNum ji, timezone = ps_timezoneName pb\<rparr>))))"

subsection \<open>Overlap policies, options, actions\<close>

datatype ScheduleOverlapPolicy = UNSPECIFIED | SKIP | BUFFER_ONE | BUFFER_ALL | CANCEL_OTHER | TERMINATE_OTHER | ALLOW_ALL

fun overlap_name :: "ScheduleOverlapPolicy \<Rightarrow> string" where
  "overlap_name UNSPECIFIED = ''UNSPECIFIED''"
| "overlap_name SKIP = ''SKIP''"
| "overlap_name BUFFER_ONE = ''BUFFER_ONE''"
| "overlap_name BUFFER_ALL = ''BUFFER_ALL''"
| "overlap_name CANCEL_OTHER = ''CANCEL_OTHER''"
| "overlap_name TERMINATE_OTHER = ''TERMINATE_OTHER''"
| "overlap_name ALLOW_ALL = ''ALLOW_ALL''"

definition overlap_policies :: "ScheduleOverlapPolicy list" where
  "overlap_policies = [UNSPECIFIED, SKIP, BUFFER_ONE, BUFFER_ALL, CANCEL_OTHER, TERMINATE_OTHER, ALLOW_ALL]"

definition OVERLAP_PREFIX :: string where
  "OVERLAP_PREFIX = ''SCHEDULE_OVERLAP_POLICY_''"

text \<open>The generated enum: its numbers by name and its names by number.\<close>

record proto_enum =
  enum_number :: "string \<Rightarrow> nat option"
  enum_name :: "nat \<Rightarrow> string option"

definition encodeOverlapPolicy :: "proto_enum \<Rightarrow> ScheduleOverlapPolicy \<Rightarrow> nat option" where
  "encodeOverlapPolicy P x = enum_number P (OVERLAP_PREFIX @ overlap_name x)"

definition decodeOverlapPolicy :: "proto_enum \<Rightarrow> nat option \<Rightarrow> ScheduleOverlapPolicy option res" where
  "decodeOverlapPolicy P input =
     (case input of
        None \<Rightarrow> Inr (Some UNSPECIFIED)
      | Some n \<Rightarrow>
          if n = 0 then Inr (Some UNSPECIFIED)
          else (case enum_name P n of
              None \<Rightarrow> Inl (TypeError ''Cannot read properties of undefined (reading substring)'')
            | Some name \<Rightarrow>
                Inr (find (\<lambda>x. overlap_name x = drop (length OVERLAP_PREFIX) name) overlap_policies)))"

datatype workflow_ref = WfName string | WfFunction string

definition extractWorkflowType :: "workflow_ref \<Rightarrow> string res" where
  "extractWorkflowType w =
     (case w of
        WfName s \<Rightarrow> Inr s
      | WfFunction name \<Rightarrow>
          if name \<noteq> [] then Inr name else Inl (TypeError ''Invalid workflow type: the workflow function is anonymous''))"

record 'w schedule_action =
  sa_workflowType :: 'w
  sa_workflowId :: "string option"
  sa_args :: "jsval list option"
  sa_taskQueue :: string
  sa_workflowExecutionTimeout :: "duration option"
  sa_workflowRunTimeout :: "duration option"
  sa_workflowTaskTimeout :: "duration option"
  sa_retry :: "retry_policy option"
  sa_memo :: "(string, jsval) jsmap option"
  sa_searchAttributes :: "(string, jsval) jsmap option"

definition compile_action :: "string option \<Rightarrow> workflow_ref schedule_action \<Rightarrow> string schedule_action res" where
  "compile_action default_id a =
     and_then (extractWorkflowType (sa_workflowType a)) (\<lambda>ty.
       Inr \<lparr>sa_workflowType = ty,
            sa_workflowId = (case sa_workflowId a of Some i \<Rightarrow> Some i | None \<Rightarrow> default_id),
            sa_args = Some (case sa_args a of Some xs \<Rightarrow> xs | None \<Rightarrow> []), sa_taskQueue = sa_taskQueue a,
            sa_workflowExecutionTimeout = sa_workflowExecutionTimeout a, sa_workflowRunTimeout = sa_workflowRunTimeout a,
            sa_workflowTaskTimeout = sa_workflowTaskTimeout a, sa_retry = sa_retry a, sa_memo = sa_memo a,
            sa_searchAttributes = sa_searchAttributes a\<rparr>)"

definition compileScheduleOptions :: "string \<Rightarrow> workflow_ref schedule_action \<Rightarrow> string schedule_action res" where
  "compileScheduleOptions scheduleId action = compile_action (Some (scheduleId @ ''-workflow'')) action"

definition compileUpdatedScheduleOptions :: "workflow_ref schedule_action \<Rightarrow> string schedule_action res" where
  "compileUpdatedScheduleOptions action = compile_action None action"

record schedule_policies =
  po_overlap :: "ScheduleOverlapPolicy option"
  po_catchupWindow :: "duration option"
  po_pauseOnFailure :: "bool option"

record 'l proto_policies =
  pp_catchupWindow :: "'l ts option"
  pp_overlapPolicy :: "nat option"
  pp_pauseOnFailure :: "bool option"

definition encodeSchedulePolicies :: "'l libs \<Rightarrow> proto_enum \<Rightarrow> schedule_policies option \<Rightarrow> 'l proto_policies res" where
  "encodeSchedulePolicies L P policies =
     and_then (msOptionalToTs L (Option.bind policies po_catchupWindow)) (\<lambda>w.
       Inr \<lparr>pp_catchupWindow = w,
            pp_overlapPolicy = (case Option.bind policies po_overlap of
                None \<Rightarrow> None
              | Some x \<Rightarrow> if x = UNSPECIFIED then None else encodeOverlapPolicy P x),
            pp_pauseOnFailure = Option.bind policies po_pauseOnFailure\<rparr>)"

record schedule_state =
  ss_paused :: "bool option"
  ss_note :: "string option"
  ss_remainingActions :: "jsnum option"

record 'l proto_state =
  pt_paused :: "bool option"
  pt_notes :: "string option"
  pt_limitedActions :: bool
  pt_remainingActions :: "'l option"

definition encodeScheduleState :: "'l libs \<Rightarrow> schedule_state option \<Rightarrow> 'l proto_state" where
  "encodeScheduleState L st =
     \<lparr>pt_paused = Option.bind st ss_paused, pt_notes = Option.bind st ss_note,
      pt_limitedActions = (Option.bind st ss_remainingActions \<noteq> None),
      pt_remainingActions = (case Option.bind st ss_remainingActions of
          Some n \<Rightarrow> if js_num_truthy n then Some (fromNumber L n) else None
        | None \<Rightarrow> None)\<rparr>"

text \<open>The description of the state in \<open>ScheduleHandle.describe\<close>.\<close>

definition describe_state :: "'l libs \<Rightarrow> 'l proto_state \<Rightarrow> schedule_state" where
  "describe_state L pb =
     \<lparr>ss_paused = Some (pt_paused pb = Some True), ss_note = pt_notes pb,
      ss_remainingActions = (if pt_limitedActions pb then
          Some (case pt_remainingActions pb of
              Some n \<Rightarrow> if js_num_truthy (toNumber L n) then toNumber L n else Fin 0
            | None \<Rightarrow> Fin 0)
        else None)\<rparr>"

record ('l, 'm) proto_action =
  pa_workflowId :: "string option"
  pa_workflowType :: string
  pa_input :: "payload list option"
  pa_taskQueue :: string
  pa_workflowExecutionTimeout :: "'l ts option"
  pa_workflowRunTimeout :: "'l ts option"
  pa_workflowTaskTimeout :: "'l ts option"
  pa_retryPolicy :: "'l proto_retry_policy option"
  pa_memo :: "'m option"
  pa_searchAttributes :: "(string, payload) jsmap option"
  pa_header :: "(string, payload) jsmap"

definition encodeScheduleAction ::
  "'l libs \<Rightarrow> data_converter \<Rightarrow> converter \<Rightarrow> string schedule_action \<Rightarrow> (string, payload) jsmap \<Rightarrow>
    ('l, (string, payload option) jsmap) proto_action res" where
  "encodeScheduleAction L dc attrs action headers =
     and_then (encodeToPayloads dc (case sa_args action of Some xs \<Rightarrow> xs | None \<Rightarrow> [])) (\<lambda>input.
     and_then (msOptionalToTs L (sa_workflowExecutionTimeout action)) (\<lambda>et.
     and_then (msOptionalToTs L (sa_workflowRunTimeout action)) (\<lambda>rt.
     and_then (msOptionalToTs L (sa_workflowTaskTimeout action)) (\<lambda>tt.
     and_then (for_option (compileRetryPolicy L) (sa_retry action)) (\<lambda>retry.
     and_then (for_option (encodeMapToPayloads dc) (sa_memo action)) (\<lambda>memo.
     and_then (for_option (mapToPayloads attrs) (sa_searchAttributes action)) (\<lambda>sa.
       Inr \<lparr>pa_workflowId = sa_workflowId action, pa_workflowType = sa_workflowType action, pa_input = input,
            pa_taskQueue = sa_taskQueue action, pa_workflowExecutionTimeout = et, pa_workflowRunTimeout = rt,
            pa_workflowTaskTimeout = tt, pa_retryPolicy = retry, pa_memo = memo, pa_searchAttributes = sa,
            pa_header = headers\<rparr>)))))))"

definition decodeScheduleAction ::
  "'l libs \<Rightarrow> data_converter \<Rightarrow> converter \<Rightarrow> ('l, (string, payload) jsmap) proto_action option \<Rightarrow> string schedule_action res" where
  "decodeScheduleAction L dc attrs pb =
     (case pb of
        None \<Rightarrow> Inl (TypeError ''Unsupported schedule action'')
      | Some pb \<Rightarrow>
          and_then (decodeArrayFromPayloads dc (pa_input pb)) (\<lambda>args.
          and_then (decodeMapFromPayloads dc (pa_memo pb)) (\<lambda>memo.
          and_then (decompileRetryPolicy L (pa_retryPolicy pb)) (\<lambda>retry.
          and_then (mapFromPayloads attrs (Some (case pa_searchAttributes pb of Some m \<Rightarrow> m | None \<Rightarrow> []))) (\<lambda>sa.
          and_then (optionalTsToMs L (pa_workflowExecutionTimeout pb)) (\<lambda>et.
          and_then (optionalTsToMs L (pa_workflowRunTimeout pb)) (\<lambda>rt.
          and_then (optionalTsToMs L (pa_workflowTaskTimeout pb)) (\<lambda>tt.
            Inr \<lparr>sa_workflowType = pa_workflowType pb, sa_workflowId = pa_workflowId pb, sa_args = Some args,
                 sa_taskQueue = pa_taskQueue pb, sa_workflowExecutionTimeout = map_option DurNum et,
                 sa_workflowRunTimeout = map_option DurNum rt, sa_workflowTaskTimeout = map_option DurNum tt,
                 sa_retry = retry, sa_memo = memo, sa_searchAttributes = sa\<rparr>))))))))"

text \<open>\<open>decodeSearchAttributes\<close> drops what is no non-empty array.\<close>

definition decodeSearchAttributes :: "converter \<Rightarrow> (string, payload) jsmap option \<Rightarrow> (string, jsval) jsmap res" where
  "decodeSearchAttributes attrs pb =
     (case pb of
        None \<Rightarrow> Inr []
      | Some m \<Rightarrow>
          and_then (mapFromPayloads attrs (Some m)) (\<lambda>r.
            Inr (filter (\<lambda>(_, v). case v of JArr xs \<Rightarrow> xs \<noteq> [] | JStr t \<Rightarrow> t \<noteq> [] | _ \<Rightarrow> False) (the r))))"

subsection \<open>What a range matches\<close>

text \<open>The documentation of \<open>Range\<close>: an end before the start is the start, a step below 1 is 1.\<close>

fun range_matches :: "irange \<Rightarrow> int \<Rightarrow> bool" where
  "range_matches r x =
     (case (r_start r, r_end r, r_step r) of
        (Fin a, Fin b, Fin c) \<Rightarrow>
          a \<le> of_int x \<and> of_int x \<le> max a b \<and> js_isInteger (Fin ((of_int x - a) / max 1 c))
      | _ \<Rightarrow> False)"

definition field_matches :: "irange list \<Rightarrow> int \<Rightarrow> bool" where
  "field_matches rs x \<longleftrightarrow> (\<exists>r \<in> set rs. range_matches r x)"

text \<open>A range as the server sends it: whole numbers, those that count being values of the field.\<close>

definition value_ok :: "coder \<Rightarrow> jsnum \<Rightarrow> bool" where
  "value_ok c n \<longleftrightarrow> c_encodeValue c (c_decodeValue c n) = Some n \<and> c_decodeValue c n \<notin> {JUndefined, JNull}"

definition range_ok :: "coder \<Rightarrow> irange \<Rightarrow> bool" where
  "range_ok c r \<longleftrightarrow> value_ok c (r_start r) \<and> (js_lt (r_start r) (r_end r) \<longrightarrow> value_ok c (r_end r))
     \<and> (\<exists>a b k. r_start r = int_num a \<and> r_end r = int_num b \<and> r_step r = int_num k)"

lemma encode_decode_range:
  assumes "range_ok c r"
  shows "\<exists>r'. encode_item T c (decode_range c r) = Inr r' \<and> range_matches r' = range_matches r"
proof -
  obtain a b k where r: "r_start r = int_num a" "r_end r = int_num b" "r_step r = int_num k"
    using assms by (auto simp: range_ok_def)
  let ?start = "c_decodeValue c (r_start r)"
  have s: "c_encodeValue c ?start = Some (r_start r)" "?start \<noteq> JUndefined" using assms by (simp_all add: range_ok_def value_ok_def)
  let ?fin = "if a < b then r_end r else r_start r"
  have d: "decode_range c r = JObj [(''start'', ?start), (''end'', c_decodeValue c ?fin),
      (''step'', JNum (if 0 < k then int_num k else int_num 1))]"
    using assms r by (auto simp: decode_range_def Let_def range_ok_def value_ok_def split: jsval.split)
  have ev: "c_encodeValue c (c_decodeValue c ?fin) = Some ?fin" "c_decodeValue c ?fin \<noteq> JUndefined"
    using assms r by (auto simp: range_ok_def value_ok_def)
  have "encode_item T c (decode_range c r) =
      Inr \<lparr>r_start = r_start r, r_end = ?fin, r_step = (if 0 < k then int_num k else int_num 1)\<rparr>"
    using s ev unfolding d by (simp add: encode_item_def encode_range_def)
  moreover have "range_matches \<lparr>r_start = r_start r, r_end = ?fin, r_step = (if 0 < k then int_num k else int_num 1)\<rparr> = range_matches r"
    using r by (auto simp: fun_eq_iff max_def) (metis of_int_diff)
  ultimately show ?thesis by blast
qed

lemma encode_decode_field:
  assumes "\<forall>r \<in> set rs. range_ok c r"
  shows "\<exists>rs'. encoder T c (JArr (decoder c (Some rs))) = Inr rs' \<and> field_matches rs' = field_matches rs"
  using assms
proof (induction rs)
  case Nil
  then show ?case by (simp add: encoder_def decoder_def)
next
  case (Cons r rs)
  obtain r' where r': "encode_item T c (decode_range c r) = Inr r'" "range_matches r' = range_matches r"
    using encode_decode_range [of c r T] Cons.prems by auto
  obtain rs' where rs': "encoder T c (JArr (decoder c (Some rs))) = Inr rs'" "field_matches rs' = field_matches rs"
    using Cons by auto
  have "encoder T c (JArr (decoder c (Some (r # rs)))) = Inr (r' # rs')"
    using r'(1) rs'(1) by (simp add: encoder_def decoder_def)
  then show ?case using r'(2) rs'(2) by (auto simp: field_matches_def fun_eq_iff simp del: range_matches.simps)
qed

subsection \<open>A description describes the schedule\<close>

definition field_list :: "irange list option \<Rightarrow> irange list" where
  "field_list f = (case f of None \<Rightarrow> [] | Some rs \<Rightarrow> rs)"

definition whole_range :: "irange \<Rightarrow> bool" where
  "whole_range r \<longleftrightarrow> (\<exists>a b k. r = mk_range a b k)"

definition range_within :: "int \<Rightarrow> int \<Rightarrow> irange \<Rightarrow> bool" where
  "range_within lo hi r \<longleftrightarrow> (\<exists>a b k. r = mk_range a b k \<and> lo \<le> a \<and> a \<le> hi \<and> b \<le> hi)"

definition calendar_ok :: "structured_calendar \<Rightarrow> bool" where
  "calendar_ok pb \<longleftrightarrow>
     (\<forall>r \<in> set (field_list (sc_second pb)). range_within 0 59 r) \<and> (\<forall>r \<in> set (field_list (sc_minute pb)). range_within 0 59 r)
     \<and> (\<forall>r \<in> set (field_list (sc_hour pb)). range_within 0 23 r) \<and> (\<forall>r \<in> set (field_list (sc_dayOfMonth pb)). range_within 1 31 r)
     \<and> (\<forall>r \<in> set (field_list (sc_month pb)). range_within 1 12 r) \<and> (\<forall>r \<in> set (field_list (sc_year pb)). whole_range r)
     \<and> (\<forall>r \<in> set (field_list (sc_dayOfWeek pb)). range_within 0 6 r)"

definition same_field :: "irange list option \<Rightarrow> irange list option \<Rightarrow> bool" where
  "same_field f g \<longleftrightarrow> field_matches (field_list f) = field_matches (field_list g)"

definition same_calendar :: "structured_calendar \<Rightarrow> structured_calendar \<Rightarrow> bool" where
  "same_calendar p q \<longleftrightarrow> same_field (sc_second p) (sc_second q) \<and> same_field (sc_minute p) (sc_minute q)
     \<and> same_field (sc_hour p) (sc_hour q) \<and> same_field (sc_dayOfMonth p) (sc_dayOfMonth q) \<and> same_field (sc_month p) (sc_month q)
     \<and> same_field (sc_year p) (sc_year q) \<and> same_field (sc_dayOfWeek p) (sc_dayOfWeek q) \<and> sc_comment p = sc_comment q"

lemma number_value_ok: "lo \<le> n \<Longrightarrow> n \<le> hi \<Longrightarrow> number_in lo hi (JNum (int_num n)) = Some (int_num n)"
  by (auto simp: number_in_def js_le_def)

lemma numeric_coders_ok:
  "0 \<le> n \<Longrightarrow> n \<le> 59 \<Longrightarrow> value_ok secondCoder (int_num n)" "0 \<le> n \<Longrightarrow> n \<le> 59 \<Longrightarrow> value_ok minuteCoder (int_num n)"
  "0 \<le> n \<Longrightarrow> n \<le> 23 \<Longrightarrow> value_ok hourCoder (int_num n)" "0 \<le> n \<Longrightarrow> n \<le> 31 \<Longrightarrow> value_ok dayOfMonthCoder (int_num n)"
  "value_ok yearCoder (int_num n)"
  by (simp_all add: value_ok_def secondCoder_def minuteCoder_def hourCoder_def dayOfMonthCoder_def yearCoder_def number_value_ok)

lemma named_values:
  "list_all (\<lambda>n. value_ok monthCoder (int_num n)) [1..12]" "list_all (\<lambda>n. value_ok dayOfWeekCoder (int_num n)) [0..6]"
  by code_simp+

lemma named_coders_ok:
  "1 \<le> n \<Longrightarrow> n \<le> 12 \<Longrightarrow> value_ok monthCoder (int_num n)" "0 \<le> n \<Longrightarrow> n \<le> 6 \<Longrightarrow> value_ok dayOfWeekCoder (int_num n)"
  using named_values by (simp_all add: list_all_iff)

lemma range_within_ok:
  "range_within lo hi r \<Longrightarrow> (\<And>n. lo \<le> n \<Longrightarrow> n \<le> hi \<Longrightarrow> value_ok c (int_num n)) \<Longrightarrow> range_ok c r"
  by (auto simp: range_within_def range_ok_def mk_range_def)

lemma whole_range_ok: "whole_range r \<Longrightarrow> (\<And>n. value_ok c (int_num n)) \<Longrightarrow> range_ok c r"
  by (auto simp: whole_range_def range_ok_def mk_range_def)

lemma field_back:
  assumes "\<forall>r \<in> set (field_list f). range_ok c r"
  shows "\<exists>rs. encoder T c (JArr (decoder c f)) = Inr rs \<and> same_field f (Some rs)"
proof -
  have "decoder c f = decoder c (Some (field_list f))" by (simp add: decoder_def field_list_def split: option.split)
  then show ?thesis using encode_decode_field [OF assms, of T] by (auto simp: same_field_def field_list_def)
qed

lemma range_coders_ok:
  "range_within 0 59 r \<Longrightarrow> range_ok secondCoder r" "range_within 0 59 r \<Longrightarrow> range_ok minuteCoder r"
  "range_within 0 23 r \<Longrightarrow> range_ok hourCoder r" "range_within 1 31 r \<Longrightarrow> range_ok dayOfMonthCoder r"
  "range_within 1 12 r \<Longrightarrow> range_ok monthCoder r" "range_within 0 6 r \<Longrightarrow> range_ok dayOfWeekCoder r"
  "whole_range r \<Longrightarrow> range_ok yearCoder r"
  by (erule range_within_ok, simp add: numeric_coders_ok named_coders_ok; fail)+
    (simp add: whole_range_ok numeric_coders_ok)

lemma calendar_fields_ok:
  assumes "calendar_ok pb"
  shows "\<forall>r \<in> set (field_list (sc_second pb)). range_ok secondCoder r"
    "\<forall>r \<in> set (field_list (sc_minute pb)). range_ok minuteCoder r" "\<forall>r \<in> set (field_list (sc_hour pb)). range_ok hourCoder r"
    "\<forall>r \<in> set (field_list (sc_dayOfMonth pb)). range_ok dayOfMonthCoder r"
    "\<forall>r \<in> set (field_list (sc_month pb)). range_ok monthCoder r" "\<forall>r \<in> set (field_list (sc_year pb)). range_ok yearCoder r"
    "\<forall>r \<in> set (field_list (sc_dayOfWeek pb)). range_ok dayOfWeekCoder r"
  using assms by (simp_all add: calendar_ok_def range_coders_ok)

lemma calendar_back:
  assumes "calendar_ok pb"
  shows "\<exists>pb'. encode_calendar T (decode_calendar pb) = Inr pb' \<and> same_calendar pb pb'"
proof -
  note ok = calendar_fields_ok [OF assms]
  obtain a b c d e f g where
    "encoder T secondCoder (JArr (decoder secondCoder (sc_second pb))) = Inr a" "same_field (sc_second pb) (Some a)"
    "encoder T minuteCoder (JArr (decoder minuteCoder (sc_minute pb))) = Inr b" "same_field (sc_minute pb) (Some b)"
    "encoder T hourCoder (JArr (decoder hourCoder (sc_hour pb))) = Inr c" "same_field (sc_hour pb) (Some c)"
    "encoder T dayOfMonthCoder (JArr (decoder dayOfMonthCoder (sc_dayOfMonth pb))) = Inr d" "same_field (sc_dayOfMonth pb) (Some d)"
    "encoder T monthCoder (JArr (decoder monthCoder (sc_month pb))) = Inr e" "same_field (sc_month pb) (Some e)"
    "encoder T yearCoder (JArr (decoder yearCoder (sc_year pb))) = Inr f" "same_field (sc_year pb) (Some f)"
    "encoder T dayOfWeekCoder (JArr (decoder dayOfWeekCoder (sc_dayOfWeek pb))) = Inr g" "same_field (sc_dayOfWeek pb) (Some g)"
    using field_back [OF ok(1)] field_back [OF ok(2)] field_back [OF ok(3)] field_back [OF ok(4)] field_back [OF ok(5)]
      field_back [OF ok(6)] field_back [OF ok(7)] by metis
  then show ?thesis by (simp add: encode_calendar_def decode_calendar_def same_calendar_def)
qed

text \<open>Timestamps as the server sends them, in whole milliseconds.\<close>

definition canonical_ts :: "'l libs \<Rightarrow> 'l ts \<Rightarrow> bool" where
  "canonical_ts L t \<longleftrightarrow> (\<exists>s m. t = \<lparr>seconds = Some (fromNumber L (int_num s)), nanos = Some (int_num (m * 1000000))\<rparr>
     \<and> 0 \<le> s \<and> 0 \<le> m \<and> m < 1000 \<and> s * 1000 + m \<le> 2 ^ 53)"

lemma ts_back:
  assumes "long_arith L val" "canonical_ts L t"
  shows "\<exists>n. tsToMs L (Some t) = Inr (int_num n) \<and> 0 \<le> n \<and> msNumberToTs L (int_num n) = Inr t"
proof -
  obtain s m where t: "t = \<lparr>seconds = Some (fromNumber L (int_num s)), nanos = Some (int_num (m * 1000000))\<rparr>"
    and b: "0 \<le> s" "0 \<le> m" "m < 1000" "s * 1000 + m \<le> 2 ^ 53"
    using assms(2) by (auto simp: canonical_ts_def)
  have "tsToMs L (Some t) = Inr (int_num (s * 1000 + m))"
    unfolding t tsToMs_of_parts using b by (subst long_arith.tsToMs_value [OF assms(1)]) (simp_all add: safe_int_def)
  moreover have "(s * 1000 + m) div 1000 = s" "(s * 1000 + m) mod 1000 = m" using b by auto
  then have "msNumberToTs L (int_num (s * 1000 + m)) = Inr t"
    unfolding t msNumberToTs_int using b by simp
  ultimately show ?thesis using b by (intro exI [of _ "s * 1000 + m"]) simp
qed

text \<open>A duration of zero is left out when it is sent.\<close>

definition nonzero_ts :: "'l libs \<Rightarrow> 'l ts option \<Rightarrow> 'l ts option" where
  "nonzero_ts L t = (if optionalTsToMs L t = Inr (Some (int_num 0)) then None else t)"

lemma optional_duration_back:
  assumes "long_arith L val" "\<And>x. t = Some x \<Longrightarrow> canonical_ts L x"
  shows "\<exists>n. optionalTsToMs L t = Inr n \<and> msOptionalToTs L (map_option DurNum n) = Inr (nonzero_ts L t)"
proof (cases t)
  case (Some x)
  then obtain n where n: "tsToMs L (Some x) = Inr (int_num n)" "msNumberToTs L (int_num n) = Inr x"
    using ts_back [OF assms(1)] assms(2) by blast
  then show ?thesis using Some
    by (simp add: optionalTsToMs_def msOptionalToTs_def msToTs_def nonzero_ts_def js_num_truthy_def)
qed (simp add: optionalTsToMs_def msOptionalToTs_def nonzero_ts_def)

lemma optional_date_back:
  assumes "long_arith L val" "\<And>x. t = Some x \<Longrightarrow> canonical_ts L x"
  shows "\<exists>n. optionalTsToDate L t = Inr n \<and> optionalDateToTs L n = Inr t"
proof (cases t)
  case (Some x)
  then obtain n where "tsToMs L (Some x) = Inr (int_num n)" "msNumberToTs L (int_num n) = Inr x"
    using ts_back [OF assms(1)] assms(2) by blast
  then show ?thesis using Some by (simp add: optionalTsToDate_def optionalDateToTs_def msToTs_def)
qed (simp add: optionalTsToDate_def optionalDateToTs_def)

definition interval_ok :: "'l libs \<Rightarrow> 'l ts option \<times> 'l ts option \<Rightarrow> bool" where
  "interval_ok L i \<longleftrightarrow> (case i of (every, phase) \<Rightarrow>
     (\<exists>t. every = Some t \<and> canonical_ts L t) \<and> (\<forall>t. phase = Some t \<longrightarrow> canonical_ts L t))"

definition spec_ok :: "'l libs \<Rightarrow> 'l proto_schedule_spec \<Rightarrow> bool" where
  "spec_ok L pb \<longleftrightarrow>
     (\<forall>c \<in> set (case ps_structuredCalendar pb of None \<Rightarrow> [] | Some cs \<Rightarrow> cs). calendar_ok c)
     \<and> (\<forall>c \<in> set (case ps_excludeStructuredCalendar pb of None \<Rightarrow> [] | Some cs \<Rightarrow> cs). calendar_ok c)
     \<and> (\<forall>i \<in> set (case ps_interval pb of None \<Rightarrow> [] | Some is \<Rightarrow> is). interval_ok L i)
     \<and> (\<forall>t. ps_startTime pb = Some t \<or> ps_endTime pb = Some t \<or> ps_jitter pb = Some t \<longrightarrow> canonical_ts L t)"

text \<open>The specification an update sends for the one that was described.\<close>

definition same_spec :: "'l libs \<Rightarrow> 'l proto_schedule_spec \<Rightarrow> 'l proto_schedule_spec \<Rightarrow> bool" where
  "same_spec L p q \<longleftrightarrow>
     (\<exists>cs. ps_structuredCalendar q = Some cs
        \<and> list_all2 same_calendar (case ps_structuredCalendar p of None \<Rightarrow> [] | Some cs \<Rightarrow> cs) cs)
     \<and> (\<exists>cs. ps_excludeStructuredCalendar q = Some cs
        \<and> list_all2 same_calendar (case ps_excludeStructuredCalendar p of None \<Rightarrow> [] | Some cs \<Rightarrow> cs) cs)
     \<and> ps_interval q = Some (map (\<lambda>(every, phase). (every, nonzero_ts L phase)) (case ps_interval p of None \<Rightarrow> [] | Some is \<Rightarrow> is))
     \<and> ps_startTime q = ps_startTime p \<and> ps_endTime q = ps_endTime p \<and> ps_jitter q = nonzero_ts L (ps_jitter p)
     \<and> ps_timezoneName q = ps_timezoneName p"

lemma calendars_back:
  assumes "\<forall>c \<in> set cs. calendar_ok c"
  shows "\<exists>cs'. map_res (encode_calendar T) (map decode_calendar cs) = Inr cs' \<and> list_all2 same_calendar cs cs'"
  using assms
proof (induction cs)
  case (Cons c cs)
  then show ?case using calendar_back [of c T] by fastforce
qed simp

lemma interval_back:
  assumes "long_arith L val" "interval_ok L i"
  shows "and_then (decode_interval L i) (encode_interval L) = Inr (fst i, nonzero_ts L (snd i))"
proof -
  obtain t phase where i: "i = (Some t, phase)" "canonical_ts L t" "\<And>x. phase = Some x \<Longrightarrow> canonical_ts L x"
    using assms(2) by (auto simp: interval_ok_def)
  obtain n where n: "tsToMs L (Some t) = Inr (int_num n)" "msNumberToTs L (int_num n) = Inr t"
    using ts_back [OF assms(1) i(2)] by blast
  obtain m where m: "optionalTsToMs L phase = Inr m" "msOptionalToTs L (map_option DurNum m) = Inr (nonzero_ts L phase)"
    using optional_duration_back [OF assms(1) i(3)] by blast
  have "optionalTsToMs L (Some t) = Inr (Some (int_num n))" using n by (simp add: optionalTsToMs_def)
  with i(1) n m show ?thesis by (simp add: decode_interval_def encode_interval_def msToTs_def)
qed

lemma intervals_back:
  assumes "long_arith L val" "\<forall>i \<in> set is. interval_ok L i"
  shows "\<exists>ds. map_res (decode_interval L) is = Inr ds \<and> map_res (encode_interval L) ds = Inr (map (\<lambda>(e, p). (e, nonzero_ts L p)) is)"
  using assms(2)
proof (induction "is")
  case (Cons i js)
  have "and_then (decode_interval L i) (encode_interval L) = Inr (fst i, nonzero_ts L (snd i))"
    using interval_back [OF assms(1)] Cons.prems by simp
  then obtain d where "decode_interval L i = Inr d" "encode_interval L d = Inr (fst i, nonzero_ts L (snd i))"
    by (auto simp: and_then_eq_Inr)
  then show ?case using Cons by (fastforce simp: case_prod_unfold)
qed simp

lemma described_spec_back:
  assumes "long_arith L val" and "spec_ok L pb"
  shows "\<exists>pb'. and_then (decodeScheduleSpec L pb) (encodeScheduleSpec L T) = Inr pb' \<and> same_spec L pb pb'"
proof -
  let ?cals = "\<lambda>x. case x of None \<Rightarrow> [] | Some cs \<Rightarrow> cs"
  note ok = assms(2) [unfolded spec_ok_def]
  have dec: "decodeOptionalStructuredCalendarSpecs x = map decode_calendar (?cals x)" for x
    by (simp add: decodeOptionalStructuredCalendarSpecs_def split: option.split)
  obtain cs where cs: "map_res (encode_calendar T) (map decode_calendar (?cals (ps_structuredCalendar pb))) = Inr cs"
    "list_all2 same_calendar (?cals (ps_structuredCalendar pb)) cs"
    using calendars_back ok by blast
  obtain es where es: "map_res (encode_calendar T) (map decode_calendar (?cals (ps_excludeStructuredCalendar pb))) = Inr es"
    "list_all2 same_calendar (?cals (ps_excludeStructuredCalendar pb)) es"
    using calendars_back ok by blast
  obtain ds where ds: "map_res (decode_interval L) (?cals (ps_interval pb)) = Inr ds"
    "map_res (encode_interval L) ds = Inr (map (\<lambda>(e, p). (e, nonzero_ts L p)) (?cals (ps_interval pb)))"
    using intervals_back [OF assms(1)] ok by blast
  obtain st en ji where
    t: "optionalTsToDate L (ps_startTime pb) = Inr st" "optionalDateToTs L st = Inr (ps_startTime pb)"
      "optionalTsToDate L (ps_endTime pb) = Inr en" "optionalDateToTs L en = Inr (ps_endTime pb)"
      "optionalTsToMs L (ps_jitter pb) = Inr ji" "msOptionalToTs L (map_option DurNum ji) = Inr (nonzero_ts L (ps_jitter pb))"
    using optional_date_back [OF assms(1)] optional_duration_back [OF assms(1)] ok by metis
  show ?thesis
    using cs es ds t
    by (simp add: decodeScheduleSpec_def encodeScheduleSpec_def dec encodeOptionalStructuredCalendarSpecs_def for_option_def same_spec_def)
qed

text \<open>A description can be used as it is to update the schedule: the specification that a schedule's description is
  encoded to matches the same times, field by field and calendar by calendar, has the same intervals, start, end, jitter
  and time zone; only durations of zero are left out.\<close>

theorem description_updates_schedule:
  assumes "long_arith L val" and "spec_ok L pb"
  shows "\<exists>pb'. and_then (decodeScheduleSpec L pb) (encodeScheduleSpec L T) = Inr pb' \<and> same_spec L pb pb'"
  by (rule described_spec_back [OF assms])

text \<open>A range given with a start only is encoded with the end 1, not, as documented, with its start as the end. For a
  start of 1 or more the server reads such a range as the start alone, but a start of 0 is sent as the range from 0 to 1, so
  that \<open>{ start: 0 }\<close> for seconds, minutes, hours or days of the week matches twice as often as documented.\<close>

theorem open_range_ends_at_one:
  assumes "c_encodeValue c v = Some (int_num n)" and "v \<noteq> JUndefined" and "0 \<le> n"
  shows "\<exists>r. encode_item T c (JObj [(''start'', v)]) = Inr r \<and> r_end r = int_num 1
    \<and> {x. range_matches r x} = (if n = 0 then {0, 1} else {n})"
proof -
  have "encode_item T c (JObj [(''start'', v)]) = Inr (mk_range n 1 1)"
    using assms(1,2) by (simp add: encode_item_def encode_range_def mk_range_def)
  moreover have "{x. range_matches (mk_range n 1 1) x} = (if n = 0 then {0, 1} else {n})"
    using assms(3) by (auto simp: mk_range_def max_def)
  ultimately show ?thesis by (auto simp: mk_range_def)
qed

lemma overlap_policy_roundtrip:
  assumes "encodeOverlapPolicy P x = Some n" and "enum_name P n = Some (OVERLAP_PREFIX @ overlap_name x)" and "n = 0 \<Longrightarrow> x = UNSPECIFIED"
  shows "decodeOverlapPolicy P (Some n) = Inr (Some x)"
  using assms by (cases x) (auto simp: decodeOverlapPolicy_def overlap_policies_def OVERLAP_PREFIX_def)

lemma schedule_state_described:
  assumes "long_arith L val" and "ss_remainingActions st = map_option int_num n" and "\<And>k. n = Some k \<Longrightarrow> safe_int k"
  shows "describe_state L (encodeScheduleState L (Some st)) = st\<lparr>ss_paused := Some (ss_paused st = Some True)\<rparr>"
proof (cases n)
  case (Some k)
  then have "toNumber L (fromNumber L (int_num k)) = int_num k"
    using long_arith.toNumber_val [OF assms(1)] long_arith.val_fromNumber [OF assms(1)] assms(3) by metis
  then show ?thesis using Some assms(2) by (simp add: describe_state_def encodeScheduleState_def js_num_truthy_def)
qed (use assms(2) in \<open>simp add: describe_state_def encodeScheduleState_def\<close>)

definition sample_text :: text_env where
  "sample_text = \<lparr>stringOf = (\<lambda>_. []), jsonStringify = (\<lambda>_. Inr [])\<rparr>"

definition sample_calendar :: structured_calendar where
  "sample_calendar = \<lparr>sc_second = Some [mk_range 0 0 0], sc_minute = Some [mk_range 0 59 15], sc_hour = Some [mk_range 8 17 1],
     sc_dayOfMonth = Some [mk_range 1 31 1], sc_month = Some [mk_range 1 12 1], sc_year = Some [], sc_dayOfWeek = Some [mk_range 1 5 0],
     sc_comment = None\<rparr>"

definition sample_spec :: "64 word proto_schedule_spec" where
  "sample_spec = \<lparr>ps_structuredCalendar = Some [sample_calendar],
     ps_interval = Some [(Some \<lparr>seconds = Some (fromNumber long64 (int_num 60)), nanos = Some (int_num (0 * 1000000))\<rparr>, None)],
     ps_cronString = None, ps_excludeStructuredCalendar = None, ps_startTime = None, ps_endTime = None, ps_jitter = None,
     ps_timezoneName = Some ''UTC''\<rparr>"

lemma sample_spec_ok: "spec_ok long64 sample_spec"
proof -
  have "range_within lo hi (mk_range a b k)" if "lo \<le> a" "a \<le> hi" "b \<le> hi" for lo hi a b k
    using that unfolding range_within_def by blast
  then have "calendar_ok sample_calendar" by (simp add: calendar_ok_def sample_calendar_def field_list_def)
  moreover have "canonical_ts long64 \<lparr>seconds = Some (fromNumber long64 (int_num 60)), nanos = Some (int_num (0 * 1000000))\<rparr>"
    unfolding canonical_ts_def by (intro exI [of _ 60] exI [of _ 0]) simp
  ultimately show ?thesis by (simp add: spec_ok_def sample_spec_def interval_ok_def)
qed

theorem description_updates_schedule_witness:
  "\<exists>pb'. and_then (decodeScheduleSpec long64 sample_spec) (encodeScheduleSpec long64 sample_text) = Inr pb'
    \<and> same_spec long64 sample_spec pb'"
  by (rule description_updates_schedule [OF long64.long_arith_axioms sample_spec_ok])

theorem open_range_ends_at_one_witness:
  "\<exists>r. encode_item sample_text hourCoder (JObj [(''start'', JNum (int_num 0))]) = Inr r \<and> {x. range_matches r x} = {0, 1}"
  using open_range_ends_at_one [of hourCoder "JNum (int_num 0)" 0 sample_text] numeric_coders_ok(3) [of 0]
  by (simp add: value_ok_def hourCoder_def) blast

end
