(* ===== verification/Workflow_Client.thy ===== *)
theory Workflow_Client
  imports Schedules
begin

text \<open>
  The workflow client, packages/client/src/workflow-client.ts, with errors.ts and the error handling of helpers.ts.
  The service is a function of its state: a call yields a response or an error and a new state of the service. Waiting
  for a result may go on for ever, so it is a partial function.
\<close>

subsection \<open>Errors\<close>

text \<open>
  An error of the gRPC library; \<open>ge_namespace\<close> is the namespace of a \<open>NamespaceNotFoundFailure\<close> among its details,
  which generated code decodes.
\<close>

record grpc_error =
  ge_code :: string
  ge_details :: "string option"
  ge_message :: string
  ge_namespace :: "string option"

datatype service_error = GrpcError grpc_error | OtherError jsval

datatype client_error =
    WorkflowNotFoundError string string "string option"
  | NamespaceNotFoundError string
  | ServiceError string service_error
  | WorkflowFailedError string "jserror option" nat
  | WorkflowContinuedAsNewError string string
  | QueryNotRegisteredError string
  | QueryRejectedError nat
  | ScheduleAlreadyRunning string string
  | ScheduleNotFoundError string string
  | RawError service_error
  | Thrown jsval

definition rethrowKnownErrorTypes :: "grpc_error \<Rightarrow> client_error option" where
  "rethrowKnownErrorTypes err = map_option NamespaceNotFoundError (ge_namespace err)"

definition rethrowGrpcError :: "service_error \<Rightarrow> string \<Rightarrow> (string \<times> string option) option \<Rightarrow> client_error" where
  "rethrowGrpcError err fallbackMessage execution =
     (case err of
        OtherError _ \<Rightarrow> ServiceError ''Unexpected error while making gRPC request'' err
      | GrpcError g \<Rightarrow>
          (case rethrowKnownErrorTypes g of
             Some e \<Rightarrow> e
           | None \<Rightarrow>
               if ge_code g = ''NOT_FOUND'' then
                 WorkflowNotFoundError (case ge_details g of Some d \<Rightarrow> d | None \<Rightarrow> ''Workflow not found'')
                   (case execution of Some (w, _) \<Rightarrow> w | None \<Rightarrow> []) (Option.bind execution snd)
               else ServiceError fallbackMessage err))"

subsection \<open>The result of a workflow\<close>

text \<open>The attributes of a close event; \<open>OtherEvent\<close> has none that the code knows.\<close>

datatype close_event =
    Completed "string option" "payload list option"
  | Failed "string option" "proto_failure option" "nat option"
  | Canceled "payload list option"
  | Terminated "string option"
  | TimedOut "string option" "nat option"
  | ContinuedAsNew "string option"
  | OtherEvent

record history_response =
  hr_events :: "close_event list option"
  hr_nextPageToken :: "bytes option"

record history_request =
  rq_runId :: "string option"
  rq_nextPageToken :: "bytes option"

type_synonym ('q, 'r, 's) service = "'q \<Rightarrow> 's \<Rightarrow> (service_error + 'r) \<times> 's"

definition RETRY_STATE_NON_RETRYABLE_FAILURE :: nat where
  "RETRY_STATE_NON_RETRYABLE_FAILURE = 2"

definition TIMEOUT_TYPE_START_TO_CLOSE :: nat where
  "TIMEOUT_TYPE_START_TO_CLOSE = 1"

definition lift_thrown :: "'a res \<Rightarrow> client_error + 'a" where
  "lift_thrown r = (case r of Inl e \<Rightarrow> Inl (Thrown e) | Inr x \<Rightarrow> Inr x)"

definition or_text :: "string option \<Rightarrow> string \<Rightarrow> string" where
  "or_text s d = (if truthy_str s then the s else d)"

text \<open>The run to go on with after a close event, if the chain is followed.\<close>

fun next_run :: "bool \<Rightarrow> close_event \<Rightarrow> string option" where
  "next_run followRuns (Completed new _) = (if followRuns \<and> truthy_str new then new else None)"
| "next_run followRuns (Failed new _ _) = (if followRuns \<and> truthy_str new then new else None)"
| "next_run followRuns (TimedOut new _) = (if followRuns \<and> truthy_str new then new else None)"
| "next_run followRuns (ContinuedAsNew new) = (if followRuns \<and> truthy_str new then new else None)"
| "next_run _ _ = None"

text \<open>What the client returns or throws for the close event of the last run.\<close>

fun close_outcome :: "data_converter \<Rightarrow> close_event \<Rightarrow> client_error + jsval" where
  "close_outcome dc (Completed _ result) =
     lift_thrown (and_then (decodeArrayFromPayloads dc result) (\<lambda>vs. Inr (case vs of [] \<Rightarrow> JUndefined | v # _ \<Rightarrow> v)))"
| "close_outcome dc (Failed _ failure retryState) =
     (case decodeOptionalFailureToOptionalError dc failure of
        Inl e \<Rightarrow> Inl (Thrown e)
      | Inr cause \<Rightarrow>
          Inl (WorkflowFailedError ''Workflow execution failed'' cause (case retryState of Some n \<Rightarrow> n | None \<Rightarrow> 0)))"
| "close_outcome dc (Canceled details) =
     (case decodeArrayFromPayloads dc details of
        Inl e \<Rightarrow> Inl (Thrown e)
      | Inr ds \<Rightarrow>
          Inl (WorkflowFailedError ''Workflow execution cancelled''
            (Some (TemporalFailure (CancelledFailure ds) ''Workflow canceled'' [] JUndefined None)) RETRY_STATE_NON_RETRYABLE_FAILURE))"
| "close_outcome dc (Terminated reason) =
     (let msg = or_text reason ''Workflow execution terminated'' in
      Inl (WorkflowFailedError msg (Some (TemporalFailure TerminatedFailure msg [] JUndefined None)) RETRY_STATE_NON_RETRYABLE_FAILURE))"
| "close_outcome dc (TimedOut _ retryState) =
     Inl (WorkflowFailedError ''Workflow execution timed out''
       (Some (TemporalFailure (TimeoutFailure JUndefined TIMEOUT_TYPE_START_TO_CLOSE) ''Workflow execution timed out'' [] JUndefined None))
       (case retryState of Some n \<Rightarrow> n | None \<Rightarrow> 0))"
| "close_outcome dc (ContinuedAsNew new) =
     (if truthy_str new then Inl (WorkflowContinuedAsNewError ''Workflow execution continued as new'' (the new))
      else Inl (Thrown (TypeError ''Expected service to return newExecutionRunId for WorkflowExecutionContinuedAsNewEvent'')))"
| "close_outcome dc OtherEvent = Inr JUndefined"

datatype result_step = Again history_request | Finished "client_error + jsval"

definition on_history :: "data_converter \<Rightarrow> bool \<Rightarrow> history_request \<Rightarrow> history_response \<Rightarrow> result_step" where
  "on_history dc followRuns req res =
     (case hr_events res of
        None \<Rightarrow> Again (req\<lparr>rq_nextPageToken := hr_nextPageToken res\<rparr>)
      | Some [] \<Rightarrow> Again (req\<lparr>rq_nextPageToken := hr_nextPageToken res\<rparr>)
      | Some (ev # ev2 # evs) \<Rightarrow>
          Finished (Inl (Thrown (throw_plain ''Error''
            (''Expected at most 1 close event(s), got: '' @ show_nat (Suc (Suc (length evs)))))))
      | Some [ev] \<Rightarrow>
          (case next_run followRuns ev of
             Some r \<Rightarrow> Again (req\<lparr>rq_runId := Some r, rq_nextPageToken := None\<rparr>)
           | None \<Rightarrow> if ev = OtherEvent then Again req else Finished (close_outcome dc ev)))"

partial_function (option) result_loop ::
  "(history_request, history_response, 's) service \<Rightarrow> data_converter \<Rightarrow> bool \<Rightarrow> string \<times> string option
    \<Rightarrow> history_request \<Rightarrow> 's \<Rightarrow> ((client_error + jsval) \<times> 's) option" where
  "result_loop srv dc followRuns execution req s =
     (case srv req s of
        (Inl err, s') \<Rightarrow> Some (Inl (rethrowGrpcError err ''Failed to get Workflow execution history'' (Some execution)), s')
      | (Inr res, s') \<Rightarrow>
          (case on_history dc followRuns req res of
             Again req' \<Rightarrow> result_loop srv dc followRuns execution req' s'
           | Finished r \<Rightarrow> Some (r, s')))"

definition result ::
  "(history_request, history_response, 's) service \<Rightarrow> data_converter \<Rightarrow> string \<Rightarrow> string option \<Rightarrow> bool option \<Rightarrow> 's
    \<Rightarrow> ((client_error + jsval) \<times> 's) option" where
  "result srv dc workflowId runId followRuns s =
     result_loop srv dc (case followRuns of Some b \<Rightarrow> b | None \<Rightarrow> True) (workflowId, runId)
       \<lparr>rq_runId = runId, rq_nextPageToken = None\<rparr> s"

subsection \<open>Chains of runs\<close>

text \<open>
  The chain of runs of a workflow, read off the close events: a run that was completed, failed or timed out may name
  the run that cron or a retry has started, and a run that continued as new names its successor. A chain is followed only
  if the caller wants it to be, and an empty name is none.
\<close>

fun new_run_of :: "close_event \<Rightarrow> string option" where
  "new_run_of (Completed new _) = new"
| "new_run_of (Failed new _ _) = new"
| "new_run_of (TimedOut new _) = new"
| "new_run_of (ContinuedAsNew new) = new"
| "new_run_of _ = None"

definition successor :: "bool \<Rightarrow> close_event \<Rightarrow> string option" where
  "successor follow ev = (case new_run_of ev of Some r \<Rightarrow> if follow \<and> r \<noteq> [] then Some r else None | None \<Rightarrow> None)"

fun run_chain :: "(string \<Rightarrow> close_event) \<Rightarrow> bool \<Rightarrow> string list \<Rightarrow> bool" where
  "run_chain closing follow [] = False"
| "run_chain closing follow [r] = (successor follow (closing r) = None \<and> closing r \<noteq> OtherEvent)"
| "run_chain closing follow (r # r' # rs) =
     (successor follow (closing r) = Some r' \<and> run_chain closing follow (r' # rs))"

text \<open>
  What the caller of \<open>result\<close> is to get for the run that ends the chain, one rule per way a run ends: the first value
  of a completed run, \<open>undefined\<close> if it has none, and for every other end an error that says how the run ended, with the
  decoded cause; what cannot be decoded is thrown.
\<close>

inductive run_outcome :: "data_converter \<Rightarrow> close_event \<Rightarrow> client_error + jsval \<Rightarrow> bool" for dc where
  completed: "decodeArrayFromPayloads dc ps = Inr (v # vs) \<Longrightarrow> run_outcome dc (Completed new ps) (Inr v)"
| completed_void: "decodeArrayFromPayloads dc ps = Inr [] \<Longrightarrow> run_outcome dc (Completed new ps) (Inr JUndefined)"
| completed_unreadable: "decodeArrayFromPayloads dc ps = Inl e \<Longrightarrow> run_outcome dc (Completed new ps) (Inl (Thrown e))"
| failed: "decodeOptionalFailureToOptionalError dc f = Inr cause \<Longrightarrow>
    run_outcome dc (Failed new f (Some n)) (Inl (WorkflowFailedError ''Workflow execution failed'' cause n))"
| failed_unspecified: "decodeOptionalFailureToOptionalError dc f = Inr cause \<Longrightarrow>
    run_outcome dc (Failed new f None) (Inl (WorkflowFailedError ''Workflow execution failed'' cause 0))"
| failed_unreadable: "decodeOptionalFailureToOptionalError dc f = Inl e \<Longrightarrow> run_outcome dc (Failed new f rs) (Inl (Thrown e))"
| canceled: "decodeArrayFromPayloads dc ps = Inr ds \<Longrightarrow>
    run_outcome dc (Canceled ps) (Inl (WorkflowFailedError ''Workflow execution cancelled''
      (Some (TemporalFailure (CancelledFailure ds) ''Workflow canceled'' [] JUndefined None)) 2))"
| canceled_unreadable: "decodeArrayFromPayloads dc ps = Inl e \<Longrightarrow> run_outcome dc (Canceled ps) (Inl (Thrown e))"
| terminated: "r \<noteq> [] \<Longrightarrow> run_outcome dc (Terminated (Some r))
    (Inl (WorkflowFailedError r (Some (TemporalFailure TerminatedFailure r [] JUndefined None)) 2))"
| terminated_unexplained: "r = None \<or> r = Some [] \<Longrightarrow> run_outcome dc (Terminated r)
    (Inl (WorkflowFailedError ''Workflow execution terminated''
      (Some (TemporalFailure TerminatedFailure ''Workflow execution terminated'' [] JUndefined None)) 2))"
| timed_out: "run_outcome dc (TimedOut new (Some n)) (Inl (WorkflowFailedError ''Workflow execution timed out''
      (Some (TemporalFailure (TimeoutFailure JUndefined 1) ''Workflow execution timed out'' [] JUndefined None)) n))"
| timed_out_unspecified: "run_outcome dc (TimedOut new None) (Inl (WorkflowFailedError ''Workflow execution timed out''
      (Some (TemporalFailure (TimeoutFailure JUndefined 1) ''Workflow execution timed out'' [] JUndefined None)) 0))"
| continued: "r \<noteq> [] \<Longrightarrow> run_outcome dc (ContinuedAsNew (Some r))
    (Inl (WorkflowContinuedAsNewError ''Workflow execution continued as new'' r))"
| continued_nowhere: "r = None \<or> r = Some [] \<Longrightarrow> run_outcome dc (ContinuedAsNew r)
    (Inl (Thrown (TypeError ''Expected service to return newExecutionRunId for WorkflowExecutionContinuedAsNewEvent'')))"

text \<open>
  What the client relies on: asked with a page token it gave for that run, or with none, the service answers a long poll
  with no events and a token for the same run, or with the close event of the run; and it does not answer with no events
  for ever: \<open>patience\<close> counts the empty answers its state still allows. It promises nothing for the token of another
  run. \<open>first\<close> is the run a request without a run id is about, \<open>issued\<close> the tokens of a run.
\<close>

definition asked_run :: "string \<Rightarrow> history_request \<Rightarrow> string" where
  "asked_run first req = (case rq_runId req of Some r \<Rightarrow> r | None \<Rightarrow> first)"

definition token_ok :: "(string \<Rightarrow> bytes \<Rightarrow> bool) \<Rightarrow> string \<Rightarrow> bytes option \<Rightarrow> bool" where
  "token_ok issued r token \<longleftrightarrow> (case token of None \<Rightarrow> True | Some t \<Rightarrow> issued r t)"

definition honest_service ::
  "(history_request, history_response, 's) service \<Rightarrow> string \<Rightarrow> (string \<Rightarrow> close_event) \<Rightarrow> (string \<Rightarrow> bytes \<Rightarrow> bool)
    \<Rightarrow> ('s \<Rightarrow> nat) \<Rightarrow> bool" where
  "honest_service srv first closing issued patience \<longleftrightarrow>
     (\<forall>req s. token_ok issued (asked_run first req) (rq_nextPageToken req) \<longrightarrow>
       (\<exists>res s'. srv req s = (Inr res, s') \<and>
         (hr_events res = Some [closing (asked_run first req)]
          \<or> hr_events res \<in> {None, Some []} \<and> patience s' < patience s
            \<and> token_ok issued (asked_run first req) (hr_nextPageToken res))))"

lemma next_run_successor: "next_run follow ev = successor follow ev"
  by (cases ev) (auto simp: successor_def truthy_str_def split: option.splits)

lemma close_outcome_run_outcome: "ev \<noteq> OtherEvent \<Longrightarrow> run_outcome dc ev (close_outcome dc ev)"
  by (cases ev)
    (auto simp: lift_thrown_def and_then_def or_text_def truthy_str_def Let_def RETRY_STATE_NON_RETRYABLE_FAILURE_def
      TIMEOUT_TYPE_START_TO_CLOSE_def
      intro: run_outcome.intros run_outcome.timed_out [simplified] run_outcome.timed_out_unspecified [simplified] split: sum.splits list.splits option.splits)

text \<open>Empty answers are polled through: the answer that counts is that of the run asked for.\<close>

lemma result_of_poll:
  assumes "honest_service srv first closing issued patience"
    and "asked_run first req = r" "token_ok issued r (rq_nextPageToken req)"
  shows "\<exists>req' s'. rq_runId req' = rq_runId req \<and>
    result_loop srv dc follow ex req s =
      (case on_history dc follow req' \<lparr>hr_events = Some [closing r], hr_nextPageToken = None\<rparr> of
         Again req'' \<Rightarrow> result_loop srv dc follow ex req'' s'
       | Finished out \<Rightarrow> Some (out, s'))"
  using assms(2,3)
proof (induction "patience s" arbitrary: req s rule: less_induct)
  case less
  obtain res s' where a: "srv req s = (Inr res, s')"
    "hr_events res = Some [closing r]
      \<or> hr_events res \<in> {None, Some []} \<and> patience s' < patience s \<and> token_ok issued r (hr_nextPageToken res)"
    using assms(1) less.prems unfolding honest_service_def by blast
  from a(2) show ?case
  proof
    assume "hr_events res = Some [closing r]"
    then have "on_history dc follow req res = on_history dc follow req \<lparr>hr_events = Some [closing r], hr_nextPageToken = None\<rparr>"
      by (simp add: on_history_def)
    then show ?thesis using a(1) by (subst result_loop.simps) (intro exI [of _ req] exI [of _ s'], simp)
  next
    assume e: "hr_events res \<in> {None, Some []} \<and> patience s' < patience s \<and> token_ok issued r (hr_nextPageToken res)"
    let ?req = "req\<lparr>rq_nextPageToken := hr_nextPageToken res\<rparr>"
    have "on_history dc follow req res = Again ?req" using e by (auto simp: on_history_def)
    then have step: "result_loop srv dc follow ex req s = result_loop srv dc follow ex ?req s'"
      using a(1) by (subst result_loop.simps) simp
    show ?thesis using less.hyps [of s' ?req] e less.prems unfolding step by (simp add: asked_run_def)
  qed
qed

lemma result_of_chain:
  assumes "honest_service srv first closing issued patience"
    and "run_chain closing follow rs" "asked_run first req = hd rs" "token_ok issued (hd rs) (rq_nextPageToken req)"
  shows "\<exists>out s'. result_loop srv dc follow ex req s = Some (out, s') \<and> run_outcome dc (closing (last rs)) out"
  using assms(2-4)
proof (induction rs arbitrary: req s rule: induct_list012)
  case (2 r)
  obtain req' s' where "result_loop srv dc follow ex req s =
      (case on_history dc follow req' \<lparr>hr_events = Some [closing r], hr_nextPageToken = None\<rparr> of
         Again req'' \<Rightarrow> result_loop srv dc follow ex req'' s'
       | Finished out \<Rightarrow> Some (out, s'))"
    using result_of_poll [OF assms(1), of req r dc follow ex s] 2 by auto
  then show ?case
    using 2 close_outcome_run_outcome [of "closing r" dc] by (simp add: on_history_def next_run_successor)
next
  case (3 r r' rs)
  obtain req' s' where "result_loop srv dc follow ex req s =
      (case on_history dc follow req' \<lparr>hr_events = Some [closing r], hr_nextPageToken = None\<rparr> of
         Again req'' \<Rightarrow> result_loop srv dc follow ex req'' s'
       | Finished out \<Rightarrow> Some (out, s'))"
    using result_of_poll [OF assms(1), of req r dc follow ex s] 3 by auto
  then have "result_loop srv dc follow ex req s =
      result_loop srv dc follow ex (req'\<lparr>rq_runId := Some r', rq_nextPageToken := None\<rparr>) s'"
    using 3 by (simp add: on_history_def next_run_successor)
  then show ?case
    using 3 by (simp add: asked_run_def token_ok_def)
qed simp

text \<open>C27. Waiting for a result returns: with a service that does not answer without events for ever, a workflow whose
  chain of runs, continued as new, retried or started by cron, comes to an end yields the outcome of the last run of the
  chain: the first value it returned, or the error that says how it ended. Unless the chain is followed, that is the run
  that was asked for. The service may refuse a page token that belongs to another run.\<close>

theorem result_of_last_run:
  assumes "honest_service srv first closing issued patience"
    and "run_chain closing (followRuns \<noteq> Some False) rs"
    and "hd rs = (case runId of Some r \<Rightarrow> r | None \<Rightarrow> first)"
  shows "\<exists>out s'. result srv dc workflowId runId followRuns s = Some (out, s') \<and> run_outcome dc (closing (last rs)) out"
proof -
  have "(case followRuns of Some b \<Rightarrow> b | None \<Rightarrow> True) = (followRuns \<noteq> Some False)"
    by (auto split: option.splits)
  then show ?thesis
    using result_of_chain [OF assms(1,2), of "\<lparr>rq_runId = runId, rq_nextPageToken = None\<rparr>" dc "(workflowId, runId)" s] assms(3)
    by (simp add: result_def asked_run_def token_ok_def)
qed

text \<open>A workflow whose first run fails and is retried, on a service that polls and refuses the tokens of other runs.\<close>

definition sample_closing :: "string \<Rightarrow> close_event" where
  "sample_closing r = (if r = ''r1'' then Failed (Some ''r2'') None None else Completed None None)"

definition sample_service :: "(history_request, history_response, nat) service" where
  "sample_service req n =
     (let run = (case rq_runId req of Some r \<Rightarrow> r | None \<Rightarrow> ''r1'') in
      if rq_nextPageToken req \<notin> {None, Some (to_bytes run)}
      then (Inl (GrpcError \<lparr>ge_code = ''INVALID_ARGUMENT'', ge_details = None, ge_message = ''token'', ge_namespace = None\<rparr>), n)
      else if n = 0 then (Inr \<lparr>hr_events = Some [sample_closing run], hr_nextPageToken = None\<rparr>, 0)
      else (Inr \<lparr>hr_events = Some [], hr_nextPageToken = Some (to_bytes run)\<rparr>, n - 1))"

definition sample_data_converter :: data_converter where
  "sample_data_converter = \<lparr>dc_payloadConverter = sample_converter, dc_codecs = [], dc_errorToFailure = (\<lambda>_. Inl JNull),
     dc_failureToError = (\<lambda>_. Inl JNull)\<rparr>"

lemma sample_service_honest: "honest_service sample_service ''r1'' sample_closing (\<lambda>r t. t = to_bytes r) id"
  by (auto simp: honest_service_def sample_service_def token_ok_def asked_run_def Let_def split: option.splits)

inductive_cases run_outcome_completedE: "run_outcome dc (Completed new ps) out"

theorem result_of_last_run_witness:
  "\<exists>s'. result sample_service sample_data_converter ''w'' None None 2 = Some (Inr JUndefined, s')"
proof -
  have "run_chain sample_closing ((None :: bool option) \<noteq> Some False) [''r1'', ''r2'']"
    by (simp add: sample_closing_def successor_def)
  from result_of_last_run [OF sample_service_honest this, of None sample_data_converter "''w''" 2]
  obtain out s' where r: "result sample_service sample_data_converter ''w'' None None 2 = Some (out, s')"
    "run_outcome sample_data_converter (Completed None None) out"
    by (auto simp: sample_closing_def)
  have "decodeArrayFromPayloads sample_data_converter None = Inr []"
    by (simp add: decodeArrayFromPayloads_def decodeOptional_def for_option_def arrayFromPayloads_def)
  then have "out = Inr JUndefined"
    using r(2) by (auto elim: run_outcome_completedE)
  then show ?thesis using r(1) by blast
qed

end
