(* ===== verification/Client_Calls.thy ===== *)
theory Client_Calls
  imports Workflow_Client Interceptors
begin

text \<open>
  The calls of the workflow client: starting, signalling, querying, terminating, cancelling, describing and listing,
  packages/client/src/workflow-client.ts with the descriptions of helpers.ts. A call of the service takes a request and the
  state of the service; \<open>requestId\<close> is the result of \<open>uuid4\<close>.
\<close>

subsection \<open>Options\<close>

text \<open>\<open>'d\<close> is a duration before \<open>compileWorkflowOptions\<close> and a timestamp after it.\<close>

record 'd workflow_options =
  wo_workflowId :: string
  wo_taskQueue :: string
  wo_workflowIdReusePolicy :: "nat option"
  wo_args :: "jsval list option"
  wo_workflowExecutionTimeout :: "'d option"
  wo_workflowRunTimeout :: "'d option"
  wo_workflowTaskTimeout :: "'d option"
  wo_retry :: "retry_policy option"
  wo_memo :: "(string, jsval) jsmap option"
  wo_searchAttributes :: "(string, jsval) jsmap option"
  wo_cronSchedule :: "string option"
  wo_followRuns :: "bool option"

definition assertRequiredWorkflowOptions :: "'d workflow_options \<Rightarrow> unit res" where
  "assertRequiredWorkflowOptions opts =
     (if wo_taskQueue opts = [] then Inl (TypeError ''Missing WorkflowOptions.taskQueue'')
      else if wo_workflowId opts = [] then Inl (TypeError ''Missing WorkflowOptions.workflowId'')
      else Inr ())"

definition ensureArgs :: "'d workflow_options \<Rightarrow> 'd workflow_options" where
  "ensureArgs opts = opts\<lparr>wo_args := Some (case wo_args opts of Some xs \<Rightarrow> xs | None \<Rightarrow> [])\<rparr>"

definition compileWorkflowOptions :: "'l libs \<Rightarrow> duration workflow_options \<Rightarrow> 'l ts workflow_options res" where
  "compileWorkflowOptions L opts =
     and_then (msOptionalToTs L (wo_workflowExecutionTimeout opts)) (\<lambda>et.
     and_then (msOptionalToTs L (wo_workflowRunTimeout opts)) (\<lambda>rt.
     and_then (msOptionalToTs L (wo_workflowTaskTimeout opts)) (\<lambda>tt.
       Inr \<lparr>wo_workflowId = wo_workflowId opts, wo_taskQueue = wo_taskQueue opts,
            wo_workflowIdReusePolicy = wo_workflowIdReusePolicy opts, wo_args = wo_args opts,
            wo_workflowExecutionTimeout = et, wo_workflowRunTimeout = rt, wo_workflowTaskTimeout = tt,
            wo_retry = wo_retry opts, wo_memo = wo_memo opts, wo_searchAttributes = wo_searchAttributes opts,
            wo_cronSchedule = wo_cronSchedule opts, wo_followRuns = wo_followRuns opts\<rparr>)))"

subsection \<open>Requests\<close>

type_synonym headers = "(string, payload) jsmap"

record 'l start_request =
  sr_namespace :: string
  sr_identity :: string
  sr_requestId :: string
  sr_workflowId :: string
  sr_workflowIdReusePolicy :: "nat option"
  sr_workflowType :: string
  sr_input :: "payload list option"
  sr_taskQueue :: string
  sr_workflowExecutionTimeout :: "'l ts option"
  sr_workflowRunTimeout :: "'l ts option"
  sr_workflowTaskTimeout :: "'l ts option"
  sr_retryPolicy :: "'l proto_retry_policy option"
  sr_memo :: "(string, payload option) jsmap option"
  sr_searchAttributes :: "(string, payload) jsmap option"
  sr_cronSchedule :: "string option"
  sr_header :: headers

record 'l signal_with_start_request = "'l start_request" +
  sr_signalName :: string
  sr_signalInput :: "payload list option"

record execution =
  ex_workflowId :: string
  ex_runId :: "string option"

record signal_request =
  sg_namespace :: string
  sg_identity :: string
  sg_requestId :: string
  sg_execution :: execution
  sg_signalName :: string
  sg_input :: "payload list option"
  sg_header :: headers

record query_request =
  qu_namespace :: string
  qu_execution :: execution
  qu_rejectCondition :: nat
  qu_queryType :: string
  qu_args :: "payload list option"
  qu_header :: headers

text \<open>\<open>qr_rejected\<close> is the status of \<open>queryRejected\<close>, \<open>qr_result\<close> the payloads of \<open>queryResult\<close>.\<close>

record query_response =
  qr_rejected :: "nat option option"
  qr_result :: "payload list option option"

record terminate_request =
  tm_namespace :: string
  tm_identity :: string
  tm_execution :: execution
  tm_reason :: "string option"
  tm_details :: "payload list option"
  tm_firstExecutionRunId :: "string option"

record cancel_request =
  cn_namespace :: string
  cn_identity :: string
  cn_requestId :: string
  cn_execution :: execution
  cn_firstExecutionRunId :: "string option"

text \<open>The codes of the enumeration by their names; \<open>OtherStatus\<close> is a code the client does not know.\<close>

datatype execution_status =
    WORKFLOW_EXECUTION_STATUS_UNSPECIFIED
  | WORKFLOW_EXECUTION_STATUS_RUNNING
  | WORKFLOW_EXECUTION_STATUS_COMPLETED
  | WORKFLOW_EXECUTION_STATUS_FAILED
  | WORKFLOW_EXECUTION_STATUS_CANCELED
  | WORKFLOW_EXECUTION_STATUS_TERMINATED
  | WORKFLOW_EXECUTION_STATUS_CONTINUED_AS_NEW
  | WORKFLOW_EXECUTION_STATUS_TIMED_OUT
  | OtherStatus nat

text \<open>\<open>IWorkflowExecutionInfo\<close>; the fields that the code asserts to be present may still be missing.\<close>

record 'l raw_info =
  ri_type :: "string option"
  ri_execution :: "execution option"
  ri_taskQueue :: string
  ri_status :: "execution_status option"
  ri_historyLength :: "'l option"
  ri_startTime :: "'l ts option"
  ri_executionTime :: "'l ts option"
  ri_closeTime :: "'l ts option"
  ri_memo :: "(string, payload) jsmap option"
  ri_searchAttributes :: "(string, payload) jsmap option"
  ri_parentExecution :: "execution option"

text \<open>The methods of the service the client calls.\<close>

record ('l, 'e, 's) workflow_service =
  srv_start :: "('l start_request, string, 's) service"
  srv_signalWithStart :: "('l signal_with_start_request, string, 's) service"
  srv_signal :: "(signal_request, unit, 's) service"
  srv_query :: "(query_request, query_response, 's) service"
  srv_terminate :: "(terminate_request, unit, 's) service"
  srv_cancel :: "(cancel_request, unit, 's) service"
  srv_describe :: "(execution, 'l raw_info, 's) service"
  srv_history :: "(execution \<times> bytes option, 'e list option \<times> bytes option, 's) service"
  srv_list :: "(string option \<times> nat option \<times> bytes option, 'l raw_info list \<times> bytes option, 's) service"

record 'l workflow_client =
  cl_namespace :: string
  cl_identity :: string
  cl_queryRejectCondition :: nat
  cl_dataConverter :: data_converter
  cl_searchAttributes :: converter
  cl_libs :: "'l libs"

type_synonym ('r, 's) call = "'s \<Rightarrow> (client_error + 'r) \<times> 's"

text \<open>A call whose request has to be made first; \<open>on_error\<close> is the body of the catch block.\<close>

definition call_service :: "('q, 'r, 's) service \<Rightarrow> 'q res \<Rightarrow> (service_error \<Rightarrow> client_error) \<Rightarrow> ('r, 's) call" where
  "call_service srv request on_error s =
     (case request of
        Inl e \<Rightarrow> (Inl (Thrown e), s)
      | Inr req \<Rightarrow> (case srv req s of (Inl err, s') \<Rightarrow> (Inl (on_error err), s') | (Inr r, s') \<Rightarrow> (Inr r, s')))"

definition for_execution :: "execution \<Rightarrow> (string \<times> string option) option" where
  "for_execution e = Some (ex_workflowId e, ex_runId e)"

subsection \<open>Handlers\<close>

record 'l start_input =
  si_options :: "'l ts workflow_options"
  si_headers :: headers
  si_workflowType :: string

record 'l signal_with_start_input = "'l start_input" +
  si_signalName :: string
  si_signalArgs :: "jsval list"

text \<open>\<open>extra\<close> is what else is encoded for the request, after the arguments.\<close>

definition start_request_of :: "'l workflow_client \<Rightarrow> string \<Rightarrow> 'l start_input \<Rightarrow> 'x res \<Rightarrow> ('l start_request \<times> 'x) res" where
  "start_request_of C requestId inp extra =
     (let opts = si_options inp in
      and_then (encodeToPayloads (cl_dataConverter C) (case wo_args opts of Some xs \<Rightarrow> xs | None \<Rightarrow> [])) (\<lambda>args.
      and_then extra (\<lambda>x.
      and_then (for_option (compileRetryPolicy (cl_libs C)) (wo_retry opts)) (\<lambda>retry.
      and_then (for_option (encodeMapToPayloads (cl_dataConverter C)) (wo_memo opts)) (\<lambda>memo.
      and_then (for_option (mapToPayloads (cl_searchAttributes C)) (wo_searchAttributes opts)) (\<lambda>sa.
        Inr (\<lparr>sr_namespace = cl_namespace C, sr_identity = cl_identity C, sr_requestId = requestId,
              sr_workflowId = wo_workflowId opts, sr_workflowIdReusePolicy = wo_workflowIdReusePolicy opts,
              sr_workflowType = si_workflowType inp, sr_input = args, sr_taskQueue = wo_taskQueue opts,
              sr_workflowExecutionTimeout = wo_workflowExecutionTimeout opts,
              sr_workflowRunTimeout = wo_workflowRunTimeout opts, sr_workflowTaskTimeout = wo_workflowTaskTimeout opts,
              sr_retryPolicy = retry, sr_memo = memo, sr_searchAttributes = sa,
              sr_cronSchedule = wo_cronSchedule opts, sr_header = si_headers inp\<rparr>, x)))))))"

definition already_started :: "'l start_input \<Rightarrow> client_error" where
  "already_started inp = Thrown (JError (TemporalFailure
     (WorkflowExecutionAlreadyStartedError (wo_workflowId (si_options inp)) (si_workflowType inp))
     ''Workflow execution already started'' [] JUndefined None))"

definition startWorkflowHandler :: "'l workflow_client \<Rightarrow> ('l, 'e, 's) workflow_service \<Rightarrow> string \<Rightarrow> 'l start_input \<Rightarrow> (string, 's) call" where
  "startWorkflowHandler C S requestId inp =
     call_service (srv_start S) (and_then (start_request_of C requestId inp (Inr ())) (\<lambda>(req, _). Inr req)) (\<lambda>err.
       if (case err of GrpcError g \<Rightarrow> ge_code g = ''ALREADY_EXISTS'' | OtherError _ \<Rightarrow> False) then already_started inp
       else rethrowGrpcError err ''Failed to start Workflow'' (Some (wo_workflowId (si_options inp), None)))"

definition signalWithStartWorkflowHandler ::
  "'l workflow_client \<Rightarrow> ('l, 'e, 's) workflow_service \<Rightarrow> string \<Rightarrow> 'l signal_with_start_input \<Rightarrow> (string, 's) call" where
  "signalWithStartWorkflowHandler C S requestId inp =
     call_service (srv_signalWithStart S)
       (and_then (start_request_of C requestId (start_input.truncate inp)
            (encodeToPayloads (cl_dataConverter C) (si_signalArgs inp))) (\<lambda>(req, sig).
          Inr (start_request.extend req \<lparr>sr_signalName = si_signalName inp, sr_signalInput = sig\<rparr>)))
       (\<lambda>err. rethrowGrpcError err ''Failed to signalWithStart Workflow'' (Some (wo_workflowId (si_options inp), None)))"

definition signalWorkflowHandler ::
  "'l workflow_client \<Rightarrow> ('l, 'e, 's) workflow_service \<Rightarrow> string \<Rightarrow> execution \<Rightarrow> string \<Rightarrow> jsval list \<Rightarrow> headers \<Rightarrow> (unit, 's) call" where
  "signalWorkflowHandler C S requestId ex signalName args hs =
     call_service (srv_signal S)
       (and_then (encodeToPayloads (cl_dataConverter C) args) (\<lambda>ps.
          Inr \<lparr>sg_namespace = cl_namespace C, sg_identity = cl_identity C, sg_requestId = requestId, sg_execution = ex,
               sg_signalName = signalName, sg_input = ps, sg_header = hs\<rparr>))
       (\<lambda>err. rethrowGrpcError err ''Failed to signal Workflow'' (for_execution ex))"

text \<open>\<open>message.replace(/^3 INVALID_ARGUMENT: /, '')\<close>\<close>

definition strip_prefix :: "string \<Rightarrow> string \<Rightarrow> string" where
  "strip_prefix p s = (if take (length p) s = p then drop (length p) s else s)"

definition query_error :: "execution \<Rightarrow> service_error \<Rightarrow> client_error" where
  "query_error ex err =
     (case err of
        GrpcError g \<Rightarrow>
          (case rethrowKnownErrorTypes g of
             Some e \<Rightarrow> e
           | None \<Rightarrow>
               if ge_code g = ''INVALID_ARGUMENT''
               then QueryNotRegisteredError (strip_prefix ''3 INVALID_ARGUMENT: '' (ge_message g))
               else rethrowGrpcError err ''Failed to query Workflow'' (for_execution ex))
      | OtherError _ \<Rightarrow> rethrowGrpcError err ''Failed to query Workflow'' (for_execution ex))"

definition queryWorkflowHandler ::
  "'l workflow_client \<Rightarrow> ('l, 'e, 's) workflow_service \<Rightarrow> execution \<Rightarrow> nat \<Rightarrow> string \<Rightarrow> jsval list \<Rightarrow> headers \<Rightarrow> (jsval, 's) call" where
  "queryWorkflowHandler C S ex rejectCondition queryType args hs s =
     (case call_service (srv_query S)
         (and_then (encodeToPayloads (cl_dataConverter C) args) (\<lambda>ps.
            Inr \<lparr>qu_namespace = cl_namespace C, qu_execution = ex, qu_rejectCondition = rejectCondition,
                 qu_queryType = queryType, qu_args = ps, qu_header = hs\<rparr>))
         (query_error ex) s of
        (Inl e, s') \<Rightarrow> (Inl e, s')
      | (Inr res, s') \<Rightarrow>
          (case qr_rejected res of
             Some None \<Rightarrow> (Inl (Thrown (TypeError ''Received queryRejected from server with no status'')), s')
           | Some (Some status) \<Rightarrow> (Inl (QueryRejectedError status), s')
           | None \<Rightarrow>
               (case qr_result res of
                  None \<Rightarrow> (Inl (Thrown (TypeError ''Invalid response from server'')), s')
                | Some ps \<Rightarrow> (lift_thrown (decodeFromPayloadsAtIndex (cl_dataConverter C) 0 ps), s'))))"

definition terminateWorkflowHandler ::
  "'l workflow_client \<Rightarrow> ('l, 'e, 's) workflow_service \<Rightarrow> execution \<Rightarrow> string option \<Rightarrow> jsval list option \<Rightarrow> string option \<Rightarrow> (unit, 's) call" where
  "terminateWorkflowHandler C S ex reason details firstExecutionRunId =
     call_service (srv_terminate S)
       (and_then (case details of Some ds \<Rightarrow> encodeToPayloads (cl_dataConverter C) ds | None \<Rightarrow> Inr None) (\<lambda>ps.
          Inr \<lparr>tm_namespace = cl_namespace C, tm_identity = cl_identity C, tm_execution = ex, tm_reason = reason,
               tm_details = ps, tm_firstExecutionRunId = firstExecutionRunId\<rparr>))
       (\<lambda>err. rethrowGrpcError err ''Failed to terminate Workflow'' (for_execution ex))"

definition cancelWorkflowHandler ::
  "'l workflow_client \<Rightarrow> ('l, 'e, 's) workflow_service \<Rightarrow> string \<Rightarrow> execution \<Rightarrow> string option \<Rightarrow> (unit, 's) call" where
  "cancelWorkflowHandler C S requestId ex firstExecutionRunId =
     call_service (srv_cancel S)
       (Inr \<lparr>cn_namespace = cl_namespace C, cn_identity = cl_identity C, cn_requestId = requestId, cn_execution = ex,
             cn_firstExecutionRunId = firstExecutionRunId\<rparr>)
       (\<lambda>err. rethrowGrpcError err ''Failed to cancel workflow'' (for_execution ex))"

definition describeWorkflowHandler :: "('l, 'e, 's) workflow_service \<Rightarrow> execution \<Rightarrow> ('l raw_info, 's) call" where
  "describeWorkflowHandler S ex =
     call_service (srv_describe S) (Inr ex) (\<lambda>err. rethrowGrpcError err ''Failed to describe workflow'' (for_execution ex))"

subsection \<open>Descriptions\<close>

definition workflowStatusCodeToName :: "execution_status option \<Rightarrow> string" where
  "workflowStatusCodeToName code =
     (case code of
        Some WORKFLOW_EXECUTION_STATUS_UNSPECIFIED \<Rightarrow> ''UNSPECIFIED''
      | Some WORKFLOW_EXECUTION_STATUS_RUNNING \<Rightarrow> ''RUNNING''
      | Some WORKFLOW_EXECUTION_STATUS_FAILED \<Rightarrow> ''FAILED''
      | Some WORKFLOW_EXECUTION_STATUS_TIMED_OUT \<Rightarrow> ''TIMED_OUT''
      | Some WORKFLOW_EXECUTION_STATUS_CANCELED \<Rightarrow> ''CANCELLED''
      | Some WORKFLOW_EXECUTION_STATUS_TERMINATED \<Rightarrow> ''TERMINATED''
      | Some WORKFLOW_EXECUTION_STATUS_COMPLETED \<Rightarrow> ''COMPLETED''
      | Some WORKFLOW_EXECUTION_STATUS_CONTINUED_AS_NEW \<Rightarrow> ''CONTINUED_AS_NEW''
      | _ \<Rightarrow> ''UNKNOWN'')"

record execution_info =
  ei_type :: string
  ei_workflowId :: string
  ei_runId :: "string option"
  ei_taskQueue :: string
  ei_status :: "execution_status option \<times> string"
  ei_historyLength :: jsnum
  ei_startTime :: jsnum
  ei_executionTime :: "jsnum option"
  ei_closeTime :: "jsnum option"
  ei_memo :: "(string, jsval) jsmap option"
  ei_searchAttributes :: "(string, jsval) jsmap"
  ei_parentExecution :: "execution option"

definition required :: "'a option \<Rightarrow> 'a res" where
  "required x = (case x of Some y \<Rightarrow> Inr y | None \<Rightarrow> Inl (TypeError ''Cannot read properties of undefined''))"

definition executionInfoFromRaw :: "'l workflow_client \<Rightarrow> 'l raw_info \<Rightarrow> execution_info res" where
  "executionInfoFromRaw C raw =
     and_then (required (ri_type raw)) (\<lambda>ty.
     and_then (required (ri_execution raw)) (\<lambda>ex.
     and_then (required (ri_historyLength raw)) (\<lambda>len.
     and_then (tsToDate (cl_libs C) (ri_startTime raw)) (\<lambda>start.
     and_then (optionalTsToDate (cl_libs C) (ri_executionTime raw)) (\<lambda>exec.
     and_then (optionalTsToDate (cl_libs C) (ri_closeTime raw)) (\<lambda>close.
     and_then (decodeMapFromPayloads (cl_dataConverter C) (ri_memo raw)) (\<lambda>memo.
     and_then (decodeSearchAttributes (cl_searchAttributes C) (Some (case ri_searchAttributes raw of Some m \<Rightarrow> m | None \<Rightarrow> []))) (\<lambda>sa.
       Inr \<lparr>ei_type = ty, ei_workflowId = ex_workflowId ex, ei_runId = ex_runId ex, ei_taskQueue = ri_taskQueue raw,
            ei_status = (ri_status raw, workflowStatusCodeToName (ri_status raw)), ei_historyLength = toNumber (cl_libs C) len,
            ei_startTime = start, ei_executionTime = exec, ei_closeTime = close, ei_memo = memo,
            ei_searchAttributes = sa, ei_parentExecution = ri_parentExecution raw\<rparr>))))))))"

subsection \<open>Pages\<close>

text \<open>
  The loops that read a listing page by page have one shape. A page is the items it yields with the error that ends
  the listing or the token of the page after it. \<open>list_pages\<close> gives what a consumer that reads to the end gets: the items, the
  error, if any, and the state of the service; it goes on for ever if the service keeps sending tokens.
\<close>

type_synonym ('i, 's) page_source = "bytes option \<Rightarrow> 's \<Rightarrow> ('i list \<times> (client_error + bytes option)) \<times> 's"

definition no_token :: "bytes option \<Rightarrow> bool" where
  "no_token t \<longleftrightarrow> t = None \<or> t = Some []"

partial_function (option) list_pages :: "('i, 's) page_source \<Rightarrow> bytes option \<Rightarrow> 's \<Rightarrow> ('i list \<times> client_error option \<times> 's) option" where
  "list_pages src token s =
     (case src token s of
        ((items, Inl e), s') \<Rightarrow> Some (items, Some e, s')
      | ((items, Inr token'), s') \<Rightarrow>
          if no_token token' then Some (items, None, s')
          else Option.bind (list_pages src token' s') (\<lambda>(rest, e, t). Some (items @ rest, e, t)))"

text \<open>The items of a page that are yielded before the first one that cannot be decoded.\<close>

fun yield_all :: "('a \<Rightarrow> 'b res) \<Rightarrow> 'a list \<Rightarrow> 'b list \<times> client_error option" where
  "yield_all f [] = ([], None)"
| "yield_all f (x # xs) =
     (case f x of
        Inl e \<Rightarrow> ([], Some (Thrown e))
      | Inr y \<Rightarrow> (case yield_all f xs of (ys, e) \<Rightarrow> (y # ys, e)))"

definition page_of :: "('a \<Rightarrow> 'b res) \<Rightarrow> (service_error \<Rightarrow> client_error) \<Rightarrow>
    ((service_error + 'a list \<times> bytes option) \<times> 's) \<Rightarrow> ('b list \<times> (client_error + bytes option)) \<times> 's" where
  "page_of dec on_error r =
     (case r of
        (Inl err, s') \<Rightarrow> (([], Inl (on_error err)), s')
      | (Inr (raws, token), s') \<Rightarrow>
          (case yield_all dec raws of
             (items, Some e) \<Rightarrow> ((items, Inl e), s')
           | (items, None) \<Rightarrow> ((items, Inr token), s')))"

definition list_workflows ::
  "'l workflow_client \<Rightarrow> ('l, 'e, 's) workflow_service \<Rightarrow> string option \<Rightarrow> nat option \<Rightarrow> 's \<Rightarrow> (execution_info list \<times> client_error option \<times> 's) option" where
  "list_workflows C S query pageSize =
     list_pages (\<lambda>token s. page_of (executionInfoFromRaw C) (\<lambda>err. rethrowGrpcError err ''Failed to list workflows'' None)
       (srv_list S (query, pageSize, token) s)) (Some [])"

text \<open>An error of the service is not translated by \<open>fetchHistory\<close>, which returns the events once it has them all.\<close>

definition fetchHistory :: "('l, 'e, 's) workflow_service \<Rightarrow> execution \<Rightarrow> 's \<Rightarrow> ((client_error + 'e list) \<times> 's) option" where
  "fetchHistory S ex s =
     map_option (\<lambda>(events, err, t). (case err of Some e \<Rightarrow> Inl e | None \<Rightarrow> Inr events, t))
       (list_pages (\<lambda>token s. page_of Inr RawError
          (case srv_history S (ex, token) s of
             (Inl err, s') \<Rightarrow> (Inl err, s')
           | (Inr (events, token'), s') \<Rightarrow> (Inr (case events of Some evs \<Rightarrow> evs | None \<Rightarrow> [], token'), s'))) None s)"

subsection \<open>Handles\<close>

record workflow_handle =
  wh_workflowId :: string
  wh_runId :: "string option"
  wh_firstExecutionRunId :: "string option"
  wh_runIdForResult :: "string option"
  wh_followRuns :: bool

definition handle_execution :: "workflow_handle \<Rightarrow> execution" where
  "handle_execution h = \<lparr>ex_workflowId = wh_workflowId h, ex_runId = wh_runId h\<rparr>"

text \<open>The interceptors of a client for one method; those that do not implement it do not count.\<close>

type_synonym ('i, 'r, 's) call_interceptors = "(unit, 'i, ('r, 's) call) interceptor list"

definition handle_result ::
  "'l workflow_client \<Rightarrow> (history_request, history_response, 's) service \<Rightarrow> workflow_handle \<Rightarrow> 's \<Rightarrow> ((client_error + jsval) \<times> 's) option" where
  "handle_result C srv h = result srv (cl_dataConverter C) (wh_workflowId h) (wh_runIdForResult h) (Some (wh_followRuns h))"

definition handle_terminate ::
  "'l workflow_client \<Rightarrow> ('l, 'e, 's) workflow_service
    \<Rightarrow> (execution \<times> string option \<times> string option, unit, 's) call_interceptors \<Rightarrow> workflow_handle \<Rightarrow> string option \<Rightarrow> (unit, 's) call" where
  "handle_terminate C S is h reason =
     composeInterceptors is () (\<lambda>(ex, reason, first). terminateWorkflowHandler C S ex reason None first)
       (handle_execution h, reason, wh_firstExecutionRunId h)"

definition handle_cancel ::
  "'l workflow_client \<Rightarrow> ('l, 'e, 's) workflow_service
    \<Rightarrow> (execution \<times> string option, unit, 's) call_interceptors \<Rightarrow> string \<Rightarrow> workflow_handle \<Rightarrow> (unit, 's) call" where
  "handle_cancel C S is requestId h =
     composeInterceptors is () (\<lambda>(ex, first). cancelWorkflowHandler C S requestId ex first)
       (handle_execution h, wh_firstExecutionRunId h)"

definition handle_describe ::
  "'l workflow_client \<Rightarrow> ('l, 'e, 's) workflow_service
    \<Rightarrow> (execution, 'l raw_info, 's) call_interceptors \<Rightarrow> workflow_handle \<Rightarrow> (execution_info, 's) call" where
  "handle_describe C S is h s =
     (case composeInterceptors is () (describeWorkflowHandler S) (handle_execution h) s of
        (Inl e, s') \<Rightarrow> (Inl e, s')
      | (Inr raw, s') \<Rightarrow> (lift_thrown (executionInfoFromRaw C raw), s'))"

definition handle_signal ::
  "'l workflow_client \<Rightarrow> ('l, 'e, 's) workflow_service
    \<Rightarrow> (execution \<times> string \<times> jsval list \<times> headers, unit, 's) call_interceptors \<Rightarrow> string \<Rightarrow> workflow_handle \<Rightarrow> string \<Rightarrow> jsval list \<Rightarrow> (unit, 's) call" where
  "handle_signal C S is requestId h name args =
     composeInterceptors is () (\<lambda>(ex, name, args, hs). signalWorkflowHandler C S requestId ex name args hs)
       (handle_execution h, name, args, [])"

definition handle_query ::
  "'l workflow_client \<Rightarrow> ('l, 'e, 's) workflow_service
    \<Rightarrow> (execution \<times> nat \<times> string \<times> jsval list \<times> headers, jsval, 's) call_interceptors \<Rightarrow> workflow_handle \<Rightarrow> string \<Rightarrow> jsval list \<Rightarrow> (jsval, 's) call" where
  "handle_query C S is h name args =
     composeInterceptors is () (\<lambda>(ex, rc, name, args, hs). queryWorkflowHandler C S ex rc name args hs)
       (handle_execution h, cl_queryRejectCondition C, name, args, [])"

definition getHandle :: "string \<Rightarrow> string option \<Rightarrow> string option \<Rightarrow> bool option \<Rightarrow> workflow_handle" where
  "getHandle workflowId runId firstExecutionRunId followRuns =
     \<lparr>wh_workflowId = workflowId, wh_runId = runId, wh_firstExecutionRunId = firstExecutionRunId,
      wh_runIdForResult = (case runId of Some r \<Rightarrow> Some r | None \<Rightarrow> firstExecutionRunId),
      wh_followRuns = (case followRuns of Some b \<Rightarrow> b | None \<Rightarrow> True)\<rparr>"

definition start_input_of :: "'l libs \<Rightarrow> workflow_ref \<Rightarrow> duration workflow_options \<Rightarrow> 'l start_input res" where
  "start_input_of L workflowTypeOrFunc opts =
     and_then (extractWorkflowType workflowTypeOrFunc) (\<lambda>ty.
     and_then (assertRequiredWorkflowOptions opts) (\<lambda>_.
     and_then (compileWorkflowOptions L (ensureArgs opts)) (\<lambda>compiled.
       Inr \<lparr>si_options = compiled, si_headers = [], si_workflowType = ty\<rparr>)))"

definition start_run ::
  "'l workflow_client \<Rightarrow> ('l, 'e, 's) workflow_service \<Rightarrow> ('l start_input, string, 's) call_interceptors \<Rightarrow> string
    \<Rightarrow> workflow_ref \<Rightarrow> duration workflow_options \<Rightarrow> (string, 's) call" where
  "start_run C S is requestId workflowTypeOrFunc opts s =
     (case start_input_of (cl_libs C) workflowTypeOrFunc opts of
        Inl e \<Rightarrow> (Inl (Thrown e), s)
      | Inr inp \<Rightarrow> composeInterceptors is () (startWorkflowHandler C S requestId) inp s)"

definition start ::
  "'l workflow_client \<Rightarrow> ('l, 'e, 's) workflow_service \<Rightarrow> ('l start_input, string, 's) call_interceptors \<Rightarrow> string
    \<Rightarrow> workflow_ref \<Rightarrow> duration workflow_options \<Rightarrow> (workflow_handle, 's) call" where
  "start C S is requestId workflowTypeOrFunc opts s =
     (case start_run C S is requestId workflowTypeOrFunc opts s of
        (Inl e, s') \<Rightarrow> (Inl e, s')
      | (Inr runId, s') \<Rightarrow>
          (Inr \<lparr>wh_workflowId = wo_workflowId opts, wh_runId = None, wh_firstExecutionRunId = Some runId,
                wh_runIdForResult = Some runId,
                wh_followRuns = (case wo_followRuns opts of Some b \<Rightarrow> b | None \<Rightarrow> True)\<rparr>, s'))"

definition signalWithStart ::
  "'l workflow_client \<Rightarrow> ('l, 'e, 's) workflow_service \<Rightarrow> ('l signal_with_start_input, string, 's) call_interceptors \<Rightarrow> string
    \<Rightarrow> workflow_ref \<Rightarrow> duration workflow_options \<Rightarrow> string \<Rightarrow> jsval list option \<Rightarrow> (workflow_handle, 's) call" where
  "signalWithStart C S is requestId workflowTypeOrFunc opts signal signalArgs s =
     (case start_input_of (cl_libs C) workflowTypeOrFunc opts of
        Inl e \<Rightarrow> (Inl (Thrown e), s)
      | Inr inp \<Rightarrow>
          (case composeInterceptors is () (signalWithStartWorkflowHandler C S requestId)
              (start_input.extend inp \<lparr>si_signalName = signal, si_signalArgs = (case signalArgs of Some xs \<Rightarrow> xs | None \<Rightarrow> [])\<rparr>) s of
             (Inl e, s') \<Rightarrow> (Inl e, s')
           | (Inr runId, s') \<Rightarrow>
               (Inr \<lparr>wh_workflowId = wo_workflowId opts, wh_runId = None, wh_firstExecutionRunId = None,
                     wh_runIdForResult = Some runId,
                     wh_followRuns = (case wo_followRuns opts of Some b \<Rightarrow> b | None \<Rightarrow> True)\<rparr>, s')))"

text \<open>The result is asked for without a run id.\<close>

definition execute ::
  "'l workflow_client \<Rightarrow> ('l, 'e, 's) workflow_service \<Rightarrow> (history_request, history_response, 's) service
    \<Rightarrow> ('l start_input, string, 's) call_interceptors \<Rightarrow> string \<Rightarrow> workflow_ref \<Rightarrow> duration workflow_options
    \<Rightarrow> 's \<Rightarrow> ((client_error + jsval) \<times> 's) option" where
  "execute C S srv is requestId workflowTypeOrFunc opts s =
     (case start_run C S is requestId workflowTypeOrFunc opts s of
        (Inl e, s') \<Rightarrow> Some (Inl e, s')
      | (Inr _, s') \<Rightarrow> result srv (cl_dataConverter C) (wo_workflowId opts) None
          (Some (case wo_followRuns opts of Some b \<Rightarrow> b | None \<Rightarrow> True)) s')"

subsection \<open>Listings\<close>

text \<open>
  The service answers the requests of a listing that starts at \<open>token\<close> with the pages \<open>ps\<close>: each but the last comes with
  a token for the page after it.
\<close>

fun serves :: "(bytes option \<Rightarrow> 's \<Rightarrow> (service_error + 'a list \<times> bytes option) \<times> 's) \<Rightarrow> bytes option \<Rightarrow> 's \<Rightarrow> 'a list list \<Rightarrow> bool" where
  "serves src token s [] = False"
| "serves src token s (p # ps) =
     (case src token s of
        (Inr (p', token'), s') \<Rightarrow> p' = p \<and> (if ps = [] then no_token token' else \<not> no_token token' \<and> serves src token' s' ps)
      | _ \<Rightarrow> False)"

lemma yield_all_append:
  "yield_all f (xs @ ys) =
     (case yield_all f xs of
        (zs, Some e) \<Rightarrow> (zs, Some e)
      | (zs, None) \<Rightarrow> (case yield_all f ys of (ws, e) \<Rightarrow> (zs @ ws, e)))"
  by (induction xs) (auto split: sum.splits option.splits prod.splits)

lemma list_pages_served:
  assumes "serves src token s ps"
  shows "\<exists>t. list_pages (\<lambda>token s. page_of f g (src token s)) token s =
    Some (fst (yield_all f (concat ps)), snd (yield_all f (concat ps)), t)"
  using assms
proof (induction ps arbitrary: token s)
  case (Cons p ps)
  then obtain token' s' where a: "src token s = (Inr (p, token'), s')"
    "if ps = [] then no_token token' else \<not> no_token token' \<and> serves src token' s' ps"
    by (auto split: prod.splits sum.splits)
  obtain zs e where y: "yield_all f p = (zs, e)" by fastforce
  show ?case
  proof (cases e)
    case (Some err)
    then show ?thesis using a y by (subst list_pages.simps) (simp add: page_of_def yield_all_append)
  next
    case None
    show ?thesis
    proof (cases "ps = []")
      case True
      then show ?thesis using a y None by (subst list_pages.simps) (simp add: page_of_def)
    next
      case False
      then obtain t where "list_pages (\<lambda>token s. page_of f g (src token s)) token' s' =
          Some (fst (yield_all f (concat ps)), snd (yield_all f (concat ps)), t)"
        using Cons.IH a by auto
      then show ?thesis using a y None False
        by (subst list_pages.simps) (simp add: page_of_def yield_all_append split: prod.splits)
    qed
  qed
qed simp

lemma yield_all_Inr: "yield_all Inr xs = (xs, None)"
  by (induction xs) auto

lemma yield_all_decoded: "map_res f xs = Inr ys \<Longrightarrow> yield_all f xs = (ys, None)"
  by (induction xs arbitrary: ys) (auto simp: and_then_eq_Inr)

lemma yield_all_stops: "map_res f pre = Inr ys \<Longrightarrow> f x = Inl e \<Longrightarrow> yield_all f (pre @ x # post) = (ys, Some (Thrown e))"
  by (simp add: yield_all_append yield_all_decoded)

text \<open>C28. Listing workflows ends when the service sends no further token, and gives the executions of all the pages in the
  order of the pages, once each, if each of them can be decoded; and if those before some execution can be decoded and
  that one cannot, the consumer gets those before it and then the error.\<close>

theorem listing_complete:
  assumes "serves (\<lambda>token. srv_list S (query, pageSize, token)) (Some []) s pages"
    and "concat pages = pre @ post" and "map_res (executionInfoFromRaw C) pre = Inr infos"
    and "post = [] \<or> executionInfoFromRaw C (hd post) = Inl e"
  shows "\<exists>t. list_workflows C S query pageSize s =
    Some (infos, if post = [] then None else Some (Thrown e), t)"
proof -
  have "yield_all (executionInfoFromRaw C) (concat pages) = (infos, if post = [] then None else Some (Thrown e))"
    using assms(2-4) yield_all_decoded [OF assms(3)] yield_all_stops [OF assms(3), of "hd post" e "tl post"] by auto
  then show ?thesis
    unfolding list_workflows_def using list_pages_served [OF assms(1), of "executionInfoFromRaw C"] by fastforce
qed

definition sample_raw :: "string \<Rightarrow> 64 word raw_info" where
  "sample_raw run = \<lparr>ri_type = Some ''wf'', ri_execution = Some \<lparr>ex_workflowId = ''w'', ex_runId = Some run\<rparr>, ri_taskQueue = ''q'',
     ri_status = Some WORKFLOW_EXECUTION_STATUS_RUNNING, ri_historyLength = Some 0,
     ri_startTime = Some \<lparr>seconds = None, nanos = None\<rparr>, ri_executionTime = None, ri_closeTime = None,
     ri_memo = None, ri_searchAttributes = None, ri_parentExecution = None\<rparr>"

text \<open>Three pages: an empty one, one execution, and one more with an execution that has no type.\<close>

definition sample_listing :: "(string option \<times> nat option \<times> bytes option, 64 word raw_info list \<times> bytes option, nat) service" where
  "sample_listing req s =
     (let token = snd (snd req) in
      if token = Some [] then (Inr ([], Some [1]), s)
      else if token = Some [1] then (Inr ([sample_raw ''r''], Some [2]), s)
      else (Inr ([sample_raw ''r2'', (sample_raw ''r3'')\<lparr>ri_type := None\<rparr>], None), s))"

text \<open>Fetching a history gives the events of all its pages.\<close>

lemma fetchHistory_complete:
  assumes "serves (\<lambda>token s. case srv_history S (ex, token) s of
      (Inl err, s') \<Rightarrow> (Inl err, s')
    | (Inr (events, token'), s') \<Rightarrow> (Inr (case events of Some evs \<Rightarrow> evs | None \<Rightarrow> [], token'), s')) None s pages"
  shows "\<exists>t. fetchHistory S ex s = Some (Inr (concat pages), t)"
  using list_pages_served [OF assms, of Inr RawError] by (auto simp: fetchHistory_def yield_all_Inr)

subsection \<open>Starting\<close>

lemma encoded_payloads_decode:
  assumes "lossless (dc_payloadConverter dc)" "\<forall>c \<in> set (dc_codecs dc). codec_lossless c" "encodeToPayloads dc vs = Inr ps"
  shows "decodeArrayFromPayloads dc ps = Inr vs"
proof (cases "vs = []")
  case False
  then obtain qs where q: "toPayloads (dc_payloadConverter dc) vs = Inr (Some qs)"
    "(case Some qs of None \<Rightarrow> Inr None | Some ps \<Rightarrow> and_then (encode (dc_codecs dc) ps) (\<lambda>qs. Inr (Some qs))) = Inr ps"
    using assms(3) by (auto simp: encodeToPayloads_def toPayloads_def and_then_eq_Inr)
  then obtain rs where "ps = Some rs" "decode (dc_codecs dc) rs = Inr qs"
    using decode_encode [OF assms(2)] by (auto simp: and_then_eq_Inr)
  then show ?thesis
    using toPayloads_back [OF assms(1) q(1)] by (simp add: decodeArrayFromPayloads_def decodeOptional_def for_option_def)
qed (use assms(3) in \<open>auto simp: encodeToPayloads_def decodeArrayFromPayloads_def decodeOptional_def for_option_def arrayFromPayloads_def\<close>)

lemma start_request_of_Inr:
  "start_request_of C requestId inp extra = Inr (req, x) \<Longrightarrow>
     encodeToPayloads (cl_dataConverter C) (case wo_args (si_options inp) of Some xs \<Rightarrow> xs | None \<Rightarrow> []) = Inr (sr_input req)
     \<and> extra = Inr x \<and> sr_workflowId req = wo_workflowId (si_options inp) \<and> sr_workflowType req = si_workflowType inp
     \<and> sr_taskQueue req = wo_taskQueue (si_options inp)"
  by (auto simp: start_request_of_def Let_def and_then_eq_Inr)

lemma start_input_of_Inr:
  "start_input_of L w opts = Inr inp \<Longrightarrow>
     extractWorkflowType w = Inr (si_workflowType inp) \<and> wo_workflowId (si_options inp) = wo_workflowId opts
     \<and> wo_taskQueue (si_options inp) = wo_taskQueue opts \<and> wo_workflowId opts \<noteq> [] \<and> wo_taskQueue opts \<noteq> []
     \<and> wo_args (si_options inp) = Some (case wo_args opts of Some xs \<Rightarrow> xs | None \<Rightarrow> [])"
  by (auto simp: start_input_of_def and_then_eq_Inr compileWorkflowOptions_def ensureArgs_def assertRequiredWorkflowOptions_def
      split: if_splits)

text \<open>The request that \<open>signalWithStart\<close> sends asks for the workflow that was named, on the queue that was named, and the worker
  that receives it decodes the very arguments and signal arguments that were passed, whatever codecs the client and
  the worker share.\<close>

theorem start_arguments_roundtrip:
  assumes "lossless (dc_payloadConverter (cl_dataConverter C))" and "\<forall>c \<in> set (dc_codecs (cl_dataConverter C)). codec_lossless c"
    and "start_input_of (cl_libs C) w opts = Inr inp"
    and "start_request_of C requestId inp (encodeToPayloads (cl_dataConverter C) signalArgs) = Inr (req, sig)"
  shows "extractWorkflowType w = Inr (sr_workflowType req) \<and> sr_workflowId req = wo_workflowId opts \<and> sr_workflowId req \<noteq> []
    \<and> sr_taskQueue req = wo_taskQueue opts
    \<and> decodeArrayFromPayloads (cl_dataConverter C) (sr_input req) = Inr (case wo_args opts of Some xs \<Rightarrow> xs | None \<Rightarrow> [])
    \<and> decodeArrayFromPayloads (cl_dataConverter C) sig = Inr signalArgs"
  using start_request_of_Inr [OF assms(4)] start_input_of_Inr [OF assms(3)] encoded_payloads_decode [OF assms(1,2)] by auto

definition sample_client :: "64 word workflow_client" where
  "sample_client = \<lparr>cl_namespace = ''default'', cl_identity = ''me'', cl_queryRejectCondition = 0,
     cl_dataConverter = \<lparr>dc_payloadConverter = sample_converter, dc_codecs = [prefix_codec 1], dc_errorToFailure = (\<lambda>_. Inl JNull),
       dc_failureToError = (\<lambda>_. Inl JNull)\<rparr>, cl_searchAttributes = sample_converter, cl_libs = long64\<rparr>"

definition sample_options :: "duration workflow_options" where
  "sample_options = \<lparr>wo_workflowId = ''w'', wo_taskQueue = ''q'', wo_workflowIdReusePolicy = None, wo_args = Some [JStr ''a''],
     wo_workflowExecutionTimeout = None, wo_workflowRunTimeout = None, wo_workflowTaskTimeout = None, wo_retry = None,
     wo_memo = None, wo_searchAttributes = None, wo_cronSchedule = None, wo_followRuns = None\<rparr>"

text \<open>A handle made by \<open>start\<close> keeps to the chain of runs it has started: it terminates and cancels with the id of the
  first run and no run id, so that only that chain is affected, whichever of its runs is current; and the result it waits
  for is that of the last run of the chain, if the chain ends and is to be followed.\<close>

theorem started_handle_keeps_to_chain:
  fixes t :: 's
  assumes "start C S is requestId w opts s = (Inr h, s1)"
  shows "\<exists>r. start_run C S is requestId w opts s = (Inr r, s1)
    \<and> handle_terminate C S [] h reason t = call_service (srv_terminate S)
        (Inr \<lparr>tm_namespace = cl_namespace C, tm_identity = cl_identity C,
              tm_execution = \<lparr>ex_workflowId = wo_workflowId opts, ex_runId = None\<rparr>, tm_reason = reason, tm_details = None,
              tm_firstExecutionRunId = Some r\<rparr>)
        (\<lambda>err. rethrowGrpcError err ''Failed to terminate Workflow'' (Some (wo_workflowId opts, None))) t
    \<and> handle_cancel C S [] requestId' h t = call_service (srv_cancel S)
        (Inr \<lparr>cn_namespace = cl_namespace C, cn_identity = cl_identity C, cn_requestId = requestId',
              cn_execution = \<lparr>ex_workflowId = wo_workflowId opts, ex_runId = None\<rparr>, cn_firstExecutionRunId = Some r\<rparr>)
        (\<lambda>err. rethrowGrpcError err ''Failed to cancel workflow'' (Some (wo_workflowId opts, None))) t
    \<and> (\<forall>srv first closing issued patience rs. honest_service srv first closing issued patience \<longrightarrow>
        run_chain closing (wo_followRuns opts \<noteq> Some False) (r # rs) \<longrightarrow>
        (\<exists>out t'. handle_result C srv h t = Some (out, t') \<and> run_outcome (cl_dataConverter C) (closing (last (r # rs))) out))"
proof -
  obtain r where r: "start_run C S is requestId w opts s = (Inr r, s1)"
    "h = \<lparr>wh_workflowId = wo_workflowId opts, wh_runId = None, wh_firstExecutionRunId = Some r, wh_runIdForResult = Some r,
      wh_followRuns = (case wo_followRuns opts of Some b \<Rightarrow> b | None \<Rightarrow> True)\<rparr>"
    using assms by (auto simp: start_def split: prod.splits sum.splits)
  have f: "(case wo_followRuns opts of Some b \<Rightarrow> b | None \<Rightarrow> True) = (wo_followRuns opts \<noteq> Some False)"
    by (auto split: option.splits)
  have "\<exists>out t'. handle_result C srv h t = Some (out, t') \<and> run_outcome (cl_dataConverter C) (closing (last (r # rs))) out"
    if "honest_service srv first closing issued patience" "run_chain closing (wo_followRuns opts \<noteq> Some False) (r # rs)"
    for srv :: "(history_request, history_response, 's) service" and first closing issued patience rs
    using result_of_chain [OF that, of "\<lparr>rq_runId = Some r, rq_nextPageToken = None\<rparr>" "cl_dataConverter C" "(wo_workflowId opts, Some r)" t] r(2) f
    by (simp add: handle_result_def result_def asked_run_def token_ok_def)
  note res = this
  show ?thesis
    by (intro exI [of _ r] conjI allI impI; (erule (1) res)?)
      (simp_all add: r handle_terminate_def handle_cancel_def handle_execution_def terminateWorkflowHandler_def
        cancelWorkflowHandler_def for_execution_def)
qed


theorem start_arguments_roundtrip_witness:
  "\<exists>req sig. start_request_of sample_client ''id'' \<lparr>si_options = (case compileWorkflowOptions long64 (ensureArgs sample_options) of
        Inr opts \<Rightarrow> opts), si_headers = [], si_workflowType = ''wf''\<rparr> (encodeToPayloads (cl_dataConverter sample_client) [JStr ''b'']) = Inr (req, sig)
    \<and> decodeArrayFromPayloads (cl_dataConverter sample_client) (sr_input req) = Inr [JStr ''a'']
    \<and> decodeArrayFromPayloads (cl_dataConverter sample_client) sig = Inr [JStr ''b'']"
proof -
  obtain inp where i: "start_input_of (cl_libs sample_client) (WfName ''wf'') sample_options = Inr inp"
    "inp = \<lparr>si_options = (case compileWorkflowOptions long64 (ensureArgs sample_options) of Inr opts \<Rightarrow> opts), si_headers = [], si_workflowType = ''wf''\<rparr>"
    by (simp add: start_input_of_def extractWorkflowType_def assertRequiredWorkflowOptions_def sample_options_def
        compileWorkflowOptions_def ensureArgs_def msOptionalToTs_def sample_client_def)
  obtain req sig where r: "start_request_of sample_client ''id'' inp (encodeToPayloads (cl_dataConverter sample_client) [JStr ''b'']) = Inr (req, sig)"
    unfolding i(2) by (simp add: start_request_of_def sample_client_def sample_options_def compileWorkflowOptions_def ensureArgs_def
        msOptionalToTs_def encodeToPayloads_def toPayloads_def sample_converter_def encode_def prefix_codec_def for_option_def)
  have "lossless (dc_payloadConverter (cl_dataConverter sample_client))" "\<forall>c \<in> set (dc_codecs (cl_dataConverter sample_client)). codec_lossless c"
    using sample_converter_lossless prefix_codec_ok(1) by (simp_all add: sample_client_def)
  from start_arguments_roundtrip [OF this i(1) r] show ?thesis
    using r i(2) by (auto simp: sample_options_def)
qed

definition sample_workflow_service :: "(64 word, close_event, nat) workflow_service" where
  "sample_workflow_service =
     \<lparr>srv_start = (\<lambda>req s. (Inr ''r1'', s)), srv_signalWithStart = (\<lambda>req s. (Inr ''r1'', s)), srv_signal = (\<lambda>_ s. (Inr (), s)),
      srv_query = (\<lambda>_ s. (Inr \<lparr>qr_rejected = None, qr_result = None\<rparr>, s)), srv_terminate = (\<lambda>_ s. (Inr (), s)),
      srv_cancel = (\<lambda>_ s. (Inr (), s)), srv_describe = (\<lambda>_ s. (Inr (sample_raw ''r1''), s)),
      srv_history = (\<lambda>_ s. (Inr (None, None), s)), srv_list = (\<lambda>_ s. (Inr ([], None), s))\<rparr>"

theorem listing_complete_witness:
  "\<exists>infos t. list_workflows sample_client (sample_workflow_service\<lparr>srv_list := sample_listing\<rparr>) None None 0 =
      Some (infos, Some (Thrown (TypeError ''Cannot read properties of undefined'')), t)
    \<and> map ei_runId infos = [Some ''r'', Some ''r2'']"
proof -
  let ?S = "sample_workflow_service\<lparr>srv_list := sample_listing\<rparr>"
  have serves: "serves (\<lambda>token. srv_list ?S (None, None, token)) (Some []) 0
      [[], [sample_raw ''r''], [sample_raw ''r2'', (sample_raw ''r3'')\<lparr>ri_type := None\<rparr>]]"
    by (simp add: sample_listing_def no_token_def)
  have decoded: "\<exists>i. executionInfoFromRaw sample_client (sample_raw run) = Inr i \<and> ei_runId i = Some run" for run
    by (simp add: executionInfoFromRaw_def sample_raw_def required_def sample_client_def tsToDate_def tsToMs_def
        optionalTsToDate_def decodeMapFromPayloads_def for_option_def decodeSearchAttributes_def mapFromPayloads_def Let_def)
  obtain i1 i2 where i: "map_res (executionInfoFromRaw sample_client) [sample_raw ''r'', sample_raw ''r2''] = Inr [i1, i2]"
      "ei_runId i1 = Some ''r''" "ei_runId i2 = Some ''r2''"
    using decoded [of "''r''"] decoded [of "''r2''"] by auto
  have "executionInfoFromRaw sample_client ((sample_raw ''r3'')\<lparr>ri_type := None\<rparr>) =
      Inl (TypeError ''Cannot read properties of undefined'')"
    by (simp add: executionInfoFromRaw_def required_def)
  with listing_complete [OF serves _ i(1), of "[(sample_raw ''r3'')\<lparr>ri_type := None\<rparr>]"] i(2,3) show ?thesis
    by fastforce
qed

theorem started_handle_keeps_to_chain_witness:
  "\<exists>h t'. start sample_client sample_workflow_service [] ''id'' (WfName ''wf'') sample_options 0 = (Inr h, 0)
    \<and> handle_result sample_client sample_service h 3 = Some (Inr JUndefined, t')"
proof -
  define h where "h = \<lparr>wh_workflowId = ''w'', wh_runId = None, wh_firstExecutionRunId = Some ''r1'', wh_runIdForResult = Some ''r1'',
    wh_followRuns = True\<rparr>"
  have h: "start sample_client sample_workflow_service [] ''id'' (WfName ''wf'') sample_options 0 = (Inr h, 0)"
    "start_run sample_client sample_workflow_service [] ''id'' (WfName ''wf'') sample_options 0 = (Inr ''r1'', 0)"
    by (simp_all add: h_def start_def start_run_def start_input_of_def extractWorkflowType_def assertRequiredWorkflowOptions_def sample_options_def
        compileWorkflowOptions_def ensureArgs_def msOptionalToTs_def sample_client_def startWorkflowHandler_def call_service_def
        start_request_of_def encodeToPayloads_def toPayloads_def sample_converter_def encode_def prefix_codec_def for_option_def
        sample_workflow_service_def)
  have "run_chain sample_closing (wo_followRuns sample_options \<noteq> Some False) [''r1'', ''r2'']"
    by (simp add: sample_closing_def sample_options_def successor_def)
  note chain = this
  from started_handle_keeps_to_chain [OF h(1), where reason = None and t = 3 and requestId' = "''id''"] show ?thesis
  proof (elim exE conjE)
    fix r
    assume r: "start_run sample_client sample_workflow_service [] ''id'' (WfName ''wf'') sample_options 0 = (Inr r, 0)"
      and res: "\<forall>(srv :: (history_request, history_response, nat) service) first closing issued patience rs.
        honest_service srv first closing issued patience \<longrightarrow>
        run_chain closing (wo_followRuns sample_options \<noteq> Some False) (r # rs) \<longrightarrow>
        (\<exists>out t'. handle_result sample_client srv h 3 = Some (out, t')
          \<and> run_outcome (cl_dataConverter sample_client) (closing (last (r # rs))) out)"
    have "r = ''r1''" using r h(2) by simp
    with res [rule_format, OF sample_service_honest, of "[''r2'']"] chain
    obtain out t' where o: "handle_result sample_client sample_service h 3 = Some (out, t')"
      "run_outcome (cl_dataConverter sample_client) (Completed None None) out"
      by (auto simp: sample_closing_def)
    have "decodeArrayFromPayloads (cl_dataConverter sample_client) None = Inr []"
      by (simp add: decodeArrayFromPayloads_def decodeOptional_def for_option_def arrayFromPayloads_def)
    then have "out = Inr JUndefined" using o(2) by (auto elim: run_outcome_completedE)
    then show ?thesis using o(1) h(1) by blast
  qed
qed

text \<open>\<open>execute\<close> asks for the result without a run id: it waits for the latest run of the workflow id, whichever run it has started.\<close>

lemma execute_awaits_latest:
  assumes "start_run C S is requestId w opts s = (Inr r, s1)"
    and "honest_service srv first closing issued patience" "run_chain closing (wo_followRuns opts \<noteq> Some False) (first # rs)"
  shows "\<exists>out t. execute C S srv is requestId w opts s = Some (out, t) \<and>
    run_outcome (cl_dataConverter C) (closing (last (first # rs))) out"
proof -
  have "(case wo_followRuns opts of Some b \<Rightarrow> b | None \<Rightarrow> True) = (wo_followRuns opts \<noteq> Some False)"
    by (auto split: option.splits)
  then show ?thesis
    using assms(1) result_of_chain [OF assms(2,3), of "\<lparr>rq_runId = None, rq_nextPageToken = None\<rparr>" "cl_dataConverter C" "(wo_workflowId opts, None)" s1]
    by (simp add: execute_def result_def asked_run_def token_ok_def)
qed

end
