(* ===== verification/Schedule_Client.thy ===== *)
theory Schedule_Client
  imports Client_Calls
begin

text \<open>
  The schedule client, packages/client/src/schedule-client.ts, with the descriptions of running and recent actions of
  schedule-helpers.ts. Requests, calls of the service and listings are those of \<open>Client_Calls\<close>.
\<close>

subsection \<open>Errors and options\<close>

definition INVALID_SPEC_PREFIX :: string where
  "INVALID_SPEC_PREFIX = ''3 INVALID_ARGUMENT: Invalid schedule spec: ''"

definition schedule_error :: "service_error \<Rightarrow> string \<Rightarrow> string option \<Rightarrow> client_error" where
  "schedule_error err fallbackMessage scheduleId =
     (case err of
        OtherError _ \<Rightarrow> ServiceError ''Unexpected error while making gRPC request'' err
      | GrpcError g \<Rightarrow>
          (case rethrowKnownErrorTypes g of
             Some e \<Rightarrow> e
           | None \<Rightarrow>
               if ge_code g = ''NOT_FOUND'' then
                 ScheduleNotFoundError (case ge_details g of Some d \<Rightarrow> d | None \<Rightarrow> ''Schedule not found'')
                   (case scheduleId of Some i \<Rightarrow> i | None \<Rightarrow> [])
               else if ge_code g = ''INVALID_ARGUMENT'' \<and> take (length INVALID_SPEC_PREFIX) (ge_message g) = INVALID_SPEC_PREFIX
               then Thrown (TypeError (strip_prefix INVALID_SPEC_PREFIX (ge_message g)))
               else ServiceError fallbackMessage err))"

record backfill =
  bf_start :: "jsnum option"
  bf_end :: "jsnum option"
  bf_overlap :: "ScheduleOverlapPolicy option"

record update_options =
  uo_spec :: schedule_spec
  uo_action :: "workflow_ref schedule_action"
  uo_policies :: "schedule_policies option"
  uo_state :: "schedule_state option"

record schedule_options = update_options +
  so_scheduleId :: string
  so_memo :: "(string, jsval) jsmap option"
  so_searchAttributes :: "(string, jsval) jsmap option"
  so_triggerImmediately :: bool
  so_backfill :: "backfill list option"

fun missing_type :: "workflow_ref \<Rightarrow> bool" where
  "missing_type (WfName s) = (s = [])"
| "missing_type (WfFunction _) = False"

definition start_workflow :: string where
  "start_workflow = [CHR 0x27] @ ''startWorkflow'' @ [CHR 0x27]"

text \<open>\<open>scheduleId\<close> is given when a schedule is created and \<open>None\<close> when it is updated.\<close>

definition assertRequiredScheduleOptions :: "string option \<Rightarrow> workflow_ref schedule_action \<Rightarrow> unit res" where
  "assertRequiredScheduleOptions scheduleId action =
     (let structureName = (if scheduleId \<noteq> None then ''ScheduleOptions'' else ''ScheduleUpdateOptions'');
          missing = (\<lambda>field. Inl (TypeError (''Missing '' @ structureName @ field))) in
      if scheduleId = Some [] then missing ''.scheduleId''
      else if sa_taskQueue action = [] then missing (''.action.taskQueue for '' @ start_workflow @ '' action'')
      else if \<not> truthy_str (sa_workflowId action) \<and> scheduleId = None then missing (''.action.workflowId for '' @ start_workflow @ '' action'')
      else if missing_type (sa_workflowType action) then missing (''.action.workflowType for '' @ start_workflow @ '' action'')
      else Inr ())"

subsection \<open>Requests\<close>

type_synonym 'l sent_action = "('l, (string, payload option) jsmap) proto_action"
type_synonym 'l stored_action = "('l, (string, payload) jsmap) proto_action"

record ('l, 'a) proto_schedule =
  sd_spec :: "'l proto_schedule_spec"
  sd_action :: 'a
  sd_policies :: "'l proto_policies"
  sd_state :: "'l proto_state"

type_synonym 'l sent_backfill = "'l ts option \<times> 'l ts option \<times> nat option"

text \<open>\<open>triggerImmediately\<close> is the overlap policy of the triggered action.\<close>

datatype 'l patch = Pause string | Unpause string | TriggerImmediately "nat option" | BackfillRequest "'l sent_backfill list"

record 'l create_request =
  cr_namespace :: string
  cr_identity :: string
  cr_requestId :: string
  cr_scheduleId :: string
  cr_schedule :: "('l, 'l sent_action) proto_schedule"
  cr_memo :: "(string, payload option) jsmap option"
  cr_searchAttributes :: "(string, payload) jsmap option"
  cr_triggerImmediately :: "nat option option"
  cr_backfillRequest :: "'l sent_backfill list option"

record 'l update_request =
  ur_namespace :: string
  ur_identity :: string
  ur_requestId :: string
  ur_scheduleId :: string
  ur_schedule :: "('l, 'l sent_action) proto_schedule"

record 'l patch_request =
  pq_namespace :: string
  pq_identity :: string
  pq_requestId :: string
  pq_scheduleId :: string
  pq_patch :: "'l patch"

text \<open>A description of a schedule as the service sends it.\<close>

record 'l action_result =
  ar_startWorkflowResult :: "execution option"
  ar_scheduleTime :: "'l ts option"
  ar_actualTime :: "'l ts option"

record 'l raw_schedule =
  rs_spec :: "'l proto_schedule_spec option"
  rs_action :: "'l stored_action option option"
  rs_policies :: "'l proto_policies option"
  rs_state :: "'l proto_state option"

record 'l raw_schedule_info =
  rn_recentActions :: "'l action_result list option"
  rn_futureActionTimes :: "'l ts list option"
  rn_createTime :: "'l ts option"
  rn_updateTime :: "'l ts option"
  rn_runningWorkflows :: "execution list option"
  rn_missedCatchupWindow :: "'l option"
  rn_overlapSkipped :: "'l option"
  rn_actionCount :: "'l option"

record 'l raw_description =
  rd_schedule :: "'l raw_schedule option"
  rd_memo :: "(string, payload) jsmap option"
  rd_searchAttributes :: "(string, payload) jsmap option"
  rd_info :: "'l raw_schedule_info option"

record 'l raw_entry =
  re_scheduleId :: string
  re_spec :: "'l proto_schedule_spec option"
  re_workflowType :: "string option"
  re_paused :: "bool option"
  re_notes :: "string option"
  re_recentActions :: "'l action_result list option"
  re_futureActionTimes :: "'l ts list option"
  re_memo :: "(string, payload) jsmap option"
  re_searchAttributes :: "(string, payload) jsmap option"

record ('l, 's) schedule_service =
  srv_createSchedule :: "('l create_request, bytes, 's) service"
  srv_describeSchedule :: "(string \<times> string, 'l raw_description, 's) service"
  srv_updateSchedule :: "('l update_request, unit, 's) service"
  srv_patchSchedule :: "('l patch_request, unit, 's) service"
  srv_deleteSchedule :: "(string \<times> string \<times> string, unit, 's) service"
  srv_listSchedules :: "(nat option \<times> bytes option, 'l raw_entry list option \<times> bytes option, 's) service"

record 'l schedule_client = "'l workflow_client" +
  sl_text :: text_env
  sl_overlap :: proto_enum

subsection \<open>Creating\<close>

definition ALLOW_ALL_NUMBER :: "'l schedule_client \<Rightarrow> nat option" where
  "ALLOW_ALL_NUMBER C = enum_number (sl_overlap C) ''SCHEDULE_OVERLAP_POLICY_ALLOW_ALL''"

definition sent_overlap :: "'l schedule_client \<Rightarrow> ScheduleOverlapPolicy option \<Rightarrow> nat option" where
  "sent_overlap C x = (case x of None \<Rightarrow> None | Some p \<Rightarrow> if p = UNSPECIFIED then None else encodeOverlapPolicy (sl_overlap C) p)"

definition encode_backfill :: "'l schedule_client \<Rightarrow> backfill \<Rightarrow> 'l sent_backfill res" where
  "encode_backfill C x =
     and_then (optionalDateToTs (cl_libs C) (bf_start x)) (\<lambda>st.
     and_then (optionalDateToTs (cl_libs C) (bf_end x)) (\<lambda>en. Inr (st, en, sent_overlap C (bf_overlap x))))"

definition encode_schedule ::
  "'l schedule_client \<Rightarrow> schedule_spec \<Rightarrow> string schedule_action \<Rightarrow> schedule_policies option \<Rightarrow> schedule_state option \<Rightarrow> headers
    \<Rightarrow> ('l, 'l sent_action) proto_schedule res" where
  "encode_schedule C spec action policies st hs =
     and_then (encodeScheduleSpec (cl_libs C) (sl_text C) spec) (\<lambda>sp.
     and_then (encodeScheduleAction (cl_libs C) (cl_dataConverter C) (cl_searchAttributes C) action hs) (\<lambda>ac.
     and_then (encodeSchedulePolicies (cl_libs C) (sl_overlap C) policies) (\<lambda>po.
       Inr \<lparr>sd_spec = sp, sd_action = ac, sd_policies = po, sd_state = encodeScheduleState (cl_libs C) st\<rparr>)))"

text \<open>The input of the handler: the options with the compiled action, and headers.\<close>

definition createScheduleHandler ::
  "'l schedule_client \<Rightarrow> ('l, 's) schedule_service \<Rightarrow> string \<Rightarrow> schedule_options \<times> string schedule_action \<times> headers \<Rightarrow> (bytes, 's) call" where
  "createScheduleHandler C S requestId inp =
     (case inp of (opts, action, hs) \<Rightarrow>
      call_service (srv_createSchedule S)
        (and_then (encode_schedule C (uo_spec opts) action (uo_policies opts) (uo_state opts) hs) (\<lambda>sched.
         and_then (for_option (encodeMapToPayloads (cl_dataConverter C)) (so_memo opts)) (\<lambda>memo.
         and_then (for_option (mapToPayloads (cl_searchAttributes C)) (so_searchAttributes opts)) (\<lambda>sa.
         and_then (for_option (map_res (encode_backfill C)) (so_backfill opts)) (\<lambda>bf.
           Inr \<lparr>cr_namespace = cl_namespace C, cr_identity = cl_identity C, cr_requestId = requestId,
                cr_scheduleId = so_scheduleId opts, cr_schedule = sched, cr_memo = memo, cr_searchAttributes = sa,
                cr_triggerImmediately = (if so_triggerImmediately opts then Some (ALLOW_ALL_NUMBER C) else None),
                cr_backfillRequest = bf\<rparr>)))))
        (\<lambda>err. if (case err of GrpcError g \<Rightarrow> ge_code g = ''ALREADY_EXISTS'' | OtherError _ \<Rightarrow> False)
               then ScheduleAlreadyRunning ''Schedule already exists and is running'' (so_scheduleId opts)
               else schedule_error err ''Failed to create schedule'' (Some (so_scheduleId opts))))"

text \<open>The result is the id in the handle.\<close>

definition create ::
  "'l schedule_client \<Rightarrow> ('l, 's) schedule_service \<Rightarrow> (schedule_options \<times> string schedule_action \<times> headers, bytes, 's) call_interceptors
    \<Rightarrow> string \<Rightarrow> schedule_options \<Rightarrow> (string, 's) call" where
  "create C S is requestId opts s =
     (case and_then (assertRequiredScheduleOptions (Some (so_scheduleId opts)) (uo_action opts)) (\<lambda>_.
         compileScheduleOptions (so_scheduleId opts) (uo_action opts)) of
        Inl e \<Rightarrow> (Inl (Thrown e), s)
      | Inr action \<Rightarrow>
          (case composeInterceptors is () (createScheduleHandler C S requestId) (opts, action, []) s of
             (Inl e, s') \<Rightarrow> (Inl e, s')
           | (Inr _, s') \<Rightarrow> (Inr (so_scheduleId opts), s')))"

subsection \<open>Describing\<close>

definition decodeScheduleRunningActions :: "execution list option \<Rightarrow> (string \<times> string option) list" where
  "decodeScheduleRunningActions pb =
     (case pb of None \<Rightarrow> [] | Some xs \<Rightarrow> map (\<lambda>x. (ex_workflowId x, ex_runId x)) xs)"

record execution_result =
  er_scheduledAt :: jsnum
  er_takenAt :: jsnum
  er_action :: "string \<times> string option"

definition decodeScheduleRecentActions :: "'l libs \<Rightarrow> 'l action_result list option \<Rightarrow> execution_result list res" where
  "decodeScheduleRecentActions L pb =
     (case pb of
        None \<Rightarrow> Inr []
      | Some xs \<Rightarrow> map_res (\<lambda>x.
          case ar_startWorkflowResult x of
            None \<Rightarrow> Inl (TypeError ''Unsupported schedule action'')
          | Some ex \<Rightarrow>
              and_then (tsToDate L (ar_scheduleTime x)) (\<lambda>scheduled.
              and_then (tsToDate L (ar_actualTime x)) (\<lambda>taken.
                Inr \<lparr>er_scheduledAt = scheduled, er_takenAt = taken, er_action = (ex_workflowId ex, ex_runId ex)\<rparr>))) xs)"

record schedule_info =
  sn_recentActions :: "execution_result list"
  sn_nextActionTimes :: "jsnum list"
  sn_createdAt :: jsnum
  sn_lastUpdatedAt :: "jsnum option"
  sn_runningActions :: "(string \<times> string option) list"
  sn_numActionsMissedCatchupWindow :: jsnum
  sn_numActionsSkippedOverlap :: jsnum
  sn_numActionsTaken :: jsnum

record 'l schedule_description =
  de_scheduleId :: string
  de_spec :: schedule_spec
  de_action :: "string schedule_action"
  de_memo :: "(string, jsval) jsmap option"
  de_searchAttributes :: "(string, jsval) jsmap"
  de_policies :: schedule_policies
  de_state :: schedule_state
  de_info :: schedule_info
  de_raw :: "'l raw_description"

definition count_of :: "'l libs \<Rightarrow> 'l option \<Rightarrow> jsnum" where
  "count_of L n = (case n of Some l \<Rightarrow> toNumber L l | None \<Rightarrow> Fin 0)"

definition describe_info :: "'l libs \<Rightarrow> 'l raw_schedule_info option \<Rightarrow> schedule_info res" where
  "describe_info L info =
     and_then (decodeScheduleRecentActions L (Option.bind info rn_recentActions)) (\<lambda>recent.
     and_then (map_res (\<lambda>t. tsToDate L (Some t)) (case Option.bind info rn_futureActionTimes of Some ts \<Rightarrow> ts | None \<Rightarrow> [])) (\<lambda>times.
     and_then (required info) (\<lambda>info.
     and_then (tsToDate L (rn_createTime info)) (\<lambda>created.
     and_then (optionalTsToDate L (rn_updateTime info)) (\<lambda>updated.
       Inr \<lparr>sn_recentActions = recent, sn_nextActionTimes = times, sn_createdAt = created, sn_lastUpdatedAt = updated,
            sn_runningActions = decodeScheduleRunningActions (rn_runningWorkflows info),
            sn_numActionsMissedCatchupWindow = count_of L (rn_missedCatchupWindow info),
            sn_numActionsSkippedOverlap = count_of L (rn_overlapSkipped info),
            sn_numActionsTaken = count_of L (rn_actionCount info)\<rparr>)))))"

definition describe_policies :: "'l libs \<Rightarrow> proto_enum \<Rightarrow> 'l proto_policies option \<Rightarrow> schedule_policies res" where
  "describe_policies L P po =
     and_then (decodeOverlapPolicy P (Option.bind po pp_overlapPolicy)) (\<lambda>overlap.
     and_then (optionalTsToMs L (Option.bind po pp_catchupWindow)) (\<lambda>window.
       Inr \<lparr>po_overlap = overlap, po_catchupWindow = Some (DurNum (case window of Some n \<Rightarrow> n | None \<Rightarrow> int_num 60000)),
            po_pauseOnFailure = Some (Option.bind po pp_pauseOnFailure = Some True)\<rparr>))"

definition no_state :: "'l proto_state" where
  "no_state = \<lparr>pt_paused = None, pt_notes = None, pt_limitedActions = False, pt_remainingActions = None\<rparr>"

definition describe_raw :: "'l schedule_client \<Rightarrow> string \<Rightarrow> 'l raw_description \<Rightarrow> 'l schedule_description res" where
  "describe_raw C scheduleId raw =
     (case (Option.bind (rd_schedule raw) rs_spec, Option.bind (rd_schedule raw) rs_action) of
        (Some spec, Some action) \<Rightarrow>
          and_then (decodeScheduleSpec (cl_libs C) spec) (\<lambda>sp.
          and_then (decodeScheduleAction (cl_libs C) (cl_dataConverter C) (cl_searchAttributes C) action) (\<lambda>ac.
          and_then (decodeMapFromPayloads (cl_dataConverter C) (rd_memo raw)) (\<lambda>memo.
          and_then (decodeSearchAttributes (cl_searchAttributes C) (rd_searchAttributes raw)) (\<lambda>sa.
          and_then (describe_policies (cl_libs C) (sl_overlap C) (Option.bind (rd_schedule raw) rs_policies)) (\<lambda>po.
          and_then (describe_info (cl_libs C) (rd_info raw)) (\<lambda>info.
            Inr \<lparr>de_scheduleId = scheduleId, de_spec = sp, de_action = ac, de_memo = memo, de_searchAttributes = sa,
                 de_policies = po,
                 de_state = describe_state (cl_libs C) (case Option.bind (rd_schedule raw) rs_state of Some st \<Rightarrow> st | None \<Rightarrow> no_state),
                 de_info = info, de_raw = raw\<rparr>))))))
      | _ \<Rightarrow> Inl (throw_plain ''Error'' ''Received invalid Schedule description from server''))"

definition describe :: "'l schedule_client \<Rightarrow> ('l, 's) schedule_service \<Rightarrow> string \<Rightarrow> ('l schedule_description, 's) call" where
  "describe C S scheduleId s =
     (case call_service (srv_describeSchedule S) (Inr (cl_namespace C, scheduleId))
         (\<lambda>err. schedule_error err ''Failed to describe schedule'' (Some scheduleId)) s of
        (Inl e, s') \<Rightarrow> (Inl e, s')
      | (Inr raw, s') \<Rightarrow> (lift_thrown (describe_raw C scheduleId raw), s'))"

subsection \<open>Updating\<close>

text \<open>The headers of an action are kept; the memo and the search attributes of a schedule are no part of an update.\<close>

definition stored_headers :: "'l raw_description \<Rightarrow> headers" where
  "stored_headers raw =
     (case Option.bind (rd_schedule raw) rs_action of Some (Some ac) \<Rightarrow> pa_header ac | _ \<Rightarrow> [])"

definition update_request_of ::
  "'l schedule_client \<Rightarrow> string \<Rightarrow> string \<Rightarrow> update_options \<Rightarrow> string schedule_action \<Rightarrow> headers \<Rightarrow> 'l update_request res" where
  "update_request_of C requestId scheduleId opts action hs =
     and_then (encode_schedule C (uo_spec opts) action (uo_policies opts) (uo_state opts) hs) (\<lambda>sched.
       Inr \<lparr>ur_namespace = cl_namespace C, ur_identity = cl_identity C, ur_requestId = requestId,
            ur_scheduleId = scheduleId, ur_schedule = sched\<rparr>)"

definition updated_request ::
  "'l schedule_client \<Rightarrow> string \<Rightarrow> string \<Rightarrow> ('l schedule_description \<Rightarrow> update_options res) \<Rightarrow> 'l schedule_description \<Rightarrow> 'l update_request res" where
  "updated_request C requestId scheduleId updateFn current =
     and_then (updateFn current) (\<lambda>updated.
     and_then (assertRequiredScheduleOptions None (uo_action updated)) (\<lambda>_.
     and_then (compileUpdatedScheduleOptions (uo_action updated)) (\<lambda>action.
       update_request_of C requestId scheduleId updated action (stored_headers (de_raw current)))))"

definition update ::
  "'l schedule_client \<Rightarrow> ('l, 's) schedule_service \<Rightarrow> string \<Rightarrow> string \<Rightarrow> ('l schedule_description \<Rightarrow> update_options res) \<Rightarrow> (unit, 's) call" where
  "update C S requestId scheduleId updateFn s =
     (case describe C S scheduleId s of
        (Inl e, s') \<Rightarrow> (Inl e, s')
      | (Inr current, s') \<Rightarrow>
          call_service (srv_updateSchedule S) (updated_request C requestId scheduleId updateFn current)
            (\<lambda>err. schedule_error err ''Failed to update schedule'' (Some scheduleId)) s')"

subsection \<open>Patches\<close>

definition patchSchedule ::
  "'l schedule_client \<Rightarrow> ('l, 's) schedule_service \<Rightarrow> string \<Rightarrow> string \<Rightarrow> 'l patch res \<Rightarrow> (unit, 's) call" where
  "patchSchedule C S requestId scheduleId patch =
     call_service (srv_patchSchedule S)
       (and_then patch (\<lambda>p. Inr \<lparr>pq_namespace = cl_namespace C, pq_identity = cl_identity C, pq_requestId = requestId,
          pq_scheduleId = scheduleId, pq_patch = p\<rparr>))
       (\<lambda>err. schedule_error err ''Failed to patch schedule'' (Some scheduleId))"

definition delete :: "'l schedule_client \<Rightarrow> ('l, 's) schedule_service \<Rightarrow> string \<Rightarrow> (unit, 's) call" where
  "delete C S scheduleId =
     call_service (srv_deleteSchedule S) (Inr (cl_namespace C, cl_identity C, scheduleId))
       (\<lambda>err. schedule_error err ''Failed to delete schedule'' (Some scheduleId))"

definition pause :: "'l schedule_client \<Rightarrow> ('l, 's) schedule_service \<Rightarrow> string \<Rightarrow> string \<Rightarrow> string option \<Rightarrow> (unit, 's) call" where
  "pause C S requestId scheduleId reason =
     patchSchedule C S requestId scheduleId
       (Inr (Pause (case reason of Some t \<Rightarrow> t | None \<Rightarrow> ''Paused via TypeScript SDK'' @ [CHR 0x22])))"

definition unpause :: "'l schedule_client \<Rightarrow> ('l, 's) schedule_service \<Rightarrow> string \<Rightarrow> string \<Rightarrow> string option \<Rightarrow> (unit, 's) call" where
  "unpause C S requestId scheduleId reason =
     patchSchedule C S requestId scheduleId
       (Inr (Unpause (case reason of Some t \<Rightarrow> t | None \<Rightarrow> ''Unpaused via TypeScript SDK'' @ [CHR 0x22])))"

definition trigger :: "'l schedule_client \<Rightarrow> ('l, 's) schedule_service \<Rightarrow> string \<Rightarrow> string \<Rightarrow> ScheduleOverlapPolicy option \<Rightarrow> (unit, 's) call" where
  "trigger C S requestId scheduleId overlap =
     patchSchedule C S requestId scheduleId
       (Inr (TriggerImmediately (case overlap of
           Some p \<Rightarrow> if p = UNSPECIFIED then ALLOW_ALL_NUMBER C else encodeOverlapPolicy (sl_overlap C) p
         | None \<Rightarrow> ALLOW_ALL_NUMBER C)))"

definition backfill_schedule :: "'l schedule_client \<Rightarrow> ('l, 's) schedule_service \<Rightarrow> string \<Rightarrow> string \<Rightarrow> backfill list \<Rightarrow> (unit, 's) call" where
  "backfill_schedule C S requestId scheduleId backfills =
     patchSchedule C S requestId scheduleId (and_then (map_res (encode_backfill C) backfills) (\<lambda>bs. Inr (BackfillRequest bs)))"

subsection \<open>Listing\<close>

record schedule_summary =
  su_scheduleId :: string
  su_spec :: schedule_spec
  su_workflowType :: "string option"
  su_memo :: "(string, jsval) jsmap option"
  su_searchAttributes :: "(string, jsval) jsmap"
  su_paused :: bool
  su_note :: "string option"
  su_recentActions :: "execution_result list"
  su_nextActionTimes :: "jsnum list"

definition no_spec :: "'l proto_schedule_spec" where
  "no_spec = \<lparr>ps_structuredCalendar = None, ps_interval = None, ps_cronString = None, ps_excludeStructuredCalendar = None,
     ps_startTime = None, ps_endTime = None, ps_jitter = None, ps_timezoneName = None\<rparr>"

definition summarize :: "'l schedule_client \<Rightarrow> 'l raw_entry \<Rightarrow> schedule_summary res" where
  "summarize C raw =
     and_then (decodeScheduleSpec (cl_libs C) (case re_spec raw of Some sp \<Rightarrow> sp | None \<Rightarrow> no_spec)) (\<lambda>sp.
     and_then (decodeMapFromPayloads (cl_dataConverter C) (re_memo raw)) (\<lambda>memo.
     and_then (decodeSearchAttributes (cl_searchAttributes C) (re_searchAttributes raw)) (\<lambda>sa.
     and_then (decodeScheduleRecentActions (cl_libs C) (re_recentActions raw)) (\<lambda>recent.
     and_then (map_res (\<lambda>t. tsToDate (cl_libs C) (Some t)) (case re_futureActionTimes raw of Some ts \<Rightarrow> ts | None \<Rightarrow> [])) (\<lambda>times.
       Inr \<lparr>su_scheduleId = re_scheduleId raw, su_spec = sp, su_workflowType = re_workflowType raw, su_memo = memo,
            su_searchAttributes = sa, su_paused = (re_paused raw = Some True), su_note = re_notes raw,
            su_recentActions = recent, su_nextActionTimes = times\<rparr>)))))"

definition list_schedules ::
  "'l schedule_client \<Rightarrow> ('l, 's) schedule_service \<Rightarrow> nat option \<Rightarrow> 's \<Rightarrow> (schedule_summary list \<times> client_error option \<times> 's) option" where
  "list_schedules C S pageSize =
     list_pages (\<lambda>token s. page_of (summarize C) (\<lambda>err. schedule_error err ''Failed to list schedules'' None)
       (case srv_listSchedules S (pageSize, token) s of
          (Inl err, s') \<Rightarrow> (Inl err, s')
        | (Inr (raws, token'), s') \<Rightarrow> (Inr (case raws of Some rs \<Rightarrow> rs | None \<Rightarrow> [], token'), s'))) None"

subsection \<open>A description as an update\<close>

definition same_as_described :: "'l schedule_description \<Rightarrow> update_options" where
  "same_as_described d =
     (let a = de_action d in
      \<lparr>uo_spec = de_spec d,
       uo_action = \<lparr>sa_workflowType = WfName (sa_workflowType a), sa_workflowId = sa_workflowId a, sa_args = sa_args a,
         sa_taskQueue = sa_taskQueue a, sa_workflowExecutionTimeout = sa_workflowExecutionTimeout a,
         sa_workflowRunTimeout = sa_workflowRunTimeout a, sa_workflowTaskTimeout = sa_workflowTaskTimeout a,
         sa_retry = sa_retry a, sa_memo = sa_memo a, sa_searchAttributes = sa_searchAttributes a\<rparr>,
       uo_policies = Some (de_policies d), uo_state = Some (de_state d)\<rparr>)"

definition state_ok :: "'l libs \<Rightarrow> 'l proto_state \<Rightarrow> bool" where
  "state_ok L st \<longleftrightarrow> (\<forall>l. pt_remainingActions st = Some l \<longrightarrow> (\<exists>k. l = fromNumber L (int_num k) \<and> safe_int k))"

text \<open>A missing number of remaining actions counts as 0; it means something only where the actions are limited.\<close>

definition same_state :: "'l libs \<Rightarrow> 'l proto_state \<Rightarrow> 'l proto_state \<Rightarrow> bool" where
  "same_state L p q \<longleftrightarrow> (pt_paused p = Some True) = (pt_paused q = Some True) \<and> pt_notes p = pt_notes q
     \<and> pt_limitedActions p = pt_limitedActions q
     \<and> (pt_limitedActions p \<longrightarrow> count_of L (pt_remainingActions p) = count_of L (pt_remainingActions q))"

definition enum_ok :: "proto_enum \<Rightarrow> bool" where
  "enum_ok P \<longleftrightarrow> (\<forall>x n. enum_number P (OVERLAP_PREFIX @ overlap_name x) = Some n \<longrightarrow>
     enum_name P n = Some (OVERLAP_PREFIX @ overlap_name x) \<and> (n = 0 \<longleftrightarrow> x = UNSPECIFIED))"

lemma described_state:
  assumes "long_arith L val" "state_ok L st"
  shows "same_state L st (encodeScheduleState L (Some (describe_state L st)))"
proof (cases "pt_remainingActions st")
  case (Some l)
  then obtain k where k: "l = fromNumber L (int_num k)" "safe_int k" using assms(2) by (auto simp: state_ok_def)
  then have "toNumber L l = int_num k"
    using long_arith.toNumber_val [OF assms(1)] long_arith.val_fromNumber [OF assms(1)] by metis
  then show ?thesis using Some k
    by (auto simp: same_state_def encodeScheduleState_def describe_state_def count_of_def js_num_truthy_def)
qed (auto simp: same_state_def encodeScheduleState_def describe_state_def count_of_def js_num_truthy_def)

lemma described_policies:
  assumes "long_arith L val" "enum_ok P" "describe_policies L P po = Inr d" "encodeSchedulePolicies L P (Some d) = Inr q"
  shows "(\<forall>x n. Option.bind po pp_overlapPolicy = Some n \<longrightarrow> encodeOverlapPolicy P x = Some n \<longrightarrow>
      pp_overlapPolicy q = (if n = 0 then None else Some n))
    \<and> (Option.bind po pp_overlapPolicy = None \<longrightarrow> pp_overlapPolicy q = None)
    \<and> pp_pauseOnFailure q = Some (Option.bind po pp_pauseOnFailure = Some True)
    \<and> (\<forall>t. Option.bind po pp_catchupWindow = Some t \<longrightarrow> canonical_ts L t \<longrightarrow> pp_catchupWindow q = nonzero_ts L (Some t))"
proof (intro conjI allI impI)
  obtain ov w where d: "decodeOverlapPolicy P (Option.bind po pp_overlapPolicy) = Inr ov"
    "optionalTsToMs L (Option.bind po pp_catchupWindow) = Inr w"
    "d = \<lparr>po_overlap = ov, po_catchupWindow = Some (DurNum (case w of Some n \<Rightarrow> n | None \<Rightarrow> int_num 60000)),
      po_pauseOnFailure = Some (Option.bind po pp_pauseOnFailure = Some True)\<rparr>"
    using assms(3) by (auto simp: describe_policies_def and_then_eq_Inr)
  obtain qw where q: "msOptionalToTs L (po_catchupWindow d) = Inr qw"
    "q = \<lparr>pp_catchupWindow = qw, pp_overlapPolicy = (case ov of None \<Rightarrow> None | Some x \<Rightarrow> if x = UNSPECIFIED then None else encodeOverlapPolicy P x),
      pp_pauseOnFailure = Some (Option.bind po pp_pauseOnFailure = Some True)\<rparr>"
    using assms(4) d(3) by (auto simp: encodeSchedulePolicies_def and_then_eq_Inr)
  show "pp_pauseOnFailure q = Some (Option.bind po pp_pauseOnFailure = Some True)" using q by simp
  show "pp_overlapPolicy q = None" if "Option.bind po pp_overlapPolicy = None"
    using that d(1) q(2) by (auto simp: decodeOverlapPolicy_def)
  show "pp_overlapPolicy q = (if n = 0 then None else Some n)"
    if "Option.bind po pp_overlapPolicy = Some n" "encodeOverlapPolicy P x = Some n" for x n
  proof -
    have e: "enum_name P n = Some (OVERLAP_PREFIX @ overlap_name x)" "n = 0 \<longleftrightarrow> x = UNSPECIFIED"
      using that(2) assms(2) by (auto simp: enum_ok_def encodeOverlapPolicy_def)
    then have "ov = Some x" using overlap_policy_roundtrip [OF that(2) e(1)] d(1) that(1) by simp
    then show ?thesis using q(2) that(2) e(2) by simp
  qed
  show "pp_catchupWindow q = nonzero_ts L (Some t)" if "Option.bind po pp_catchupWindow = Some t" "canonical_ts L t" for t
  proof -
    note c = that
    obtain n where n: "optionalTsToMs L (Some t) = Inr n" "msOptionalToTs L (map_option DurNum n) = Inr (nonzero_ts L (Some t))"
      using optional_duration_back [OF assms(1), of "Some t"] c(2) by auto
    moreover from n(1) obtain m where "n = Some m" by (auto simp: optionalTsToMs_def and_then_eq_Inr split: option.splits)
    ultimately show ?thesis using d q c(1) by auto
  qed
qed

lemma encode_schedule_Inr:
  "encode_schedule C spec action policies st hs = Inr sched \<Longrightarrow>
     encodeScheduleSpec (cl_libs C) (sl_text C) spec = Inr (sd_spec sched)
     \<and> encodeScheduleAction (cl_libs C) (cl_dataConverter C) (cl_searchAttributes C) action hs = Inr (sd_action sched)
     \<and> encodeSchedulePolicies (cl_libs C) (sl_overlap C) policies = Inr (sd_policies sched)
     \<and> sd_state sched = encodeScheduleState (cl_libs C) st"
  by (auto simp: encode_schedule_def and_then_eq_Inr)

lemma encodeScheduleAction_Inr:
  "encodeScheduleAction L dc attrs action hs = Inr ac \<Longrightarrow>
     pa_workflowId ac = sa_workflowId action \<and> pa_workflowType ac = sa_workflowType action
     \<and> pa_taskQueue ac = sa_taskQueue action \<and> pa_header ac = hs"
  by (auto simp: encodeScheduleAction_def and_then_eq_Inr)

lemma decodeScheduleAction_Inr:
  "decodeScheduleAction L dc attrs (Some pb) = Inr action \<Longrightarrow>
     sa_workflowId action = pa_workflowId pb \<and> sa_workflowType action = pa_workflowType pb \<and> sa_taskQueue action = pa_taskQueue pb"
  by (auto simp: decodeScheduleAction_def and_then_eq_Inr)

lemma compileUpdated_Inr:
  "compileUpdatedScheduleOptions a = Inr b \<Longrightarrow>
     extractWorkflowType (sa_workflowType a) = Inr (sa_workflowType b) \<and> sa_workflowId b = sa_workflowId a \<and> sa_taskQueue b = sa_taskQueue a"
  by (auto simp: compileUpdatedScheduleOptions_def compile_action_def and_then_eq_Inr split: option.splits)

text \<open>C26. Updating a schedule with what describes it keeps the schedule: the request has a specification that matches the
  same times, the same workflow on the same task queue with the same headers, the same overlap policy and catchup window and the same
  state; what was left to the server's defaults for the overlap policy is left to them again.\<close>

theorem update_keeps_schedule:
  assumes arith: "long_arith (cl_libs C) val" and enum: "enum_ok (sl_overlap C)"
    and raw: "rd_schedule raw = Some sch" "rs_spec sch = Some spec" "rs_action sch = Some (Some ac)" "rs_state sch = Some st"
    and ok: "spec_ok (cl_libs C) spec" "state_ok (cl_libs C) st"
    and desc: "describe_raw C scheduleId raw = Inr d"
    and sent: "updated_request C requestId scheduleId (\<lambda>d. Inr (same_as_described d)) d = Inr req"
  shows "ur_scheduleId req = scheduleId \<and> same_spec (cl_libs C) spec (sd_spec (ur_schedule req))
    \<and> same_state (cl_libs C) st (sd_state (ur_schedule req))
    \<and> pa_workflowId (sd_action (ur_schedule req)) = pa_workflowId ac
    \<and> pa_workflowType (sd_action (ur_schedule req)) = pa_workflowType ac
    \<and> pa_taskQueue (sd_action (ur_schedule req)) = pa_taskQueue ac
    \<and> pa_header (sd_action (ur_schedule req)) = pa_header ac
    \<and> (\<forall>x n. Option.bind (rs_policies sch) pp_overlapPolicy = Some n \<longrightarrow> encodeOverlapPolicy (sl_overlap C) x = Some n \<longrightarrow>
        pp_overlapPolicy (sd_policies (ur_schedule req)) = (if n = 0 then None else Some n))
    \<and> (\<forall>t. Option.bind (rs_policies sch) pp_catchupWindow = Some t \<longrightarrow> canonical_ts (cl_libs C) t \<longrightarrow>
        pp_catchupWindow (sd_policies (ur_schedule req)) = nonzero_ts (cl_libs C) (Some t))"
proof -
  let ?L = "cl_libs C"
  obtain a where d: "decodeScheduleSpec ?L spec = Inr (de_spec d)"
    "decodeScheduleAction ?L (cl_dataConverter C) (cl_searchAttributes C) (Some ac) = Inr (de_action d)"
    "describe_policies ?L (sl_overlap C) (rs_policies sch) = Inr (de_policies d)"
    "de_state d = describe_state ?L st" "de_raw d = raw"
    and act: "compileUpdatedScheduleOptions (uo_action (same_as_described d)) = Inr a"
    and req: "update_request_of C requestId scheduleId (same_as_described d) a (stored_headers (de_raw d)) = Inr req"
    using desc sent raw by (auto simp: describe_raw_def updated_request_def and_then_eq_Inr)
  then obtain sched where sched: "encode_schedule C (de_spec d) a (Some (de_policies d)) (Some (de_state d)) (pa_header ac) = Inr sched"
    "ur_schedule req = sched" "ur_scheduleId req = scheduleId"
    using raw by (auto simp: update_request_of_def and_then_eq_Inr same_as_described_def Let_def stored_headers_def)
  note e = encode_schedule_Inr [OF sched(1)]
  have "same_spec ?L spec (sd_spec sched)"
    using described_spec_back [OF arith ok(1), of "sl_text C"] d(1) e by auto
  moreover have "pa_workflowId (sd_action sched) = pa_workflowId ac" "pa_workflowType (sd_action sched) = pa_workflowType ac"
    "pa_taskQueue (sd_action sched) = pa_taskQueue ac" "pa_header (sd_action sched) = pa_header ac"
    using encodeScheduleAction_Inr [of ?L "cl_dataConverter C" "cl_searchAttributes C" a "pa_header ac"] e decodeScheduleAction_Inr [OF d(2)]
      compileUpdated_Inr [OF act] by (auto simp: same_as_described_def Let_def extractWorkflowType_def)
  ultimately show ?thesis
    using described_policies [OF arith enum d(3)] described_state [OF arith ok(2)] e sched d(4) by auto
qed

definition sample_enum :: proto_enum where
  "sample_enum = \<lparr>enum_number = (\<lambda>s. map_of (zip (map (\<lambda>x. OVERLAP_PREFIX @ overlap_name x) overlap_policies) [0..<7]) s),
     enum_name = (\<lambda>n. map_of (zip [0..<7] (map (\<lambda>x. OVERLAP_PREFIX @ overlap_name x) overlap_policies)) n)\<rparr>"

lemma sample_enum_ok: "enum_ok sample_enum"
  unfolding enum_ok_def
proof (intro allI impI)
  fix x n
  assume "enum_number sample_enum (OVERLAP_PREFIX @ overlap_name x) = Some n"
  then show "enum_name sample_enum n = Some (OVERLAP_PREFIX @ overlap_name x) \<and> (n = 0 \<longleftrightarrow> x = UNSPECIFIED)"
    by (cases x) (auto simp: sample_enum_def OVERLAP_PREFIX_def overlap_policies_def upt_rec)
qed

definition sample_schedule_client :: "64 word schedule_client" where
  "sample_schedule_client = workflow_client.extend sample_client \<lparr>sl_text = sample_text, sl_overlap = sample_enum\<rparr>"

definition sample_action :: "64 word stored_action" where
  "sample_action = \<lparr>pa_workflowId = Some ''w'', pa_workflowType = ''wf'', pa_input = None, pa_taskQueue = ''q'',
     pa_workflowExecutionTimeout = None, pa_workflowRunTimeout = None, pa_workflowTaskTimeout = None, pa_retryPolicy = None,
     pa_memo = None, pa_searchAttributes = None, pa_header = [(''h'', \<lparr>metadata = None, payload_data = Some [1]\<rparr>)]\<rparr>"

definition sample_schedule :: "64 word raw_schedule" where
  "sample_schedule = \<lparr>rs_spec = Some sample_spec, rs_action = Some (Some sample_action), rs_policies = None,
     rs_state = Some \<lparr>pt_paused = Some True, pt_notes = Some ''n'', pt_limitedActions = True,
       pt_remainingActions = Some (fromNumber long64 (int_num 3))\<rparr>\<rparr>"

definition sample_description :: "64 word raw_description" where
  "sample_description = \<lparr>rd_schedule = Some sample_schedule, rd_memo = None, rd_searchAttributes = None,
     rd_info = Some \<lparr>rn_recentActions = None, rn_futureActionTimes = None,
       rn_createTime = Some \<lparr>seconds = Some (fromNumber long64 (int_num 60)), nanos = Some (int_num (0 * 1000000))\<rparr>, rn_updateTime = None,
       rn_runningWorkflows = None, rn_missedCatchupWindow = None, rn_overlapSkipped = None, rn_actionCount = None\<rparr>\<rparr>"

theorem update_keeps_schedule_witness:
  "\<exists>d req. describe_raw sample_schedule_client ''s'' sample_description = Inr d
    \<and> updated_request sample_schedule_client ''id'' ''s'' (\<lambda>d. Inr (same_as_described d)) d = Inr req
    \<and> same_spec long64 sample_spec (sd_spec (ur_schedule req)) \<and> pa_header (sd_action (ur_schedule req)) = pa_header sample_action"
proof -
  let ?C = sample_schedule_client
  note cs = sample_schedule_client_def sample_client_def workflow_client.defs
  obtain sp pb where sp: "decodeScheduleSpec long64 sample_spec = Inr sp" "encodeScheduleSpec long64 sample_text sp = Inr pb"
    using described_spec_back [OF long64.long_arith_axioms sample_spec_ok, of sample_text] by (auto simp: and_then_eq_Inr)
  obtain created where cr: "tsToDate long64 (Some \<lparr>seconds = Some (fromNumber long64 (int_num 60)), nanos = Some (int_num (0 * 1000000))\<rparr>) = Inr created"
    by (simp add: tsToDate_def tsToMs_def)
  obtain d where d: "describe_raw ?C ''s'' sample_description = Inr d" "de_spec d = sp" "de_raw d = sample_description"
    "de_action d = \<lparr>sa_workflowType = ''wf'', sa_workflowId = Some ''w'', sa_args = Some [], sa_taskQueue = ''q'', sa_workflowExecutionTimeout = None,
      sa_workflowRunTimeout = None, sa_workflowTaskTimeout = None, sa_retry = None, sa_memo = None, sa_searchAttributes = Some []\<rparr>"
    "de_policies d = \<lparr>po_overlap = Some UNSPECIFIED, po_catchupWindow = Some (DurNum (int_num 60000)), po_pauseOnFailure = Some False\<rparr>"
    using sp(1) cr by (simp add: describe_raw_def sample_description_def sample_schedule_def cs decodeScheduleAction_def sample_action_def
        decodeArrayFromPayloads_def decodeOptional_def for_option_def arrayFromPayloads_def decodeMapFromPayloads_def decompileRetryPolicy_def
        mapFromPayloads_def optionalTsToMs_def decodeSearchAttributes_def describe_policies_def decodeOverlapPolicy_def describe_info_def
        decodeScheduleRecentActions_def required_def optionalTsToDate_def)
  obtain req where req: "updated_request ?C ''id'' ''s'' (\<lambda>d. Inr (same_as_described d)) d = Inr req"
    using sp(2) d by (simp add: updated_request_def same_as_described_def Let_def assertRequiredScheduleOptions_def truthy_str_def
        compileUpdatedScheduleOptions_def compile_action_def extractWorkflowType_def update_request_of_def encode_schedule_def cs
        encodeScheduleAction_def encodeToPayloads_def msOptionalToTs_def for_option_def mapToPayloads_def encodeSchedulePolicies_def
        js_num_truthy_def msToTs_def msNumberToTs_def js_isNaN_def)
  have L: "cl_libs ?C = long64" "sl_overlap ?C = sample_enum" by (simp_all add: cs)
  have "state_ok long64 \<lparr>pt_paused = Some True, pt_notes = Some ''n'', pt_limitedActions = True,
       pt_remainingActions = Some (fromNumber long64 (int_num 3))\<rparr>"
    by (auto simp: state_ok_def safe_int_def intro!: exI [of _ 3])
  from update_keeps_schedule [of ?C, unfolded L, OF long64.long_arith_axioms sample_enum_ok _ _ _ _ sample_spec_ok this d(1) req]
  show ?thesis using d(1) req by (auto simp: sample_description_def sample_schedule_def)
qed

end
