(* ===== verification/Text_Encoding.thy ===== *)
theory Text_Encoding
  imports Js_Values
begin

unbundle bit_operations_syntax

text \<open>
  The text encoder of packages/common/src/encoding.ts, which the contexts of workflows use. A string is its list of 16-bit
  units. A typed array ignores what is stored past its end and keeps the low 8 bits of a number. The length of a
  JavaScript string is below 2^29, so that the sums here, which the code takes modulo 2^32, do not wrap.
\<close>

type_synonym utf16 = "16 word list"

subsection \<open>Typed arrays\<close>

definition put :: "bytes \<Rightarrow> nat \<Rightarrow> nat \<Rightarrow> bytes" where
  "put buf i v = (if i < length buf then buf[i := word_of_nat v] else buf)"

text \<open>\<open>result[pos] = \<dots>; result[pos = pos + 1] = \<dots>\<close>\<close>

fun put_all :: "bytes \<Rightarrow> nat \<Rightarrow> nat list \<Rightarrow> bytes" where
  "put_all buf pos [] = buf"
| "put_all buf pos (v # vs) = put_all (put buf pos v) (Suc pos) vs"

text \<open>\<open>tmpResult.set(result)\<close> throws if the source does not fit.\<close>

definition typed_array_set :: "bytes \<Rightarrow> bytes \<Rightarrow> bytes res" where
  "typed_array_set target source =
     (if length target < length source then Inl (throw_plain ''RangeError'' ''offset is out of bounds'')
      else Inr (source @ drop (length source) target))"

subsection \<open>The encoder\<close>

text \<open>\<open>charCodeAt(i) | 0\<close>, where \<open>NaN\<close> becomes 0.\<close>

definition charCodeAt :: "utf16 \<Rightarrow> nat \<Rightarrow> nat" where
  "charCodeAt s i = (if i < length s then unat (s ! i) else 0)"

definition two_bytes :: "nat \<Rightarrow> nat list" where
  "two_bytes point = [push_bit 5 0x6 OR drop_bit 6 point, push_bit 6 0x2 OR (point AND 0x3f)]"

definition three_bytes :: "nat \<Rightarrow> nat list" where
  "three_bytes point = [push_bit 4 0xe OR drop_bit 12 point, push_bit 6 0x2 OR (drop_bit 6 point AND 0x3f),
     push_bit 6 0x2 OR (point AND 0x3f)]"

definition four_bytes :: "nat \<Rightarrow> nat list" where
  "four_bytes point = [push_bit 3 0x1e OR drop_bit 18 point, push_bit 6 0x2 OR (drop_bit 12 point AND 0x3f),
     push_bit 6 0x2 OR (drop_bit 6 point AND 0x3f), push_bit 6 0x2 OR (point AND 0x3f)]"

definition combine :: "nat \<Rightarrow> nat \<Rightarrow> nat" where
  "combine point nextcode = push_bit 10 point + nextcode - 0x35fdc00"

definition is_high :: "nat \<Rightarrow> bool" where
  "is_high point \<longleftrightarrow> 0xd800 \<le> point \<and> point \<le> 0xdbff"

definition is_low :: "nat \<Rightarrow> bool" where
  "is_low point \<longleftrightarrow> 0xdc00 \<le> point \<and> point \<le> 0xdfff"

record enc_state =
  en_i :: nat
  en_pos :: nat
  en_result :: bytes
  en_upgraded :: bool

definition enc_emit :: "nat \<Rightarrow> nat list \<Rightarrow> enc_state \<Rightarrow> enc_state" where
  "enc_emit i vs st = st\<lparr>en_i := Suc i, en_pos := en_pos st + length vs, en_result := put_all (en_result st) (en_pos st) vs\<rparr>"

text \<open>The array starts with two bytes per unit and 8 more, and gets three per unit once that may not do.\<close>

definition widen_check :: "nat \<Rightarrow> nat \<Rightarrow> enc_state \<Rightarrow> enc_state res" where
  "widen_check len i st =
     (if \<not> en_upgraded st \<and> push_bit 1 i < en_pos st \<and> int (push_bit 1 i) < int (en_pos st) - 7
      then and_then (typed_array_set (replicate (len * 3) 0) (en_result st)) (\<lambda>r. Inr (st\<lparr>en_result := r, en_upgraded := True\<rparr>))
      else Inr st)"

definition encode_wide :: "nat \<Rightarrow> nat \<Rightarrow> nat \<Rightarrow> enc_state \<Rightarrow> enc_state res" where
  "encode_wide len i point st = and_then (widen_check len i st) (\<lambda>st'. Inr (enc_emit i (three_bytes point) st'))"

definition encode_char :: "utf16 \<Rightarrow> enc_state \<Rightarrow> enc_state res" where
  "encode_char s st =
     (let i = en_i st; point = charCodeAt s i in
      if point \<le> 0x7f then Inr (enc_emit i [point] st)
      else if point \<le> 0x7ff then Inr (enc_emit i (two_bytes point) st)
      else if is_high point then
        (let nextcode = charCodeAt s (Suc i) in
         if is_low nextcode then
           (if combine point nextcode > 0xffff then Inr (enc_emit (Suc i) (four_bytes (combine point nextcode)) st)
            else Inr (enc_emit (Suc i) (three_bytes (combine point nextcode)) st))
         else encode_wide (length s) (Suc i) 65533 st)
      else encode_wide (length s) i (if is_low point then 65533 else point) st)"

lemma encode_char_progress: "encode_char s st = Inr st' \<Longrightarrow> en_i st < en_i st'"
  by (auto simp: encode_char_def encode_wide_def enc_emit_def Let_def and_then_eq_Inr split: if_splits)

function encode_loop :: "utf16 \<Rightarrow> enc_state \<Rightarrow> enc_state res" where
  "encode_loop s st =
     (if en_i st < length s then (case encode_char s st of Inl e \<Rightarrow> Inl e | Inr st' \<Rightarrow> encode_loop s st') else Inr st)"
  by pat_completeness auto
termination
  by (relation "measure (\<lambda>(s, st). length s - en_i st)") (auto dest: encode_char_progress)

declare encode_loop.simps [simp del]

definition encode_start :: "utf16 \<Rightarrow> enc_state" where
  "encode_start s = \<lparr>en_i = 0, en_pos = 0, en_result = replicate (length s * 2 + 8) 0, en_upgraded = False\<rparr>"

text \<open>\<open>subarray(0, pos)\<close> is clamped to the array.\<close>

definition encode_text :: "utf16 \<Rightarrow> bytes res" where
  "encode_text s = and_then (encode_loop s (encode_start s)) (\<lambda>st. Inr (take (en_pos st) (en_result st)))"

subsection \<open>What UTF-8 says\<close>

text \<open>The code points of a string; a surrogate without its partner counts as U+FFFD.\<close>

fun code_points :: "utf16 \<Rightarrow> nat list" where
  "code_points [] = []"
| "code_points [u] = [if is_high (unat u) \<or> is_low (unat u) then 65533 else unat u]"
| "code_points (u # v # us) =
     (if is_high (unat u) \<and> is_low (unat v)
      then (0x10000 + (unat u - 0xd800) * 0x400 + (unat v - 0xdc00)) # code_points us
      else (if is_high (unat u) \<or> is_low (unat u) then 65533 else unat u) # code_points (v # us))"

definition utf8 :: "nat \<Rightarrow> nat list" where
  "utf8 c =
     (if c < 0x80 then [c]
      else if c < 0x800 then [0xc0 + c div 64, 0x80 + c mod 64]
      else if c < 0x10000 then [0xe0 + c div 4096, 0x80 + c div 64 mod 64, 0x80 + c mod 64]
      else [0xf0 + c div 262144, 0x80 + c div 4096 mod 64, 0x80 + c div 64 mod 64, 0x80 + c mod 64])"

definition utf8_text :: "utf16 \<Rightarrow> bytes" where
  "utf8_text s = map word_of_nat (concat (map utf8 (code_points s)))"

text \<open>Every first half of a surrogate pair is followed by a second half.\<close>

fun pairs_whole :: "utf16 \<Rightarrow> bool" where
  "pairs_whole [] = True"
| "pairs_whole [u] = (\<not> is_high (unat u))"
| "pairs_whole (u # v # us) =
     (if is_high (unat u) then is_low (unat v) \<and> pairs_whole us else pairs_whole (v # us))"

lemma push_bit_or: "x < 2 ^ k \<Longrightarrow> push_bit k a OR x = push_bit k a + (x :: nat)"
proof (rule disjunctive_add [symmetric])
  fix n
  assume "x < 2 ^ k"
  then have "take_bit k x = x" by (simp add: take_bit_nat_eq_self)
  then show "\<not> bit (push_bit k a) n \<or> \<not> bit x n" by (metis bit_push_bit_iff_nat bit_take_bit_iff not_less)
qed

lemmas lead_bytes = push_bit_or [of _ 6 2, simplified] push_bit_or [of _ 5 6, simplified] push_bit_or [of _ 4 14, simplified] push_bit_or [of _ 3 30, simplified]

lemma and_63: "(x::nat) AND 63 = x mod 64"
  using and_exp_eq_0_iff_not_bit [of x] take_bit_eq_mask [of 6 x] by (simp add: take_bit_eq_mod mask_eq_exp_minus_1)

lemma bytes_utf8:
  "x < 0x80 \<Longrightarrow> utf8 x = [x]"
  "0x7f < x \<Longrightarrow> x \<le> 0x7ff \<Longrightarrow> two_bytes x = utf8 x"
  "0x7ff < x \<Longrightarrow> x < 0x10000 \<Longrightarrow> three_bytes x = utf8 x"
  "0xffff < x \<Longrightarrow> x < 0x200000 \<Longrightarrow> four_bytes x = utf8 x"
  by (simp_all add: utf8_def two_bytes_def three_bytes_def four_bytes_def lead_bytes drop_bit_eq_div and_63)

lemma combine_eq:
  "is_high u \<Longrightarrow> is_low v \<Longrightarrow> combine u v = 0x10000 + (u - 0xd800) * 0x400 + (v - 0xdc00)"
  "is_high u \<Longrightarrow> is_low v \<Longrightarrow> 0xffff < combine u v \<and> combine u v < 0x200000"
  by (auto simp: combine_def push_bit_eq_mult is_high_def is_low_def)

subsection \<open>The encoder against UTF-8\<close>

lemma put_all_length [simp]: "length (put_all buf pos vs) = length buf"
  by (induction buf pos vs rule: put_all.induct) (simp_all add: put_def)

lemma put_all_inside:
  "pos + length vs \<le> length buf \<Longrightarrow> take (pos + length vs) (put_all buf pos vs) = take pos buf @ map word_of_nat vs"
proof (induction buf pos vs rule: put_all.induct)
  case (2 buf pos v vs)
  then show ?case by (simp add: put_def take_Suc_conv_app_nth)
qed simp

definition enc_ok :: "nat \<Rightarrow> enc_state \<Rightarrow> bool" where
  "enc_ok len st \<longleftrightarrow> en_pos st \<le> 3 * en_i st \<and>
     (if en_upgraded st then length (en_result st) = 3 * len else en_pos st \<le> 2 * en_i st + 8 \<and> length (en_result st) = 2 * len + 8)"

lemma widen_ok:
  assumes "enc_ok len st" "en_i st < len"
  shows "\<exists>st'. widen_check len (en_i st) st = Inr st' \<and> en_pos st' = en_pos st \<and> en_i st' = en_i st
    \<and> take (en_pos st) (en_result st') = take (en_pos st) (en_result st) \<and> en_pos st \<le> length (en_result st)
    \<and> enc_ok len st' \<and> (\<not> en_upgraded st' \<longrightarrow> en_pos st \<le> 2 * en_i st + 7)"
  using assms by (auto simp: widen_check_def typed_array_set_def enc_ok_def push_bit_eq_mult split: if_splits)

lemma enc_emit_facts [simp]:
  "en_i (enc_emit i vs st) = Suc i" "en_pos (enc_emit i vs st) = en_pos st + length vs" "en_upgraded (enc_emit i vs st) = en_upgraded st"
  "length (en_result (enc_emit i vs st)) = length (en_result st)"
  by (simp_all add: enc_emit_def)

lemma enc_emit_written:
  "en_pos st + length vs \<le> length (en_result st) \<Longrightarrow>
     take (en_pos (enc_emit i vs st)) (en_result (enc_emit i vs st)) = take (en_pos st) (en_result st) @ map word_of_nat vs"
  by (simp add: enc_emit_def put_all_inside)

text \<open>\<open>advances\<close> is what one round of the loop achieves: it consumes the code point \<open>c\<close> and writes its bytes.\<close>

definition advances :: "utf16 \<Rightarrow> enc_state \<Rightarrow> nat \<Rightarrow> bool" where
  "advances s st c \<longleftrightarrow> (\<exists>st'. encode_char s st = Inr st' \<and> enc_ok (length s) st' \<and> en_i st' \<le> length s
     \<and> take (en_pos st') (en_result st') = take (en_pos st) (en_result st) @ map word_of_nat (utf8 c)
     \<and> code_points (drop (en_i st) s) = c # code_points (drop (en_i st') s) \<and> pairs_whole (drop (en_i st') s))"

lemma encode_wide_advances:
  assumes ok: "enc_ok (length s) st" "en_i st < length s" and c: "0x7ff < c" "c < 0x10000"
    and enc: "encode_char s st = encode_wide (length s) (en_i st) c st"
    and cp: "code_points (drop (en_i st) s) = c # code_points (drop (Suc (en_i st)) s)" "pairs_whole (drop (Suc (en_i st)) s)"
  shows "advances s st c"
proof -
  obtain st' where st': "widen_check (length s) (en_i st) st = Inr st'" "en_pos st' = en_pos st" "en_i st' = en_i st"
    "take (en_pos st) (en_result st') = take (en_pos st) (en_result st)" "enc_ok (length s) st'"
    "\<not> en_upgraded st' \<longrightarrow> en_pos st \<le> 2 * en_i st + 7"
    using widen_ok [OF ok] by blast
  let ?e = "enc_emit (en_i st) (three_bytes c) st'"
  have len: "length (three_bytes c) = 3" by (simp add: three_bytes_def)
  have "en_pos st' + 3 \<le> length (en_result st')"
    using st' ok(2) by (auto simp: enc_ok_def split: if_splits)
  then have "take (en_pos ?e) (en_result ?e) = take (en_pos st) (en_result st) @ map word_of_nat (utf8 c)"
    using enc_emit_written [of st' "three_bytes c" "en_i st"] st' bytes_utf8(3) [OF c] len by simp
  moreover have "enc_ok (length s) ?e"
    using st' ok(2) len by (auto simp: enc_ok_def split: if_splits)
  ultimately show ?thesis
    using enc st'(1) cp ok(2) by (auto simp: advances_def encode_wide_def intro!: exI [of _ ?e])
qed

lemma enc_emit_advances:
  assumes ok: "enc_ok (length s) st" "j < length s" "en_i st \<le> j" and n: "length (utf8 c) \<le> 2 * (Suc j - en_i st)"
    and enc: "encode_char s st = Inr (enc_emit j (utf8 c) st)"
    and cp: "code_points (drop (en_i st) s) = c # code_points (drop (Suc j) s)" "pairs_whole (drop (Suc j) s)"
  shows "advances s st c"
proof -
  let ?e = "enc_emit j (utf8 c) st"
  have "en_pos st + length (utf8 c) \<le> length (en_result st)"
    using ok n by (auto simp: enc_ok_def split: if_splits)
  then have "take (en_pos ?e) (en_result ?e) = take (en_pos st) (en_result st) @ map word_of_nat (utf8 c)"
    by (rule enc_emit_written)
  moreover have "enc_ok (length s) ?e" using ok n by (auto simp: enc_ok_def split: if_splits)
  ultimately show ?thesis
    using enc cp ok by (auto simp: advances_def intro!: exI [of _ ?e])
qed

lemma encode_char_advances:
  assumes ok: "enc_ok (length s) st" "en_i st < length s" and w: "pairs_whole (drop (en_i st) s)"
  shows "\<exists>c. advances s st c"
proof -
  let ?i = "en_i st"
  let ?u = "unat (s ! ?i)"
  have u: "charCodeAt s ?i = ?u" "?u < 65536" using ok(2) unsigned_less [of "s ! ?i"] by (simp_all add: charCodeAt_def)
  have d: "drop ?i s = s ! ?i # drop (Suc ?i) s" using ok(2) by (simp add: Cons_nth_drop_Suc)
  consider (small) "?u \<le> 0x7ff" | (pair) "is_high ?u" | (wide) "0x7ff < ?u" "\<not> is_high ?u" by linarith
  then show ?thesis
  proof cases
    case small
    have "code_points (drop ?i s) = ?u # code_points (drop (Suc ?i) s)" "pairs_whole (drop (Suc ?i) s)"
      using w small unfolding d by (cases "drop (Suc ?i) s"; auto simp: is_high_def is_low_def)+
    moreover have "encode_char s st = Inr (enc_emit ?i (utf8 ?u) st)"
      using small u bytes_utf8(1,2) [of ?u] by (auto simp: encode_char_def Let_def)
    moreover have "length (utf8 ?u) \<le> 2" using small by (simp add: utf8_def)
    ultimately show ?thesis using enc_emit_advances [OF ok(1), of ?i ?u] ok(2) by auto
  next
    case pair
    then obtain v us where v: "drop (Suc ?i) s = v # us" "is_low (unat v)" "pairs_whole us"
      using w unfolding d by (cases "drop (Suc ?i) s") auto
    then have j: "Suc ?i < length s" "s ! Suc ?i = v" "drop (Suc (Suc ?i)) s = us"
      by (metis drop_eq_Nil2 list.distinct(1) not_le_imp_less, metis nth_via_drop, metis drop_Suc list.sel(3) tl_drop)
    let ?c = "combine ?u (unat v)"
    have c: "0xffff < ?c" "?c < 0x200000" "?c = 0x10000 + (?u - 0xd800) * 0x400 + (unat v - 0xdc00)"
      using combine_eq [OF pair v(2)] by auto
    have "code_points (drop ?i s) = ?c # code_points (drop (Suc (Suc ?i)) s)"
      using pair v j(3) c(3) unfolding d by simp
    moreover have "encode_char s st = Inr (enc_emit (Suc ?i) (utf8 ?c) st)"
      using pair u j v(2) c(1) bytes_utf8(4) [OF c(1,2)] by (auto simp: encode_char_def Let_def charCodeAt_def is_high_def)
    moreover have "length (utf8 ?c) \<le> 4" by (simp add: utf8_def)
    ultimately show ?thesis using enc_emit_advances [OF ok(1), of "Suc ?i" ?c] j v(3) by auto
  next
    case wide
    let ?c = "if is_low ?u then 65533 else ?u"
    have "code_points (drop ?i s) = ?c # code_points (drop (Suc ?i) s)" "pairs_whole (drop (Suc ?i) s)"
      using w wide unfolding d by (cases "drop (Suc ?i) s"; auto)+
    moreover have "encode_char s st = encode_wide (length s) ?i ?c st"
      using wide u by (auto simp: encode_char_def Let_def)
    moreover have "0x7ff < ?c" "?c < 0x10000" using wide u(2) by auto
    ultimately show ?thesis using encode_wide_advances [OF ok] by blast
  qed
qed

lemma encode_loop_utf8:
  assumes "enc_ok (length s) st" "en_i st \<le> length s" "pairs_whole (drop (en_i st) s)"
  shows "\<exists>st'. encode_loop s st = Inr st'
    \<and> take (en_pos st') (en_result st') = take (en_pos st) (en_result st) @ utf8_text (drop (en_i st) s)"
  using assms
proof (induction s st rule: encode_loop.induct)
  case (1 s st)
  show ?case
  proof (cases "en_i st < length s")
    case True
    then obtain c st' where st': "encode_char s st = Inr st'" "enc_ok (length s) st'" "en_i st' \<le> length s"
      "take (en_pos st') (en_result st') = take (en_pos st) (en_result st) @ map word_of_nat (utf8 c)"
      "code_points (drop (en_i st) s) = c # code_points (drop (en_i st') s)" "pairs_whole (drop (en_i st') s)"
      using encode_char_advances [OF "1.prems"(1)] "1.prems"(3) by (auto simp: advances_def)
    with "1.IH" [OF True st'(1)] show ?thesis
      using True by (subst encode_loop.simps) (simp add: utf8_text_def)
  next
    case False
    then show ?thesis by (subst encode_loop.simps) (simp add: utf8_text_def)
  qed
qed

lemma encode_text_utf8:
  assumes "pairs_whole s"
  shows "encode_text s = Inr (utf8_text s)"
proof -
  have "enc_ok (length s) (encode_start s)" by (simp add: enc_ok_def encode_start_def)
  from encode_loop_utf8 [OF this] assms show ?thesis
    by (auto simp: encode_text_def encode_start_def)
qed

text \<open>C33. The encoder writes the UTF-8 encoding of every string whose surrogate pairs are whole: with the array it starts
  with, which it widens at most once, no byte is stored past the end and lost, and widening never fails.\<close>

theorem encoder_is_utf8:
  assumes "pairs_whole s"
  shows "encode_text s = Inr (utf8_text s)"
  by (rule encode_text_utf8 [OF assms])

theorem encoder_is_utf8_witness:
  "encode_text [0x61, 0xe9, 0x20ac, 0xd83d, 0xde00] = Inr [0x61, 0xc3, 0xa9, 0xe2, 0x82, 0xac, 0xf0, 0x9f, 0x98, 0x80]"
  using encoder_is_utf8 [of "[0x61, 0xe9, 0x20ac, 0xd83d, 0xde00]"] by (simp add: is_high_def is_low_def utf8_text_def utf8_def)

lemma list_numerals:
  "(x # xs)[numeral k := v] = x # xs[pred_numeral k := v]"
  "replicate (numeral k) x = x # replicate (pred_numeral k) x"
  by (simp_all add: numeral_eq_Suc)

text \<open>Where the first half of a surrogate pair has no second half, the encoder is not UTF-8, which replaces it and goes on
  with the unit after it: the unit after it is skipped, and at the end of a string whose encoding is long the array may be too short, so
  that the last byte is lost and the result is not UTF-8 at all.\<close>

theorem lone_surrogate_loses_text:
  "encode_text [0xd800, 0x41] = Inr [0xef, 0xbf, 0xbd] \<and> utf8_text [0xd800, 0x41] = [0xef, 0xbf, 0xbd, 0x41]
   \<and> encode_text (replicate 8 0x4e00 @ [0xd800]) = Inr (concat (replicate 8 [0xe4, 0xb8, 0x80]) @ [0xef, 0xbf])
   \<and> utf8_text (replicate 8 0x4e00 @ [0xd800]) = concat (replicate 8 [0xe4, 0xb8, 0x80]) @ [0xef, 0xbf, 0xbd]"
proof (intro conjI)
  note run = encode_text_def encode_start_def encode_loop.simps encode_char_def Let_def charCodeAt_def is_high_def is_low_def
    encode_wide_def widen_check_def enc_emit_def three_bytes_def put_def typed_array_set_def push_bit_eq_mult drop_bit_eq_div and_63 lead_bytes
  show "encode_text [0xd800, 0x41] = Inr [0xef, 0xbf, 0xbd]" by (simp add: run list_numerals)
  show "utf8_text [0xd800, 0x41] = [0xef, 0xbf, 0xbd, 0x41]" by (simp add: utf8_text_def utf8_def is_high_def is_low_def)
  show "encode_text (replicate 8 0x4e00 @ [0xd800]) = Inr (concat (replicate 8 [0xe4, 0xb8, 0x80]) @ [0xef, 0xbf])"
    by (simp add: run list_numerals)
  show "utf8_text (replicate 8 0x4e00 @ [0xd800]) = concat (replicate 8 [0xe4, 0xb8, 0x80]) @ [0xef, 0xbf, 0xbd]"
    by (simp add: utf8_text_def utf8_def is_high_def is_low_def list_numerals)
qed

end
