(* ===== verification/Text_Decoding.thy ===== *)
theory Text_Decoding
  imports Text_Encoding
begin

text \<open>
  The text decoder of packages/common/src/encoding.ts. It fills a buffer of 32 units, which all calls share, and appends the
  buffer to the text when it is full or the input comes to its end; the second half of a surrogate pair that has no room
  left waits for the next block. A loop that does not end is \<open>None\<close>.
\<close>

subsection \<open>The decoder\<close>

record dec_state =
  dc_index :: nat
  dc_pos :: nat
  dc_nextEnd :: nat
  dc_tmp :: "nat option"
  dc_buffer :: utf16
  dc_tmpStr :: utf16
  dc_result :: utf16

text \<open>\<open>inputAs8[index] & 0xff\<close>, where a missing byte counts as 0.\<close>

definition byte_at :: "bytes \<Rightarrow> nat \<Rightarrow> nat" where
  "byte_at bs i = (if i < length bs then unat (bs ! i) else 0)"

definition block_end :: "bytes \<Rightarrow> nat \<Rightarrow> nat" where
  "block_end bs i = (if i + 32 \<le> length bs then 32 else length bs - i)"

text \<open>\<open>tmpBufferU16[pos] = \<dots>\<close> and the increments at the head of the loop.\<close>

definition store_unit :: "nat \<Rightarrow> nat \<Rightarrow> dec_state \<Rightarrow> dec_state" where
  "store_unit i unit st = st\<lparr>dc_buffer := (dc_buffer st)[dc_pos st := word_of_nat unit], dc_index := Suc i, dc_pos := Suc (dc_pos st)\<rparr>"

text \<open>The cases of two, three and four bytes; each falls through to the one with fewer bytes.\<close>

definition finish_point :: "bytes \<Rightarrow> nat \<Rightarrow> nat \<Rightarrow> dec_state \<Rightarrow> dec_state" where
  "finish_point bs i unit st = store_unit i unit (st\<lparr>dc_nextEnd := block_end bs i\<rparr>)"

definition last_byte :: "bytes \<Rightarrow> nat \<Rightarrow> nat \<Rightarrow> nat \<Rightarrow> nat \<Rightarrow> dec_state \<Rightarrow> dec_state" where
  "last_byte bs i cp0 codePoint minBits st =
     (let i' = Suc i; cp1 = byte_at bs i';
          codePoint' = push_bit 6 codePoint OR (push_bit 6 (cp0 AND 0x1f) OR (cp1 AND 0x3f));
          minBits' = minBits + 7 in
      if i' < length bs \<and> drop_bit 6 cp1 = 2 \<and> drop_bit minBits' codePoint' \<noteq> 0 \<and> codePoint' < 0x110000 then
        (if 0x10000 \<le> codePoint' then
           (let high = drop_bit 10 (codePoint' - 0x10000) + 0xd800; low = ((codePoint' - 0x10000) AND 0x3ff) + 0xdc00 in
            if dc_pos st < 31 then
              finish_point bs i' low (st\<lparr>dc_buffer := (dc_buffer st)[dc_pos st := word_of_nat high], dc_pos := Suc (dc_pos st), dc_tmp := None\<rparr>)
            else finish_point bs i' high (st\<lparr>dc_tmp := Some low\<rparr>))
         else finish_point bs i' codePoint' st)
      else finish_point bs (i' - drop_bit 8 cp0 - 1) 0xfffd st)"

definition third_byte :: "bytes \<Rightarrow> nat \<Rightarrow> nat \<Rightarrow> nat \<Rightarrow> nat \<Rightarrow> dec_state \<Rightarrow> dec_state" where
  "third_byte bs i cp0 codePoint minBits st =
     (let i' = Suc i; cp1 = byte_at bs i' in
      last_byte bs i' ((cp0 + 0x100) AND 0x300) (push_bit 6 codePoint OR (push_bit 6 (cp0 AND 0xf) OR (cp1 AND 0x3f)))
        (if drop_bit 6 cp1 = 2 then minBits + 4 else 24) st)"

definition decode_char :: "bytes \<Rightarrow> dec_state \<Rightarrow> dec_state" where
  "decode_char bs st =
     (let i = dc_index st; cp0 = byte_at bs i; class = drop_bit 4 cp0 in
      if class = 15 then
        (let cp1 = byte_at bs (Suc i) in
         if drop_bit 6 cp1 \<noteq> 2 \<or> 0xf7 < cp0 then store_unit i 0xfffd st
         else third_byte bs (Suc i) 0x100 (push_bit 6 (cp0 AND 0x7) OR (cp1 AND 0x3f)) 5 st)
      else if class = 14 then third_byte bs i cp0 0 0 st
      else if class = 13 \<or> class = 12 then last_byte bs i cp0 0 0 st
      else if 8 \<le> class then store_unit i 0xfffd st
      else store_unit i cp0 st)"

partial_function (option) decode_block :: "bytes \<Rightarrow> dec_state \<Rightarrow> dec_state option" where
  "decode_block bs st = (if dc_pos st < dc_nextEnd st then decode_block bs (decode_char bs st) else Some st)"

text \<open>What was decoded so far: \<open>tmpStr += fromCharCode(\<dots>)\<close>, cut to the units that the block has.\<close>

definition append_block :: "dec_state \<Rightarrow> utf16" where
  "append_block st =
     (let t = dc_tmpStr st @ dc_buffer st in if dc_pos st < 32 then take (length t - (32 - dc_pos st)) t else t)"

definition flush :: "dec_state \<Rightarrow> dec_state" where
  "flush st = st\<lparr>dc_result := dc_result st @ dc_tmpStr st, dc_tmpStr := []\<rparr>"

definition end_block :: "bytes \<Rightarrow> dec_state \<Rightarrow> dec_state" where
  "end_block bs st =
     (let st = st\<lparr>dc_tmpStr := append_block st\<rparr> in
      if dc_index st < length bs then
        (let st' = st\<lparr>dc_buffer := (dc_buffer st)[0 := (case dc_tmp st of Some u \<Rightarrow> word_of_nat u | None \<Rightarrow> - 1)],
                      dc_pos := (if dc_tmp st \<noteq> None then 1 else 0), dc_tmp := None\<rparr> in
         if length (dc_tmpStr st') < length (dc_result st') then st' else flush st')
      else flush (case dc_tmp st of Some u \<Rightarrow> st\<lparr>dc_tmpStr := dc_tmpStr st @ [word_of_nat u]\<rparr> | None \<Rightarrow> st))"

partial_function (option) decode_blocks :: "bytes \<Rightarrow> dec_state \<Rightarrow> dec_state option" where
  "decode_blocks bs st =
     (if dc_index st < length bs
      then Option.bind (decode_block bs (st\<lparr>dc_nextEnd := block_end bs (dc_index st)\<rparr>)) (\<lambda>st'. decode_blocks bs (end_block bs st'))
      else Some st)"

definition decode_text :: "utf16 \<Rightarrow> bytes \<Rightarrow> utf16 option" where
  "decode_text buffer bs =
     map_option dc_result (decode_blocks bs
       \<lparr>dc_index = 0, dc_pos = 0, dc_nextEnd = 0, dc_tmp = None, dc_buffer = buffer, dc_tmpStr = [], dc_result = []\<rparr>)"

subsection \<open>One character\<close>

text \<open>The units of a code point.\<close>

definition units :: "nat \<Rightarrow> utf16" where
  "units c = (if c < 0x10000 then [word_of_nat c] else [word_of_nat (0xd800 + (c - 0x10000) div 0x400), word_of_nat (0xdc00 + (c - 0x10000) mod 0x400)])"

definition decoded :: "dec_state \<Rightarrow> utf16" where
  "decoded st = take (dc_pos st) (dc_buffer st) @ (case dc_tmp st of Some u \<Rightarrow> [word_of_nat u] | None \<Rightarrow> [])"

definition in_block :: "bytes \<Rightarrow> dec_state \<Rightarrow> bool" where
  "in_block bs st \<longleftrightarrow> length (dc_buffer st) = 32 \<and> dc_pos st \<le> 32 \<and> dc_nextEnd st \<le> 32 \<and> (dc_tmp st \<noteq> None \<longrightarrow> dc_pos st = 32)
     \<and> dc_index st \<le> length bs \<and> dc_nextEnd st \<le> dc_pos st + (length bs - dc_index st)"

lemma low_bits:
  "(x::nat) AND 7 = x mod 8" "x AND 15 = x mod 16" "x AND 31 = x mod 32" "x AND 63 = x mod 64" "x AND 1023 = x mod 1024"
  using take_bit_eq_mask [of 3 x] take_bit_eq_mask [of 4 x] take_bit_eq_mask [of 5 x] take_bit_eq_mask [of 10 x] and_63 [of x]
  by (simp_all add: take_bit_eq_mod mask_eq_exp_minus_1)

lemma or_low: "x < 64 \<Longrightarrow> push_bit 6 a OR x = 64 * a + (x :: nat)"
  using push_bit_or [of x 6 a] by (simp add: push_bit_eq_mult)

lemma byte_at_drop:
  assumes "drop i bs = map word_of_nat ns @ rest" "k < length ns" "ns ! k < 256"
  shows "byte_at bs (i + k) = ns ! k" "i + k < length bs"
proof -
  have "length bs - i = length ns + length rest" using arg_cong [OF assms(1), of length] by simp
  then show len: "i + k < length bs" using assms(2) by linarith
  have "bs ! (i + k) = drop i bs ! k" using len by simp
  also have "\<dots> = word_of_nat (ns ! k)" using assms(2) by (simp add: assms(1) nth_append)
  finally show "byte_at bs (i + k) = ns ! k" using assms(3) len by (simp add: byte_at_def unat_of_nat)
qed

lemma three_cases: "0xe0 \<le> x \<Longrightarrow> x \<le> 0xef \<Longrightarrow> (x + 0x100) AND 0x300 = (0x100 :: nat)"
proof -
  assume x: "0xe0 \<le> x" "x \<le> 0xef"
  have "y AND push_bit 8 m = push_bit 8 (drop_bit 8 y AND m)" for y m :: nat
    by (rule bit_eqI) (auto simp: bit_simps)
  from this [of "x + 0x100" 3] have "(x + 0x100) AND 0x300 = push_bit 8 (drop_bit 8 (x + 0x100) AND 3)" by simp
  moreover have "drop_bit 8 (x + 0x100) = 1" using x by (simp add: drop_bit_eq_div div_nat_eqI)
  ultimately show ?thesis by (simp add: push_bit_eq_mult)
qed

lemma take_store: "pos < length buf \<Longrightarrow> take (Suc pos) (buf[pos := v]) = take pos buf @ [v]"
  by (simp add: take_Suc_conv_app_nth)

text \<open>What one round of the loop achieves: it consumes \<open>n\<close> bytes and appends the units \<open>us\<close>.\<close>

definition appends :: "bytes \<Rightarrow> dec_state \<Rightarrow> nat \<Rightarrow> utf16 \<Rightarrow> dec_state \<Rightarrow> bool" where
  "appends bs st n us st' \<longleftrightarrow> dc_index st' = dc_index st + n \<and> decoded st' = decoded st @ us \<and> in_block bs st'
     \<and> dc_pos st < dc_pos st' \<and> dc_tmpStr st' = dc_tmpStr st \<and> dc_result st' = dc_result st"

lemma store_appends:
  assumes "in_block bs st" "dc_pos st < 32" "dc_index st < length bs"
  shows "appends bs st 1 [word_of_nat u] (store_unit (dc_index st) u st)"
  using assms by (auto simp: appends_def in_block_def store_unit_def decoded_def take_store)

lemma finish_appends:
  assumes "in_block bs st" "dc_pos st < 32" "i < length bs" "dc_index st \<le> i"
  shows "appends bs st (Suc i - dc_index st) [word_of_nat u] (finish_point bs i u st)"
  using assms by (auto simp: appends_def in_block_def finish_point_def store_unit_def decoded_def take_store block_end_def)

lemma finish_appends_pair:
  assumes "in_block bs st" "dc_pos st < 31" "i < length bs" "dc_index st \<le> i"
  shows "appends bs st (Suc i - dc_index st) [word_of_nat h, word_of_nat l]
    (finish_point bs i l (st\<lparr>dc_buffer := (dc_buffer st)[dc_pos st := word_of_nat h], dc_pos := Suc (dc_pos st), dc_tmp := None\<rparr>))"
  using assms by (auto simp: appends_def in_block_def finish_point_def store_unit_def decoded_def take_store block_end_def)

lemma finish_appends_split:
  assumes "in_block bs st" "dc_pos st = 31" "i < length bs" "dc_index st \<le> i"
  shows "appends bs st (Suc i - dc_index st) [word_of_nat h, word_of_nat l] (finish_point bs i h (st\<lparr>dc_tmp := Some l\<rparr>))"
  using assms take_store [of 31 "dc_buffer st" "word_of_nat h"]
  by (auto simp: appends_def in_block_def finish_point_def store_unit_def decoded_def block_end_def)

text \<open>A continuation byte: what it says of itself and the six bits it adds.\<close>

lemma continuation:
  "r < 64 \<Longrightarrow> (0x80 + r) AND 63 = (r :: nat)" "r < 64 \<Longrightarrow> drop_bit 6 (0x80 + r) = (2 :: nat)"
proof -
  have eq: "0x80 + r = r + 2 * 64" by simp
  show "r < 64 \<Longrightarrow> (0x80 + r) AND 63 = r" unfolding and_63 eq by (simp only: mod_mult_self1) simp
  show "r < 64 \<Longrightarrow> drop_bit 6 (0x80 + r) = 2" unfolding drop_bit_eq_div eq by simp
qed

lemma add_six: "64 * (c div 64) OR (c mod 64) = (c :: nat)"
  using or_low [of "c mod 64" "c div 64"] by (simp add: push_bit_eq_mult mult.commute)

text \<open>The last byte, whatever came before it.\<close>

lemma last_byte_appends:
  assumes st: "in_block bs st" "dc_pos st < 32" "dc_index st \<le> i" and i: "Suc i < length bs"
    and b: "byte_at bs (Suc i) = 0x80 + c mod 64" and hi: "push_bit 6 codePoint OR push_bit 6 (cp0 AND 0x1f) = 64 * (c div 64)"
    and c: "c < 0x110000" "2 ^ (minBits + 7) \<le> c"
  shows "appends bs st (Suc (Suc i) - dc_index st) (units c) (last_byte bs i cp0 codePoint minBits st)"
proof -
  have point: "push_bit 6 codePoint OR (push_bit 6 (cp0 AND 0x1f) OR (byte_at bs (Suc i) AND 0x3f)) = c"
    using b hi add_six [of c] by (simp add: or.assoc [symmetric] continuation)
  have lead: "drop_bit 6 (byte_at bs (Suc i)) = 2" by (simp add: b continuation)
  have big: "drop_bit (minBits + 7) c \<noteq> 0" using c(2) by (simp add: drop_bit_eq_div div_eq_0_iff)
  have eq: "last_byte bs i cp0 codePoint minBits st =
      (if 0x10000 \<le> c then
           (let high = drop_bit 10 (c - 0x10000) + 0xd800; low = ((c - 0x10000) AND 0x3ff) + 0xdc00 in
            if dc_pos st < 31 then
              finish_point bs (Suc i) low (st\<lparr>dc_buffer := (dc_buffer st)[dc_pos st := word_of_nat high], dc_pos := Suc (dc_pos st), dc_tmp := None\<rparr>)
            else finish_point bs (Suc i) high (st\<lparr>dc_tmp := Some low\<rparr>))
         else finish_point bs (Suc i) c st)"
    using i lead big c(1) unfolding last_byte_def Let_def point by simp
  show ?thesis
  proof (cases "0x10000 \<le> c")
    case False
    then show ?thesis using finish_appends [OF st(1,2) i, of c] st(3) by (simp add: eq units_def)
  next
    case True
    let ?h = "drop_bit 10 (c - 0x10000) + 0xd800" and ?l = "((c - 0x10000) AND 0x3ff) + 0xdc00"
    have u: "units c = [word_of_nat ?h, word_of_nat ?l]" using True by (simp add: units_def low_bits drop_bit_eq_div add.commute)
    show ?thesis
    proof (cases "dc_pos st < 31")
      case short: True
      then show ?thesis using finish_appends_pair [OF st(1) _ i, of ?h ?l] True st(3) unfolding u eq by (simp add: Let_def)
    next
      case False
      then have "dc_pos st = 31" using st(2) by simp
      then show ?thesis using finish_appends_split [OF st(1) _ i, of ?h ?l] True st(3) unfolding u eq by (simp add: Let_def)
    qed
  qed
qed

lemma third_byte_appends:
  assumes st: "in_block bs st" "dc_pos st < 32" "dc_index st \<le> i" and i: "Suc (Suc i) < length bs"
    and b: "byte_at bs (Suc i) = 0x80 + c div 64 mod 64" "byte_at bs (Suc (Suc i)) = 0x80 + c mod 64"
    and hi: "push_bit 6 codePoint OR push_bit 6 (cp0 AND 0xf) = 64 * (c div 64 div 64)"
    and cp0: "((cp0 + 0x100) AND 0x300) AND 0x1f = 0"
    and c: "c < 0x110000" "2 ^ (minBits + 11) \<le> c"
  shows "appends bs st (3 + i - dc_index st) (units c) (third_byte bs i cp0 codePoint minBits st)"
proof -
  have point: "push_bit 6 codePoint OR (push_bit 6 (cp0 AND 0xf) OR (byte_at bs (Suc i) AND 0x3f)) = c div 64"
    using b(1) hi add_six [of "c div 64"] by (simp add: or.assoc [symmetric] continuation)
  have eq: "third_byte bs i cp0 codePoint minBits st = last_byte bs (Suc i) ((cp0 + 0x100) AND 0x300) (c div 64) (minBits + 4) st"
    unfolding third_byte_def Let_def point by (simp add: b(1) continuation)
  have "appends bs st (Suc (Suc (Suc i)) - dc_index st) (units c) (last_byte bs (Suc i) ((cp0 + 0x100) AND 0x300) (c div 64) (minBits + 4) st)"
  proof (rule last_byte_appends [OF st(1,2) _ i b(2) _ c(1)])
    show "push_bit 6 (c div 64) OR push_bit 6 (((cp0 + 0x100) AND 0x300) AND 0x1f) = 64 * (c div 64)"
      unfolding cp0 by (simp add: push_bit_eq_mult mult.commute)
    show "2 ^ (minBits + 4 + 7) \<le> c" using c(2) by (simp add: add.assoc)
  qed (use st(3) in simp)
  then show ?thesis unfolding eq by (simp add: numeral_3_eq_3)
qed

text \<open>A code point that is no surrogate, written as UTF-8 where the decoder stands.\<close>

definition scalar :: "nat \<Rightarrow> bool" where
  "scalar c \<longleftrightarrow> c < 0x110000 \<and> \<not> (0xd800 \<le> c \<and> c \<le> 0xdfff)"

text \<open>The first byte: its high bits tell the number of bytes, the low ones belong to the code point.\<close>

lemma add_multiple:
  "a < m \<Longrightarrow> (a + k * m) mod m = (a :: nat)" "0 < m \<Longrightarrow> (a + k * m) div m = a div m + (k :: nat)"
  by simp_all

lemma lead_two:
  assumes "a < 32"
  shows "(0xc0 + a) div 16 = 12 \<or> (0xc0 + a) div 16 = (13 :: nat)" "(0xc0 + a) AND 31 = a"
proof -
  have "a div 16 < 2" using assms by (simp add: less_mult_imp_div_less)
  then have "a div 16 = 0 \<or> a div 16 = 1" by linarith
  then show "(0xc0 + a) div 16 = 12 \<or> (0xc0 + a) div 16 = 13" using add_multiple(2) [of 16 a 12] by (auto simp: add.commute)
  show "(0xc0 + a) AND 31 = a" using add_multiple(1) [OF assms, of 6] by (simp add: low_bits add.commute)
qed

lemma lead_three:
  assumes "a < 16"
  shows "(0xe0 + a) div 16 = (14 :: nat)" "(0xe0 + a) AND 15 = a"
  using assms add_multiple(2) [of 16 a 14] add_multiple(1) [OF assms, of 14] by (simp_all add: low_bits add.commute)

lemma lead_four:
  assumes "a < 8"
  shows "(0xf0 + a) div 16 = (15 :: nat)" "(0xf0 + a) AND 7 = a"
  using assms add_multiple(2) [of 16 a 15] add_multiple(1) [OF assms, of 30] by (simp_all add: low_bits add.commute)

lemma utf8_bytes: "c < 0x110000 \<Longrightarrow> n \<in> set (utf8 c) \<Longrightarrow> n < 256"
  by (auto simp: utf8_def split: if_splits)

lemma decode_char_appends:
  assumes st: "in_block bs st" "dc_pos st < 32" and c: "scalar c" and d: "drop (dc_index st) bs = map word_of_nat (utf8 c) @ rest"
  shows "appends bs st (length (utf8 c)) (units c) (decode_char bs st)"
proof -
  let ?i = "dc_index st"
  have lt: "c < 0x110000" using c by (simp add: scalar_def)
  have got: "byte_at bs (?i + k) = utf8 c ! k" "?i + k < length bs" if "k < length (utf8 c)" for k
    using byte_at_drop [OF d that utf8_bytes [OF lt nth_mem [OF that]]] by auto
  consider "c < 0x80" | "0x80 \<le> c" "c < 0x800" | "0x800 \<le> c" "c < 0x10000" | "0x10000 \<le> c" by linarith
  then show ?thesis
  proof cases
    case 1
    then have u: "utf8 c = [c]" "units c = [word_of_nat c]" by (simp_all add: utf8_def units_def)
    have b: "byte_at bs ?i = c" "?i < length bs" using got [of 0] by (simp_all add: u)
    have "c div 16 < 8" using 1 by (simp add: less_mult_imp_div_less)
    then have "decode_char bs st = store_unit ?i c st" using b by (simp add: decode_char_def Let_def drop_bit_eq_div)
    then show ?thesis using store_appends [OF st b(2), of c] by (simp add: u)
  next
    case 2
    then have u: "utf8 c = [0xc0 + c div 64, 0x80 + c mod 64]" by (simp add: utf8_def)
    have b: "byte_at bs ?i = 0xc0 + c div 64" "byte_at bs (Suc ?i) = 0x80 + c mod 64" "Suc ?i < length bs"
      using got [of 0] got [of 1] by (simp_all add: u)
    define a where "a = c div 64"
    have a: "a < 32" using 2 by (simp add: a_def less_mult_imp_div_less)
    note kind = lead_two [OF a]
    have eq: "decode_char bs st = last_byte bs ?i (0xc0 + a) 0 0 st"
      using kind by (auto simp: decode_char_def Let_def b(1) a_def [symmetric] drop_bit_eq_div)
    have "appends bs st (Suc (Suc ?i) - ?i) (units c) (last_byte bs ?i (0xc0 + a) 0 0 st)"
      using 2 by (intro last_byte_appends [OF st le_refl b(3,2) _ lt]) (simp_all add: kind, simp add: a_def push_bit_eq_mult mult.commute)
    moreover have "length (utf8 c) = 2" by (simp add: u)
    ultimately show ?thesis by (simp add: eq)
  next
    case 3
    then have u: "utf8 c = [0xe0 + c div 4096, 0x80 + c div 64 mod 64, 0x80 + c mod 64]" by (simp add: utf8_def)
    have b: "byte_at bs ?i = 0xe0 + c div 4096" "byte_at bs (Suc ?i) = 0x80 + c div 64 mod 64"
      "byte_at bs (Suc (Suc ?i)) = 0x80 + c mod 64" "Suc (Suc ?i) < length bs"
      using got [of 0] got [of 1] got [of 2] by (simp_all add: u)
    define a where "a = c div 4096"
    have a: "a < 16" using 3 by (simp add: a_def less_mult_imp_div_less)
    note kind = lead_three [OF a]
    have eq: "decode_char bs st = third_byte bs ?i (0xe0 + a) 0 0 st"
      using kind by (auto simp: decode_char_def Let_def b(1) a_def [symmetric] drop_bit_eq_div)
    have fall: "(480 + a) AND 768 = 256" using three_cases [of "0xe0 + a"] a by (simp add: add.commute)
    have six: "c div 64 div 64 = a" by (simp add: a_def div_mult2_eq [symmetric])
    have "appends bs st (3 + ?i - ?i) (units c) (third_byte bs ?i (0xe0 + a) 0 0 st)"
      using 3 a by (intro third_byte_appends [OF st le_refl b(4,2,3) _ _ lt])
        (simp_all add: kind six fall push_bit_eq_mult mult.commute)
    moreover have "length (utf8 c) = 3" by (simp add: u)
    ultimately show ?thesis by (simp add: eq)
  next
    case 4
    then have u: "utf8 c = [0xf0 + c div 262144, 0x80 + c div 4096 mod 64, 0x80 + c div 64 mod 64, 0x80 + c mod 64]" by (simp add: utf8_def)
    have n: "length (utf8 c) = 4" by (simp add: u)
    have b0: "byte_at bs ?i = 0xf0 + c div 262144" using got(1) [of 0] by (simp add: u)
    have b1: "byte_at bs (Suc ?i) = 0x80 + c div 4096 mod 64" using got(1) [of 1] by (simp add: u)
    have b2: "byte_at bs (Suc (Suc ?i)) = 0x80 + c div 64 mod 64" using got(1) [of "Suc (Suc 0)"] by (simp add: u)
    have b3: "byte_at bs (Suc (Suc (Suc ?i))) = 0x80 + c mod 64" using got(1) [of "Suc (Suc (Suc 0))"] by (simp add: u)
    have len: "Suc (Suc (Suc ?i)) < length bs" using got(2) [of "Suc (Suc (Suc 0))"] n by simp
    define a where "a = c div 262144"
    have a: "a < 5" using lt by (simp add: a_def less_mult_imp_div_less)
    note kind = lead_four [of a]
    have a': "c div 4096 div 64 = a" by (simp add: a_def div_mult2_eq [symmetric])
    have point: "push_bit 6 a OR ((0x80 + c div 4096 mod 64) AND 0x3f) = c div 4096"
      using add_six [of "c div 4096"] by (simp add: continuation a' push_bit_eq_mult mult.commute)
    have eq: "decode_char bs st = third_byte bs (Suc ?i) 0x100 (c div 4096) 5 st"
      using kind a point by (simp add: decode_char_def Let_def b0 b1 a_def [symmetric] drop_bit_eq_div [of 4] continuation)
    have six: "c div 64 div 64 = c div 4096" by (simp add: div_mult2_eq [symmetric])
    have "appends bs st (3 + Suc ?i - ?i) (units c) (third_byte bs (Suc ?i) 0x100 (c div 4096) 5 st)"
    proof (rule third_byte_appends [OF st _ len b2 b3 _ _ lt])
      show "push_bit 6 (c div 4096) OR push_bit 6 (0x100 AND 0xf) = 64 * (c div 64 div 64)" by (simp add: six push_bit_eq_mult mult.commute)
      show "(0x100 + 0x100 AND 0x300) AND 0x1f = (0 :: nat)" by simp
      show "2 ^ (5 + 11) \<le> c" using 4 by simp
    qed simp
    moreover have "3 + Suc ?i - ?i = length (utf8 c)" unfolding n by linarith
    ultimately show ?thesis unfolding eq by argo
  qed
qed

subsection \<open>Blocks\<close>

abbreviation utf8_bytes_of :: "nat list \<Rightarrow> bytes" where
  "utf8_bytes_of cps \<equiv> map word_of_nat (concat (map utf8 cps))"

text \<open>A block consumes whole code points and returns; if it has room it consumes at least one.\<close>

lemma decode_block_appends:
  assumes "in_block bs st" "drop (dc_index st) bs = utf8_bytes_of cps" "\<forall>c \<in> set cps. scalar c"
  shows "\<exists>st' read unread. decode_block bs st = Some st' \<and> cps = read @ unread \<and> in_block bs st'
    \<and> decoded st' = decoded st @ concat (map units read) \<and> drop (dc_index st') bs = utf8_bytes_of unread
    \<and> dc_tmpStr st' = dc_tmpStr st \<and> dc_result st' = dc_result st
    \<and> (if dc_pos st < dc_nextEnd st then read \<noteq> [] else st' = st)"
  using assms
proof (induction "32 - dc_pos st" arbitrary: st cps rule: less_induct)
  case less
  show ?case
  proof (cases "dc_pos st < dc_nextEnd st")
    case False
    then show ?thesis using less.prems by (subst decode_block.simps) (auto intro: exI [of _ cps] exI [of _ "[]"])
  next
    case True
    then have room: "dc_pos st < 32" "dc_index st < length bs" using less.prems(1) by (auto simp: in_block_def)
    then have "utf8_bytes_of cps \<noteq> []" using less.prems(2) by (metis drop_eq_Nil linorder_not_less)
    then obtain c cs where cps: "cps = c # cs" by (cases cps) auto
    let ?st = "decode_char bs st"
    have step: "appends bs st (length (utf8 c)) (units c) ?st"
      using less.prems(2,3) by (intro decode_char_appends [OF less.prems(1) room(1)]) (simp_all add: cps)
    have "drop (dc_index ?st) bs = drop (length (utf8 c)) (drop (dc_index st) bs)"
      using step by (simp add: appends_def add.commute)
    also have "\<dots> = utf8_bytes_of cs" unfolding less.prems(2) by (simp add: cps)
    finally have d: "drop (dc_index ?st) bs = utf8_bytes_of cs" .
    have "32 - dc_pos ?st < 32 - dc_pos st" using step room by (auto simp: appends_def intro: diff_less_mono2)
    from less.hyps [OF this _ d] obtain st' read unread where st': "decode_block bs ?st = Some st'" "cs = read @ unread" "in_block bs st'"
      "decoded st' = decoded ?st @ concat (map units read)" "drop (dc_index st') bs = utf8_bytes_of unread"
      "dc_tmpStr st' = dc_tmpStr ?st" "dc_result st' = dc_result ?st"
      using step less.prems(3) by (auto simp: appends_def cps)
    show ?thesis
    proof (intro exI conjI)
      show "decode_block bs st = Some st'" using True st'(1) by (subst decode_block.simps) simp
      show "cps = (c # read) @ unread" using st'(2) by (simp add: cps)
    qed (use st' step True in \<open>simp_all add: appends_def\<close>)
  qed
qed

text \<open>All that was decoded so far.\<close>

definition whole_text :: "dec_state \<Rightarrow> utf16" where
  "whole_text st = dc_result st @ dc_tmpStr st @ decoded st"

lemma append_block_eq: "in_block bs st \<Longrightarrow> append_block st = dc_tmpStr st @ take (dc_pos st) (dc_buffer st)"
  by (auto simp: append_block_def in_block_def Let_def not_less)

definition between_blocks :: "bytes \<Rightarrow> dec_state \<Rightarrow> bool" where
  "between_blocks bs st \<longleftrightarrow> length (dc_buffer st) = 32 \<and> dc_pos st \<le> 1 \<and> dc_tmp st = None \<and> dc_index st \<le> length bs"

lemma end_block_inside:
  assumes "in_block bs st" "dc_index st < length bs"
  shows "between_blocks bs (end_block bs st)" "dc_index (end_block bs st) = dc_index st" "whole_text (end_block bs st) = whole_text st"
    "dc_tmp st = None \<Longrightarrow> dc_pos (end_block bs st) = 0"
  using assms append_block_eq [OF assms(1)]
  by (auto simp: end_block_def Let_def flush_def between_blocks_def in_block_def whole_text_def decoded_def take_Suc_conv_app_nth
      split: option.split)

lemma end_block_last:
  assumes "in_block bs st" "\<not> dc_index st < length bs"
  shows "dc_result (end_block bs st) = whole_text st" "dc_index (end_block bs st) = dc_index st"
  using assms append_block_eq [OF assms(1)]
  by (auto simp: end_block_def Let_def flush_def whole_text_def decoded_def split: option.split)

lemma decode_blocks_all:
  assumes "between_blocks bs st" "dc_index st < length bs" "drop (dc_index st) bs = utf8_bytes_of cps" "\<forall>c \<in> set cps. scalar c"
  shows "\<exists>st'. decode_blocks bs st = Some st' \<and> dc_result st' = whole_text st @ concat (map units cps)"
  using assms
proof (induction "2 * length cps + dc_pos st" arbitrary: st cps rule: less_induct)
  case less
  let ?st = "st\<lparr>dc_nextEnd := block_end bs (dc_index st)\<rparr>"
  have start: "in_block bs ?st" using less.prems(1) by (auto simp: between_blocks_def in_block_def block_end_def)
  have same: "whole_text ?st = whole_text st" by (simp add: whole_text_def decoded_def)
  obtain st' read unread where st': "decode_block bs ?st = Some st'" "cps = read @ unread" "in_block bs st'"
    "decoded st' = decoded ?st @ concat (map units read)" "drop (dc_index st') bs = utf8_bytes_of unread"
    "dc_tmpStr st' = dc_tmpStr ?st" "dc_result st' = dc_result ?st" "if dc_pos ?st < dc_nextEnd ?st then read \<noteq> [] else st' = ?st"
    using decode_block_appends [OF start _ less.prems(4)] less.prems(3) by auto
  have total: "whole_text st' = whole_text st @ concat (map units read)" using st'(4,6,7) by (simp add: whole_text_def decoded_def)
  have run: "decode_blocks bs st = decode_blocks bs (end_block bs st')"
    using less.prems(2) st'(1) by (subst decode_blocks.simps) simp
  show ?case
  proof (cases "dc_index st' < length bs")
    case True
    note inside = end_block_inside [OF st'(3) True]
    have "2 * length unread + dc_pos (end_block bs st') < 2 * length cps + dc_pos st"
    proof (cases "dc_pos ?st < dc_nextEnd ?st")
      case True
      then have "length unread < length cps" using st'(2,8) by simp
      then show ?thesis using inside(1) by (auto simp: between_blocks_def)
    next
      case False
      then have "st' = ?st" "dc_pos st \<noteq> 0" using st'(8) less.prems(2) by (auto simp: block_end_def split: if_splits)
      then show ?thesis using inside(4) less.prems(1) st'(2) by (simp add: between_blocks_def)
    qed
    from less.hyps [OF this inside(1)] show ?thesis
      using True st'(2,5) less.prems(4) inside(2,3) total by (auto simp: run)
  next
    case False
    note last = end_block_last [OF st'(3) False]
    have "unread = []" using st'(5) False by (cases unread) (auto simp: utf8_def split: if_splits)
    then show ?thesis using last False st'(2) total by (simp add: run) (subst decode_blocks.simps, simp)
  qed
qed

lemma decode_utf8:
  assumes "length buffer = 32" "\<forall>c \<in> set cps. scalar c"
  shows "decode_text buffer (utf8_bytes_of cps) = Some (concat (map units cps))"
proof (cases cps)
  case Nil
  then show ?thesis unfolding decode_text_def by (subst decode_blocks.simps) simp
next
  case (Cons c cs)
  let ?st = "\<lparr>dc_index = 0, dc_pos = 0, dc_nextEnd = 0, dc_tmp = None, dc_buffer = buffer, dc_tmpStr = [], dc_result = []\<rparr>"
  have "utf8 c \<noteq> []" by (simp add: utf8_def)
  then have "dc_index ?st < length (utf8_bytes_of cps)" by (simp add: Cons)
  moreover have "between_blocks (utf8_bytes_of cps) ?st" using assms(1) by (simp add: between_blocks_def)
  ultimately show ?thesis using decode_blocks_all [of "utf8_bytes_of cps" ?st cps] assms(2)
    by (auto simp: decode_text_def whole_text_def decoded_def)
qed

subsection \<open>Any input\<close>

text \<open>On bytes that are not UTF-8 too, a round of the loop consumes at least one byte and none past the end.\<close>

definition advances_within :: "bytes \<Rightarrow> dec_state \<Rightarrow> dec_state \<Rightarrow> bool" where
  "advances_within bs st st' \<longleftrightarrow> in_block bs st' \<and> dc_pos st < dc_pos st' \<and> dc_index st < dc_index st'"

lemma appends_advances: "appends bs st n us st' \<Longrightarrow> 0 < n \<Longrightarrow> advances_within bs st st'"
  by (simp add: appends_def advances_within_def)

lemma finish_advances:
  "in_block bs st \<Longrightarrow> dc_pos st < 32 \<Longrightarrow> i < length bs \<Longrightarrow> dc_index st \<le> i \<Longrightarrow> advances_within bs st (finish_point bs i u st)"
  using appends_advances [OF finish_appends] by auto

lemma last_byte_advances:
  assumes st: "in_block bs st" "dc_pos st < 32" "dc_index st < length bs" and i: "dc_index st + drop_bit 8 cp0 = i"
  shows "advances_within bs st (last_byte bs i cp0 codePoint minBits st)"
proof -
  have reset: "Suc i - drop_bit 8 cp0 - 1 = dc_index st" "dc_index st \<le> i" using i by auto
  have pair: "advances_within bs st (finish_point bs (Suc i) l
      (st\<lparr>dc_buffer := (dc_buffer st)[dc_pos st := word_of_nat h], dc_pos := Suc (dc_pos st), dc_tmp := None\<rparr>))"
    if "dc_pos st < 31" "Suc i < length bs" for h l
    using appends_advances [OF finish_appends_pair [OF st(1) that(1,2)]] reset(2) by auto
  have split: "advances_within bs st (finish_point bs (Suc i) h (st\<lparr>dc_tmp := Some l\<rparr>))" if "\<not> dc_pos st < 31" "Suc i < length bs" for h l
    using appends_advances [OF finish_appends_split [OF st(1) _ that(2), of h l]] reset(2) that(1) st(2) by auto
  have if_both: "(c \<Longrightarrow> advances_within bs st a) \<Longrightarrow> (\<not> c \<Longrightarrow> advances_within bs st b) \<Longrightarrow> advances_within bs st (if c then a else b)" for c a b
    by simp
  show ?thesis
    unfolding last_byte_def Let_def reset(1)
    by (intro if_both finish_advances [OF st(1,2,3) le_refl])
      (erule conjE, rule pair split finish_advances [OF st(1,2)], assumption+, (use reset(2) st(3) in simp_all)?)+
qed

lemma decode_char_advances:
  assumes st: "in_block bs st" "dc_pos st < 32" "dc_index st < length bs"
  shows "advances_within bs st (decode_char bs st)"
proof -
  let ?i = "dc_index st" and ?cp0 = "byte_at bs (dc_index st)"
  have store: "advances_within bs st (store_unit ?i u st)" for u
    using appends_advances [OF store_appends [OF st]] by simp
  have "unat (bs ! ?i) < 256" using unsigned_less [of "bs ! ?i"] by simp
  then have lt: "?cp0 < 256" by (simp add: byte_at_def)
  have three: "advances_within bs st (third_byte bs ?i ?cp0 p b st)" if "drop_bit 4 ?cp0 = 14" for p b
  proof -
    have "?cp0 div 16 = 14" using that by (simp add: drop_bit_eq_div)
    then have "0xe0 \<le> ?cp0" "?cp0 \<le> 0xef" by linarith+
    then have "drop_bit 8 ((?cp0 + 0x100) AND 0x300) = 1" by (simp add: three_cases drop_bit_eq_div)
    then show ?thesis unfolding third_byte_def Let_def by (intro last_byte_advances [OF st]) simp
  qed
  have four: "advances_within bs st (third_byte bs (Suc ?i) 0x100 p b st)" for p b
    unfolding third_byte_def Let_def by (intro last_byte_advances [OF st]) (simp add: drop_bit_eq_div)
  have two: "advances_within bs st (last_byte bs ?i ?cp0 p b st)" for p b
    using lt by (intro last_byte_advances [OF st]) (simp add: drop_bit_eq_div)
  show ?thesis using store three four two unfolding decode_char_def Let_def by auto
qed

lemma decode_block_returns:
  "in_block bs st \<Longrightarrow> \<exists>st'. decode_block bs st = Some st' \<and> in_block bs st'
     \<and> (if dc_pos st < dc_nextEnd st then dc_index st < dc_index st' else st' = st)"
proof (induction "32 - dc_pos st" arbitrary: st rule: less_induct)
  case less
  show ?case
  proof (cases "dc_pos st < dc_nextEnd st")
    case False
    then show ?thesis using less.prems by (subst decode_block.simps) simp
  next
    case True
    then have room: "dc_pos st < 32" "dc_index st < length bs" using less.prems by (auto simp: in_block_def)
    note step = decode_char_advances [OF less.prems room]
    have "32 - dc_pos (decode_char bs st) < 32 - dc_pos st" using step room by (auto simp: advances_within_def intro: diff_less_mono2)
    from less.hyps [OF this] obtain st' where "decode_block bs (decode_char bs st) = Some st'" "in_block bs st'"
      "dc_index (decode_char bs st) \<le> dc_index st'"
      using step by (auto simp: advances_within_def split: if_splits)
    then show ?thesis using True step by (subst decode_block.simps) (auto simp: advances_within_def)
  qed
qed

lemma decode_blocks_returns:
  "between_blocks bs st \<Longrightarrow> \<exists>st'. decode_blocks bs st = Some st'"
proof (induction "2 * (length bs - dc_index st) + dc_pos st" arbitrary: st rule: less_induct)
  case less
  show ?case
  proof (cases "dc_index st < length bs")
    case False
    then show ?thesis by (subst decode_blocks.simps) simp
  next
    case True
    let ?st = "st\<lparr>dc_nextEnd := block_end bs (dc_index st)\<rparr>"
    have start: "in_block bs ?st" using less.prems by (auto simp: between_blocks_def in_block_def block_end_def)
    obtain st' where st': "decode_block bs ?st = Some st'" "in_block bs st'"
      "if dc_pos ?st < dc_nextEnd ?st then dc_index ?st < dc_index st' else st' = ?st"
      using decode_block_returns [OF start] by blast
    have run: "decode_blocks bs st = decode_blocks bs (end_block bs st')"
      using True st'(1) by (subst decode_blocks.simps) simp
    show ?thesis
    proof (cases "dc_index st' < length bs")
      case False
      then show ?thesis using end_block_last(2) [OF st'(2) False] unfolding run by (subst decode_blocks.simps) simp
    next
      case inside: True
      note e = end_block_inside [OF st'(2) inside]
      have "2 * (length bs - dc_index (end_block bs st')) + dc_pos (end_block bs st') < 2 * (length bs - dc_index st) + dc_pos st"
      proof (cases "dc_pos ?st < dc_nextEnd ?st")
        case True
        then have "dc_index st < dc_index st'" using st'(3) by simp
        then show ?thesis using e(1,2) inside by (auto simp: between_blocks_def)
      next
        case False
        then have "st' = ?st" "dc_pos st \<noteq> 0" using st'(3) True by (auto simp: block_end_def split: if_splits)
        then show ?thesis using e(2,4) less.prems by (simp add: between_blocks_def)
      qed
      from less.hyps [OF this e(1)] show ?thesis unfolding run .
    qed
  qed
qed

text \<open>The decoder returns on every input.\<close>

lemma decode_text_returns: "length buffer = 32 \<Longrightarrow> \<exists>s. decode_text buffer bs = Some s"
  using decode_blocks_returns [of bs] by (auto simp: decode_text_def between_blocks_def)

subsection \<open>The trip\<close>

fun no_lone_surrogates :: "utf16 \<Rightarrow> bool" where
  "no_lone_surrogates [] = True"
| "no_lone_surrogates [u] = (\<not> is_high (unat u) \<and> \<not> is_low (unat u))"
| "no_lone_surrogates (u # v # us) =
     (if is_high (unat u) then is_low (unat v) \<and> no_lone_surrogates us else \<not> is_low (unat u) \<and> no_lone_surrogates (v # us))"

lemma no_lone_pairs: "no_lone_surrogates s \<Longrightarrow> pairs_whole s"
  by (induction s rule: no_lone_surrogates.induct) (auto split: if_splits)

lemma unit_bound: "unat (u :: 16 word) < 0x10000"
  using unsigned_less [of u] by simp

lemma code_points_scalar: "no_lone_surrogates s \<Longrightarrow> c \<in> set (code_points s) \<Longrightarrow> scalar c"
proof (induction s rule: no_lone_surrogates.induct)
  case (3 u v us)
  then show ?case using unit_bound [of u] by (auto simp: scalar_def is_high_def is_low_def split: if_splits)
qed (auto simp: scalar_def is_high_def is_low_def intro: less_trans [OF unit_bound] split: if_splits)

lemma units_pair: "is_high (unat u) \<Longrightarrow> is_low (unat v) \<Longrightarrow>
    units (0x10000 + (unat u - 0xd800) * 0x400 + (unat v - 0xdc00)) = [u, v]"
proof -
  assume h: "is_high (unat u)" "is_low (unat v)"
  define a b where "a = unat u - 0xd800" and "b = unat v - 0xdc00"
  have ab: "unat u = 0xd800 + a" "unat v = 0xdc00 + b" "b < 0x400" using h by (auto simp: a_def b_def is_high_def is_low_def)
  have "(a * 0x400 + b) div 0x400 = a" "(a * 0x400 + b) mod 0x400 = b" using ab(3) by simp_all
  then have "units (0x10000 + a * 0x400 + b) = [word_of_nat (unat u), word_of_nat (unat v)]"
    unfolding ab by (simp add: units_def)
  then show ?thesis by (simp add: a_def b_def)
qed

lemma units_code_points: "no_lone_surrogates s \<Longrightarrow> concat (map units (code_points s)) = s"
proof (induction s rule: no_lone_surrogates.induct)
  case (3 u v us)
  then show ?case using units_pair [of u v] unit_bound [of u] by (auto simp: units_def [of "unat u"] split: if_splits)
qed (use unit_bound in \<open>auto simp: units_def split: if_splits\<close>)

lemma text_trip:
  assumes "no_lone_surrogates s" "length buffer = 32"
  shows "\<exists>bs. encode_text s = Inr bs \<and> decode_text buffer bs = Some s"
  using encode_text_utf8 [OF no_lone_pairs [OF assms(1)]] decode_utf8 [OF assms(2), of "code_points s"]
    code_points_scalar [OF assms(1)] units_code_points [OF assms(1)]
  by (auto simp: utf8_text_def)

text \<open>
  C31. Decoding what the encoder wrote gives back every string without lone surrogates, whatever earlier calls have left in the
  shared buffer: both loops end, the buffer never overflows, and a pair that is cut by the end of a block is put together
  again.
\<close>

theorem text_roundtrip:
  assumes "no_lone_surrogates s" "length buffer = 32"
  shows "\<exists>bs. encode_text s = Inr bs \<and> decode_text buffer bs = Some s"
  by (rule text_trip [OF assms])

theorem text_roundtrip_witness:
  "\<exists>bs. encode_text (replicate 31 0x61 @ [0xd83d, 0xde00, 0xe9]) = Inr bs
     \<and> decode_text (replicate 32 0xffff) bs = Some (replicate 31 0x61 @ [0xd83d, 0xde00, 0xe9])"
  by (rule text_roundtrip) (simp_all add: list_numerals is_high_def is_low_def)

end
