(* ===== verification/Payload_Converters.thy ===== *)
theory Payload_Converters
  imports Text_Decoding Codecs
begin

text \<open>
  The payload converters of packages/common/src/converter/payload-converter.ts: the composite converter, its members for
  undefined, bytes and JSON, the default converter and the one of search attributes; and the loading of data converters
  (internal-non-workflow/data-converter-helpers.ts). \<open>JSON\<close> and \<open>Date\<close> parse and print through the parameters \<open>js_env\<close>;
  \<open>JSON.stringify\<close> throws, returns a text, or \<open>undefined\<close> for a value that JSON leaves out. Texts are lists of 16-bit units.
\<close>

record js_env =
  json_stringify :: "jsval \<Rightarrow> utf16 option res"
  json_parse :: "utf16 \<Rightarrow> jsval res"
  new_date :: "jsval \<Rightarrow> jsval"
  template_text :: "jsval \<Rightarrow> string"
  text_buffer :: utf16

definition js_text :: "string \<Rightarrow> utf16" where
  "js_text s = map (\<lambda>c. word_of_nat (of_char c)) s"

text \<open>Texts in messages; a unit above 255 is cut here.\<close>

definition message_text :: "utf16 \<Rightarrow> string" where
  "message_text t = map (\<lambda>u. char_of (unat u)) t"

text \<open>\<open>decode(a)\<close>; the decoder returns on every input, and a missing array counts as an empty one.\<close>

definition decode_bytes :: "js_env \<Rightarrow> bytes option \<Rightarrow> utf16" where
  "decode_bytes env a = (case decode_text (text_buffer env) (case a of Some bs \<Rightarrow> bs | None \<Rightarrow> []) of Some t \<Rightarrow> t | None \<Rightarrow> [])"

text \<open>\<open>encodingKeys\<close>: the bytes of an encoding type.\<close>

definition encoding_key :: "string \<Rightarrow> bytes" where
  "encoding_key s = (case encode_text (js_text s) of Inr b \<Rightarrow> b | Inl _ \<Rightarrow> [])"

definition METADATA_ENCODING_KEY :: string where "METADATA_ENCODING_KEY = ''encoding''"
definition METADATA_ENCODING_NULL :: string where "METADATA_ENCODING_NULL = ''binary/null''"
definition METADATA_ENCODING_RAW :: string where "METADATA_ENCODING_RAW = ''binary/plain''"
definition METADATA_ENCODING_JSON :: string where "METADATA_ENCODING_JSON = ''json/plain''"

record encoding_converter =
  ec_toPayload :: "jsval \<Rightarrow> payload option res"
  ec_fromPayload :: "payload \<Rightarrow> jsval res"
  encodingType :: utf16

subsection \<open>The members\<close>

definition encoded_with :: "string \<Rightarrow> bytes option \<Rightarrow> payload" where
  "encoded_with key b = \<lparr>metadata = Some [(METADATA_ENCODING_KEY, encoding_key key)], payload_data = b\<rparr>"

definition undefined_converter :: encoding_converter where
  "undefined_converter =
     \<lparr>ec_toPayload = (\<lambda>v. Inr (if v \<noteq> JUndefined then None else Some (encoded_with METADATA_ENCODING_NULL None))),
      ec_fromPayload = (\<lambda>_. Inr JUndefined), encodingType = js_text METADATA_ENCODING_NULL\<rparr>"

definition binary_converter :: encoding_converter where
  "binary_converter =
     \<lparr>ec_toPayload = (\<lambda>v. Inr (case v of JBytes b \<Rightarrow> Some (encoded_with METADATA_ENCODING_RAW (Some b)) | _ \<Rightarrow> None)),
      ec_fromPayload = (\<lambda>p. Inr (case payload_data p of Some b \<Rightarrow> JBytes b | None \<Rightarrow> JUndefined)),
      encodingType = js_text METADATA_ENCODING_RAW\<rparr>"

text \<open>\<open>encode(json)\<close> of an undefined \<open>json\<close> is empty.\<close>

definition json_toPayload :: "js_env \<Rightarrow> jsval \<Rightarrow> payload option res" where
  "json_toPayload env v =
     (if v = JUndefined then Inr None
      else case json_stringify env v of
        Inl _ \<Rightarrow> Inr None
      | Inr json \<Rightarrow>
          and_then (encode_text (case json of Some t \<Rightarrow> t | None \<Rightarrow> [])) (\<lambda>b. Inr (Some (encoded_with METADATA_ENCODING_JSON (Some b)))))"

definition json_fromPayload :: "js_env \<Rightarrow> payload \<Rightarrow> jsval res" where
  "json_fromPayload env p =
     (case payload_data p of
        None \<Rightarrow> Inl (ValueError ''Got payload with no data'')
      | Some b \<Rightarrow> json_parse env (decode_bytes env (Some b)))"

definition json_converter :: "js_env \<Rightarrow> encoding_converter" where
  "json_converter env =
     \<lparr>ec_toPayload = json_toPayload env, ec_fromPayload = json_fromPayload env, encodingType = js_text METADATA_ENCODING_JSON\<rparr>"

subsection \<open>The composite\<close>

fun first_payload :: "js_env \<Rightarrow> encoding_converter list \<Rightarrow> jsval \<Rightarrow> payload res" where
  "first_payload env [] v = Inl (ValueError (''Unable to convert '' @ template_text env v @ '' to payload''))"
| "first_payload env (c # cs) v =
     and_then (ec_toPayload c v) (\<lambda>r. case r of Some p \<Rightarrow> Inr p | None \<Rightarrow> first_payload env cs v)"

definition converterByEncoding :: "encoding_converter list \<Rightarrow> (utf16, encoding_converter) jsmap" where
  "converterByEncoding cs = foldl (\<lambda>m c. jset (encodingType c) c m) [] cs"

definition composite_fromPayload :: "js_env \<Rightarrow> encoding_converter list \<Rightarrow> payload \<Rightarrow> jsval res" where
  "composite_fromPayload env cs p =
     (case metadata p of
        None \<Rightarrow> Inl (ValueError ''Missing payload metadata'')
      | Some m \<Rightarrow>
          (let encoding = decode_bytes env (jget m METADATA_ENCODING_KEY) in
           case jget (converterByEncoding cs) encoding of
             None \<Rightarrow> Inl (ValueError (''Unknown encoding: '' @ message_text encoding))
           | Some c \<Rightarrow> ec_fromPayload c p))"

definition CompositePayloadConverter :: "js_env \<Rightarrow> encoding_converter list \<Rightarrow> converter res" where
  "CompositePayloadConverter env cs =
     (if cs = [] then Inl (throw_plain ''PayloadConverterError'' ''Must provide at least one PayloadConverterWithEncoding'')
      else Inr \<lparr>toPayload = first_payload env cs, fromPayload = composite_fromPayload env cs\<rparr>)"

definition default_members :: "js_env \<Rightarrow> encoding_converter list" where
  "default_members env = [undefined_converter, binary_converter, json_converter env]"

definition DefaultPayloadConverter :: "js_env \<Rightarrow> converter res" where
  "DefaultPayloadConverter env = CompositePayloadConverter env (default_members env)"

subsection \<open>Search attributes\<close>

fun all_dates :: "js_env \<Rightarrow> nat \<Rightarrow> jsval list \<Rightarrow> unit res" where
  "all_dates env idx [] = Inr ()"
| "all_dates env idx (v # vs) =
     (case v of
        JDate _ \<Rightarrow> all_dates env (Suc idx) vs
      | _ \<Rightarrow> Inl (ValueError (''SearchAttribute values must arrays of strings, numbers, booleans, or Dates. The value ''
               @ template_text env v @ '' at index '' @ show_nat idx @ '' is of type '' @ js_typeof v)))"

fun all_of_type :: "js_env \<Rightarrow> jsval \<Rightarrow> nat \<Rightarrow> jsval list \<Rightarrow> unit res" where
  "all_of_type env firstValue idx [] = Inr ()"
| "all_of_type env firstValue idx (v # vs) =
     (if js_typeof v \<noteq> js_typeof firstValue
      then Inl (ValueError (''All SearchAttribute array values must be of the same type. The first value ''
             @ template_text env firstValue @ '' of type '' @ js_typeof firstValue @ '' doesn'' @ [CHR 0x27] @ ''t match value '' @ template_text env v
             @ '' of type '' @ js_typeof v @ '' at index '' @ show_nat idx))
      else all_of_type env firstValue (Suc idx) vs)"

definition validNonDateTypes :: "string list" where
  "validNonDateTypes = [''string'', ''number'', ''boolean'']"

definition check_values :: "js_env \<Rightarrow> jsval list \<Rightarrow> unit res" where
  "check_values env vs =
     (case vs of
        [] \<Rightarrow> Inr ()
      | v # _ \<Rightarrow>
          if js_typeof v = ''object'' then all_dates env 0 vs
          else if js_typeof v \<notin> set validNonDateTypes
            then Inl (ValueError ''SearchAttribute array values must be: string | number | boolean | Date'')
          else all_of_type env v 0 vs)"

definition search_toPayload :: "js_env \<Rightarrow> jsval \<Rightarrow> payload res" where
  "search_toPayload env values =
     (case values of
        JArr vs \<Rightarrow>
          and_then (check_values env vs) (\<lambda>_.
          and_then (json_toPayload env values) (\<lambda>ret.
            case ret of None \<Rightarrow> Inl (ValueError ''Could not convert search attributes to payloads'') | Some p \<Rightarrow> Inr p))
      | _ \<Rightarrow> Inl (ValueError ''SearchAttribute value must be an array''))"

definition search_fromPayload :: "js_env \<Rightarrow> payload \<Rightarrow> jsval res" where
  "search_fromPayload env p =
     (case metadata p of
        None \<Rightarrow> Inl (ValueError ''Missing payload metadata'')
      | Some m \<Rightarrow>
          and_then (json_fromPayload env p) (\<lambda>value.
            let vs = (case value of JArr vs \<Rightarrow> vs | _ \<Rightarrow> [value]) in
            Inr (JArr (if decode_bytes env (jget m ''type'') = js_text ''Datetime'' then map (new_date env) vs else vs))))"

subsection \<open>What a member promises\<close>

text \<open>A shared decoder buffer has 32 places (\<open>new Uint16Array(32)\<close>).\<close>

definition env_ok :: "js_env \<Rightarrow> bool" where
  "env_ok env \<longleftrightarrow> length (text_buffer env) = 32"

locale payload_member =
  fixes env :: js_env and c :: encoding_converter and faithful :: "jsval \<Rightarrow> bool"
  assumes reads_back: "env_ok env \<Longrightarrow> ec_toPayload c v = Inr (Some p) \<Longrightarrow> faithful v \<Longrightarrow> ec_fromPayload c p = Inr v"
    and marked: "env_ok env \<Longrightarrow> ec_toPayload c v = Inr (Some p) \<Longrightarrow>
      \<exists>m. metadata p = Some m \<and> decode_bytes env (jget m METADATA_ENCODING_KEY) = encodingType c"
begin

lemma found:
  assumes "env_ok env" "ec_toPayload c v = Inr (Some p)" "faithful v" "jget (converterByEncoding cs) (encodingType c) = Some c"
  shows "composite_fromPayload env cs p = Inr v"
  using reads_back [OF assms(1-3)] marked [OF assms(1,2)] assms(4) by (auto simp: composite_fromPayload_def Let_def)

end

lemma js_text_plain: "no_lone_surrogates (js_text s)"
proof -
  have small: "unat (word_of_nat (of_char c) :: 16 word) < 256" for c :: char
    by (simp add: unat_of_nat) (rule le_less_trans [OF mod_less_eq_dividend nat_of_char_less_256])
  have "\<not> is_high (unat (word_of_nat (of_char c) :: 16 word)) \<and> \<not> is_low (unat (word_of_nat (of_char c) :: 16 word))" for c :: char
    using small [of c] by (auto simp: is_high_def is_low_def)
  then show ?thesis unfolding js_text_def by (induction s rule: induct_list012) auto
qed

lemma decode_encoded: "env_ok env \<Longrightarrow> no_lone_surrogates t \<Longrightarrow> encode_text t = Inr b \<Longrightarrow> decode_bytes env (Some b) = t"
  using text_trip [of t "text_buffer env"] by (auto simp: env_ok_def decode_bytes_def)

lemma decode_key: "env_ok env \<Longrightarrow> decode_bytes env (Some (encoding_key s)) = js_text s"
  using decode_encoded [OF _ js_text_plain] encode_text_utf8 [OF no_lone_pairs [OF js_text_plain]] by (simp add: encoding_key_def)

lemma encoded_with_marked: "env_ok env \<Longrightarrow>
    \<exists>m. metadata (encoded_with key b) = Some m \<and> decode_bytes env (jget m METADATA_ENCODING_KEY) = js_text key"
  by (simp add: encoded_with_def jget_def decode_key)

lemma payload_data_encoded: "payload_data (encoded_with key b) = b"
  by (simp add: encoded_with_def)

definition json_faithful :: "js_env \<Rightarrow> jsval \<Rightarrow> bool" where
  "json_faithful env v \<longleftrightarrow> (\<forall>r. json_stringify env v = Inr r \<longrightarrow>
     (case r of Some t \<Rightarrow> no_lone_surrogates t \<and> json_parse env t = Inr v | None \<Rightarrow> False))"

interpretation undefined_member: payload_member env undefined_converter "json_faithful env" for env
  by unfold_locales (auto simp: undefined_converter_def encoded_with_marked split: if_splits)

interpretation binary_member: payload_member env binary_converter "json_faithful env" for env
  by unfold_locales (auto simp: binary_converter_def encoded_with_marked payload_data_encoded split: jsval.splits)

interpretation json_member: payload_member env "json_converter env" "json_faithful env" for env
proof
  fix v p
  assume env: "env_ok env" and to: "ec_toPayload (json_converter env) v = Inr (Some p)"
  then obtain json b where json: "json_stringify env v = Inr json" "encode_text (case json of Some t \<Rightarrow> t | None \<Rightarrow> []) = Inr b"
    "p = encoded_with METADATA_ENCODING_JSON (Some b)"
    by (auto simp: json_converter_def json_toPayload_def and_then_eq_Inr split: if_splits sum.splits)
  show "\<exists>m. metadata p = Some m \<and> decode_bytes env (jget m METADATA_ENCODING_KEY) = encodingType (json_converter env)"
    using encoded_with_marked [OF env] json(3) by (simp add: json_converter_def)
  show "ec_fromPayload (json_converter env) p = Inr v" if faithful: "json_faithful env v"
  proof -
    obtain t where t: "json = Some t" "no_lone_surrogates t" "json_parse env t = Inr v"
      using faithful json(1) by (cases json) (auto simp: json_faithful_def)
    then have "decode_bytes env (Some b) = t" using decode_encoded [OF env, of t b] json(2) by simp
    then show ?thesis using t(3) json(3) by (simp add: json_converter_def json_fromPayload_def encoded_with_def)
  qed
qed

lemma converterByEncoding_other:
  "k \<notin> encodingType ` set cs \<Longrightarrow> jget (foldl (\<lambda>m c. jset (encodingType c) c m) m cs) k = jget m k"
  by (induction cs arbitrary: m) (auto simp: map_laws)

lemma converterByEncoding_get:
  "distinct (map encodingType cs) \<Longrightarrow> c \<in> set cs \<Longrightarrow> jget (converterByEncoding cs) (encodingType c) = Some c"
proof -
  have "distinct (map encodingType cs) \<Longrightarrow> c \<in> set cs \<Longrightarrow> jget (foldl (\<lambda>m c. jset (encodingType c) c m) m cs) (encodingType c) = Some c" for m
  proof (induction cs arbitrary: m)
    case (Cons d cs)
    then show ?case by (auto simp: converterByEncoding_other map_laws)
  qed simp
  then show "distinct (map encodingType cs) \<Longrightarrow> c \<in> set cs \<Longrightarrow> ?thesis" by (simp add: converterByEncoding_def)
qed

lemma first_payload_member: "first_payload env cs v = Inr p \<Longrightarrow> \<exists>c \<in> set cs. ec_toPayload c v = Inr (Some p)"
  by (induction cs) (auto simp: and_then_eq_Inr split: option.splits)

lemma composite_reads_back:
  assumes "\<forall>c \<in> set cs. payload_member env c faithful" "distinct (map encodingType cs)" "env_ok env"
    and "first_payload env cs v = Inr p" "faithful v"
  shows "composite_fromPayload env cs p = Inr v"
proof -
  obtain c where c: "c \<in> set cs" "ec_toPayload c v = Inr (Some p)" using first_payload_member [OF assms(4)] by blast
  then show ?thesis
    using payload_member.found [of env c faithful] assms converterByEncoding_get [OF assms(2) c(1)] by blast
qed

subsection \<open>Properties\<close>

lemma default_members_ok:
  "\<forall>c \<in> set (default_members env). payload_member env c (json_faithful env)" "distinct (map encodingType (default_members env))"
  using undefined_member.payload_member_axioms binary_member.payload_member_axioms json_member.payload_member_axioms
  by (auto simp: default_members_def undefined_converter_def binary_converter_def json_converter_def js_text_def
      METADATA_ENCODING_NULL_def METADATA_ENCODING_RAW_def METADATA_ENCODING_JSON_def)

lemma default_is_composite: "DefaultPayloadConverter env = Inr \<lparr>toPayload = first_payload env (default_members env), fromPayload = composite_fromPayload env (default_members env)\<rparr>"
  by (simp add: DefaultPayloadConverter_def CompositePayloadConverter_def default_members_def)

lemma first_payload_json:
  assumes "v \<noteq> JUndefined" "\<forall>b. v \<noteq> JBytes b" "json_stringify env v = Inr json"
    and "encode_text (case json of Some t \<Rightarrow> t | None \<Rightarrow> []) = Inr b"
  shows "first_payload env (default_members env) v = Inr (encoded_with METADATA_ENCODING_JSON (Some b))"
proof -
  have "ec_toPayload binary_converter v = Inr None" using assms(2) by (auto simp: binary_converter_def split: jsval.split)
  then show ?thesis
    using assms(1,3,4) by (simp add: default_members_def undefined_converter_def json_converter_def json_toPayload_def)
qed

lemma default_converts:
  assumes "json_faithful env v" "json_stringify env v = Inr json"
  shows "\<exists>p. first_payload env (default_members env) v = Inr p"
proof -
  obtain t where t: "json = Some t" "no_lone_surrogates t" using assms by (cases json) (auto simp: json_faithful_def)
  show ?thesis
  proof (cases "v = JUndefined \<or> (\<exists>b. v = JBytes b)")
    case True
    then show ?thesis by (auto simp: default_members_def undefined_converter_def binary_converter_def)
  next
    case False
    then show ?thesis using first_payload_json [of v env json] encode_text_utf8 [OF no_lone_pairs [OF t(2)]] assms(2) t(1) by auto
  qed
qed


text \<open>\<open>JSON\<close> for truth values.\<close>

definition sample_env :: js_env where
  "sample_env =
     \<lparr>json_stringify = (\<lambda>v. case v of JBool b \<Rightarrow> Inr (Some (js_text (if b then ''true'' else ''false''))) | JObj _ \<Rightarrow> Inr None | _ \<Rightarrow> Inl JNull),
      json_parse = (\<lambda>t. if t = js_text ''true'' then Inr (JBool True) else if t = js_text ''false'' then Inr (JBool False)
                        else Inl (throw_plain ''SyntaxError'' ''Unexpected end of JSON input'')),
      new_date = (\<lambda>v. v), template_text = (\<lambda>_. []), text_buffer = replicate 32 0\<rparr>"


text \<open>
  For a value that \<open>JSON.stringify\<close> turns into \<open>undefined\<close>, as it does with functions and symbols, the JSON converter does not
  give up as for other values it cannot convert, but makes a payload of an empty text; reading it back throws what
  \<open>JSON.parse\<close> throws at an empty text.
\<close>

theorem unprintable_value_converted:
  assumes "env_ok env" "json_stringify env v = Inr None" "v \<noteq> JUndefined" "\<forall>b. v \<noteq> JBytes b" "json_parse env [] = Inl e"
  shows "\<exists>conv p. DefaultPayloadConverter env = Inr conv \<and> toPayload conv v = Inr p \<and> payload_data p = Some [] \<and> fromPayload conv p = Inl e"
proof -
  let ?cs = "default_members env"
  let ?p = "encoded_with METADATA_ENCODING_JSON (Some [])"
  have empty: "encode_text [] = Inr []" using encode_text_utf8 [of "[]"] by (simp add: utf8_text_def)
  have "first_payload env ?cs v = Inr ?p"
    using first_payload_json [OF assms(3,4,2)] empty by simp
  moreover have "jget (converterByEncoding ?cs) (js_text METADATA_ENCODING_JSON) = Some (json_converter env)"
    using converterByEncoding_get [OF default_members_ok(2), of "json_converter env"] by (simp add: default_members_def json_converter_def)
  then have "composite_fromPayload env ?cs ?p = ec_fromPayload (json_converter env) ?p"
    using encoded_with_marked [OF assms(1), of METADATA_ENCODING_JSON "Some []"] by (auto simp: composite_fromPayload_def Let_def)
  moreover have "decode_bytes env (Some []) = []" using decode_encoded [OF assms(1) _ empty] by simp
  ultimately show ?thesis using assms(5) by (simp add: default_is_composite json_converter_def json_fromPayload_def payload_data_encoded)
qed

theorem unprintable_value_converted_witness:
  "\<exists>conv p. DefaultPayloadConverter sample_env = Inr conv \<and> toPayload conv (JObj []) = Inr p \<and> payload_data p = Some []
     \<and> fromPayload conv p = Inl (throw_plain ''SyntaxError'' ''Unexpected end of JSON input'')"
  by (rule unprintable_value_converted) (simp_all add: env_ok_def sample_env_def js_text_def)

text \<open>Search attributes are converted exactly if they are dates only, or strings, numbers or truth values of one type.\<close>

definition homogeneous :: "jsval list \<Rightarrow> bool" where
  "homogeneous vs \<longleftrightarrow> vs = [] \<or> (\<forall>v \<in> set vs. \<exists>d. v = JDate d) \<or>
     (\<exists>ty \<in> set validNonDateTypes. \<forall>v \<in> set vs. js_typeof v = ty)"

lemma all_dates_iff: "all_dates env idx vs = Inr () \<longleftrightarrow> (\<forall>v \<in> set vs. \<exists>d. v = JDate d)"
  by (induction vs arbitrary: idx) (auto split: jsval.split)

lemma all_of_type_iff: "all_of_type env v idx vs = Inr () \<longleftrightarrow> (\<forall>w \<in> set vs. js_typeof w = js_typeof v)"
  by (induction vs arbitrary: idx) auto

lemma check_values_iff: "check_values env vs = Inr () \<longleftrightarrow> homogeneous vs"
proof (cases vs)
  case (Cons v ws)
  have "\<not> (\<exists>d. v = JDate d)" if "js_typeof v \<noteq> ''object''" using that by auto
  then show ?thesis
    unfolding Cons check_values_def homogeneous_def
    by (auto simp: all_dates_iff all_of_type_iff validNonDateTypes_def simp del: all_dates.simps all_of_type.simps)
qed (simp add: check_values_def homogeneous_def)

text \<open>The server marks date attributes by their type; then dates come back as dates, where \<open>JSON\<close> gives their texts.\<close>

lemma search_dates_roundtrip:
  assumes "env_ok env" "search_toPayload env (JArr vs) = Inr p" "json_stringify env (JArr vs) = Inr (Some t)" "no_lone_surrogates t"
    and "json_parse env t = Inr (JArr (map date_text vs))" "\<forall>v \<in> set vs. new_date env (date_text v) = v"
    and "metadata p' = Some m" "jget m ''type'' = Some (encoding_key ''Datetime'')" "payload_data p' = payload_data p"
  shows "search_fromPayload env p' = Inr (JArr vs)"
proof -
  obtain b where b: "encode_text t = Inr b" "payload_data p = Some b"
    using assms(2,3) by (auto simp: search_toPayload_def json_toPayload_def and_then_eq_Inr payload_data_encoded)
  then have "decode_bytes env (Some b) = t" using decode_encoded [OF assms(1,4)] by simp
  then have "json_fromPayload env p' = Inr (JArr (map date_text vs))" using assms(5,9) b(2) by (simp add: json_fromPayload_def)
  moreover have "map (new_date env \<circ> date_text) vs = vs" using assms(6) by (simp add: map_idI)
  ultimately show ?thesis using assms(1,7,8) by (simp add: search_fromPayload_def decode_key)
qed

subsection \<open>Loading a data converter\<close>

text \<open>
  \<open>require\<close> is a parameter; a module is an object with exports or something else. \<open>methods\<close> lists the properties of an
  export that are functions, none if it is no object.
\<close>

datatype require_error = MODULE_NOT_FOUND | RequireThrew jsval

datatype 'c js_module = NotAnObject | Exports "(string, 'c) jsmap"

record converter_paths =
  payloadConverterPath :: "string option"
  failureConverterPath :: "string option"
  dataConverter_codecs :: "codec list option"

record 'c loaded_data_converter =
  loaded_payloadConverter :: 'c
  loaded_failureConverter :: 'c
  loaded_codecs :: "codec list"

definition isValidPayloadConverter :: "('c \<Rightarrow> string list) \<Rightarrow> 'c \<Rightarrow> bool" where
  "isValidPayloadConverter methods c \<longleftrightarrow> list_all (\<lambda>m. m \<in> set (methods c)) [''toPayload'', ''fromPayload'']"

definition isValidFailureConverter :: "('c \<Rightarrow> string list) \<Rightarrow> 'c \<Rightarrow> bool" where
  "isValidFailureConverter methods c \<longleftrightarrow> list_all (\<lambda>m. m \<in> set (methods c)) [''errorToFailure'', ''failureToError'']"

definition requireConverter :: "(string \<Rightarrow> require_error + 'c js_module) \<Rightarrow> string \<Rightarrow> string \<Rightarrow> ('c \<Rightarrow> bool) \<Rightarrow> 'c res" where
  "requireConverter require path ty validator =
     (case require path of
        Inl MODULE_NOT_FOUND \<Rightarrow>
          Inl (ValueError (''Could not find a file at the specified '' @ ty @ ''Path: '' @ [CHR 0x27] @ path @ [CHR 0x27, CHR ''.'']))
      | Inl (RequireThrew e) \<Rightarrow> Inl e
      | Inr m \<Rightarrow>
          (case (case m of NotAnObject \<Rightarrow> None | Exports es \<Rightarrow> jget es ty) of
             None \<Rightarrow> Inl (ValueError (''Module '' @ path @ '' does not have a `payloadConverter` named export''))
           | Some c \<Rightarrow>
               if validator c then Inr c
               else Inl (ValueError (''payloadConverter export at '' @ path @ '' must be an object with toPayload and fromPayload methods''))))"

definition converter_at ::
  "(string \<Rightarrow> require_error + 'c js_module) \<Rightarrow> string option \<Rightarrow> string \<Rightarrow> ('c \<Rightarrow> bool) \<Rightarrow> 'c \<Rightarrow> 'c res" where
  "converter_at require path ty validator default_converter =
     (case path of
        None \<Rightarrow> Inr default_converter
      | Some p \<Rightarrow> if p = [] then Inr default_converter else requireConverter require p ty validator)"

definition loadDataConverter ::
  "(string \<Rightarrow> require_error + 'c js_module) \<Rightarrow> ('c \<Rightarrow> string list) \<Rightarrow> 'c \<Rightarrow> 'c \<Rightarrow> converter_paths option \<Rightarrow> 'c loaded_data_converter res" where
  "loadDataConverter require methods defaultPayload defaultFailure dc =
     and_then (converter_at require (Option.bind dc payloadConverterPath) ''payloadConverter'' (isValidPayloadConverter methods) defaultPayload) (\<lambda>p.
     and_then (converter_at require (Option.bind dc failureConverterPath) ''failureConverter'' (isValidFailureConverter methods) defaultFailure) (\<lambda>f.
       Inr \<lparr>loaded_payloadConverter = p, loaded_failureConverter = f,
            loaded_codecs = (case Option.bind dc dataConverter_codecs of Some cs \<Rightarrow> cs | None \<Rightarrow> [])\<rparr>))"

text \<open>What is loaded has the methods that its users call, if the default converters do.\<close>

lemma converter_at_valid:
  "converter_at require path ty validator d = Inr c \<Longrightarrow> validator d \<Longrightarrow> validator c"
  by (auto simp: converter_at_def requireConverter_def split: option.splits if_splits sum.splits require_error.splits)

lemma loaded_converters_valid:
  "loadDataConverter require methods defaultPayload defaultFailure dc = Inr l \<Longrightarrow>
     isValidPayloadConverter methods defaultPayload \<Longrightarrow> isValidFailureConverter methods defaultFailure \<Longrightarrow>
     isValidPayloadConverter methods (loaded_payloadConverter l) \<and> isValidFailureConverter methods (loaded_failureConverter l)"
  by (auto simp: loadDataConverter_def and_then_eq_Inr dest: converter_at_valid)

lemma loads_defaults:
  "loadDataConverter require methods defaultPayload defaultFailure None
     = Inr \<lparr>loaded_payloadConverter = defaultPayload, loaded_failureConverter = defaultFailure, loaded_codecs = []\<rparr>"
  by (simp add: loadDataConverter_def converter_at_def)

end
