(* ===== verification/Threaded_Workflows.thy ===== *)
theory Threaded_Workflows
  imports Js_Values "HOL-Library.Multiset"
begin

text \<open>
  Workflows in worker threads: packages/worker/src/workflow/threaded-vm.ts and workflow-worker-thread.ts. A client posts
  requests to its thread and keeps a completion for each; the thread handles them and posts the responses. The workflows of
  a thread are instances \<open>'w\<close> with the operations of interface.ts; \<open>'o\<close> are the options of a workflow,
  \<open>'a\<close> activations, \<open>'c\<close> completions and \<open>'k\<close> sink calls. Messages between threads keep their order and are lost when
  the thread ends; requests are handled one at a time.
\<close>

subsection \<open>The thread\<close>

record ('o, 'a, 'c, 'k, 'w) workflow_library =
  wl_runId :: "'o \<Rightarrow> string"
  wl_create :: "'o \<Rightarrow> 'w res"
  wl_activate :: "'w \<Rightarrow> 'a \<Rightarrow> 'c res \<times> 'w"
  wl_sinkCalls :: "'w \<Rightarrow> 'k list res \<times> 'w"
  wl_dispose :: "'w \<Rightarrow> unit res"

datatype ('o, 'a) thread_input =
    Init
  | Destroy
  | CreateWorkflow 'o
  | ActivateWorkflow string 'a
  | ExtractSinkCalls string
  | DisposeWorkflow string

datatype ('c, 'k) thread_output = NoOutput | ActivationCompletion 'c | SinkCallList "'k list"

datatype creator = NoCreator | Creator | DestroyedCreator

record 'w thread =
  th_creator :: creator
  th_workflows :: "(string, 'w) jsmap"

definition no_getter :: jsval where
  "no_getter = TypeError ''workflowGetter is not a function''"

definition with_workflow :: "string \<Rightarrow> string \<Rightarrow> 'w thread \<Rightarrow> ('w \<Rightarrow> 'x res \<times> 'w thread) \<Rightarrow> 'x res \<times> 'w thread" where
  "with_workflow attempt runId th f =
     (if th_creator th = NoCreator then (Inl no_getter, th)
      else (case jget (th_workflows th) runId of
          None \<Rightarrow> (Inl (IllegalStateError (''Tried to '' @ attempt @ '' non running workflow with runId: '' @ runId)), th)
        | Some w \<Rightarrow> f w))"

definition keep_workflow :: "string \<Rightarrow> 'w \<Rightarrow> 'w thread \<Rightarrow> 'w thread" where
  "keep_workflow runId w th = th\<lparr>th_workflows := jset runId w (th_workflows th)\<rparr>"

fun handleRequest ::
  "('o, 'a, 'c, 'k, 'w) workflow_library \<Rightarrow> ('o, 'a) thread_input \<Rightarrow> 'w thread \<Rightarrow> ('c, 'k) thread_output res \<times> 'w thread" where
  "handleRequest L Init th = (Inr NoOutput, th\<lparr>th_creator := Creator\<rparr>)"
| "handleRequest L Destroy th =
     (Inr NoOutput, if th_creator th = NoCreator then th else th\<lparr>th_creator := DestroyedCreator\<rparr>)"
| "handleRequest L (CreateWorkflow opts) th =
     (case th_creator th of
        NoCreator \<Rightarrow> (Inl (IllegalStateError ''No WorkflowCreator in Worker thread''), th)
      | DestroyedCreator \<Rightarrow> (Inl (IllegalStateError ''Isolate context provider was destroyed''), th)
      | Creator \<Rightarrow>
          (case wl_create L opts of
             Inl e \<Rightarrow> (Inl e, th)
           | Inr w \<Rightarrow> (Inr NoOutput, keep_workflow (wl_runId L opts) w th)))"
| "handleRequest L (ActivateWorkflow runId activation) th =
     with_workflow ''activate'' runId th (\<lambda>w.
       case wl_activate L w activation of
         (Inl e, w') \<Rightarrow> (Inl e, keep_workflow runId w' th)
       | (Inr c, w') \<Rightarrow> (Inr (ActivationCompletion c), keep_workflow runId w' th))"
| "handleRequest L (ExtractSinkCalls runId) th =
     with_workflow ''activate'' runId th (\<lambda>w.
       case wl_sinkCalls L w of
         (Inl e, w') \<Rightarrow> (Inl e, keep_workflow runId w' th)
       | (Inr calls, w') \<Rightarrow> (Inr (SinkCallList calls), keep_workflow runId w' th))"
| "handleRequest L (DisposeWorkflow runId) th =
     with_workflow ''dispose'' runId th (\<lambda>w.
       case wl_dispose L w of
         Inl e \<Rightarrow> (Inl e, th)
       | Inr _ \<Rightarrow> (Inr NoOutput, th\<lparr>th_workflows := jdelete runId (th_workflows th)\<rparr>))"

text \<open>What the proxy of a workflow makes of the output of its request.\<close>

definition completion_of :: "('c, 'k) thread_output \<Rightarrow> 'c res" where
  "completion_of out = (case out of ActivationCompletion c \<Rightarrow> Inr c
     | _ \<Rightarrow> Inl (TypeError ''Got invalid response output from Workflow Worker thread''))"

definition calls_of :: "('c, 'k) thread_output \<Rightarrow> 'k list res" where
  "calls_of out = (case out of SinkCallList calls \<Rightarrow> Inr calls
     | _ \<Rightarrow> Inl (TypeError ''Got invalid response output from Workflow Worker thread''))"

lemma proxy_gets_its_output:
  "handleRequest L (ActivateWorkflow runId a) th = (Inr out, th') \<Longrightarrow> \<exists>c. completion_of out = Inr c"
  "handleRequest L (ExtractSinkCalls runId) th = (Inr out, th') \<Longrightarrow> \<exists>calls. calls_of out = Inr calls"
  by (auto simp: with_workflow_def completion_of_def calls_of_def split: if_splits option.splits prod.splits sum.splits)

subsection \<open>Errors between threads\<close>

fun temporal_name :: "temporal_class \<Rightarrow> string" where
  "temporal_name BareTemporal = ''TemporalFailure''"
| "temporal_name (ServerFailure _) = ''ServerFailure''"
| "temporal_name (ApplicationFailure _ _ _) = ''ApplicationFailure''"
| "temporal_name (CancelledFailure _) = ''CancelledFailure''"
| "temporal_name TerminatedFailure = ''TerminatedFailure''"
| "temporal_name (TimeoutFailure _ _) = ''TimeoutFailure''"
| "temporal_name (ActivityFailure _ _ _ _) = ''ActivityFailure''"
| "temporal_name (ChildWorkflowFailure _ _ _ _) = ''ChildWorkflowFailure''"
| "temporal_name (WorkflowExecutionAlreadyStartedError _ _) = ''WorkflowExecutionAlreadyStartedError''"

datatype 'x thread_result = OkResult 'x | ErrorResult "string option" "string option" "string option"

text \<open>
  The name, message and stack of what was thrown. Reading them of \<open>undefined\<close> or \<open>null\<close> throws in the catch block, so that no
  response is posted.
\<close>

fun error_result :: "jsval \<Rightarrow> 'x thread_result option" where
  "error_result (JError (PlainError cls msg st _)) = Some (ErrorResult (Some cls) (Some msg) (Some st))"
| "error_result (JError (TemporalFailure cls msg st _ _)) = Some (ErrorResult (Some (temporal_name cls)) (Some msg) (Some st))"
| "error_result JUndefined = None"
| "error_result JNull = None"
| "error_result _ = Some (ErrorResult None None None)"

definition respond :: "'x res \<Rightarrow> 'x thread_result option" where
  "respond r = (case r of Inl e \<Rightarrow> error_result e | Inr x \<Rightarrow> Some (OkResult x))"

definition errorNameToClass :: "string option \<Rightarrow> string" where
  "errorNameToClass name = (if name = Some ''IllegalStateError'' then ''IllegalStateError'' else ''Error'')"

fun result_of :: "'x thread_result \<Rightarrow> 'x res" where
  "result_of (OkResult x) = Inr x"
| "result_of (ErrorResult name msg st) =
     Inl (JError (PlainError (errorNameToClass name) (case msg of Some m \<Rightarrow> m | None \<Rightarrow> []) (case st of Some t \<Rightarrow> t | None \<Rightarrow> []) JUndefined))"

subsection \<open>The client\<close>

record thread_client =
  requestIdx :: nat
  requestIdToCompletion :: "nat list"
  shutDownRequested :: bool
  workerExited :: bool
  activeWorkflowCount :: int

fun count_change :: "('o, 'a) thread_input \<Rightarrow> int" where
  "count_change (CreateWorkflow _) = 1"
| "count_change (DisposeWorkflow _) = - 1"
| "count_change _ = 0"

definition send :: "('o, 'a) thread_input \<Rightarrow> thread_client \<Rightarrow> thread_client" where
  "send inp c = c\<lparr>requestIdx := requestIdx c + 1, activeWorkflowCount := activeWorkflowCount c + count_change inp,
     requestIdToCompletion := requestIdToCompletion c @ [requestIdx c]\<rparr>"

text \<open>\<open>destroy\<close> up to its first await; \<open>None\<close> means that it returns at once.\<close>

definition begin_destroy :: "thread_client \<Rightarrow> thread_client option" where
  "begin_destroy c = (if workerExited c then None else Some (send (Destroy :: (unit, unit) thread_input) (c\<lparr>shutDownRequested := True\<rparr>)))"

datatype 'x settlement = Settled "'x res" | ExitedPrematurely

text \<open>
  The client, its thread and the messages between them. \<open>tl_sent\<close> keeps the inputs that were sent, by request id, and
  \<open>tl_handled\<close> counts the requests the thread has handled.
\<close>

record ('o, 'a, 'c, 'k, 'w) thread_link =
  tl_client :: thread_client
  tl_thread :: "'w thread"
  tl_sent :: "('o, 'a) thread_input list"
  tl_requests :: "nat list"
  tl_handled :: nat
  tl_responses :: "(nat \<times> ('c, 'k) thread_output thread_result) list"
  tl_settled :: "(nat \<times> ('c, 'k) thread_output settlement) list"
  tl_unknown :: "nat list"

definition post :: "('o, 'a) thread_input \<Rightarrow> thread_client \<Rightarrow> ('o, 'a, 'c, 'k, 'w) thread_link \<Rightarrow> ('o, 'a, 'c, 'k, 'w) thread_link" where
  "post inp c' s =
     s\<lparr>tl_client := c', tl_sent := tl_sent s @ [inp],
       tl_requests := (if workerExited (tl_client s) then tl_requests s else tl_requests s @ [requestIdx (tl_client s)])\<rparr>"

definition handle_next ::
  "('o, 'a, 'c, 'k, 'w) workflow_library \<Rightarrow> ('o, 'a, 'c, 'k, 'w) thread_link \<Rightarrow> ('o, 'a, 'c, 'k, 'w) thread_link" where
  "handle_next L s =
     (case tl_requests s of
        [] \<Rightarrow> s
      | i # rest \<Rightarrow>
          (case handleRequest L (tl_sent s ! i) (tl_thread s) of
             (r, th) \<Rightarrow> s\<lparr>tl_requests := rest, tl_thread := th, tl_handled := tl_handled s + 1,
               tl_responses := tl_responses s @ (case respond r of Some m \<Rightarrow> [(i, m)] | None \<Rightarrow> [])\<rparr>))"

definition on_message :: "('o, 'a, 'c, 'k, 'w) thread_link \<Rightarrow> ('o, 'a, 'c, 'k, 'w) thread_link" where
  "on_message s =
     (case tl_responses s of
        [] \<Rightarrow> s
      | (i, m) # rest \<Rightarrow>
          (let s' = s\<lparr>tl_responses := rest\<rparr>; c = tl_client s in
           if i \<in> set (requestIdToCompletion c)
           then s'\<lparr>tl_client := c\<lparr>requestIdToCompletion := remove1 i (requestIdToCompletion c)\<rparr>,
                  tl_settled := tl_settled s @ [(i, Settled (result_of m))]\<rparr>
           else s'\<lparr>tl_unknown := tl_unknown s @ [i]\<rparr>))"

definition on_exit :: "('o, 'a, 'c, 'k, 'w) thread_link \<Rightarrow> ('o, 'a, 'c, 'k, 'w) thread_link" where
  "on_exit s =
     (let c = (tl_client s)\<lparr>workerExited := True\<rparr>; s' = s\<lparr>tl_requests := [], tl_responses := []\<rparr> in
      if shutDownRequested c then s'\<lparr>tl_client := c\<rparr>
      else s'\<lparr>tl_client := c\<lparr>requestIdToCompletion := []\<rparr>,
             tl_settled := tl_settled s @ map (\<lambda>i. (i, ExitedPrematurely)) (requestIdToCompletion c)\<rparr>)"

datatype ('o, 'a) link_event = Send "('o, 'a) thread_input" | BeginDestroy | HandleNext | OnMessage | OnExit

fun link_step ::
  "('o, 'a, 'c, 'k, 'w) workflow_library \<Rightarrow> ('o, 'a, 'c, 'k, 'w) thread_link \<Rightarrow> ('o, 'a) link_event \<Rightarrow> ('o, 'a, 'c, 'k, 'w) thread_link" where
  "link_step L s (Send inp) = post inp (send inp (tl_client s)) s"
| "link_step L s BeginDestroy = (case begin_destroy (tl_client s) of None \<Rightarrow> s | Some c \<Rightarrow> post Destroy c s)"
| "link_step L s HandleNext = handle_next L s"
| "link_step L s OnMessage = on_message s"
| "link_step L s OnExit = on_exit s"

definition new_client :: thread_client where
  "new_client = \<lparr>requestIdx = 0, requestIdToCompletion = [], shutDownRequested = False, workerExited = False, activeWorkflowCount = 0\<rparr>"

definition new_link :: "('o, 'a, 'c, 'k, 'w) thread_link" where
  "new_link = \<lparr>tl_client = new_client, tl_thread = \<lparr>th_creator = NoCreator, th_workflows = []\<rparr>, tl_sent = [], tl_requests = [], tl_handled = 0,
     tl_responses = [], tl_settled = [], tl_unknown = []\<rparr>"

subsection \<open>Direct calls\<close>

text \<open>What the requests come to if they are handled where they are made, one after the other.\<close>

definition thread_after :: "('o, 'a, 'c, 'k, 'w) workflow_library \<Rightarrow> ('o, 'a) thread_input list \<Rightarrow> 'w thread" where
  "thread_after L sent = foldl (\<lambda>th inp. snd (handleRequest L inp th)) \<lparr>th_creator = NoCreator, th_workflows = []\<rparr> sent"

definition direct :: "('o, 'a, 'c, 'k, 'w) workflow_library \<Rightarrow> ('o, 'a) thread_input list \<Rightarrow> nat \<Rightarrow> ('c, 'k) thread_output res" where
  "direct L sent i = fst (handleRequest L (sent ! i) (thread_after L (take i sent)))"

definition order_ok :: "('o, 'a, 'c, 'k, 'w) workflow_library \<Rightarrow> ('o, 'a, 'c, 'k, 'w) thread_link \<Rightarrow> bool" where
  "order_ok L s \<longleftrightarrow> requestIdx (tl_client s) = length (tl_sent s) \<and> tl_handled s \<le> length (tl_sent s)
     \<and> tl_thread s = thread_after L (take (tl_handled s) (tl_sent s))
     \<and> (\<not> workerExited (tl_client s) \<longrightarrow> tl_requests s = [tl_handled s..<length (tl_sent s)])"

definition answers_ok :: "('o, 'a, 'c, 'k, 'w) workflow_library \<Rightarrow> ('o, 'a, 'c, 'k, 'w) thread_link \<Rightarrow> bool" where
  "answers_ok L s \<longleftrightarrow>
     (\<forall>i m. (i, m) \<in> set (tl_responses s) \<longrightarrow> i < tl_handled s \<and> respond (direct L (tl_sent s) i) = Some m)
     \<and> (\<forall>i r. (i, Settled r) \<in> set (tl_settled s) \<longrightarrow>
          i < tl_handled s \<and> map_option result_of (respond (direct L (tl_sent s) i)) = Some r)"

definition calls_ok :: "('o, 'a, 'c, 'k, 'w) thread_link \<Rightarrow> bool" where
  "calls_ok s \<longleftrightarrow>
     mset (requestIdToCompletion (tl_client s)) + mset (map fst (tl_settled s)) = mset [0..<length (tl_sent s)] \<and> tl_unknown s = []
     \<and> (if workerExited (tl_client s) then tl_responses s = [] \<and> tl_requests s = []
         else mset (map fst (tl_responses s)) + mset (tl_requests s) \<subseteq># mset (requestIdToCompletion (tl_client s)))"

definition link_inv :: "('o, 'a, 'c, 'k, 'w) workflow_library \<Rightarrow> ('o, 'a, 'c, 'k, 'w) thread_link \<Rightarrow> bool" where
  "link_inv L s \<longleftrightarrow> order_ok L s \<and> answers_ok L s \<and> calls_ok s"

lemma direct_append: "i < length sent \<Longrightarrow> direct L (sent @ later) i = direct L sent i"
  by (simp add: direct_def nth_append)

lemma thread_after_Suc: "k < length sent \<Longrightarrow> thread_after L (take (Suc k) sent) = snd (handleRequest L (sent ! k) (thread_after L (take k sent)))"
  by (simp add: thread_after_def take_Suc_conv_app_nth)

lemma handle_next_cases:
  assumes "order_ok L s"
  obtains "tl_requests s = []" "handle_next L s = s"
  | "tl_requests s = tl_handled s # [Suc (tl_handled s)..<length (tl_sent s)]" "tl_handled s < length (tl_sent s)" "\<not> workerExited (tl_client s)"
    "handle_next L s = s\<lparr>tl_requests := [Suc (tl_handled s)..<length (tl_sent s)],
      tl_thread := thread_after L (take (Suc (tl_handled s)) (tl_sent s)), tl_handled := tl_handled s + 1,
      tl_responses := tl_responses s @ (case respond (direct L (tl_sent s) (tl_handled s)) of Some m \<Rightarrow> [(tl_handled s, m)] | None \<Rightarrow> [])\<rparr>"
  | "tl_requests s \<noteq> []" "workerExited (tl_client s)"
proof (cases "tl_requests s = [] \<or> workerExited (tl_client s)")
  case True
  then show ?thesis using that(1,3) by (cases "tl_requests s = []") (simp_all add: handle_next_def)
next
  case False
  then have h: "tl_handled s < length (tl_sent s)" and r: "tl_requests s = [tl_handled s..<length (tl_sent s)]"
    using assms by (auto simp: order_ok_def)
  then have e: "tl_requests s = tl_handled s # [Suc (tl_handled s)..<length (tl_sent s)]" by (simp add: upt_rec)
  obtain x th where x: "handleRequest L (tl_sent s ! tl_handled s) (tl_thread s) = (x, th)" by fastforce
  then have "x = direct L (tl_sent s) (tl_handled s)" "th = thread_after L (take (Suc (tl_handled s)) (tl_sent s))"
    using assms h by (simp_all add: order_ok_def direct_def thread_after_Suc)
  with e x h False show ?thesis using that(2) by (simp add: handle_next_def)
qed

lemma post_inv:
  assumes inv: "link_inv L s" and c: "requestIdx c = requestIdx (tl_client s) + 1" "workerExited c = workerExited (tl_client s)"
    "requestIdToCompletion c = requestIdToCompletion (tl_client s) @ [requestIdx (tl_client s)]"
  shows "link_inv L (post inp c s)"
  unfolding link_inv_def
proof (intro conjI)
  show "order_ok L (post inp c s)" using inv c by (auto simp: link_inv_def order_ok_def post_def)
  show "answers_ok L (post inp c s)"
    using inv by (fastforce simp: link_inv_def order_ok_def answers_ok_def post_def direct_append)
  show "calls_ok (post inp c s)"
    using inv c by (auto simp: link_inv_def order_ok_def calls_ok_def post_def)
qed

lemma handle_next_inv:
  assumes inv: "link_inv L s"
  shows "link_inv L (handle_next L s)"
proof -
  have o: "order_ok L s" using inv by (simp add: link_inv_def)
  then show ?thesis
  proof (cases rule: handle_next_cases)
    case 2
    have "order_ok L (handle_next L s)" using o 2(2) unfolding 2(4) by (simp add: order_ok_def)
    moreover have "answers_ok L (handle_next L s)"
      using inv unfolding 2(4) by (auto simp: link_inv_def answers_ok_def less_Suc_eq split: option.splits)
    moreover have "calls_ok (handle_next L s)"
    proof -
      let ?P = "mset (requestIdToCompletion (tl_client s))"
      obtain rest where rest: "rest = [Suc (tl_handled s)..<length (tl_sent s)]" by blast
      have sub: "mset (map fst (tl_responses s)) + add_mset (tl_handled s) (mset rest) \<subseteq># ?P"
        using inv 2(1,3) unfolding rest [symmetric] by (simp add: link_inv_def calls_ok_def)
      then have "mset (map fst (tl_responses s)) + mset rest \<subseteq># ?P"
        by (rule subset_mset.order_trans [rotated]) simp
      with sub have "mset (map fst (tl_responses s @ (case respond (direct L (tl_sent s) (tl_handled s)) of Some m \<Rightarrow> [(tl_handled s, m)] | None \<Rightarrow> []))) + mset rest \<subseteq># ?P"
        by (cases "respond (direct L (tl_sent s) (tl_handled s))") simp_all
      then show ?thesis
        using inv 2(3) unfolding 2(4) rest [symmetric] link_inv_def calls_ok_def by simp
    qed
    ultimately show ?thesis by (simp add: link_inv_def)
  qed (use inv in \<open>auto simp: link_inv_def calls_ok_def\<close>)
qed

lemma settle_one: "i \<in># M \<Longrightarrow> M + X = N \<Longrightarrow> add_mset i (M - {#i#} + X) = N"
  by (metis insert_DiffM union_mset_add_mset_left)

lemma on_message_inv:
  assumes inv: "link_inv L s"
  shows "link_inv L (on_message s)"
proof (cases "tl_responses s")
  case (Cons p rest)
  obtain i m where p: "p = (i, m)" by fastforce
  let ?P = "requestIdToCompletion (tl_client s)"
  have w: "\<not> workerExited (tl_client s)" and sub: "add_mset i (mset (map fst rest) + mset (tl_requests s)) \<subseteq># mset ?P"
    using inv Cons p by (auto simp: link_inv_def calls_ok_def split: if_splits)
  have i: "i \<in># mset ?P" using mset_subset_eqD [OF sub, of i] by simp
  have m: "on_message s = s\<lparr>tl_responses := rest, tl_client := (tl_client s)\<lparr>requestIdToCompletion := remove1 i ?P\<rparr>,
      tl_settled := tl_settled s @ [(i, Settled (result_of m))]\<rparr>"
    using Cons p i by (simp add: on_message_def Let_def)
  have "order_ok L (on_message s)" using inv unfolding m by (simp add: link_inv_def order_ok_def)
  moreover have "answers_ok L (on_message s)" using inv Cons p unfolding m by (auto simp: link_inv_def answers_ok_def)
  moreover have "calls_ok (on_message s)"
  proof -
  have "mset (map fst rest) + mset (tl_requests s) \<subseteq># mset ?P - {#i#}"
    using sub i by (simp add: insert_subset_eq_iff)
  moreover have "mset (requestIdToCompletion (tl_client (on_message s))) + mset (map fst (tl_settled (on_message s))) =
      mset [0..<length (tl_sent (on_message s))]"
    using inv settle_one [OF i, of "image_mset fst (mset (tl_settled s))" "mset [0..<length (tl_sent s)]"]
    unfolding m by (simp add: link_inv_def calls_ok_def del: mset_upt)
  ultimately show ?thesis
    using inv w unfolding calls_ok_def by (simp add: m link_inv_def calls_ok_def del: mset_upt)
  qed
  ultimately show ?thesis by (simp add: link_inv_def)
qed (use inv in \<open>simp add: on_message_def\<close>)

lemma on_exit_inv:
  assumes inv: "link_inv L s"
  shows "link_inv L (on_exit s)"
  unfolding link_inv_def
proof (intro conjI)
  show "order_ok L (on_exit s)" using inv by (simp add: link_inv_def order_ok_def on_exit_def Let_def)
  show "answers_ok L (on_exit s)" using inv by (auto simp: link_inv_def answers_ok_def on_exit_def Let_def)
  show "calls_ok (on_exit s)" using inv by (simp add: link_inv_def calls_ok_def on_exit_def Let_def comp_def multiset.map_comp add.commute)
qed

lemma link_step_inv: "link_inv L s \<Longrightarrow> link_inv L (link_step L s e)"
proof (cases e)
  case (Send inp)
  assume "link_inv L s"
  from post_inv [OF this] show ?thesis by (simp add: Send send_def)
next
  case BeginDestroy
  assume "link_inv L s"
  from post_inv [OF this, of "send (Destroy :: (unit, unit) thread_input) (tl_client s\<lparr>shutDownRequested := True\<rparr>)" Destroy]
  show ?thesis using \<open>link_inv L s\<close> by (simp add: BeginDestroy begin_destroy_def send_def)
qed (auto intro: handle_next_inv on_message_inv on_exit_inv)

lemma new_link_inv: "link_inv L new_link"
  by (simp add: link_inv_def order_ok_def answers_ok_def calls_ok_def new_link_def new_client_def thread_after_def)

lemma link_inv_calls:
  assumes "link_inv L s"
  shows "distinct (map fst (tl_settled s))" "set (requestIdToCompletion (tl_client s)) \<union> fst ` set (tl_settled s) = {..<length (tl_sent s)}"
    "distinct (requestIdToCompletion (tl_client s))"
proof -
  have m: "mset (requestIdToCompletion (tl_client s) @ map fst (tl_settled s)) = mset [0..<length (tl_sent s)]"
    using assms by (simp add: link_inv_def calls_ok_def)
  have "distinct (requestIdToCompletion (tl_client s) @ map fst (tl_settled s))"
    using mset_eq_imp_distinct_iff [OF m] by simp
  then show "distinct (map fst (tl_settled s))" "distinct (requestIdToCompletion (tl_client s))" by simp_all
  show "set (requestIdToCompletion (tl_client s)) \<union> fst ` set (tl_settled s) = {..<length (tl_sent s)}"
    using mset_eq_setD [OF m] by auto
qed

interpretation tw: machine "link_step L" "link_inv L" "\<lambda>_ _. True" for L
  by unfold_locales (rule link_step_inv)

lemma all_true: "tw.all_admissible L s es"
  by (induction es arbitrary: s) auto

lemma link_run_inv: "link_inv L (run_steps (link_step L) new_link es)"
  by (rule tw.run_inv [OF new_link_inv all_true])

subsection \<open>Properties\<close>

text \<open>While the thread lives, what a waiting call waits for is under way, unless the handler has thrown \<open>undefined\<close> or \<open>null\<close>.\<close>

definition under_way :: "('o, 'a, 'c, 'k, 'w) workflow_library \<Rightarrow> ('o, 'a, 'c, 'k, 'w) thread_link \<Rightarrow> bool" where
  "under_way L s \<longleftrightarrow> (\<not> workerExited (tl_client s) \<longrightarrow>
     (\<forall>i \<in> set (requestIdToCompletion (tl_client s)). respond (direct L (tl_sent s) i) \<noteq> None \<longrightarrow>
        i \<in> fst ` set (tl_responses s) \<union> set (tl_requests s)))"

lemma pending_sent: "link_inv L s \<Longrightarrow> i \<in> set (requestIdToCompletion (tl_client s)) \<Longrightarrow> i < length (tl_sent s)"
  using link_inv_calls(2) [of L s] by auto

lemma post_under_way:
  assumes "link_inv L s" "under_way L s" "workerExited c = workerExited (tl_client s)"
    "requestIdToCompletion c = requestIdToCompletion (tl_client s) @ [requestIdx (tl_client s)]"
  shows "under_way L (post inp c s)"
  using assms pending_sent [OF assms(1)] by (auto simp: under_way_def post_def direct_append)

lemma handle_under_way:
  assumes inv: "link_inv L s" and u: "under_way L s"
  shows "under_way L (handle_next L s)"
proof -
  have "order_ok L s" using inv by (simp add: link_inv_def)
  then show ?thesis
  proof (cases rule: handle_next_cases)
    case 2
    then show ?thesis using u unfolding 2(4) by (auto simp: under_way_def split: option.splits)
  qed (use u inv in \<open>auto simp: link_inv_def calls_ok_def\<close>)
qed

lemma message_under_way:
  assumes inv: "link_inv L s" and u: "under_way L s"
  shows "under_way L (on_message s)"
  using u link_inv_calls(3) [OF inv]
  by (auto simp: under_way_def on_message_def Let_def split: list.splits prod.splits) blast+

lemma link_run_under_way: "link_inv L (run_steps (link_step L) new_link es) \<and> under_way L (run_steps (link_step L) new_link es)"
proof (induction es rule: rev_induct)
  case Nil
  show ?case using new_link_inv by (simp add: under_way_def new_link_def new_client_def)
next
  case (snoc e es)
  let ?s = "run_steps (link_step L) new_link es"
  have "under_way L (link_step L ?s e)"
  proof (cases e)
    case (Send inp)
    then show ?thesis using snoc post_under_way [of L ?s "send inp (tl_client ?s)" inp] by (simp add: send_def)
  next
    case BeginDestroy
    then show ?thesis
      using snoc post_under_way [of L ?s "send (Destroy :: (unit, unit) thread_input) (tl_client ?s\<lparr>shutDownRequested := True\<rparr>)" Destroy]
      by (auto simp: begin_destroy_def send_def)
  next
    case OnExit
    then show ?thesis by (simp add: under_way_def on_exit_def Let_def)
  qed (use snoc handle_under_way message_under_way in auto)
  then show ?case using snoc link_step_inv [of L ?s e] by (simp add: run_steps_append)
qed

lemma handle_all:
  "n = length (tl_requests s) \<Longrightarrow> tl_requests (run_steps (link_step L) s (replicate n HandleNext)) = []
     \<and> tl_sent (run_steps (link_step L) s (replicate n HandleNext)) = tl_sent s
     \<and> tl_client (run_steps (link_step L) s (replicate n HandleNext)) = tl_client s"
proof (induction n arbitrary: s)
  case (Suc n)
  then obtain i rest where "tl_requests s = i # rest" by (cases "tl_requests s") auto
  then have "tl_requests (handle_next L s) = rest" "tl_sent (handle_next L s) = tl_sent s" "tl_client (handle_next L s) = tl_client s"
    by (simp_all add: handle_next_def split: prod.split)
  with Suc.IH [of "handle_next L s"] Suc.prems \<open>tl_requests s = i # rest\<close> show ?case by simp
qed simp

lemma deliver_all:
  "n = length (tl_responses s) \<Longrightarrow> tl_responses (run_steps (link_step L) s (replicate n OnMessage)) = []
     \<and> tl_requests (run_steps (link_step L) s (replicate n OnMessage)) = tl_requests s
     \<and> tl_sent (run_steps (link_step L) s (replicate n OnMessage)) = tl_sent s
     \<and> workerExited (tl_client (run_steps (link_step L) s (replicate n OnMessage))) = workerExited (tl_client s)"
proof (induction n arbitrary: s)
  case (Suc n)
  then obtain p rest where "tl_responses s = p # rest" by (cases "tl_responses s") auto
  then have "tl_responses (on_message s) = rest" "tl_requests (on_message s) = tl_requests s" "tl_sent (on_message s) = tl_sent s"
    "workerExited (tl_client (on_message s)) = workerExited (tl_client s)"
    by (simp_all add: on_message_def Let_def split: prod.split)
  with Suc.IH [of "on_message s"] Suc.prems \<open>tl_responses s = p # rest\<close> show ?case by simp
qed simp


text \<open>C21. While its thread lives every call returns: once the thread has handled the requests that wait and their responses
  have been delivered, all calls are settled, if no handler has thrown \<open>undefined\<close> or \<open>null\<close>.\<close>

theorem live_thread_settles_calls:
  assumes "s = run_steps (link_step L) new_link events" and "\<not> workerExited (tl_client s)"
    and "\<forall>i < length (tl_sent s). respond (direct L (tl_sent s) i) \<noteq> None"
  shows "\<exists>n m. fst ` set (tl_settled (run_steps (link_step L) s (replicate n HandleNext @ replicate m OnMessage))) = {..<length (tl_sent s)}"
proof (intro exI)
  let ?t = "run_steps (link_step L) s (replicate (length (tl_requests s)) HandleNext)"
  let ?u = "run_steps (link_step L) ?t (replicate (length (tl_responses ?t)) OnMessage)"
  have u: "?u = run_steps (link_step L) new_link
      (events @ replicate (length (tl_requests s)) HandleNext @ replicate (length (tl_responses ?t)) OnMessage)"
    by (simp add: run_steps_append assms(1))
  have i: "link_inv L ?u" "under_way L ?u"
    by (subst u, rule link_run_under_way [THEN conjunct1], subst u, rule link_run_under_way [THEN conjunct2])
  have "tl_responses ?u = []" "tl_requests ?u = []" "tl_sent ?u = tl_sent s" "\<not> workerExited (tl_client ?u)"
    using handle_all [OF refl, of L s] deliver_all [OF refl, of L ?t] assms(2) by auto
  then have "i \<notin> set (requestIdToCompletion (tl_client ?u))" for i
    using i(2) assms(3) pending_sent [OF i(1), of i] unfolding under_way_def by auto
  then have "requestIdToCompletion (tl_client ?u) = []" by (metis list.set_intros(1) neq_Nil_conv)
  then have "fst ` set (tl_settled ?u) = {..<length (tl_sent ?u)}"
    using link_inv_calls(2) [OF i(1)] by simp
  then show "fst ` set (tl_settled (run_steps (link_step L) s
      (replicate (length (tl_requests s)) HandleNext @ replicate (length (tl_responses ?t)) OnMessage))) = {..<length (tl_sent s)}"
    using \<open>tl_sent ?u = tl_sent s\<close> by (simp add: run_steps_append)
qed

text \<open>C36. A call made after the thread has ended never returns: the request is posted to nobody, and the completion that is kept for
  it is not settled by anything that happens later.\<close>

theorem call_after_exit_hangs:
  assumes "s = run_steps (link_step L) new_link events" and "workerExited (tl_client s)" and "OnExit \<notin> set later"
  shows "requestIdx (tl_client s) \<notin> fst ` set (tl_settled (run_steps (link_step L) s (Send inp # later)))"
proof -
  have "tl_settled (run_steps (link_step L) s es) = tl_settled s \<and> workerExited (tl_client (run_steps (link_step L) s es))
      \<and> tl_responses (run_steps (link_step L) s es) = [] \<and> tl_requests (run_steps (link_step L) s es) = []"
    if "OnExit \<notin> set es" for es
    using that
  proof (induction es rule: rev_induct)
    case Nil
    show ?case using link_run_inv [of L events] assms by (auto simp: link_inv_def calls_ok_def)
  next
    case (snoc e es)
    then show ?case
      by (cases e) (simp_all add: run_steps_append post_def send_def begin_destroy_def handle_next_def on_message_def)
  qed
  from this [of "Send inp # later"] assms(3) have "tl_settled (run_steps (link_step L) s (Send inp # later)) = tl_settled s" by simp
  moreover have "requestIdx (tl_client s) \<notin> fst ` set (tl_settled s)"
    using link_run_inv [of L events] assms(1) link_inv_calls(2) [of L s] by (auto simp: link_inv_def order_ok_def)
  ultimately show ?thesis by simp
qed

subsection \<open>Choosing a thread\<close>

text \<open>\<open>createWorkflow\<close> reduces the list of clients, here their counts of active workflows, to the one it uses.\<close>

definition least_active :: "int list \<Rightarrow> nat" where
  "least_active counts = foldl (\<lambda>prev curr. if counts ! prev < counts ! curr then prev else curr) 0 [1..<length counts]"

lemma least_active_least:
  assumes "counts \<noteq> []"
  shows "least_active counts < length counts \<and> (\<forall>c \<in> set counts. counts ! least_active counts \<le> c)"
proof -
  let ?f = "\<lambda>prev curr. if counts ! prev < counts ! curr then prev else curr"
  have "foldl ?f 0 [1..<Suc n] \<le> n \<and> (\<forall>i \<le> n. counts ! foldl ?f 0 [1..<Suc n] \<le> counts ! i)" for n
  proof (induction n)
    case (Suc n)
    then show ?case by (auto simp: le_Suc_eq intro: order_trans less_imp_le)
  qed simp
  note least = this
  obtain n where n: "length counts = Suc n" using assms by (cases counts) auto
  show ?thesis using least [of n] by (auto simp: least_active_def n in_set_conv_nth less_Suc_eq_le)
qed

subsection \<open>A run\<close>

text \<open>Workflows that count their activations.\<close>

definition sample_library :: "(string, nat, nat, string, nat) workflow_library" where
  "sample_library = \<lparr>wl_runId = (\<lambda>n. n), wl_create = (\<lambda>_. Inr 0), wl_activate = (\<lambda>w a. (Inr (w + a), w + a)),
     wl_sinkCalls = (\<lambda>w. (Inr [], w)), wl_dispose = (\<lambda>_. Inr ())\<rparr>"

definition sample_events :: "(string, nat) link_event list" where
  "sample_events = [Send Init, Send (CreateWorkflow ''r''), HandleNext, Send (ActivateWorkflow ''r'' 2), OnMessage, HandleNext, HandleNext, OnMessage, OnMessage,
     Send (ActivateWorkflow ''x'' 1), HandleNext, OnMessage]"

lemmas link_simps = post_def send_def begin_destroy_def handle_next_def on_message_def on_exit_def Let_def new_link_def new_client_def
  with_workflow_def keep_workflow_def respond_def sample_library_def jget_def throw_plain_def errorNameToClass_def


theorem live_thread_settles_calls_witness:
  "\<exists>n m. fst ` set (tl_settled (run_steps (link_step sample_library)
      (run_steps (link_step sample_library) new_link [Send Init, Send (CreateWorkflow ''r'')])
      (replicate n HandleNext @ replicate m OnMessage))) = {..<2}"
proof -
  let ?s = "run_steps (link_step sample_library) new_link [Send Init, Send (CreateWorkflow ''r'')]"
  have s: "tl_sent ?s = [Init, CreateWorkflow ''r'']" "\<not> workerExited (tl_client ?s)" by (simp_all add: link_simps)
  have "\<forall>i < length (tl_sent ?s). respond (direct sample_library (tl_sent ?s) i) \<noteq> None"
    unfolding s(1) by (auto simp: less_Suc_eq direct_def thread_after_def link_simps)
  from live_thread_settles_calls [OF refl s(2) this] show ?thesis unfolding s(1) by (simp add: numeral_2_eq_2)
qed

theorem call_after_exit_hangs_witness:
  "1 \<notin> fst ` set (tl_settled (run_steps (link_step sample_library)
      (run_steps (link_step sample_library) new_link [Send Init, OnExit]) [Send (CreateWorkflow ''r''), HandleNext, OnMessage]))"
proof -
  let ?s = "run_steps (link_step sample_library) new_link [Send Init, OnExit]"
  have s: "workerExited (tl_client ?s)" "requestIdx (tl_client ?s) = 1" by (simp_all add: link_simps)
  from call_after_exit_hangs [OF refl s(1), of "[HandleNext, OnMessage]" "CreateWorkflow ''r''"] show ?thesis unfolding s(2) by simp
qed

end
