(* ===== verification/Reusable_Context.thy ===== *)
theory Reusable_Context
  imports Js_Values
begin

text \<open>
  The shared context of packages/worker/src/workflow/reusable-vm.ts: all workflows of a worker run in one JavaScript context,
  and the globals of a workflow are kept in a bag of its own while it does not run. The global object is the map of its
  enumerable properties. What runs in the context is a function of the global object, with a result \<open>'r\<close>, an exception
  included.
\<close>

type_synonym globals = "(string, jsval) jsmap"

definition ARGS :: string where "ARGS = ''__TEMPORAL_ARGS__''"

definition ACTIVATOR :: string where "ACTIVATOR = ''__TEMPORAL_ACTIVATOR__''"

text \<open>\<open>Object.assign(target, source)\<close>\<close>

definition assign :: "globals \<Rightarrow> globals \<Rightarrow> globals" where
  "assign target source = foldl (\<lambda>m (k, v). jset k v m) target source"

definition read :: "globals \<Rightarrow> string \<Rightarrow> jsval" where
  "read m k = (case jget m k of Some v \<Rightarrow> v | None \<Rightarrow> JUndefined)"

text \<open>
  The first loop of the finally block moves what is not preserved to the bag. The second loop runs over \<open>keysToDelete\<close> with
  \<open>for \<dots> in\<close>, which yields the indices of the array, as strings.
\<close>

definition keysToDelete :: "string set \<Rightarrow> globals \<Rightarrow> globals" where
  "keysToDelete preserve ctx = filter (\<lambda>(k, _). k \<notin> preserve) ctx"

definition delete_indices :: "nat \<Rightarrow> globals \<Rightarrow> globals" where
  "delete_indices n ctx = foldl (\<lambda>m i. jdelete (show_nat i) m) ctx [0..<n]"

definition stash :: "string set \<Rightarrow> globals \<Rightarrow> globals \<Rightarrow> globals \<times> globals" where
  "stash preserve bag ctx =
     (let moved = keysToDelete preserve ctx;
          bag' = assign bag moved;
          ctx' = delete_indices (length moved) (assign ctx (map (\<lambda>(k, _). (k, JUndefined)) moved)) in
      (bag', jset ACTIVATOR (read bag' ACTIVATOR) ctx'))"

definition call_in_context ::
  "string set \<Rightarrow> jsval \<Rightarrow> (globals \<Rightarrow> 'r \<times> globals) \<Rightarrow> globals \<Rightarrow> globals \<Rightarrow> 'r \<times> globals \<times> globals" where
  "call_in_context preserve args f bag ctx =
     (case f (jset ARGS args (assign ctx bag)) of (r, ctx') \<Rightarrow> (r, stash preserve bag ctx'))"

text \<open>
  The cache of modules that the bundle uses: modules loaded while the bundle is evaluated are shared, those that a workflow
  loads are cached in its activator.
\<close>

record 'v module_caches =
  sharedModules :: "(string, 'v) jsmap"
  activator_moduleCache :: "(string, 'v) jsmap option"

definition module_cache_get :: "('v \<Rightarrow> bool) \<Rightarrow> string \<Rightarrow> 'v module_caches \<Rightarrow> 'v option" where
  "module_cache_get truthy_module p c =
     (case jget (sharedModules c) p of
        Some m \<Rightarrow> if truthy_module m then Some m else Option.bind (activator_moduleCache c) (\<lambda>cache. jget cache p)
      | None \<Rightarrow> Option.bind (activator_moduleCache c) (\<lambda>cache. jget cache p))"

definition module_cache_set :: "string \<Rightarrow> 'v \<Rightarrow> 'v module_caches \<Rightarrow> 'v module_caches" where
  "module_cache_set p val c =
     (case activator_moduleCache c of
        Some cache \<Rightarrow> c\<lparr>activator_moduleCache := Some (jset p val cache)\<rparr>
      | None \<Rightarrow> c\<lparr>sharedModules := jset p val (sharedModules c)\<rparr>)"

lemma module_cache_get_set:
  "truthy_module val \<Longrightarrow> jget (sharedModules c) p = None \<Longrightarrow> module_cache_get truthy_module p (module_cache_set p val c) = Some val"
  by (auto simp: module_cache_get_def module_cache_set_def map_laws split: option.split)

text \<open>A module that a workflow loads is not seen by the next workflow, which has a cache of its own.\<close>

lemma module_caches_apart:
  "activator_moduleCache c \<noteq> None \<Longrightarrow>
     module_cache_get truthy_module p ((module_cache_set q val c)\<lparr>activator_moduleCache := other\<rparr>)
     = module_cache_get truthy_module p (c\<lparr>activator_moduleCache := other\<rparr>)"
  by (auto simp: module_cache_get_def module_cache_set_def split: option.splits)

text \<open>The reference: a call in a context of its own, which is given its arguments in the same way.\<close>

definition call_alone :: "jsval \<Rightarrow> (globals \<Rightarrow> 'r \<times> globals) \<Rightarrow> globals \<Rightarrow> 'r \<times> globals" where
  "call_alone args f ctx = f (jset ARGS args ctx)"

text \<open>The worker: one context and the bags by run.\<close>

record shared_contexts =
  sh_context :: globals
  sh_bags :: "string \<Rightarrow> globals"

type_synonym 'r context_call = "string \<times> jsval \<times> (globals \<Rightarrow> 'r \<times> globals)"

fun shared_results :: "string set \<Rightarrow> shared_contexts \<Rightarrow> 'r context_call list \<Rightarrow> 'r list" where
  "shared_results preserve s [] = []"
| "shared_results preserve s ((run, args, f) # calls) =
     (case call_in_context preserve args f (sh_bags s run) (sh_context s) of
        (r, bag, ctx) \<Rightarrow> r # shared_results preserve \<lparr>sh_context = ctx, sh_bags = (sh_bags s)(run := bag)\<rparr> calls)"

fun separate_results :: "(string \<Rightarrow> globals) \<Rightarrow> 'r context_call list \<Rightarrow> 'r list" where
  "separate_results ctxs [] = []"
| "separate_results ctxs ((run, args, f) # calls) =
     (case call_alone args f (ctxs run) of (r, ctx) \<Rightarrow> r # separate_results (ctxs(run := ctx)) calls)"

subsection \<open>Isolation\<close>

text \<open>
  Code that reads globals by value and deletes none: it does not tell a missing property from one that is \<open>undefined\<close>, keeps
  the properties there are and leaves the preserved ones as they are, which are frozen. The call sets the properties \<open>except\<close>
  and does not read the ones it finds.
\<close>

definition same_reads :: "string set \<Rightarrow> globals \<Rightarrow> globals \<Rightarrow> bool" where
  "same_reads except m m' \<longleftrightarrow> (\<forall>k. k \<notin> except \<longrightarrow> read m k = read m' k)"

definition reads_by_value :: "string set \<Rightarrow> string set \<Rightarrow> (globals \<Rightarrow> 'r \<times> globals) \<Rightarrow> bool" where
  "reads_by_value preserve except f \<longleftrightarrow>
     (\<forall>m m'. same_reads except m m' \<longrightarrow> fst (f m) = fst (f m') \<and> same_reads {} (snd (f m)) (snd (f m')))
     \<and> (\<forall>m. jmap_ok m \<longrightarrow> jmap_ok (snd (f m)) \<and> fst ` set m \<union> except \<subseteq> fst ` set (snd (f m)) \<and> (\<forall>k \<in> preserve. read (snd (f m)) k = read m k))"

text \<open>The first call of a run sets up its activator and does not read the one it finds.\<close>

fun well_behaved :: "string set \<Rightarrow> string set \<Rightarrow> 'r context_call list \<Rightarrow> bool" where
  "well_behaved preserve started [] = True"
| "well_behaved preserve started ((run, args, f) # calls) =
     (reads_by_value preserve (if run \<in> started then {} else {ACTIVATOR}) f \<and> well_behaved preserve (insert run started) calls)"

lemma read_jset [simp]: "read (jset k v m) = (read m)(k := v)"
  by (auto simp: read_def fun_eq_iff jget_jset)

lemma read_jdelete: "jmap_ok m \<Longrightarrow> read (jdelete k m) = (read m)(k := JUndefined)"
  by (auto simp: read_def fun_eq_iff jget_jdelete)

lemma assign_simps: "assign m [] = m" "assign m ((k, v) # b) = assign (jset k v m) b"
  by (simp_all add: assign_def)

lemma read_assign: "jmap_ok b \<Longrightarrow> read (assign m b) k = (if k \<in> fst ` set b then read b k else read m k)"
proof (induction b arbitrary: m)
  case (Cons p b)
  obtain k' v where p: "p = (k', v)" by fastforce
  have ok: "jmap_ok b" "k' \<notin> fst ` set b" using Cons.prems p by (auto simp: jmap_ok_def)
  then show ?case using Cons.IH [OF ok(1), of "jset k' v m"]
    by (auto simp: p assign_simps read_def jget_def)
qed (simp add: assign_simps)

lemma jmap_ok_assign: "jmap_ok m \<Longrightarrow> jmap_ok (assign m b)"
  by (induction b arbitrary: m) (auto simp: assign_simps jmap_ok_jset)

lemma keys_assign: "fst ` set (assign m b) = fst ` set m \<union> fst ` set b"
  by (induction b arbitrary: m) (force simp: assign_simps jset_keys)+

lemma delete_indices_Suc: "delete_indices (Suc n) m = jdelete (show_nat n) (delete_indices n m)"
  by (simp add: delete_indices_def)

lemma read_delete_indices:
  "jmap_ok m \<Longrightarrow> jmap_ok (delete_indices n m)
     \<and> read (delete_indices n m) k = (if k \<in> show_nat ` {..<n} then JUndefined else read m k)"
  by (induction n) (auto simp: delete_indices_def read_jdelete jmap_ok_jdelete lessThan_Suc)

lemma keys_keysToDelete: "fst ` set (keysToDelete preserve ctx) = fst ` set ctx - preserve"
  by (force simp: keysToDelete_def)

lemma jmap_ok_keysToDelete: "jmap_ok ctx \<Longrightarrow> jmap_ok (keysToDelete preserve ctx)"
  by (simp add: jmap_ok_def keysToDelete_def distinct_map_filter)

lemma read_outside: "k \<notin> fst ` set m \<Longrightarrow> read m k = JUndefined"
  by (simp add: read_def jget_def map_of_eq_None_iff [THEN iffD2])

lemma read_keysToDelete: "k \<notin> preserve \<Longrightarrow> read (keysToDelete preserve ctx) k = read ctx k"
  by (induction ctx) (auto simp: keysToDelete_def read_def jget_def)

lemma read_undefs: "read (map (\<lambda>(k, _). (k, JUndefined)) m) k = JUndefined"
  by (induction m) (auto simp: read_def jget_def)

lemma keys_undefs: "fst ` set (map (\<lambda>(k, _). (k, JUndefined)) m) = fst ` set m"
  by force

lemma jmap_ok_undefs: "jmap_ok m \<Longrightarrow> jmap_ok (map (\<lambda>(k, _). (k, JUndefined)) m)"
  by (simp add: jmap_ok_def comp_def case_prod_unfold)

text \<open>What the finally block leaves in the bag and in the context.\<close>

lemma stash_spec:
  assumes ok: "jmap_ok bag" "jmap_ok ctx" and bag: "fst ` set bag \<subseteq> fst ` set ctx - preserve"
    and plain: "preserve \<inter> range show_nat = {}" "ACTIVATOR \<notin> preserve"
    and st: "stash preserve bag ctx = (bag', ctx')"
  shows "jmap_ok bag'" "jmap_ok ctx'" "fst ` set bag' = fst ` set ctx - preserve"
    "k \<notin> preserve \<Longrightarrow> read bag' k = read ctx k"
    "k \<in> preserve \<Longrightarrow> read ctx' k = read ctx k"
    "k \<notin> preserve \<Longrightarrow> k \<noteq> ACTIVATOR \<Longrightarrow> read ctx' k = JUndefined"
proof -
  define moved where "moved = keysToDelete preserve ctx"
  define undefs where "undefs = map (\<lambda>(k, _). (k, JUndefined)) moved"
  have moved: "jmap_ok moved" "fst ` set moved = fst ` set ctx - preserve"
    by (simp_all add: moved_def jmap_ok_keysToDelete ok keys_keysToDelete)
  have undefs: "jmap_ok undefs" "fst ` set undefs = fst ` set ctx - preserve" "\<And>k. read undefs k = JUndefined"
    using moved by (simp_all only: undefs_def jmap_ok_undefs keys_undefs read_undefs)
  have bag': "bag' = assign bag moved"
    and ctx': "ctx' = jset ACTIVATOR (read bag' ACTIVATOR) (delete_indices (length moved) (assign ctx undefs))"
    using st by (auto simp: stash_def Let_def moved_def undefs_def)
  have ok1: "jmap_ok (assign ctx undefs)" by (simp add: jmap_ok_assign ok)
  show "jmap_ok bag'" by (simp add: bag' jmap_ok_assign ok)
  show "jmap_ok ctx'" by (simp add: ctx' jmap_ok_jset read_delete_indices ok1)
  show "fst ` set bag' = fst ` set ctx - preserve" using bag by (auto simp: bag' keys_assign moved)
  show "read bag' k = read ctx k" if "k \<notin> preserve"
  proof (cases "k \<in> fst ` set ctx")
    case True
    then show ?thesis using that by (simp only: bag' read_assign moved if_True Diff_iff simp_thms) (simp add: moved_def read_keysToDelete)
  next
    case False
    then have "k \<notin> fst ` set bag'" using bag by (auto simp: bag' keys_assign moved)
    then show ?thesis using False by (simp add: read_outside)
  qed
  have deleted: "read (delete_indices (length moved) (assign ctx undefs)) k =
      (if k \<in> show_nat ` {..<length moved} then JUndefined else if k \<in> fst ` set ctx - preserve then JUndefined else read ctx k)" for k
    using read_delete_indices [OF ok1] by (simp only: read_assign undefs)
  show "read ctx' k = read ctx k" if "k \<in> preserve" using that plain by (auto simp: ctx' deleted)
  show "read ctx' k = JUndefined" if "k \<notin> preserve" "k \<noteq> ACTIVATOR"
    using that read_outside [of k ctx] by (auto simp: ctx' deleted)
qed

text \<open>The shared context stands for the contexts of all runs.\<close>

definition stands_for :: "string set \<Rightarrow> (string \<Rightarrow> jsval) \<Rightarrow> string set \<Rightarrow> shared_contexts \<Rightarrow> (string \<Rightarrow> globals) \<Rightarrow> bool" where
  "stands_for preserve shared started s ctxs \<longleftrightarrow>
     jmap_ok (sh_context s) \<and> (\<forall>run. jmap_ok (sh_bags s run) \<and> fst ` set (sh_bags s run) \<inter> preserve = {})
     \<and> (\<forall>k \<in> preserve. read (sh_context s) k = shared k \<and> (\<forall>run. read (ctxs run) k = shared k))
     \<and> (\<forall>k. k \<notin> preserve \<longrightarrow> k \<noteq> ACTIVATOR \<longrightarrow> read (sh_context s) k = JUndefined)
     \<and> (\<forall>run k. k \<notin> preserve \<longrightarrow> (k = ACTIVATOR \<longrightarrow> run \<in> started) \<longrightarrow> read (sh_bags s run) k = read (ctxs run) k)
     \<and> (\<forall>run \<in> started. ACTIVATOR \<in> fst ` set (sh_bags s run))"

lemma stands_for_reads:
  assumes "stands_for preserve shared started s ctxs"
  shows "same_reads (if run \<in> started then {} else {ACTIVATOR})
           (jset ARGS args (assign (sh_context s) (sh_bags s run))) (jset ARGS args (ctxs run))"
proof -
  let ?bag = "sh_bags s run"
  have ok: "jmap_ok ?bag" using assms by (simp add: stands_for_def)
  have "read (assign (sh_context s) ?bag) k = read (ctxs run) k" if k: "k = ACTIVATOR \<longrightarrow> run \<in> started" for k
  proof (cases "k \<in> preserve")
    case True
    then have "k \<notin> fst ` set ?bag" using assms by (auto simp: stands_for_def)
    then show ?thesis using True assms by (simp add: read_assign ok stands_for_def)
  next
    case False
    then have same: "read ?bag k = read (ctxs run) k" using assms k by (auto simp: stands_for_def)
    show ?thesis
    proof (cases "k \<in> fst ` set ?bag")
      case True
      then show ?thesis by (simp only: read_assign ok same if_True)
    next
      case outside: False
      then have "k \<noteq> ACTIVATOR" using assms k by (auto simp: stands_for_def)
      then have "read (sh_context s) k = JUndefined" using assms False by (auto simp: stands_for_def)
      then show ?thesis using outside same read_outside [OF outside] by (simp only: read_assign ok if_False)
    qed
  qed
  then show ?thesis by (simp add: same_reads_def)
qed

lemma call_keeps_stands_for:
  assumes st: "stands_for preserve shared started s ctxs"
    and plain: "preserve \<inter> range show_nat = {}" "ACTIVATOR \<notin> preserve" "ARGS \<notin> preserve"
    and f: "reads_by_value preserve (if run \<in> started then {} else {ACTIVATOR}) f"
    and call: "call_in_context preserve args f (sh_bags s run) (sh_context s) = (r, bag, ctx)"
    and alone: "call_alone args f (ctxs run) = (r', own)"
  shows "r = r'"
    and "stands_for preserve shared (insert run started) \<lparr>sh_context = ctx, sh_bags = (sh_bags s)(run := bag)\<rparr> (ctxs(run := own))"
proof -
  let ?except = "if run \<in> started then {} else {ACTIVATOR}"
  let ?m = "jset ARGS args (assign (sh_context s) (sh_bags s run))" and ?m' = "jset ARGS args (ctxs run)"
  obtain left where f1: "f ?m = (r, left)" and stash: "stash preserve (sh_bags s run) left = (bag, ctx)"
    using call by (auto simp: call_in_context_def split: prod.splits)
  have f2: "f ?m' = (r', own)" using alone by (simp add: call_alone_def)
  have ok: "jmap_ok (sh_context s)" "jmap_ok (sh_bags s run)" "fst ` set (sh_bags s run) \<inter> preserve = {}"
    using st by (simp_all add: stands_for_def)
  have okm: "jmap_ok ?m" by (simp add: jmap_ok_jset jmap_ok_assign ok)
  have same: "same_reads ?except ?m ?m'" by (rule stands_for_reads [OF st])
  have eqs: "r = r' \<and> same_reads {} left own" using f same f1 f2 by (fastforce simp: reads_by_value_def)
  then show "r = r'" ..
  have left: "jmap_ok left" "fst ` set ?m \<union> ?except \<subseteq> fst ` set left" "\<forall>k \<in> preserve. read left k = read ?m k"
    using f okm f1 unfolding reads_by_value_def by (metis snd_conv)+
  have own: "read own k = read left k" for k using eqs by (simp add: same_reads_def)
  have within: "fst ` set (sh_bags s run) \<subseteq> fst ` set left - preserve"
    using left(2) ok(3) keys_assign [of "sh_context s" "sh_bags s run"] jset_keys [of ARGS args "assign (sh_context s) (sh_bags s run)"]
    by auto
  have fixed: "read left k = shared k" if "k \<in> preserve" for k
  proof -
    have "k \<notin> fst ` set (sh_bags s run)" "k \<noteq> ARGS" using that ok(3) plain by auto
    then have "read ?m k = read (sh_context s) k" by (simp add: read_assign ok)
    then show ?thesis using that left(3) st by (simp add: stands_for_def)
  qed
  note spec = stash_spec [OF ok(2) left(1) within plain(1,2) stash]
  have present: "ACTIVATOR \<in> fst ` set bag"
  proof (cases "run \<in> started")
    case True
    then have "ACTIVATOR \<in> fst ` set (sh_bags s run)" using st by (simp add: stands_for_def)
    then show ?thesis using within spec(3) by auto
  next
    case False
    then show ?thesis using left(2) spec(3) plain(2) by auto
  qed
  have others: "\<forall>run \<in> started. ACTIVATOR \<in> fst ` set (sh_bags s run)"
    "\<forall>run'. jmap_ok (sh_bags s run') \<and> fst ` set (sh_bags s run') \<inter> preserve = {}"
    "\<forall>run' k. k \<notin> preserve \<longrightarrow> (k = ACTIVATOR \<longrightarrow> run' \<in> started) \<longrightarrow> read (sh_bags s run') k = read (ctxs run') k"
    "\<forall>k \<in> preserve. \<forall>run. read (ctxs run) k = shared k"
    using st by (simp_all add: stands_for_def)
  show "stands_for preserve shared (insert run started) \<lparr>sh_context = ctx, sh_bags = (sh_bags s)(run := bag)\<rparr> (ctxs(run := own))"
    unfolding stands_for_def
    using spec(1-3) spec(4-6) fixed own present others by auto
qed

lemma shared_as_separate:
  assumes "stands_for preserve shared started s ctxs"
    and "preserve \<inter> range show_nat = {}" "ACTIVATOR \<notin> preserve" "ARGS \<notin> preserve" "well_behaved preserve started calls"
  shows "shared_results preserve s calls = separate_results ctxs calls"
  using assms
proof (induction calls arbitrary: started s ctxs)
  case (Cons c calls)
  obtain run args f where c: "c = (run, args, f)" by (cases c) auto
  obtain r bag ctx where call: "call_in_context preserve args f (sh_bags s run) (sh_context s) = (r, bag, ctx)" by (metis prod_cases3)
  obtain r' own where alone: "call_alone args f (ctxs run) = (r', own)" by fastforce
  have f: "reads_by_value preserve (if run \<in> started then {} else {ACTIVATOR}) f" using Cons.prems(5) by (simp add: c)
  note step = call_keeps_stands_for [OF Cons.prems(1-4) f call alone]
  have "shared_results preserve \<lparr>sh_context = ctx, sh_bags = (sh_bags s)(run := bag)\<rparr> calls = separate_results (ctxs(run := own)) calls"
    using Cons.prems(5) by (intro Cons.IH [OF step(2) Cons.prems(2-4)]) (simp add: c)
  then show ?case using step(1) call alone by (simp add: c)
qed simp

definition sample_call :: "globals \<Rightarrow> jsval \<times> globals" where
  "sample_call m = (read m ''x'', jset ''x'' (read m ARGS) (jset ACTIVATOR (JBool True) m))"

lemma sample_call_reads_by_value: "except \<subseteq> {ACTIVATOR} \<Longrightarrow> reads_by_value {''require''} except sample_call"
  by (auto simp: reads_by_value_def sample_call_def same_reads_def ARGS_def ACTIVATOR_def jmap_ok_jset jset_keys subset_iff image_iff)

lemma show_nat_digits: "c \<in> set (show_nat n) \<Longrightarrow> of_char c < (58 :: nat)"
proof (induction n rule: show_nat.induct)
  case (1 n)
  then show ?case by (cases "n < 10") (auto simp: show_nat.simps [of n])
qed

lemma not_a_number: "of_char c \<ge> (58 :: nat) \<Longrightarrow> c # cs \<notin> range show_nat"
  using show_nat_digits by (metis imageE leD list.set_intros(1))

text \<open>
  C20. Workflows that share a context see what they would see in contexts of their own: if the code reads globals by value,
  deletes none and leaves the frozen ones as they are, every call of every run has the result that it has when each run owns
  a context.
\<close>

theorem shared_context_isolates:
  assumes "jmap_ok initial" "preserve = fst ` set initial"
    and "preserve \<inter> range show_nat = {}" "ACTIVATOR \<notin> preserve" "ARGS \<notin> preserve" "well_behaved preserve {} calls"
  shows "shared_results preserve \<lparr>sh_context = initial, sh_bags = (\<lambda>_. [])\<rparr> calls = separate_results (\<lambda>_. initial) calls"
proof (rule shared_as_separate [OF _ assms(3-6)])
  show "stands_for preserve (read initial) {} \<lparr>sh_context = initial, sh_bags = (\<lambda>_. [])\<rparr> (\<lambda>_. initial)"
    using assms(1-4) read_outside by (auto simp: stands_for_def read_outside)
qed

theorem shared_context_isolates_witness:
  "shared_results {''require''} \<lparr>sh_context = [(''require'', JNull)], sh_bags = (\<lambda>_. [])\<rparr>
       [(''a'', JBool True, sample_call), (''b'', JBool False, sample_call), (''a'', JNull, sample_call)]
     = separate_results (\<lambda>_. [(''require'', JNull)])
       [(''a'', JBool True, sample_call), (''b'', JBool False, sample_call), (''a'', JNull, sample_call)]"
  by (rule shared_context_isolates) (auto simp: ARGS_def ACTIVATOR_def jmap_ok_def sample_call_reads_by_value not_a_number)

text \<open>
  C37. The loop that is to delete the globals of the workflow that ran deletes the indices of the array of their names
  instead: the name of every global stays in the context with the value \<open>undefined\<close>, and a global that a workflow deleted
  is back at its next call.
\<close>

theorem globals_are_not_deleted:
  assumes "k \<notin> preserve" "k \<notin> range show_nat" "stash preserve bag ctx = (bag', ctx')"
  shows "(k \<in> fst ` set ctx \<longrightarrow> k \<in> fst ` set ctx') \<and> (k \<notin> fst ` set ctx \<longrightarrow> read bag' k = read bag k)"
proof -
  have st: "bag' = assign bag (keysToDelete preserve ctx)"
    "ctx' = jset ACTIVATOR (read bag' ACTIVATOR) (delete_indices (length (keysToDelete preserve ctx))
              (assign ctx (map (\<lambda>(k, _). (k, JUndefined)) (keysToDelete preserve ctx))))"
    using assms(3) by (auto simp: stash_def Let_def)
  have kept: "k \<in> fst ` set (delete_indices n m) \<longleftrightarrow> k \<in> fst ` set m" for n m
    using assms(2) by (induction n) (force simp: delete_indices_def jdelete_def)+
  have "read (assign bag b) k = read bag k" if "k \<notin> fst ` set b" for b
    using that by (induction b arbitrary: bag) (auto simp: assign_simps)
  then show ?thesis unfolding st by (auto simp: jset_keys kept keys_assign keys_keysToDelete simp del: set_map)
qed

theorem globals_are_not_deleted_witness:
  "let (bag, ctx) = stash {''require''} [(''y'', JNull)] [(''require'', JNull), (''x'', JBool True)] in
     ''x'' \<in> fst ` set ctx \<and> read bag ''y'' = JNull"
proof -
  have plain: "''x'' \<notin> range show_nat" "''y'' \<notin> range show_nat" by (simp_all add: not_a_number)
  obtain bag ctx where st: "stash {''require''} [(''y'', JNull)] [(''require'', JNull), (''x'', JBool True)] = (bag, ctx)" by fastforce
  show ?thesis
    using globals_are_not_deleted [OF _ plain(1) st] globals_are_not_deleted [OF _ plain(2) st]
    by (simp add: st read_def jget_def)
qed

end
