(* ===== verification/Worker_Options.thy ===== *)
theory Worker_Options
  imports Payload_Converters
begin

text \<open>
  The options of a worker, packages/worker/src/worker-options.ts: the defaults and the compilation to the numbers the worker
  uses. A property of an object may be missing, or be there with the value \<open>undefined\<close>: the spread \<open>...rest\<close> tells the two
  apart, \<open>??\<close> does not. The process id, host name, heap limit and environment are parameters; sinks, activities and the
  workflow code are passed through and left out.
\<close>

subsection \<open>Options\<close>

datatype 'a field = Absent | Undef | Given 'a

text \<open>\<open>o.x ?? d\<close>, and what \<open>{ x: d, ...o }\<close> has for \<open>x\<close>.\<close>

fun coalesce :: "'a field \<Rightarrow> 'a \<Rightarrow> 'a" where
  "coalesce (Given x) d = x"
| "coalesce _ d = d"

fun spread :: "'a \<Rightarrow> 'a field \<Rightarrow> 'a option" where
  "spread d Absent = Some d"
| "spread d Undef = None"
| "spread d (Given x) = Some x"

fun field_value :: "'a field \<Rightarrow> 'a option" where
  "field_value (Given x) = Some x"
| "field_value _ = None"

text \<open>Interceptor factories \<open>'i\<close>; the modules are paths.\<close>

record 'i worker_interceptors =
  activityInbound :: "'i list option"
  workflowModules :: "string list option"

record 'i worker_options =
  wo_namespace :: "string field"
  wo_identity :: "string field"
  wo_useVersioning :: "bool field"
  wo_shutdownGraceTime :: "duration field"
  wo_shutdownForceTime :: "duration field"
  wo_dataConverter :: "converter_paths field"
  wo_maxConcurrentActivityTaskExecutions :: "jsnum field"
  wo_maxConcurrentLocalActivityExecutions :: "jsnum field"
  wo_enableNonLocalActivities :: "bool field"
  wo_maxConcurrentWorkflowTaskExecutions :: "jsnum field"
  wo_maxConcurrentWorkflowTaskPolls :: "jsnum field"
  wo_maxConcurrentActivityTaskPolls :: "jsnum field"
  wo_stickyQueueScheduleToStartTimeout :: "duration field"
  wo_maxCachedWorkflows :: "jsnum field"
  wo_workflowThreadPoolSize :: "jsnum field"
  wo_maxHeartbeatThrottleInterval :: "duration field"
  wo_defaultHeartbeatThrottleInterval :: "duration field"
  wo_isolateExecutionTimeout :: "duration field"
  wo_interceptors :: "'i worker_interceptors field"
  wo_enableSDKTracing :: "bool field"
  wo_showStackTraceSources :: "bool field"
  wo_debugMode :: "bool field"
  wo_reuseV8Context :: "bool field"

record 'i options_with_defaults =
  wd_namespace :: string
  wd_identity :: "string option"
  wd_useVersioning :: "bool option"
  wd_shutdownGraceTime :: "duration option"
  wd_shutdownForceTime :: "duration option"
  wd_dataConverter :: "converter_paths option"
  wd_maxConcurrentActivityTaskExecutions :: jsnum
  wd_maxConcurrentLocalActivityExecutions :: "jsnum option"
  wd_enableNonLocalActivities :: "bool option"
  wd_maxConcurrentWorkflowTaskExecutions :: jsnum
  wd_maxConcurrentWorkflowTaskPolls :: "jsnum option"
  wd_maxConcurrentActivityTaskPolls :: "jsnum option"
  wd_stickyQueueScheduleToStartTimeout :: "duration option"
  wd_maxCachedWorkflows :: jsnum
  wd_workflowThreadPoolSize :: "jsnum option"
  wd_maxHeartbeatThrottleInterval :: "duration option"
  wd_defaultHeartbeatThrottleInterval :: "duration option"
  wd_isolateExecutionTimeout :: "duration option"
  wd_interceptors :: "'i worker_interceptors option"
  wd_enableSDKTracing :: "bool option"
  wd_showStackTraceSources :: bool
  wd_debugMode :: "bool option"
  wd_reuseV8Context :: bool

text \<open>What the process supplies: \<open>heapSizeMiB\<close> is the heap limit in MiB, \<open>temporal_debug\<close> the variable \<open>TEMPORAL_DEBUG\<close> in
  lower case.\<close>

record 'i worker_process =
  default_identity :: string
  heapSizeMiB :: rat
  temporal_debug :: "string option"
  log_interceptor :: 'i
  defaultWorflowInterceptorModules :: "string list"

subsection \<open>Defaults\<close>

definition appendDefaultInterceptors :: "'i worker_process \<Rightarrow> 'i worker_interceptors \<Rightarrow> 'i worker_interceptors" where
  "appendDefaultInterceptors P i =
     \<lparr>activityInbound = Some ((case activityInbound i of Some xs \<Rightarrow> xs | None \<Rightarrow> []) @ [log_interceptor P]),
      workflowModules = Some ((case workflowModules i of Some xs \<Rightarrow> xs | None \<Rightarrow> []) @ defaultWorflowInterceptorModules P)\<rparr>"

definition isSet :: "string option \<Rightarrow> bool" where
  "isSet env = (case env of None \<Rightarrow> False | Some e \<Rightarrow> e = ''1'' \<or> e = ''t'' \<or> e = ''true'')"

fun js_min_with :: "rat \<Rightarrow> jsnum \<Rightarrow> jsnum" where
  "js_min_with c (Fin a) = Fin (min c a)"
| "js_min_with c PosInf = Fin c"
| "js_min_with c NegInf = NegInf"
| "js_min_with c NaN = NaN"

definition cached_by_memory :: "rat \<Rightarrow> rat \<Rightarrow> rat \<Rightarrow> rat" where
  "cached_by_memory limit reserved per_gb = max (of_int \<lfloor>max (limit - reserved) 0 * per_gb / 1024\<rfloor>) 10"

definition defaultMaxCachedWorkflows :: "'i worker_process \<Rightarrow> bool field \<Rightarrow> jsnum" where
  "defaultMaxCachedWorkflows P reuse =
     Fin (if coalesce reuse False then cached_by_memory (heapSizeMiB P) 200 600 else cached_by_memory (heapSizeMiB P) 400 250)"

definition addDefaultWorkerOptions :: "'i worker_process \<Rightarrow> 'i worker_options \<Rightarrow> 'i options_with_defaults" where
  "addDefaultWorkerOptions P opts =
     (let debugMode = coalesce (wo_debugMode opts) False \<or> isSet (temporal_debug P);
          reuse = coalesce (wo_reuseV8Context opts) False;
          workflowTasks = coalesce (wo_maxConcurrentWorkflowTaskExecutions opts) (Fin 40);
          activityTasks = coalesce (wo_maxConcurrentActivityTaskExecutions opts) (Fin 100) in
      \<lparr>wd_namespace = coalesce (wo_namespace opts) ''default'',
       wd_identity = spread (default_identity P) (wo_identity opts),
       wd_useVersioning = spread (coalesce (wo_useVersioning opts) False) (wo_useVersioning opts),
       wd_shutdownGraceTime = spread (DurNum (Fin 0)) (wo_shutdownGraceTime opts),
       wd_shutdownForceTime = field_value (wo_shutdownForceTime opts),
       wd_dataConverter = field_value (wo_dataConverter opts),
       wd_maxConcurrentActivityTaskExecutions = activityTasks,
       wd_maxConcurrentLocalActivityExecutions = spread (Fin 100) (wo_maxConcurrentLocalActivityExecutions opts),
       wd_enableNonLocalActivities = spread True (wo_enableNonLocalActivities opts),
       wd_maxConcurrentWorkflowTaskExecutions = workflowTasks,
       wd_maxConcurrentWorkflowTaskPolls = spread (js_min_with 10 workflowTasks) (wo_maxConcurrentWorkflowTaskPolls opts),
       wd_maxConcurrentActivityTaskPolls = spread (js_min_with 10 activityTasks) (wo_maxConcurrentActivityTaskPolls opts),
       wd_stickyQueueScheduleToStartTimeout = spread (DurStr ''10s'') (wo_stickyQueueScheduleToStartTimeout opts),
       wd_maxCachedWorkflows = coalesce (wo_maxCachedWorkflows opts) (defaultMaxCachedWorkflows P (wo_reuseV8Context opts)),
       wd_workflowThreadPoolSize = spread (Fin (if reuse then 1 else 2)) (wo_workflowThreadPoolSize opts),
       wd_maxHeartbeatThrottleInterval = spread (DurStr ''60s'') (wo_maxHeartbeatThrottleInterval opts),
       wd_defaultHeartbeatThrottleInterval = spread (DurStr ''30s'') (wo_defaultHeartbeatThrottleInterval opts),
       wd_isolateExecutionTimeout =
         spread (DurStr (if debugMode then ''4294967295ms'' else ''5s'')) (wo_isolateExecutionTimeout opts),
       wd_interceptors =
         spread (appendDefaultInterceptors P \<lparr>activityInbound = None, workflowModules = None\<rparr>) (wo_interceptors opts),
       wd_enableSDKTracing = spread False (wo_enableSDKTracing opts),
       wd_showStackTraceSources = coalesce (wo_showStackTraceSources opts) False,
       wd_debugMode = spread debugMode (wo_debugMode opts),
       wd_reuseV8Context = reuse\<rparr>)"

subsection \<open>Compilation\<close>

text \<open>The three corrections, each with a warning.\<close>

definition at_least_two :: "jsnum \<Rightarrow> bool" where
  "at_least_two n \<longleftrightarrow> \<not> js_lt n (Fin 2)"

definition fix_cached :: "'i options_with_defaults \<Rightarrow> 'i options_with_defaults" where
  "fix_cached opts =
     (if \<not> js_num_eq (wd_maxCachedWorkflows opts) (Fin 0) \<and> js_lt (wd_maxCachedWorkflows opts) (Fin 2)
      then opts\<lparr>wd_maxCachedWorkflows := Fin 2\<rparr> else opts)"

definition fix_tasks_above :: "'i options_with_defaults \<Rightarrow> 'i options_with_defaults" where
  "fix_tasks_above opts =
     (if js_lt (Fin 0) (wd_maxCachedWorkflows opts) \<and> js_lt (wd_maxCachedWorkflows opts) (wd_maxConcurrentWorkflowTaskExecutions opts)
      then opts\<lparr>wd_maxConcurrentWorkflowTaskExecutions := wd_maxCachedWorkflows opts\<rparr> else opts)"

definition fix_tasks_below :: "'i options_with_defaults \<Rightarrow> 'i options_with_defaults" where
  "fix_tasks_below opts =
     (if js_lt (Fin 0) (wd_maxCachedWorkflows opts) \<and> js_lt (wd_maxConcurrentWorkflowTaskExecutions opts) (Fin 2)
      then opts\<lparr>wd_maxConcurrentWorkflowTaskExecutions := Fin 2\<rparr> else opts)"

record 'i compiled_options =
  co_options :: "'i options_with_defaults"
  shutdownGraceTimeMs :: jsnum
  shutdownForceTimeMs :: "jsnum option"
  isolateExecutionTimeoutMs :: jsnum
  stickyQueueScheduleToStartTimeoutMs :: jsnum
  maxHeartbeatThrottleIntervalMs :: jsnum
  defaultHeartbeatThrottleIntervalMs :: jsnum

text \<open>\<open>ms(undefined)\<close> throws the error \<open>ms_undefined\<close>. The data converter is loaded last, by \<open>load\<close>.\<close>

definition msRequired :: "'l libs \<Rightarrow> jsval \<Rightarrow> duration option \<Rightarrow> jsnum res" where
  "msRequired L ms_undefined d = (case d of Some d \<Rightarrow> msToNumber L d | None \<Rightarrow> Inl ms_undefined)"

definition compileWorkerOptions ::
  "'l libs \<Rightarrow> jsval \<Rightarrow> (converter_paths option \<Rightarrow> 'c res) \<Rightarrow> 'i options_with_defaults \<Rightarrow> ('i compiled_options \<times> 'c) res" where
  "compileWorkerOptions L ms_undefined load opts0 =
     (let opts = fix_tasks_below (fix_tasks_above (fix_cached opts0)) in
      and_then (msRequired L ms_undefined (wd_shutdownGraceTime opts)) (\<lambda>grace.
      and_then (msOptionalToNumber L (wd_shutdownForceTime opts)) (\<lambda>force.
      and_then (msRequired L ms_undefined (wd_stickyQueueScheduleToStartTimeout opts)) (\<lambda>sticky.
      and_then (msRequired L ms_undefined (wd_isolateExecutionTimeout opts)) (\<lambda>isolate.
      and_then (msRequired L ms_undefined (wd_maxHeartbeatThrottleInterval opts)) (\<lambda>maxHb.
      and_then (msRequired L ms_undefined (wd_defaultHeartbeatThrottleInterval opts)) (\<lambda>defaultHb.
      and_then (load (wd_dataConverter opts)) (\<lambda>dc.
        Inr (\<lparr>co_options = opts, shutdownGraceTimeMs = grace, shutdownForceTimeMs = force, isolateExecutionTimeoutMs = isolate,
              stickyQueueScheduleToStartTimeoutMs = sticky, maxHeartbeatThrottleIntervalMs = maxHb,
              defaultHeartbeatThrottleIntervalMs = defaultHb\<rparr>, dc)))))))))"

subsection \<open>Limits\<close>

lemma js_lt_Fin: "js_lt (Fin a) n \<longleftrightarrow> (case n of Fin b \<Rightarrow> a < b | PosInf \<Rightarrow> True | _ \<Rightarrow> False)"
  "js_lt n (Fin a) \<longleftrightarrow> (case n of Fin b \<Rightarrow> b < a | NegInf \<Rightarrow> True | _ \<Rightarrow> False)"
  by (cases n; simp)+

lemma js_num_eq_Fin: "js_num_eq n (Fin a) \<longleftrightarrow> n = Fin a"
  by (cases n) auto


definition no_options :: "'i worker_options" where
  "no_options =
     \<lparr>wo_namespace = Absent, wo_identity = Absent, wo_useVersioning = Absent, wo_shutdownGraceTime = Absent,
      wo_shutdownForceTime = Absent, wo_dataConverter = Absent, wo_maxConcurrentActivityTaskExecutions = Absent,
      wo_maxConcurrentLocalActivityExecutions = Absent, wo_enableNonLocalActivities = Absent,
      wo_maxConcurrentWorkflowTaskExecutions = Absent, wo_maxConcurrentWorkflowTaskPolls = Absent,
      wo_maxConcurrentActivityTaskPolls = Absent, wo_stickyQueueScheduleToStartTimeout = Absent, wo_maxCachedWorkflows = Absent,
      wo_workflowThreadPoolSize = Absent, wo_maxHeartbeatThrottleInterval = Absent, wo_defaultHeartbeatThrottleInterval = Absent,
      wo_isolateExecutionTimeout = Absent, wo_interceptors = Absent, wo_enableSDKTracing = Absent,
      wo_showStackTraceSources = Absent, wo_debugMode = Absent, wo_reuseV8Context = Absent\<rparr>"

definition sample_process :: "unit worker_process" where
  "sample_process = \<lparr>default_identity = ''1@host'', heapSizeMiB = 2096, temporal_debug = None, log_interceptor = (),
     defaultWorflowInterceptorModules = []\<rparr>"

text \<open>A parser of durations that knows those of the defaults.\<close>

definition sample_libs :: "64 word libs" where
  "sample_libs = long64\<lparr>ms := (\<lambda>s. if s = ''10s'' then Some (Fin 10000) else if s = ''60s'' then Some (Fin 60000)
     else if s = ''30s'' then Some (Fin 30000) else if s = ''5s'' then Some (Fin 5000) else None)\<rparr>"


text \<open>
  The limit of concurrent polls is not corrected with the limit of tasks: whoever gives only a cache of fewer than ten
  workflows gets ten concurrent polls for fewer tasks, though the documentation says that there are never more polls than tasks.
\<close>

theorem more_polls_than_tasks:
  assumes "wo_maxCachedWorkflows opts = Given (Fin k)" "2 \<le> k" "k < 10"
    and "wo_maxConcurrentWorkflowTaskExecutions opts = Absent" "wo_maxConcurrentWorkflowTaskPolls opts = Absent"
    and "compileWorkerOptions L ms_undefined load (addDefaultWorkerOptions P opts) = Inr (c, dc)"
  shows "wd_maxConcurrentWorkflowTaskPolls (co_options c) = Some (Fin 10)
    \<and> wd_maxConcurrentWorkflowTaskExecutions (co_options c) = Fin k"
proof -
  let ?d = "addDefaultWorkerOptions P opts"
  have d: "wd_maxCachedWorkflows ?d = Fin k" "wd_maxConcurrentWorkflowTaskExecutions ?d = Fin 40"
    "wd_maxConcurrentWorkflowTaskPolls ?d = Some (Fin 10)"
    using assms by (simp_all add: addDefaultWorkerOptions_def Let_def)
  have "co_options c = fix_tasks_below (fix_tasks_above (fix_cached ?d))"
    using assms(6) by (auto simp: compileWorkerOptions_def Let_def and_then_eq_Inr)
  then show ?thesis using d assms(2,3) by (simp add: fix_tasks_below_def fix_tasks_above_def fix_cached_def)
qed

theorem more_polls_than_tasks_witness:
  "\<exists>c. compileWorkerOptions sample_libs JNull (\<lambda>_. Inr ())
        (addDefaultWorkerOptions sample_process (no_options\<lparr>wo_maxCachedWorkflows := Given (Fin 5)\<rparr>)) = Inr (c, ())
     \<and> wd_maxConcurrentWorkflowTaskPolls (co_options c) = Some (Fin 10) \<and> wd_maxConcurrentWorkflowTaskExecutions (co_options c) = Fin 5"
proof -
  let ?o = "no_options\<lparr>wo_maxCachedWorkflows := Given (Fin 5)\<rparr> :: unit worker_options"
  have "\<exists>c. compileWorkerOptions sample_libs JNull (\<lambda>_. Inr ()) (addDefaultWorkerOptions sample_process ?o) = Inr (c, ())"
    by (simp add: addDefaultWorkerOptions_def compileWorkerOptions_def Let_def no_options_def sample_libs_def msRequired_def
        msWithValidation_def js_isNaN_def msOptionalToNumber_def fix_tasks_below_def fix_tasks_above_def fix_cached_def sample_process_def isSet_def)
  then obtain c where c: "compileWorkerOptions sample_libs JNull (\<lambda>_. Inr ()) (addDefaultWorkerOptions sample_process ?o) = Inr (c, ())" by blast
  show ?thesis using more_polls_than_tasks [OF _ _ _ _ _ c, of 5] c by (simp add: no_options_def)
qed

text \<open>The variable \<open>TEMPORAL_DEBUG\<close> lifts the time limit but does not turn on the debug mode of options that give it.\<close>

lemma debug_variable_half_applied:
  "isSet (temporal_debug P) \<Longrightarrow> wo_debugMode opts = Given False \<Longrightarrow> wo_isolateExecutionTimeout opts = Absent \<Longrightarrow>
     wd_debugMode (addDefaultWorkerOptions P opts) = Some False
     \<and> wd_isolateExecutionTimeout (addDefaultWorkerOptions P opts) = Some (DurStr ''4294967295ms'')"
  by (simp add: addDefaultWorkerOptions_def Let_def)

text \<open>A duration that is there with the value \<open>undefined\<close> keeps its default from being used and fails later.\<close>

lemma undefined_grace_time_fails:
  "wo_shutdownGraceTime opts = Undef \<Longrightarrow> compileWorkerOptions L e load (addDefaultWorkerOptions P opts) = Inl e"
  by (simp add: addDefaultWorkerOptions_def compileWorkerOptions_def Let_def msRequired_def fix_tasks_below_def fix_tasks_above_def
      fix_cached_def)

end
