(* ===== verification/Task_Queue_Client.thy ===== *)
theory Task_Queue_Client
  imports Client_Calls
begin

text \<open>
  The task queue client, packages/client/src/task-queue-client.ts with build-id-types.ts: operations on the sets of
  compatible build ids, their listing, and the reachability of build ids. Requests and responses are the protobuf messages;
  \<open>None\<close> is a missing or null field.
\<close>

subsection \<open>Operations\<close>

datatype build_id_operation =
    AddNewIdInNewDefaultSet (op_buildId: string)
  | AddNewCompatibleVersion string string (op_promoteSet: "bool option")
  | PromoteSetByBuildId string
  | PromoteBuildIdWithinSet string
  | MergeSets (op_primaryBuildId: string) (op_secondaryBuildId: string)

text \<open>The operation of \<open>UpdateWorkerBuildIdCompatibilityRequest\<close>, a \<open>oneof\<close>; \<open>makeSetDefault\<close> is false if it is not set.\<close>

datatype proto_operation =
    AddNewBuildIdInNewDefaultSet string
  | AddNewCompatibleBuildId (newBuildId: string) (existingCompatibleBuildId: string) (makeSetDefault: bool)
  | PromoteSet string
  | PromoteWithinSet string
  | Merge (primarySetBuildId: string) (secondarySetBuildId: string)

fun operation_request :: "build_id_operation \<Rightarrow> proto_operation" where
  "operation_request (AddNewIdInNewDefaultSet b) = AddNewBuildIdInNewDefaultSet b"
| "operation_request (AddNewCompatibleVersion b e promote) = AddNewCompatibleBuildId b e False"
| "operation_request (PromoteSetByBuildId b) = PromoteSet b"
| "operation_request (PromoteBuildIdWithinSet b) = PromoteWithinSet b"
| "operation_request (MergeSets p s) = Merge p s"

record update_build_ids_request =
  ub_namespace :: string
  ub_taskQueue :: string
  ub_operation :: proto_operation

record reachability_request =
  rr_namespace :: string
  rr_taskQueues :: "string list option"
  rr_buildIds :: "string list option"
  rr_reachability :: nat

record queue_reachability =
  qr_taskQueue :: "string option"
  qr_reachability :: "nat list option"

record build_id_reachability =
  br_buildId :: "string option"
  br_taskQueues :: "queue_reachability list option"

record 's task_queue_service =
  ts_update :: "(update_build_ids_request, unit, 's) service"
  ts_compatibility :: "(string \<times> string, string list option list option, 's) service"
  ts_reachability :: "(reachability_request, build_id_reachability list, 's) service"

datatype task_queue_error =
    BuildIdNotFoundError string
  | KnownError client_error
  | QueueServiceError string "service_error option"
  | QueueThrown jsval

definition task_queue_error :: "service_error \<Rightarrow> string \<Rightarrow> task_queue_error" where
  "task_queue_error err fallbackMessage =
     (case err of
        OtherError _ \<Rightarrow> QueueServiceError ''Unexpected error while making gRPC request'' None
      | GrpcError g \<Rightarrow>
          (case rethrowKnownErrorTypes g of
             Some e \<Rightarrow> KnownError e
           | None \<Rightarrow>
               if ge_code g = ''NOT_FOUND''
               then BuildIdNotFoundError (case ge_details g of Some d \<Rightarrow> d | None \<Rightarrow> ''Build Id not found'')
               else QueueServiceError fallbackMessage (Some err)))"

definition updateBuildIdCompatibility ::
  "string \<Rightarrow> 's task_queue_service \<Rightarrow> string \<Rightarrow> build_id_operation \<Rightarrow> 's \<Rightarrow> (task_queue_error + unit) \<times> 's" where
  "updateBuildIdCompatibility ns S queue operation s =
     (case ts_update S \<lparr>ub_namespace = ns, ub_taskQueue = queue, ub_operation = operation_request operation\<rparr> s of
        (Inl err, s') \<Rightarrow> (Inl (task_queue_error err ''Unexpected error updating Build Id compatibility''), s')
      | (Inr _, s') \<Rightarrow> (Inr (), s'))"

subsection \<open>Version sets\<close>

record version_set =
  vs_buildIds :: "string list"
  vs_default :: string

definition versionSetFromProto :: "string list option \<Rightarrow> version_set res" where
  "versionSetFromProto ids =
     (case ids of
        Some (b # bs) \<Rightarrow> Inr \<lparr>vs_buildIds = b # bs, vs_default = last (b # bs)\<rparr>
      | _ \<Rightarrow> Inl (throw_plain ''Error'' ''Compatible version sets must contain at least one Build Id''))"

definition versionSetsFromProto :: "string list option list option \<Rightarrow> version_set list res" where
  "versionSetsFromProto sets =
     (case sets of
        Some (x # xs) \<Rightarrow> map_res versionSetFromProto (x # xs)
      | _ \<Rightarrow> Inl (throw_plain ''Error'' ''Must be constructed from a compatability response with at least one version set''))"

text \<open>The getters; there is always a last set.\<close>

definition defaultSet :: "version_set list \<Rightarrow> version_set" where
  "defaultSet sets = last sets"

definition defaultBuildId :: "version_set list \<Rightarrow> string" where
  "defaultBuildId sets = vs_default (defaultSet sets)"

definition getBuildIdCompatability ::
  "string \<Rightarrow> 's task_queue_service \<Rightarrow> string \<Rightarrow> 's \<Rightarrow> (task_queue_error + version_set list option) \<times> 's" where
  "getBuildIdCompatability ns S queue s =
     (case ts_compatibility S (queue, ns) s of
        (Inl err, s') \<Rightarrow> (Inl (task_queue_error err ''Unexpected error fetching Build Id compatibility''), s')
      | (Inr sets, s') \<Rightarrow>
          (case sets of
             None \<Rightarrow> (Inr None, s')
           | Some [] \<Rightarrow> (Inr None, s')
           | _ \<Rightarrow> (case versionSetsFromProto sets of Inl e \<Rightarrow> (Inl (QueueThrown e), s') | Inr vs \<Rightarrow> (Inr (Some vs), s'))))"

subsection \<open>Reachability\<close>

text \<open>\<open>UnversionedBuildId\<close> is a symbol.\<close>

datatype build_id = Unversioned | BuildId string

datatype reachability_type = NEW_WORKFLOWS | EXISTING_WORKFLOWS | OPEN_WORKFLOWS | CLOSED_WORKFLOWS

datatype reachability_response_type = NOT_FETCHED | Reachable reachability_type

definition buildId_to_proto :: "build_id \<Rightarrow> string" where
  "buildId_to_proto b = (case b of Unversioned \<Rightarrow> [] | BuildId s \<Rightarrow> s)"

definition buildId_from_proto :: "string option \<Rightarrow> build_id" where
  "buildId_from_proto b = (case b of None \<Rightarrow> Unversioned | Some s \<Rightarrow> if s = [] then Unversioned else BuildId s)"

text \<open>The codes of \<open>TaskReachability\<close>.\<close>

definition reachabilityTypeToProto :: "reachability_type option \<Rightarrow> nat" where
  "reachabilityTypeToProto ty =
     (case ty of None \<Rightarrow> 0 | Some NEW_WORKFLOWS \<Rightarrow> 1 | Some EXISTING_WORKFLOWS \<Rightarrow> 2 | Some OPEN_WORKFLOWS \<Rightarrow> 3 | Some CLOSED_WORKFLOWS \<Rightarrow> 4)"

definition reachabilityTypeFromProto :: "nat \<Rightarrow> reachability_response_type res" where
  "reachabilityTypeFromProto code =
     (if code = 0 then Inr NOT_FETCHED
      else if code = 1 then Inr (Reachable NEW_WORKFLOWS)
      else if code = 2 then Inr (Reachable EXISTING_WORKFLOWS)
      else if code = 3 then Inr (Reachable OPEN_WORKFLOWS)
      else if code = 4 then Inr (Reachable CLOSED_WORKFLOWS)
      else Inl (TypeError (''Unknown Build Id reachability operation: '' @ show_nat code)))"

type_synonym queue_map = "(string, reachability_response_type list) jsmap"

fun queues_loop :: "queue_map \<Rightarrow> queue_reachability list \<Rightarrow> queue_map res" where
  "queues_loop m [] = Inr m"
| "queues_loop m (q # qs) =
     (case qr_taskQueue q of
        None \<Rightarrow> queues_loop m qs
      | Some name \<Rightarrow>
          (case qr_reachability q of
             None \<Rightarrow> queues_loop (jset name [] m) qs
           | Some codes \<Rightarrow> and_then (map_res reachabilityTypeFromProto codes) (\<lambda>ts. queues_loop (jset name ts m) qs)))"

definition reachability_entry :: "build_id_reachability \<Rightarrow> (build_id \<times> queue_map) res" where
  "reachability_entry b =
     and_then (queues_loop [] (case br_taskQueues b of Some qs \<Rightarrow> qs | None \<Rightarrow> [])) (\<lambda>m. Inr (buildId_from_proto (br_buildId b), m))"

text \<open>\<open>Object.fromEntries\<close>: of several entries with one key the last counts.\<close>

definition reachabilityResponseFromProto :: "build_id_reachability list \<Rightarrow> (build_id, queue_map) jsmap res" where
  "reachabilityResponseFromProto resp =
     and_then (map_res reachability_entry resp) (\<lambda>es. Inr (foldl (\<lambda>m (k, v). jset k v m) [] es))"

definition getReachability ::
  "string \<Rightarrow> 's task_queue_service \<Rightarrow> build_id list option \<Rightarrow> string list option \<Rightarrow> reachability_type option \<Rightarrow> 's
     \<Rightarrow> (task_queue_error + (build_id, queue_map) jsmap) \<times> 's" where
  "getReachability ns S buildIds queues reach s =
     (case ts_reachability S \<lparr>rr_namespace = ns, rr_taskQueues = queues,
          rr_buildIds = map_option (map buildId_to_proto) buildIds, rr_reachability = reachabilityTypeToProto reach\<rparr> s of
        (Inl err, s') \<Rightarrow> (Inl (task_queue_error err ''Unexpected error fetching Build Id reachability''), s')
      | (Inr resp, s') \<Rightarrow>
          (case reachabilityResponseFromProto resp of Inl e \<Rightarrow> (Inl (QueueThrown e), s') | Inr r \<Rightarrow> (Inr r, s')))"

subsection \<open>Properties\<close>

text \<open>The sets that the client returns are those of the service, none of them empty, each with its last id as the default.\<close>

lemma versionSets_Inr:
  "map_res versionSetFromProto xs = Inr vs \<Longrightarrow>
     xs = map (\<lambda>v. Some (vs_buildIds v)) vs \<and> (\<forall>v \<in> set vs. vs_buildIds v \<noteq> [] \<and> vs_default v = last (vs_buildIds v))"
  by (induction xs arbitrary: vs)
    (force simp: and_then_eq_Inr versionSetFromProto_def split: option.splits list.splits)+

lemma default_build_id_last:
  assumes "getBuildIdCompatability ns S queue s = (Inr (Some vs), s')"
  shows "vs \<noteq> [] \<and> fst (ts_compatibility S (queue, ns) s) = Inr (Some (map (\<lambda>v. Some (vs_buildIds v)) vs))
    \<and> defaultBuildId vs = last (vs_buildIds (last vs))"
proof -
  obtain x xs where r: "ts_compatibility S (queue, ns) s = (Inr (Some (x # xs)), s')" "map_res versionSetFromProto (x # xs) = Inr vs"
    using assms by (auto simp: getBuildIdCompatability_def versionSetsFromProto_def split: prod.splits sum.splits option.splits list.splits)
  have "vs \<noteq> []" using map_res_length [OF r(2)] by auto
  then show ?thesis
    using versionSets_Inr [OF r(2)] by (simp add: r(1) defaultBuildId_def defaultSet_def)
qed

text \<open>The operation that adds a compatible version never asks the service to promote its set.\<close>

lemma promote_set_dropped:
  "updateBuildIdCompatibility ns S queue (AddNewCompatibleVersion b e promote) s
     = updateBuildIdCompatibility ns S queue (AddNewCompatibleVersion b e None) s"
  by (simp add: updateBuildIdCompatibility_def)

text \<open>The answer of a service about build ids, each with the reachability from its task queues.\<close>

type_synonym answer = "(build_id \<times> (string \<times> reachability_type list) list) list"

definition encode_answer :: "answer \<Rightarrow> build_id_reachability list" where
  "encode_answer = map (\<lambda>(b, qs). \<lparr>br_buildId = Some (buildId_to_proto b),
     br_taskQueues = Some (map (\<lambda>(q, ts). \<lparr>qr_taskQueue = Some q, qr_reachability = Some (map (\<lambda>t. reachabilityTypeToProto (Some t)) ts)\<rparr>) qs)\<rparr>)"

lemma reachabilityType_roundtrip: "reachabilityTypeFromProto (reachabilityTypeToProto (Some t)) = Inr (Reachable t)"
  by (cases t) (simp_all add: reachabilityTypeFromProto_def reachabilityTypeToProto_def)

lemma jset_new: "k \<notin> fst ` set m \<Longrightarrow> jset k v m = m @ [(k, v)]"
  by (induction k v m rule: jset.induct) auto

lemma from_entries: "distinct (map fst m @ map fst es) \<Longrightarrow> foldl (\<lambda>m (k, v). jset k v m) m es = m @ es"
proof (induction es arbitrary: m)
  case (Cons e es)
  then show ?case by (cases e) (auto simp: jset_new)
qed simp

lemma queues_loop_answer:
  "distinct (map fst m @ map fst qs) \<Longrightarrow>
     queues_loop m (map (\<lambda>(q, ts). \<lparr>qr_taskQueue = Some q, qr_reachability = Some (map (\<lambda>t. reachabilityTypeToProto (Some t)) ts)\<rparr>) qs)
     = Inr (m @ map (\<lambda>(q, ts). (q, map Reachable ts)) qs)"
proof (induction qs arbitrary: m)
  case (Cons p qs)
  obtain q ts where p: "p = (q, ts)" by fastforce
  have "map_res reachabilityTypeFromProto (map (\<lambda>t. reachabilityTypeToProto (Some t)) ts) = Inr (map Reachable ts)"
    by (induction ts) (simp_all add: reachabilityType_roundtrip)
  then show ?case using Cons by (auto simp: p jset_new)
qed simp

text \<open>
  What the service says about build ids is what the caller finds: under every build id, the stand-in for unversioned
  workers included, the task queues that were named, each with its reachability. So the ids of a request are the keys of its
  response.
\<close>

theorem reachability_by_build_id:
  assumes "distinct (map fst answer)" "BuildId [] \<notin> fst ` set answer" "\<forall>(b, qs) \<in> set answer. distinct (map fst qs)"
    and "ts_reachability S \<lparr>rr_namespace = ns, rr_taskQueues = queues,
          rr_buildIds = Some (map buildId_to_proto (map fst answer)), rr_reachability = reachabilityTypeToProto reach\<rparr> s
         = (Inr (encode_answer answer), s')"
  shows "getReachability ns S (Some (map fst answer)) queues reach s
         = (Inr (map (\<lambda>(b, qs). (b, map (\<lambda>(q, ts). (q, map Reachable ts)) qs)) answer), s')"
proof -
  let ?out = "\<lambda>(b, qs). (b, map (\<lambda>(q, ts). (q, map Reachable ts)) qs)"
  have "map_res reachability_entry (encode_answer answer) = Inr (map ?out answer)"
    using assms(2,3)
  proof (induction answer)
    case (Cons p answer)
    obtain b qs where p: "p = (b, qs)" by fastforce
    have "buildId_from_proto (Some (buildId_to_proto b)) = b"
      using Cons.prems(1) by (cases b) (auto simp: p buildId_from_proto_def buildId_to_proto_def)
    then show ?case using Cons queues_loop_answer [of "[]" qs] by (simp add: p encode_answer_def reachability_entry_def)
  qed (simp add: encode_answer_def)
  moreover have keys: "map fst (map ?out answer) = map fst answer" by (simp add: comp_def case_prod_unfold)
  have "foldl (\<lambda>m (k, v). jset k v m) [] (map ?out answer) = map ?out answer"
    using from_entries [of "[]" "map ?out answer"] assms(1) unfolding keys by simp
  ultimately show ?thesis using assms(4) by (simp add: getReachability_def reachabilityResponseFromProto_def)
qed

definition sample_answer :: answer where
  "sample_answer = [(Unversioned, [(''q'', [OPEN_WORKFLOWS])]), (BuildId ''1.0'', [(''q'', []), (''r'', [NEW_WORKFLOWS, CLOSED_WORKFLOWS])])]"

definition sample_task_queue_service :: "unit task_queue_service" where
  "sample_task_queue_service = \<lparr>ts_update = (\<lambda>_ s. (Inr (), s)), ts_compatibility = (\<lambda>_ s. (Inr None, s)),
     ts_reachability = (\<lambda>req s. (Inr (if rr_buildIds req = Some [[], ''1.0''] then encode_answer sample_answer else []), s))\<rparr>"

theorem reachability_by_build_id_witness:
  "getReachability ''default'' sample_task_queue_service (Some [Unversioned, BuildId ''1.0'']) None None ()
     = (Inr [(Unversioned, [(''q'', [Reachable OPEN_WORKFLOWS])]),
             (BuildId ''1.0'', [(''q'', []), (''r'', [Reachable NEW_WORKFLOWS, Reachable CLOSED_WORKFLOWS])])], ())"
  using reachability_by_build_id [of sample_answer sample_task_queue_service "''default''" None None "()" "()"]
  by (simp add: sample_answer_def sample_task_queue_service_def buildId_to_proto_def)

end
