(* ===== verification/Async_Completion.thy ===== *)
theory Async_Completion
  imports Client_Calls
begin

text \<open>
  The client that completes activities from outside a worker, packages/client/src/async-completion-client.ts. An activity is
  named by a task token or by its ids; the requests of the two forms differ in nothing else.
\<close>

datatype activity_ref = TaskToken bytes | FullActivityId string "string option" string

record 'b activity_request =
  aq_identity :: string
  aq_namespace :: string
  aq_activity :: activity_ref
  aq_body :: 'b

datatype activity_error =
    ActivityNotFoundError string
  | ActivityCompletionError string
  | ActivityCancelledError string
  | KnownClientError client_error
  | NotSent jsval

text \<open>The methods with a token, and those with ids (\<open>...ById\<close>). A heartbeat is answered with \<open>cancelRequested\<close>.\<close>

record 's activity_service =
  respondCompleted :: "(payload list option activity_request, unit, 's) service"
  respondCompletedById :: "(payload list option activity_request, unit, 's) service"
  respondFailed :: "(proto_failure activity_request, unit, 's) service"
  respondFailedById :: "(proto_failure activity_request, unit, 's) service"
  respondCanceled :: "(payload list option activity_request, unit, 's) service"
  respondCanceledById :: "(payload list option activity_request, unit, 's) service"
  recordHeartbeat :: "(payload list option activity_request, bool option, 's) service"
  recordHeartbeatById :: "(payload list option activity_request, bool option, 's) service"

record activity_client =
  ac_identity :: string
  ac_namespace :: string
  ac_dataConverter :: data_converter
  ac_text :: text_env

definition handleError :: "service_error \<Rightarrow> activity_error" where
  "handleError err =
     (case err of
        OtherError _ \<Rightarrow> ActivityCompletionError ''Unexpected failure''
      | GrpcError g \<Rightarrow>
          (case rethrowKnownErrorTypes g of
             Some e \<Rightarrow> KnownClientError e
           | None \<Rightarrow>
               if ge_code g = ''NOT_FOUND'' then ActivityNotFoundError ''Not found''
               else ActivityCompletionError (or_text (ge_details g) (ge_message g))))"

definition send_for ::
  "activity_client \<Rightarrow> ('b activity_request, 'r, 's) service \<Rightarrow> ('b activity_request, 'r, 's) service \<Rightarrow> activity_ref \<Rightarrow> 'b
     \<Rightarrow> 's \<Rightarrow> (service_error + 'r) \<times> 's" where
  "send_for C byToken byId ref b =
     (case ref of TaskToken _ \<Rightarrow> byToken | FullActivityId _ _ _ \<Rightarrow> byId)
       \<lparr>aq_identity = ac_identity C, aq_namespace = ac_namespace C, aq_activity = ref, aq_body = b\<rparr>"

text \<open>The body is made before the try block.\<close>

definition respond_call ::
  "activity_client \<Rightarrow> ('b activity_request, 'r, 's) service \<Rightarrow> ('b activity_request, 'r, 's) service \<Rightarrow> activity_ref \<Rightarrow> 'b res
     \<Rightarrow> 's \<Rightarrow> (activity_error + 'r) \<times> 's" where
  "respond_call C byToken byId ref body s =
     (case body of
        Inl e \<Rightarrow> (Inl (NotSent e), s)
      | Inr b \<Rightarrow>
          (case send_for C byToken byId ref b s of
             (Inl err, s') \<Rightarrow> (Inl (handleError err), s')
           | (Inr r, s') \<Rightarrow> (Inr r, s')))"

definition completeActivity :: "activity_client \<Rightarrow> 's activity_service \<Rightarrow> activity_ref \<Rightarrow> jsval \<Rightarrow> 's \<Rightarrow> (activity_error + unit) \<times> 's" where
  "completeActivity C S ref v =
     respond_call C (respondCompleted S) (respondCompletedById S) ref (encodeToPayloads (ac_dataConverter C) [v])"

definition failActivity :: "activity_client \<Rightarrow> 's activity_service \<Rightarrow> activity_ref \<Rightarrow> jsval \<Rightarrow> 's \<Rightarrow> (activity_error + unit) \<times> 's" where
  "failActivity C S ref err =
     respond_call C (respondFailed S) (respondFailedById S) ref
       (encodeErrorToFailure (ac_dataConverter C) (ensureTemporalFailure (ac_text C) err))"

definition reportCancellation :: "activity_client \<Rightarrow> 's activity_service \<Rightarrow> activity_ref \<Rightarrow> jsval \<Rightarrow> 's \<Rightarrow> (activity_error + unit) \<times> 's" where
  "reportCancellation C S ref details =
     respond_call C (respondCanceled S) (respondCanceledById S) ref (encodeToPayloads (ac_dataConverter C) [details])"

definition heartbeatActivity :: "activity_client \<Rightarrow> 's activity_service \<Rightarrow> activity_ref \<Rightarrow> jsval \<Rightarrow> 's \<Rightarrow> (activity_error + unit) \<times> 's" where
  "heartbeatActivity C S ref details s =
     (case respond_call C (recordHeartbeat S) (recordHeartbeatById S) ref (encodeToPayloads (ac_dataConverter C) [details]) s of
        (Inl e, s') \<Rightarrow> (Inl e, s')
      | (Inr cancelRequested, s') \<Rightarrow>
          (if cancelRequested = Some True then (Inl (ActivityCancelledError ''cancelled''), s') else (Inr (), s')))"

subsection \<open>Properties\<close>

lemma respond_call_taken:
  "respond_call C byToken byId ref body s = (Inr r, s') \<Longrightarrow> \<exists>b. body = Inr b \<and> send_for C byToken byId ref b s = (Inr r, s')"
  by (auto simp: respond_call_def split: sum.splits prod.splits)

text \<open>Nothing is sent that could not be encoded.\<close>

lemma respond_call_not_sent: "body = Inl e \<Longrightarrow> respond_call C byToken byId ref body s = (Inl (NotSent e), s)"
  by (simp add: respond_call_def)

lemma respond_call_not_cancelled: "fst (respond_call C byToken byId ref body s) \<noteq> Inl (ActivityCancelledError m)"
  by (auto simp: respond_call_def handleError_def split: sum.splits prod.splits service_error.splits option.splits)

text \<open>
  An activity that was completed from outside, by token or by ids, has sent a request for that very activity from which
  the workflow decodes the result that was passed. A heartbeat throws ActivityCancelledError exactly if the service has
  recorded its details and asked for the cancellation.
\<close>

theorem async_completion_sends_result:
  assumes "lossless (dc_payloadConverter (ac_dataConverter C))" "\<forall>c \<in> set (dc_codecs (ac_dataConverter C)). codec_lossless c"
  shows "(completeActivity C S ref v s = (Inr (), s') \<longrightarrow>
      (\<exists>ps. decodeArrayFromPayloads (ac_dataConverter C) ps = Inr [v]
         \<and> send_for C (respondCompleted S) (respondCompletedById S) ref ps s = (Inr (), s')))
    \<and> (heartbeatActivity C S ref v s = (Inl (ActivityCancelledError m), s') \<longrightarrow>
      (\<exists>ps. decodeArrayFromPayloads (ac_dataConverter C) ps = Inr [v]
         \<and> send_for C (recordHeartbeat S) (recordHeartbeatById S) ref ps s = (Inr (Some True), s')))
    \<and> (heartbeatActivity C S ref v s = (Inr (), s') \<longrightarrow>
      (\<exists>ps r. decodeArrayFromPayloads (ac_dataConverter C) ps = Inr [v] \<and> r \<noteq> Some True
         \<and> send_for C (recordHeartbeat S) (recordHeartbeatById S) ref ps s = (Inr r, s')))"
proof (intro conjI impI)
  note decodes = encoded_payloads_decode [OF assms]
  show "\<exists>ps. decodeArrayFromPayloads (ac_dataConverter C) ps = Inr [v]
      \<and> send_for C (respondCompleted S) (respondCompletedById S) ref ps s = (Inr (), s')"
    if "completeActivity C S ref v s = (Inr (), s')"
    using respond_call_taken [OF that [unfolded completeActivity_def]] decodes by blast
  let ?call = "respond_call C (recordHeartbeat S) (recordHeartbeatById S) ref (encodeToPayloads (ac_dataConverter C) [v]) s"
  show "\<exists>ps. decodeArrayFromPayloads (ac_dataConverter C) ps = Inr [v]
      \<and> send_for C (recordHeartbeat S) (recordHeartbeatById S) ref ps s = (Inr (Some True), s')"
    if "heartbeatActivity C S ref v s = (Inl (ActivityCancelledError m), s')"
  proof -
    have "?call = (Inr (Some True), s')"
      using that respond_call_not_cancelled [of C "recordHeartbeat S" "recordHeartbeatById S" ref "encodeToPayloads (ac_dataConverter C) [v]" s m]
      by (auto simp: heartbeatActivity_def split: sum.splits prod.splits if_splits)
    from respond_call_taken [OF this] show ?thesis using decodes by blast
  qed
  show "\<exists>ps r. decodeArrayFromPayloads (ac_dataConverter C) ps = Inr [v] \<and> r \<noteq> Some True
      \<and> send_for C (recordHeartbeat S) (recordHeartbeatById S) ref ps s = (Inr r, s')"
    if "heartbeatActivity C S ref v s = (Inr (), s')"
  proof -
    have "\<exists>r. ?call = (Inr r, s') \<and> r \<noteq> Some True"
      using that by (auto simp: heartbeatActivity_def split: sum.splits prod.splits if_splits)
    then obtain r where r: "?call = (Inr r, s')" "r \<noteq> Some True" by blast
    from respond_call_taken [OF r(1)] r(2) show ?thesis using decodes by blast
  qed
qed

text \<open>A service that keeps the bodies it was sent and asks to cancel at the second heartbeat.\<close>

definition sample_activity_service :: "payload list option list activity_service" where
  "sample_activity_service =
     \<lparr>respondCompleted = (\<lambda>req s. (Inr (), aq_body req # s)), respondCompletedById = (\<lambda>req s. (Inl (OtherError JNull), s)),
      respondFailed = (\<lambda>req s. (Inr (), s)), respondFailedById = (\<lambda>req s. (Inr (), s)),
      respondCanceled = (\<lambda>req s. (Inr (), aq_body req # s)), respondCanceledById = (\<lambda>req s. (Inr (), aq_body req # s)),
      recordHeartbeat = (\<lambda>req s. (Inr (if s = [] then None else Some True), aq_body req # s)),
      recordHeartbeatById = (\<lambda>req s. (Inr None, aq_body req # s))\<rparr>"

definition sample_activity_client :: activity_client where
  "sample_activity_client = \<lparr>ac_identity = ''me'', ac_namespace = ''default'', ac_dataConverter = cl_dataConverter sample_client,
     ac_text = sample_text\<rparr>"

theorem async_completion_sends_result_witness:
  "\<exists>t ps. completeActivity sample_activity_client sample_activity_service (TaskToken [7]) (JStr ''a'') [] = (Inr (), t)
     \<and> decodeArrayFromPayloads (ac_dataConverter sample_activity_client) ps = Inr [JStr ''a''] \<and> t = [ps]"
proof -
  have ok: "lossless (dc_payloadConverter (ac_dataConverter sample_activity_client))"
    "\<forall>c \<in> set (dc_codecs (ac_dataConverter sample_activity_client)). codec_lossless c"
    using sample_converter_lossless prefix_codec_ok(1) by (simp_all add: sample_activity_client_def sample_client_def)
  have "\<exists>ps. encodeToPayloads (cl_dataConverter sample_client) [JStr ''a''] = Inr ps"
    by (simp add: sample_client_def encodeToPayloads_def toPayloads_def sample_converter_def encode_def prefix_codec_def)
  then obtain qs where q: "encodeToPayloads (ac_dataConverter sample_activity_client) [JStr ''a''] = Inr qs"
    by (auto simp: sample_activity_client_def)
  have t: "completeActivity sample_activity_client sample_activity_service (TaskToken [7]) (JStr ''a'') [] = (Inr (), [qs])"
    unfolding completeActivity_def q by (simp add: respond_call_def send_for_def sample_activity_service_def)
  from async_completion_sends_result [OF ok, THEN conjunct1, THEN mp, OF t] obtain ps where ps: "decodeArrayFromPayloads (ac_dataConverter sample_activity_client) ps = Inr [JStr ''a'']"
    "send_for sample_activity_client (respondCompleted sample_activity_service) (respondCompletedById sample_activity_service)
       (TaskToken [7]) ps [] = (Inr (), [qs])"
    by (elim exE conjE)
  then have "[qs] = [ps]" by (simp add: send_for_def sample_activity_service_def)
  then show ?thesis using t ps(1) by blast
qed

end
