(* ===== verification/Core_Runtime.thy ===== *)
theory Core_Runtime
  imports Sdk_Prelude
begin

text \<open>
  The singleton of packages/worker/src/runtime.ts that stands for the native core, and the connections of connection.ts that
  use it. The native objects are numbers; creating one may fail. All runtimes a process ever had are kept in a function, of
  which the singleton names one. A step is the code between two awaits.
\<close>

subsection \<open>State\<close>

datatype runtime_state = RUNNING | SHUTTING_DOWN

datatype instantiator = ByInstall | ByInstance

record runtime =
  pendingCreations :: nat
  backRefs :: "nat set"
  shutdownSignalCallbacks :: "nat list"
  hooked :: bool
  rt_status :: runtime_state
  native_shutdowns :: nat

text \<open>\<open>microtasks\<close> are the callbacks queued to run later.\<close>

record 'o runtimes =
  rs_instance :: "nat option"
  rs_instantiator :: "instantiator option"
  rs_defaultOptions :: 'o
  rs_runtimes :: "nat \<Rightarrow> runtime"
  rs_options :: "nat \<Rightarrow> 'o"
  rs_next :: nat
  rs_microtasks :: "nat list"

definition fresh_runtime :: runtime where
  "fresh_runtime = \<lparr>pendingCreations = 0, backRefs = {}, shutdownSignalCallbacks = [], hooked = True, rt_status = RUNNING, native_shutdowns = 0\<rparr>"

definition no_runtimes :: "'o \<Rightarrow> 'o runtimes" where
  "no_runtimes opts = \<lparr>rs_instance = None, rs_instantiator = None, rs_defaultOptions = opts, rs_runtimes = (\<lambda>_. fresh_runtime),
     rs_options = (\<lambda>_. opts), rs_next = 0, rs_microtasks = []\<rparr>"

definition upd_runtime :: "nat \<Rightarrow> (runtime \<Rightarrow> runtime) \<Rightarrow> 'o runtimes \<Rightarrow> 'o runtimes" where
  "upd_runtime r f G = G\<lparr>rs_runtimes := (rs_runtimes G)(r := f (rs_runtimes G r))\<rparr>"

subsection \<open>Operations\<close>

text \<open>
  \<open>create\<close>. Compiling the options or creating the native runtime may throw: then the second argument is the error, and the
  options and the instantiator have been replaced all the same.
\<close>

definition create_runtime :: "'o \<Rightarrow> string option \<Rightarrow> instantiator \<Rightarrow> 'o runtimes \<Rightarrow> (string + nat) \<times> 'o runtimes" where
  "create_runtime opts err i G =
     (let G' = G\<lparr>rs_defaultOptions := opts, rs_instantiator := Some i\<rparr>; r = rs_next G in
      case err of
        Some e \<Rightarrow> (Inl e, G')
      | None \<Rightarrow> (Inr r, G'\<lparr>rs_instance := Some r, rs_next := Suc r, rs_runtimes := (rs_runtimes G)(r := fresh_runtime),
                           rs_options := (rs_options G)(r := opts)\<rparr>))"

definition install :: "'o \<Rightarrow> string option \<Rightarrow> 'o runtimes \<Rightarrow> (string + nat) \<times> 'o runtimes" where
  "install opts err G =
     (if rs_instance G \<noteq> None \<and> rs_instantiator G = Some ByInstall then (Inl ''Runtime singleton has already been installed'', G)
      else if rs_instance G \<noteq> None \<and> rs_instantiator G = Some ByInstance
        then (Inl ''Runtime singleton has already been instantiated. Did you start a Worker before calling `install`?'', G)
      else create_runtime opts err ByInstall G)"

definition runtime_instance :: "string option \<Rightarrow> 'o runtimes \<Rightarrow> (string + nat) \<times> 'o runtimes" where
  "runtime_instance err G =
     (case rs_instance G of Some r \<Rightarrow> (Inr r, G) | None \<Rightarrow> create_runtime (rs_defaultOptions G) err ByInstance G)"

definition isIdle :: "runtime \<Rightarrow> bool" where
  "isIdle R \<longleftrightarrow> pendingCreations R = 0 \<and> backRefs R = {}"

definition shutdown_runtime :: "nat \<Rightarrow> 'o runtimes \<Rightarrow> 'o runtimes" where
  "shutdown_runtime r G =
     (upd_runtime r (\<lambda>R. R\<lparr>hooked := False, native_shutdowns := Suc (native_shutdowns R)\<rparr>) G)\<lparr>rs_instance := None\<rparr>"

definition shutdownIfIdle :: "nat \<Rightarrow> 'o runtimes \<Rightarrow> 'o runtimes" where
  "shutdownIfIdle r G = (if isIdle (rs_runtimes G r) then shutdown_runtime r G else G)"

text \<open>\<open>createNative\<close> up to its await, and after it with the object or an error. Creations start on \<open>Runtime.instance()\<close>.\<close>

definition begin_creation :: "string option \<Rightarrow> 'o runtimes \<Rightarrow> (string + nat) \<times> 'o runtimes" where
  "begin_creation err G =
     (case runtime_instance err G of
        (Inl e, G') \<Rightarrow> (Inl e, G')
      | (Inr r, G') \<Rightarrow> (Inr r, upd_runtime r (\<lambda>R. R\<lparr>pendingCreations := Suc (pendingCreations R)\<rparr>) G'))"

definition creation_succeeds :: "nat \<Rightarrow> nat \<Rightarrow> 'o runtimes \<Rightarrow> 'o runtimes" where
  "creation_succeeds r ref =
     upd_runtime r (\<lambda>R. R\<lparr>backRefs := insert ref (backRefs R), pendingCreations := pendingCreations R - 1\<rparr>)"

definition creation_fails :: "nat \<Rightarrow> 'o runtimes \<Rightarrow> 'o runtimes" where
  "creation_fails r G = shutdownIfIdle r (upd_runtime r (\<lambda>R. R\<lparr>pendingCreations := pendingCreations R - 1\<rparr>) G)"

text \<open>\<open>closeNativeClient\<close>, \<open>deregisterWorker\<close> and \<open>shutdownEphemeralServer\<close> after the native call.\<close>

definition release :: "nat \<Rightarrow> nat \<Rightarrow> 'o runtimes \<Rightarrow> 'o runtimes" where
  "release r ref G = shutdownIfIdle r (upd_runtime r (\<lambda>R. R\<lparr>backRefs := backRefs R - {ref}\<rparr>) G)"

subsection \<open>Signals\<close>

text \<open>Sets keep the order of insertion.\<close>

definition set_add :: "nat \<Rightarrow> nat list \<Rightarrow> nat list" where
  "set_add x xs = (if x \<in> set xs then xs else xs @ [x])"

definition registerShutdownSignalCallback :: "nat \<Rightarrow> nat \<Rightarrow> 'o runtimes \<Rightarrow> 'o runtimes" where
  "registerShutdownSignalCallback r c G =
     (if rt_status (rs_runtimes G r) = RUNNING
      then upd_runtime r (\<lambda>R. R\<lparr>shutdownSignalCallbacks := set_add c (shutdownSignalCallbacks R)\<rparr>) G
      else G\<lparr>rs_microtasks := rs_microtasks G @ [c]\<rparr>)"

definition deregisterShutdownSignalCallback :: "nat \<Rightarrow> nat \<Rightarrow> 'o runtimes \<Rightarrow> 'o runtimes" where
  "deregisterShutdownSignalCallback r c =
     upd_runtime r (\<lambda>R. R\<lparr>shutdownSignalCallbacks := removeAll c (shutdownSignalCallbacks R)\<rparr>)"

fun queue_callbacks :: "nat \<Rightarrow> nat list \<Rightarrow> 'o runtimes \<Rightarrow> 'o runtimes" where
  "queue_callbacks r [] G = G"
| "queue_callbacks r (c # cs) G =
     queue_callbacks r cs (deregisterShutdownSignalCallback r c (G\<lparr>rs_microtasks := rs_microtasks G @ [c]\<rparr>))"

definition startShutdownSequence :: "nat \<Rightarrow> 'o runtimes \<Rightarrow> 'o runtimes" where
  "startShutdownSequence r G =
     (let G' = upd_runtime r (\<lambda>R. R\<lparr>rt_status := SHUTTING_DOWN, hooked := False\<rparr>) G in
      queue_callbacks r (shutdownSignalCallbacks (rs_runtimes G' r)) G')"

text \<open>A signal reaches the runtimes that listen.\<close>

definition on_signal :: "nat \<Rightarrow> 'o runtimes \<Rightarrow> 'o runtimes" where
  "on_signal r G = (if hooked (rs_runtimes G r) then startShutdownSequence r G else G)"

subsection \<open>Runs\<close>

inductive runtime_step :: "'o runtimes \<Rightarrow> 'o runtimes \<Rightarrow> bool" where
  rs_install: "runtime_step G (snd (install opts err G))"
| rs_get_instance: "runtime_step G (snd (runtime_instance err G))"
| rs_begin: "runtime_step G (snd (begin_creation err G))"
| rs_created: "0 < pendingCreations (rs_runtimes G r) \<Longrightarrow> runtime_step G (creation_succeeds r ref G)"
| rs_failed: "0 < pendingCreations (rs_runtimes G r) \<Longrightarrow> runtime_step G (creation_fails r G)"
| rs_release: "ref \<in> backRefs (rs_runtimes G r) \<Longrightarrow> runtime_step G (release r ref G)"
| rs_register: "rs_instance G = Some r \<Longrightarrow> runtime_step G (registerShutdownSignalCallback r c G)"
| rs_deregister: "runtime_step G (deregisterShutdownSignalCallback r c G)"
| rs_signal: "r < rs_next G \<Longrightarrow> runtime_step G (on_signal r G)"

inductive runtime_run :: "'o runtimes \<Rightarrow> bool" where
  run_start: "runtime_run (no_runtimes opts)"
| run_step: "runtime_run G \<Longrightarrow> runtime_step G G' \<Longrightarrow> runtime_run G'"

text \<open>
  The invariant: a runtime that does not exist yet or was shut down is idle; one that exists is shut down at most once, and
  not before it is idle; the singleton is the only one that was not shut down; no callback is registered twice.
\<close>

definition runtimes_ok :: "'o runtimes \<Rightarrow> bool" where
  "runtimes_ok G \<longleftrightarrow>
     (\<forall>r. rs_next G \<le> r \<or> 0 < native_shutdowns (rs_runtimes G r) \<longrightarrow> isIdle (rs_runtimes G r))
     \<and> (\<forall>r. native_shutdowns (rs_runtimes G r) \<le> 1)
     \<and> (\<forall>r < rs_next G. native_shutdowns (rs_runtimes G r) = 0 \<longleftrightarrow> rs_instance G = Some r)
     \<and> (\<forall>r. rs_instance G = Some r \<longrightarrow> r < rs_next G \<and> rs_instantiator G \<noteq> None)
     \<and> (\<forall>r. distinct (shutdownSignalCallbacks (rs_runtimes G r)))"

lemma rs_upd [simp]:
  "rs_instance (upd_runtime r f G) = rs_instance G" "rs_next (upd_runtime r f G) = rs_next G"
  "rs_microtasks (upd_runtime r f G) = rs_microtasks G" "rs_instantiator (upd_runtime r f G) = rs_instantiator G"
  "rs_runtimes (upd_runtime r f G) r' = (if r' = r then f (rs_runtimes G r) else rs_runtimes G r')"
  by (simp_all add: upd_runtime_def)

lemma isIdle_other [simp]:
  "isIdle (R\<lparr>rt_status := st\<rparr>) = isIdle R" "isIdle (R\<lparr>hooked := h\<rparr>) = isIdle R" "isIdle (R\<lparr>shutdownSignalCallbacks := cs\<rparr>) = isIdle R"
  by (simp_all add: isIdle_def)

lemma queue_callbacks_keeps:
  "rs_instance (queue_callbacks r cs G) = rs_instance G" "rs_next (queue_callbacks r cs G) = rs_next G"
  "rs_instantiator (queue_callbacks r cs G) = rs_instantiator G"
  "native_shutdowns (rs_runtimes (queue_callbacks r cs G) r') = native_shutdowns (rs_runtimes G r')"
  "isIdle (rs_runtimes (queue_callbacks r cs G) r') = isIdle (rs_runtimes G r')"
  "hooked (rs_runtimes (queue_callbacks r cs G) r') = hooked (rs_runtimes G r')"
  "rt_status (rs_runtimes (queue_callbacks r cs G) r') = rt_status (rs_runtimes G r')"
  by (induction cs arbitrary: G) (simp_all add: deregisterShutdownSignalCallback_def)

lemma queue_callbacks_all:
  "rs_microtasks (queue_callbacks r cs G) = rs_microtasks G @ cs"
  "shutdownSignalCallbacks (rs_runtimes (queue_callbacks r cs G) r')
     = (if r' = r then filter (\<lambda>c. c \<notin> set cs) (shutdownSignalCallbacks (rs_runtimes G r)) else shutdownSignalCallbacks (rs_runtimes G r'))"
  by (induction cs arbitrary: G)
    (auto simp: deregisterShutdownSignalCallback_def removeAll_filter_not_eq intro!: filter_cong)

lemma set_add_distinct [simp]: "distinct xs \<Longrightarrow> distinct (set_add x xs)"
  by (simp add: set_add_def)

lemma distinct_removeAll_cb [simp]: "distinct xs \<Longrightarrow> distinct (removeAll (x :: nat) xs)"
  by (simp add: distinct_removeAll)

lemma runtimes_ok_same:
  assumes "runtimes_ok G" "rs_instance G' = rs_instance G" "rs_next G' = rs_next G" "rs_instantiator G' = rs_instantiator G"
    "\<And>r. native_shutdowns (rs_runtimes G' r) = native_shutdowns (rs_runtimes G r)" "\<And>r. isIdle (rs_runtimes G' r) = isIdle (rs_runtimes G r)"
    "\<And>r. distinct (shutdownSignalCallbacks (rs_runtimes G' r))"
  shows "runtimes_ok G'"
  using assms unfolding runtimes_ok_def by metis

lemma live_if_busy: "runtimes_ok G \<Longrightarrow> \<not> isIdle (rs_runtimes G r) \<Longrightarrow> rs_instance G = Some r \<and> r < rs_next G \<and> native_shutdowns (rs_runtimes G r) = 0"
  unfolding runtimes_ok_def by (metis not_gr_zero not_le)

lemma callbacks_distinct: "runtimes_ok G \<Longrightarrow> distinct (shutdownSignalCallbacks (rs_runtimes G r))"
  by (simp add: runtimes_ok_def)

lemma create_ok: "runtimes_ok G \<Longrightarrow> rs_instance G = None \<Longrightarrow> runtimes_ok (snd (create_runtime opts err i G))"
  unfolding runtimes_ok_def create_runtime_def fresh_runtime_def isIdle_def Let_def
  by (cases err) (auto simp: less_Suc_eq le_Suc_eq)

lemma install_ok: "runtimes_ok G \<Longrightarrow> runtimes_ok (snd (install opts err G))"
proof (cases "rs_instance G")
  case None
  assume "runtimes_ok G"
  then show ?thesis using create_ok [of G opts err ByInstall] None by (simp add: install_def)
next
  case (Some r)
  assume ok: "runtimes_ok G"
  then have "rs_instantiator G \<noteq> None" using Some by (auto simp: runtimes_ok_def)
  then obtain i where i: "rs_instantiator G = Some i" by auto
  then show ?thesis using ok Some by (cases i) (auto simp: install_def)
qed

lemma instance_ok: "runtimes_ok G \<Longrightarrow> runtimes_ok (snd (runtime_instance err G))"
  using create_ok [of G "rs_defaultOptions G" err ByInstance] by (cases "rs_instance G") (auto simp: runtime_instance_def)

lemma instance_is_live: "runtime_instance err G = (Inr r, G') \<Longrightarrow> rs_instance G' = Some r"
  by (cases "rs_instance G"; cases err) (auto simp: runtime_instance_def create_runtime_def Let_def)

lemma change_live:
  assumes "runtimes_ok G" "rs_instance G = Some r" "native_shutdowns (f (rs_runtimes G r)) = native_shutdowns (rs_runtimes G r)"
    "distinct (shutdownSignalCallbacks (f (rs_runtimes G r)))"
  shows "runtimes_ok (upd_runtime r f G)"
  using assms unfolding runtimes_ok_def rs_upd by (auto split: if_splits)

lemma shutdownIfIdle_ok:
  assumes "runtimes_ok G" "rs_instance G = Some r"
  shows "runtimes_ok (shutdownIfIdle r G)"
  using assms unfolding runtimes_ok_def shutdownIfIdle_def shutdown_runtime_def
  by (auto simp: isIdle_def)

lemma signal_ok: "runtimes_ok G \<Longrightarrow> runtimes_ok (on_signal r G)"
proof -
  assume ok: "runtimes_ok G"
  have "runtimes_ok (startShutdownSequence r G)"
    by (rule runtimes_ok_same [OF ok])
      (auto simp: startShutdownSequence_def Let_def queue_callbacks_keeps queue_callbacks_all callbacks_distinct [OF ok])
  then show ?thesis using ok by (simp add: on_signal_def)
qed

lemma begin_ok: "runtimes_ok G \<Longrightarrow> runtimes_ok (snd (begin_creation err G))"
proof -
  assume ok: "runtimes_ok G"
  obtain x G1 where i: "runtime_instance err G = (x, G1)" by fastforce
  then have ok1: "runtimes_ok G1" using instance_ok [OF ok, of err] by simp
  show ?thesis
  proof (cases x)
    case (Inl e)
    then show ?thesis using ok1 i by (simp add: begin_creation_def)
  next
    case (Inr r)
    then have "rs_instance G1 = Some r" using instance_is_live i by simp
    then show ?thesis using change_live [OF ok1] i Inr callbacks_distinct [OF ok1] by (simp add: begin_creation_def)
  qed
qed

lemma register_ok: "runtimes_ok G \<Longrightarrow> runtimes_ok (registerShutdownSignalCallback r c G)"
proof -
  assume ok: "runtimes_ok G"
  show ?thesis
    by (rule runtimes_ok_same [OF ok]) (simp_all add: registerShutdownSignalCallback_def callbacks_distinct [OF ok])
qed

lemma deregister_ok: "runtimes_ok G \<Longrightarrow> runtimes_ok (deregisterShutdownSignalCallback r c G)"
proof -
  assume ok: "runtimes_ok G"
  show ?thesis
    by (rule runtimes_ok_same [OF ok]) (simp_all add: deregisterShutdownSignalCallback_def callbacks_distinct [OF ok])
qed

lemma step_ok: "runtime_step G G' \<Longrightarrow> runtimes_ok G \<Longrightarrow> runtimes_ok G'"
proof (induction rule: runtime_step.induct)
  case (rs_install G opts err)
  then show ?case by (rule install_ok)
next
  case (rs_get_instance G err)
  then show ?case by (rule instance_ok)
next
  case (rs_begin G err)
  then show ?case by (rule begin_ok)
next
  case (rs_created G r ref)
  then have "rs_instance G = Some r" using live_if_busy [of G r] by (auto simp: isIdle_def)
  then show ?case by (auto simp: creation_succeeds_def rs_created callbacks_distinct intro!: shutdownIfIdle_ok change_live)
next
  case (rs_failed G r)
  then have "rs_instance G = Some r" using live_if_busy [of G r] by (auto simp: isIdle_def)
  then show ?case by (auto simp: creation_fails_def rs_failed callbacks_distinct intro!: shutdownIfIdle_ok change_live)
next
  case (rs_release ref G r)
  then have "rs_instance G = Some r" using live_if_busy [of G r] by (auto simp: isIdle_def)
  then show ?case by (auto simp: release_def rs_release callbacks_distinct intro!: shutdownIfIdle_ok change_live)
next
  case (rs_register r G c)
  then show ?case using register_ok by blast
next
  case (rs_deregister G r c)
  then show ?case using deregister_ok by blast
next
  case (rs_signal r G)
  then show ?case by (simp add: signal_ok)
qed

lemma run_ok: "runtime_run G \<Longrightarrow> runtimes_ok G"
proof (induction rule: runtime_run.induct)
  case (run_start opts)
  show ?case by (simp add: runtimes_ok_def no_runtimes_def fresh_runtime_def isIdle_def)
next
  case (run_step G G')
  then show ?case using step_ok by blast
qed

subsection \<open>Properties\<close>

text \<open>\<open>live\<close>: the native runtime exists and was not shut down.\<close>

definition live :: "'o runtimes \<Rightarrow> nat \<Rightarrow> bool" where
  "live G r \<longleftrightarrow> r < rs_next G \<and> native_shutdowns (rs_runtimes G r) = 0"

lemma live_iff: "runtimes_ok G \<Longrightarrow> live G r \<longleftrightarrow> rs_instance G = Some r"
  by (auto simp: runtimes_ok_def live_def)

lemma release_last:
  "runtimes_ok G \<Longrightarrow> backRefs (rs_runtimes G r) = {ref} \<Longrightarrow> pendingCreations (rs_runtimes G r) = 0 \<Longrightarrow>
     rs_instance (release r ref G) = None \<and> native_shutdowns (rs_runtimes (release r ref G) r) = 1
     \<and> \<not> hooked (rs_runtimes (release r ref G) r) \<and> rs_defaultOptions (release r ref G) = rs_defaultOptions G"
  using live_if_busy [of G r]
  by (simp add: release_def shutdownIfIdle_def shutdown_runtime_def isIdle_def upd_runtime_def)

lemma instance_after:
  "rs_instance G = None \<Longrightarrow>
     \<exists>G'. runtime_instance None G = (Inr (rs_next G), G') \<and> rs_options G' (rs_next G) = rs_defaultOptions G
        \<and> rs_instantiator G' = Some ByInstance"
  by (simp add: runtime_instance_def create_runtime_def Let_def)

definition one_native_runtime :: "'o runtimes \<Rightarrow> bool" where
  "one_native_runtime G \<longleftrightarrow>
     (\<forall>r. live G r \<longleftrightarrow> rs_instance G = Some r)
     \<and> (\<forall>r. native_shutdowns (rs_runtimes G r) \<le> 1 \<and> (0 < native_shutdowns (rs_runtimes G r) \<longrightarrow> isIdle (rs_runtimes G r)))
     \<and> (\<forall>r ref. backRefs (rs_runtimes G r) = {ref} \<and> pendingCreations (rs_runtimes G r) = 0 \<longrightarrow>
          native_shutdowns (rs_runtimes (release r ref G) r) = 1
          \<and> (\<exists>G'. runtime_instance None (release r ref G) = (Inr (rs_next G), G') \<and> rs_options G' (rs_next G) = rs_defaultOptions G))"

lemma next_release: "rs_next (release r ref G) = rs_next G"
  by (simp add: release_def shutdownIfIdle_def shutdown_runtime_def)

lemma ok_one_native_runtime: "runtimes_ok G \<Longrightarrow> one_native_runtime G"
  unfolding one_native_runtime_def
proof (intro conjI allI impI)
  fix r
  assume ok: "runtimes_ok G"
  show "live G r \<longleftrightarrow> rs_instance G = Some r" by (rule live_iff [OF ok])
  show "native_shutdowns (rs_runtimes G r) \<le> 1" using ok by (simp add: runtimes_ok_def)
  show "0 < native_shutdowns (rs_runtimes G r) \<Longrightarrow> isIdle (rs_runtimes G r)" using ok by (simp add: runtimes_ok_def)
  fix ref
  assume "backRefs (rs_runtimes G r) = {ref} \<and> pendingCreations (rs_runtimes G r) = 0"
  then have last: "rs_instance (release r ref G) = None" "native_shutdowns (rs_runtimes (release r ref G) r) = 1"
    "rs_defaultOptions (release r ref G) = rs_defaultOptions G" using release_last [OF ok] by auto
  then show "native_shutdowns (rs_runtimes (release r ref G) r) = 1" by simp
  show "\<exists>G'. runtime_instance None (release r ref G) = (Inr (rs_next G), G') \<and> rs_options G' (rs_next G) = rs_defaultOptions G"
    using instance_after [OF last(1)] last(3) next_release by metis
qed


definition sample_runtimes :: "nat runtimes" where
  "sample_runtimes = creation_succeeds 0 7 (snd (begin_creation None (no_runtimes 5)))"

lemma sample_runtimes_reachable: "runtime_run sample_runtimes"
proof -
  have "runtime_run (snd (begin_creation None (no_runtimes 5)))"
    by (rule run_step [OF run_start rs_begin])
  moreover have "0 < pendingCreations (rs_runtimes (snd (begin_creation None (no_runtimes 5))) 0)"
    by (simp add: begin_creation_def runtime_instance_def create_runtime_def no_runtimes_def Let_def)
  ultimately show ?thesis unfolding sample_runtimes_def by (rule run_step [OF _ rs_created])
qed


lemma signal_effect:
  assumes "hooked (rs_runtimes G r)"
  shows "rs_microtasks (on_signal r G) = rs_microtasks G @ shutdownSignalCallbacks (rs_runtimes G r)"
    "shutdownSignalCallbacks (rs_runtimes (on_signal r G) r) = []" "\<not> hooked (rs_runtimes (on_signal r G) r)"
    "rt_status (rs_runtimes (on_signal r G) r) = SHUTTING_DOWN"
  using assms
  by (simp_all add: on_signal_def startShutdownSequence_def Let_def queue_callbacks_all queue_callbacks_keeps filter_empty_conv)

lemma registered_waits:
  "rt_status (rs_runtimes G r) = RUNNING \<Longrightarrow>
     c \<in> set (shutdownSignalCallbacks (rs_runtimes (registerShutdownSignalCallback r c G) r))
     \<and> rs_microtasks (registerShutdownSignalCallback r c G) = rs_microtasks G"
  by (simp add: registerShutdownSignalCallback_def set_add_def)

text \<open>
  A signal queues every callback that workers have registered, each exactly once, in the order of registration, and empties
  the set; a second signal does nothing; and a callback that is registered after the signal is queued at once, so that a worker
  started while the process goes down is told as well.
\<close>

theorem signal_reaches_every_callback:
  assumes "runtime_run G" and "hooked (rs_runtimes G r)"
  shows "\<exists>queued. rs_microtasks (on_signal r G) = rs_microtasks G @ queued \<and> distinct queued
      \<and> set queued = set (shutdownSignalCallbacks (rs_runtimes G r))
      \<and> shutdownSignalCallbacks (rs_runtimes (on_signal r G) r) = []
      \<and> on_signal r (on_signal r G) = on_signal r G
      \<and> rs_microtasks (registerShutdownSignalCallback r c (on_signal r G)) = rs_microtasks G @ queued @ [c]"
proof (intro exI conjI)
  let ?cs = "shutdownSignalCallbacks (rs_runtimes G r)"
  show "rs_microtasks (on_signal r G) = rs_microtasks G @ ?cs" by (rule signal_effect [OF assms(2)])
  show "distinct ?cs" by (rule callbacks_distinct [OF run_ok [OF assms(1)]])
  show "on_signal r (on_signal r G) = on_signal r G" using signal_effect(3) [OF assms(2)] by (simp add: on_signal_def [of r "on_signal r G"])
  show "rs_microtasks (registerShutdownSignalCallback r c (on_signal r G)) = rs_microtasks G @ ?cs @ [c]"
    using signal_effect(1,4) [OF assms(2)] by (simp add: registerShutdownSignalCallback_def)
qed (simp_all add: signal_effect(2) [OF assms(2)])

lemma signal_reaches_every_callback_witness:
  "rs_microtasks (on_signal 0 (registerShutdownSignalCallback 0 9 (registerShutdownSignalCallback 0 3 sample_runtimes))) = [3, 9]"
proof -
  let ?G = "registerShutdownSignalCallback 0 9 (registerShutdownSignalCallback 0 3 sample_runtimes)"
  have inst: "rs_instance sample_runtimes = Some 0"
    by (simp add: sample_runtimes_def creation_succeeds_def begin_creation_def runtime_instance_def create_runtime_def no_runtimes_def Let_def)
  have "runtime_run (registerShutdownSignalCallback 0 3 sample_runtimes)"
    by (rule run_step [OF sample_runtimes_reachable rs_register [OF inst]])
  then have run: "runtime_run ?G"
    by (rule run_step [OF _ rs_register]) (simp add: registerShutdownSignalCallback_def inst)
  have st: "shutdownSignalCallbacks (rs_runtimes ?G 0) = [3, 9]" "hooked (rs_runtimes ?G 0)" "rs_microtasks ?G = []"
    by (simp_all add: registerShutdownSignalCallback_def set_add_def sample_runtimes_def creation_succeeds_def begin_creation_def
        runtime_instance_def create_runtime_def no_runtimes_def fresh_runtime_def Let_def upd_runtime_def)
  obtain qd where "rs_microtasks (on_signal 0 ?G) = rs_microtasks ?G @ qd"
    using signal_reaches_every_callback [OF run st(2)] by blast
  then show ?thesis using signal_effect(1) [OF st(2)] st by simp
qed

end
