(* ===== verification/Uuids.thy ===== *)
theory Uuids
  imports Sdk_Prelude
begin

text \<open>
  \<open>uuid4\<close> of packages/workflow/src/workflow.ts. The four numbers that \<open>Math.random()\<close> returns are arguments, rationals in
  [0, 1): multiplying a double by a power of two is exact. The buffer is a list of 16 bytes, written and read in
  network order as a \<open>DataView\<close> does.
\<close>

unbundle bit_operations_syntax

subsection \<open>Hexadecimal text\<close>

definition hex_digit :: "nat \<Rightarrow> char" where
  "hex_digit n = ''0123456789abcdef'' ! n"

fun to_hex :: "nat \<Rightarrow> string" where
  "to_hex n = (if n < 16 then [hex_digit n] else to_hex (n div 16) @ [hex_digit (n mod 16)])"

definition padStart :: "nat \<Rightarrow> char \<Rightarrow> string \<Rightarrow> string" where
  "padStart p c s = replicate (p - length s) c @ s"

definition ho :: "nat \<Rightarrow> nat \<Rightarrow> string" where
  "ho n p = padStart p (CHR ''0'') (to_hex n)"

declare to_hex.simps [simp del]

subsection \<open>The buffer\<close>

type_synonym view = "8 word list"

definition setUint8 :: "nat \<Rightarrow> 8 word \<Rightarrow> view \<Rightarrow> view" where
  "setUint8 i b v = v[i := b]"

definition setUint32 :: "nat \<Rightarrow> nat \<Rightarrow> view \<Rightarrow> view" where
  "setUint32 i n v = v[i := word_of_nat (n div 2 ^ 24), i + 1 := word_of_nat (n div 2 ^ 16), i + 2 := word_of_nat (n div 2 ^ 8), i + 3 := word_of_nat n]"

definition getUint16 :: "view \<Rightarrow> nat \<Rightarrow> nat" where
  "getUint16 v i = unat (v ! i) * 256 + unat (v ! (i + 1))"

definition getUint32 :: "view \<Rightarrow> nat \<Rightarrow> nat" where
  "getUint32 v i = ((unat (v ! i) * 256 + unat (v ! (i + 1))) * 256 + unat (v ! (i + 2))) * 256 + unat (v ! (i + 3))"

definition random_uint32 :: "rat \<Rightarrow> nat" where
  "random_uint32 r = nat (\<lfloor>r * 2 ^ 32\<rfloor> mod 2 ^ 32)"

subsection \<open>\<open>uuid4\<close>\<close>

definition random_bytes :: "rat \<Rightarrow> rat \<Rightarrow> rat \<Rightarrow> rat \<Rightarrow> view" where
  "random_bytes r0 r1 r2 r3 =
     setUint32 12 (random_uint32 r3) (setUint32 8 (random_uint32 r2)
       (setUint32 4 (random_uint32 r1) (setUint32 0 (random_uint32 r0) (replicate 16 0))))"

definition patch_version :: "view \<Rightarrow> view" where
  "patch_version v =
     (let v1 = setUint8 6 ((v ! 6 AND 0xf) OR 0x40) v in setUint8 8 ((v1 ! 8 AND 0x3f) OR 0x80) v1)"

definition uuid_text :: "view \<Rightarrow> string" where
  "uuid_text v =
     ho (getUint32 v 0) 8 @ ''-'' @ ho (getUint16 v 4) 4 @ ''-'' @ ho (getUint16 v 6) 4 @ ''-'' @ ho (getUint16 v 8) 4 @ ''-''
       @ ho (getUint32 v 10) 8 @ ho (getUint16 v 14) 4"

definition uuid4 :: "rat \<Rightarrow> rat \<Rightarrow> rat \<Rightarrow> rat \<Rightarrow> string" where
  "uuid4 r0 r1 r2 r3 = uuid_text (patch_version (random_bytes r0 r1 r2 r3))"

subsection \<open>The specification: the bytes in order, two digits each\<close>

definition byte_text :: "8 word \<Rightarrow> string" where
  "byte_text b = [hex_digit (unat b div 16), hex_digit (unat b mod 16)]"

definition canonical_text :: "view \<Rightarrow> string" where
  "canonical_text v =
     concat (map byte_text (take 4 v)) @ ''-'' @ concat (map byte_text (take 2 (drop 4 v))) @ ''-''
       @ concat (map byte_text (take 2 (drop 6 v))) @ ''-'' @ concat (map byte_text (take 2 (drop 8 v))) @ ''-''
       @ concat (map byte_text (drop 10 v))"

lemma hex_digit_inj: "a < 16 \<Longrightarrow> b < 16 \<Longrightarrow> hex_digit a = hex_digit b \<Longrightarrow> a = b"
proof -
  have "distinct ''0123456789abcdef''" by simp
  then show "a < 16 \<Longrightarrow> b < 16 \<Longrightarrow> hex_digit a = hex_digit b \<Longrightarrow> a = b"
    unfolding hex_digit_def by (subst (asm) nth_eq_iff_index_eq) simp_all
qed

lemma to_hex_length: "n < 16 ^ Suc p \<Longrightarrow> length (to_hex n) \<le> Suc p"
proof (induction p arbitrary: n)
  case 0
  then show ?case by (simp add: to_hex.simps [of n])
next
  case (Suc p)
  then have "n div 16 < 16 ^ Suc p" by (simp add: less_mult_imp_div_less mult.commute)
  then show ?case using Suc.IH by (simp add: to_hex.simps [of n])
qed

lemma ho_zero_digit: "ho n (Suc 0) = [hex_digit n]" if "n < 16"
  using that by (simp add: ho_def padStart_def to_hex.simps [of n])

lemma ho_step: "n < 16 ^ Suc p \<Longrightarrow> d < 16 \<Longrightarrow> ho (n * 16 + d) (Suc (Suc p)) = ho n (Suc p) @ [hex_digit d]"
proof (cases "n = 0")
  case True
  assume "d < 16"
  then show ?thesis using True
    by (simp add: ho_def padStart_def to_hex.simps [of d] to_hex.simps [of 0] hex_digit_def replicate_append_same [symmetric])
next
  case False
  assume n: "n < 16 ^ Suc p" and d: "d < 16"
  have "to_hex (n * 16 + d) = to_hex n @ [hex_digit d]" using False d by (subst to_hex.simps) auto
  then show ?thesis by (simp add: ho_def padStart_def)
qed

lemma byte_small: "unat (b :: 8 word) < 256"
  using unsigned_less [of b, where 'a = nat] by simp

lemma ho_byte: "n < 16 ^ Suc p \<Longrightarrow> ho (n * 256 + unat (b :: 8 word)) (Suc (Suc (Suc p))) = ho n (Suc p) @ byte_text b"
proof -
  assume n: "n < 16 ^ Suc p"
  let ?q = "unat b div 16" and ?r = "unat b mod 16"
  have q: "?q < 16" using byte_small [of b] by (simp add: less_mult_imp_div_less)
  have "n * 16 + ?q < 16 ^ Suc (Suc p)"
  proof -
    have "n * 16 + ?q < Suc n * 16" using q by simp
    also have "\<dots> \<le> 16 ^ Suc p * 16" using n by (intro mult_le_mono1) simp
    finally show ?thesis by simp
  qed
  moreover have "n * 256 + unat b = (n * 16 + ?q) * 16 + ?r" by (simp add: algebra_simps)
  ultimately show ?thesis using ho_step [of "n * 16 + ?q" "Suc p" ?r] ho_step [OF n q] by (simp add: byte_text_def mult.commute add.commute)
qed

lemma ho_one_byte: "ho (unat (b :: 8 word)) (Suc (Suc 0)) = byte_text b"
proof -
  have q: "unat b div 16 < 16" using byte_small [of b] by (simp add: less_mult_imp_div_less)
  have "ho ((unat b div 16) * 16 + unat b mod 16) (Suc (Suc 0)) = ho (unat b div 16) (Suc 0) @ [hex_digit (unat b mod 16)]"
    by (rule ho_step) (use q in simp_all)
  then show ?thesis using q by (simp add: ho_zero_digit byte_text_def)
qed

lemma ho_uint16: "ho (getUint16 v i) 4 = byte_text (v ! i) @ byte_text (v ! (i + 1))"
proof -
  have four: "4 = Suc (Suc (Suc (Suc 0)))" by simp
  have "unat (v ! i) < 16 ^ Suc (Suc 0)" using byte_small [of "v ! i"] by simp
  then show ?thesis unfolding four getUint16_def using ho_byte [of "unat (v ! i)" "Suc 0"] by (simp add: ho_one_byte)
qed

lemma sixteen:
  assumes "length v = 16"
  obtains b0 b1 b2 b3 b4 b5 b6 b7 b8 b9 b10 b11 b12 b13 b14 b15
  where "v = [b0, b1, b2, b3, b4, b5, b6, b7, b8, b9, b10, b11, b12, b13, b14, b15]"
  using assms by (auto simp: numeral_eq_Suc length_Suc_conv)

lemma uint16_small: "getUint16 v i < 16 ^ 4"
  using byte_small [of "v ! i"] byte_small [of "v ! (i + 1)"] by (simp add: getUint16_def)

lemma ho_uint32: "ho (getUint32 v i) 8 = byte_text (v ! i) @ byte_text (v ! (i + 1)) @ byte_text (v ! (i + 2)) @ byte_text (v ! (i + 3))"
proof -
  let ?a = "getUint16 v i" let ?b = "?a * 256 + unat (v ! (i + 2))"
  have a: "?a < 16 ^ Suc 3" using uint16_small [of v i] by simp
  have "?a < 65536" using a by simp
  then have "?b < 16777216" using byte_small [of "v ! (i + 2)"] by linarith
  then have b: "?b < 16 ^ Suc 5" by simp
  have "getUint32 v i = ?b * 256 + unat (v ! (i + 3))" by (simp add: getUint32_def getUint16_def)
  then have "ho (getUint32 v i) 8 = ho ?b 6 @ byte_text (v ! (i + 3))"
    using ho_byte [OF b, of "v ! (i + 3)"] by simp
  moreover have "ho ?b 6 = ho ?a 4 @ byte_text (v ! (i + 2))"
    using ho_byte [OF a, of "v ! (i + 2)"] by simp
  ultimately show ?thesis by (simp add: ho_uint16)
qed

subsection \<open>The buffer as text\<close>

lemma length_random_bytes [simp]: "length (random_bytes r0 r1 r2 r3) = 16"
  by (simp add: random_bytes_def setUint32_def)

lemma length_patch_version [simp]: "length (patch_version v) = length v"
  by (simp add: patch_version_def setUint8_def Let_def)

lemma uuid_text_canonical: "length v = 16 \<Longrightarrow> uuid_text v = canonical_text v"
proof -
  assume "length v = 16"
  then obtain b0 b1 b2 b3 b4 b5 b6 b7 b8 b9 b10 b11 b12 b13 b14 b15
    where "v = [b0, b1, b2, b3, b4, b5, b6, b7, b8, b9, b10, b11, b12, b13, b14, b15]"
    by (rule sixteen)
  then show ?thesis by (simp add: uuid_text_def canonical_text_def ho_uint32 ho_uint16)
qed

lemma patched_nth:
  assumes "length v = 16"
  shows "i < 16 \<Longrightarrow> i \<noteq> 6 \<Longrightarrow> i \<noteq> 8 \<Longrightarrow> patch_version v ! i = v ! i"
    "patch_version v ! 6 = (v ! 6 AND 0xf) OR 0x40" "patch_version v ! 8 = (v ! 8 AND 0x3f) OR 0x80"
  using assms by (simp_all add: patch_version_def setUint8_def Let_def)

lemma high_digit: "unat (b :: 8 word) div 16 = unat (drop_bit 4 b)"
  by (simp add: drop_bit_eq_div unat_div)

lemma version_digit: "hex_digit (unat (((b :: 8 word) AND 0xf) OR 0x40) div 16) = CHR ''4''"
proof -
  have "drop_bit 4 ((b AND 0xf) OR 0x40) = 4" by (simp add: drop_bit_or drop_bit_and)
  then show ?thesis by (simp add: high_digit hex_digit_def)
qed

subsection \<open>The text as digits of the random numbers\<close>

text \<open>The \<open>p\<close> last hexadecimal digits of a number, and the 32 random bits of a draw.\<close>

fun digits :: "nat \<Rightarrow> nat \<Rightarrow> string" where
  "digits 0 n = []"
| "digits (Suc p) n = digits p (n div 16) @ [hex_digit (n mod 16)]"

definition bits32 :: "rat \<Rightarrow> nat" where
  "bits32 r = nat \<lfloor>r * 2 ^ 32\<rfloor>"

definition v4_text :: "nat \<Rightarrow> nat \<Rightarrow> nat \<Rightarrow> nat \<Rightarrow> string" where
  "v4_text n0 n1 n2 n3 =
     digits 8 n0 @ ''-'' @ digits 4 (n1 div 2 ^ 16) @ ''-4'' @ digits 3 n1 @ ''-''
       @ digits 4 (2 ^ 15 + n2 div 2 ^ 16 mod 2 ^ 14) @ ''-'' @ digits 4 n2 @ digits 8 n3"

lemma length_digits [simp]: "length (digits p n) = p"
  by (induction p arbitrary: n) simp_all

lemma digits_numeral:
  "digits (numeral k) n = digits (pred_numeral k) (n div 16) @ [hex_digit (n mod 16)]"
  by (subst numeral_eq_Suc [of k]) simp

lemma digits_mod: "digits p (n mod 16 ^ p) = digits p n"
proof (induction p arbitrary: n)
  case (Suc p)
  have "n mod 16 ^ Suc p div 16 = n div 16 mod 16 ^ p"
    by (simp add: mod_mult2_eq)
  then show ?case using Suc.IH [of "n div 16"] by (simp add: mod_mult2_eq)
qed simp

lemma digits_eq: "digits p n = digits p m \<longleftrightarrow> n mod 16 ^ p = m mod 16 ^ p"
proof (induction p arbitrary: n m)
  case (Suc p)
  have d: "hex_digit (n mod 16) = hex_digit (m mod 16) \<longleftrightarrow> n mod 16 = m mod 16"
    using hex_digit_inj [of "n mod 16" "m mod 16"] by auto
  have split: "k mod (16 * 16 ^ p) = 16 * (k div 16 mod 16 ^ p) + k mod 16" for k :: nat
    by (rule mod_mult2_eq)
  have "16 * a + x = 16 * b + y \<longleftrightarrow> a = b \<and> x = y" if "x < 16" "y < 16" for a b x y :: nat
    using that by presburger
  then show ?case using Suc.IH d by (simp add: split)
qed simp

lemma unat_byte: "unat (word_of_nat n :: 8 word) = n mod 256"
  by (simp add: unat_of_nat)

lemma mod_256: "n mod 256 div 16 = n div 16 mod 16" "n mod 256 mod 16 = n mod 16" for n :: nat
proof -
  have "n mod 256 = 16 * (n div 16 mod 16) + n mod 16"
    using mod_mult2_eq [of n 16 16] by simp
  then show "n mod 256 div 16 = n div 16 mod 16" "n mod 256 mod 16 = n mod 16" by simp_all
qed

lemma byte_digits: "byte_text (word_of_nat n) = digits 2 n"
  by (simp add: byte_text_def unat_byte numeral_2_eq_2 mod_256)

lemma digits_add: "digits (p + q) n = digits p (n div 16 ^ q) @ digits q n"
proof (induction q arbitrary: n)
  case (Suc q)
  then show ?case using Suc.IH [of "n div 16"] by (simp add: div_mult2_eq)
qed simp

lemma low_digit: "unat (b :: 8 word) mod 16 = unat (take_bit 4 b)"
  by (simp add: take_bit_eq_mod unat_mod)

lemma version_byte: "byte_text ((word_of_nat n AND 0xf) OR 0x40) = ''4'' @ digits 1 n"
proof -
  let ?b = "word_of_nat n :: 8 word"
  have "take_bit 4 ((?b AND 0xf) OR 0x40) = take_bit 4 ?b"
    by (simp add: take_bit_or take_bit_and take_bit_eq_mask mask_eq_exp_minus_1 bit.conj_disj_distrib2 and.assoc)
  then have "unat ((?b AND 0xf) OR 0x40) mod 16 = n mod 16"
    using low_digit [of ?b] by (simp add: low_digit unat_byte mod_256)
  then show ?thesis using version_digit [of ?b] by (simp add: byte_text_def)
qed

lemma variant_byte: "byte_text ((word_of_nat n AND 0x3f) OR 0x80) = digits 2 (2 ^ 7 + n mod 2 ^ 6)"
proof -
  let ?b = "word_of_nat n :: 8 word"
  have "(?b AND 0x3f) OR 0x80 = word_of_nat (2 ^ 7 + n mod 2 ^ 6)"
  proof -
    have low: "?b AND 0x3f = take_bit 6 ?b"
      by (simp add: take_bit_eq_mask mask_eq_exp_minus_1)
    have "take_bit 6 ?b OR 2 ^ 7 = take_bit 6 ?b + 2 ^ 7"
      by (rule disjunctive_add [symmetric]) (simp only: bit_take_bit_iff bit_exp_iff, auto)
    moreover have "take_bit 6 ?b = word_of_nat (n mod 2 ^ 6)"
      using take_bit_of_nat [of 6 n] by (metis take_bit_eq_mod)
    ultimately show ?thesis by (simp add: low add.commute)
  qed
  then show ?thesis by (simp only: byte_digits)
qed

lemma small_digits:
  "digits 2 n = [hex_digit (n div 16 mod 16), hex_digit (n mod 16)]"
  "digits 3 n = hex_digit (n div 16 div 16 mod 16) # digits 2 n"
  by (simp_all add: numeral_2_eq_2 numeral_3_eq_3)

text \<open>The sixteen bytes of a buffer filled with four numbers, as text.\<close>

lemma nat_floor_below: "0 \<le> r \<Longrightarrow> r < 1 \<Longrightarrow> random_uint32 r = bits32 r \<and> bits32 r < 16 ^ 8"
proof -
  assume r: "0 \<le> r" "r < 1"
  have "r * 2 ^ 32 < 2 ^ 32" "0 \<le> r * 2 ^ 32" using r by simp_all
  then have "\<lfloor>r * 2 ^ 32\<rfloor> < 2 ^ 32" "0 \<le> \<lfloor>r * 2 ^ 32\<rfloor>" by (simp_all add: floor_less_iff)
  then show ?thesis by (simp add: random_uint32_def bits32_def nat_less_iff)
qed

lemma word_digits:
  "byte_text (word_of_nat (n div 2 ^ 24)) @ byte_text (word_of_nat (n div 2 ^ 16)) @
   byte_text (word_of_nat (n div 2 ^ 8)) @ byte_text (word_of_nat n) = digits 8 n"
  using digits_add [of 6 2 n] digits_add [of 4 2 "n div 16 ^ 2"] digits_add [of 2 2 "n div 16 ^ 4"]
  by (simp add: byte_digits div_mult2_eq [symmetric])

lemma half_digits: "byte_text (word_of_nat (n div 2 ^ 8)) @ byte_text (word_of_nat n) = digits 4 n"
  using digits_add [of 2 2 n] by (simp add: byte_digits)

lemma variant_digits: "digits 2 (2 ^ 7 + m div 256 mod 2 ^ 6) @ digits 2 m = digits 4 (2 ^ 15 + m mod 2 ^ 14)"
proof -
  have "m mod 2 ^ 14 = 256 * (m div 256 mod 2 ^ 6) + m mod 256"
    using mod_mult2_eq [of m 256 64] by simp
  then have x: "2 ^ 15 + m mod 2 ^ 14 = 256 * (2 ^ 7 + m div 256 mod 2 ^ 6) + m mod 256"
    by simp
  have "(2 ^ 15 + m mod 2 ^ 14) div 256 = 2 ^ 7 + m div 256 mod 2 ^ 6"
    unfolding x by (subst div_mult_self4) simp_all
  moreover have "digits 2 (2 ^ 15 + m mod 2 ^ 14) = digits 2 m"
  proof -
    have "(256 * k + m mod 256) mod 16 ^ 2 = m mod 16 ^ 2" for k by simp
    then show ?thesis unfolding x digits_eq .
  qed
  ultimately show ?thesis
    using digits_add [of 2 2 "2 ^ 15 + m mod 2 ^ 14"] by simp
qed

lemma canonical_nth:
  "length v = 16 \<Longrightarrow> canonical_text v =
    byte_text (v ! 0) @ byte_text (v ! 1) @ byte_text (v ! 2) @ byte_text (v ! 3) @ ''-'' @
    byte_text (v ! 4) @ byte_text (v ! 5) @ ''-'' @ byte_text (v ! 6) @ byte_text (v ! 7) @ ''-'' @
    byte_text (v ! 8) @ byte_text (v ! 9) @ ''-'' @ byte_text (v ! 10) @ byte_text (v ! 11) @
    byte_text (v ! 12) @ byte_text (v ! 13) @ byte_text (v ! 14) @ byte_text (v ! 15)"
  by (erule sixteen) (simp add: canonical_text_def)

lemma length_setUint32 [simp]: "length (setUint32 i n v) = length v"
  by (simp add: setUint32_def)

lemma setUint32_nth:
  "i + 3 < length v \<Longrightarrow> setUint32 i n v ! j =
     (if j = i then word_of_nat (n div 2 ^ 24) else if j = i + 1 then word_of_nat (n div 2 ^ 16)
      else if j = i + 2 then word_of_nat (n div 2 ^ 8) else if j = i + 3 then word_of_nat n else v ! j)"
  by (simp add: setUint32_def nth_list_update)

lemma patched_text:
  "canonical_text (patch_version (setUint32 12 n3 (setUint32 8 n2 (setUint32 4 n1 (setUint32 0 n0 (replicate 16 0)))))) =
   v4_text n0 n1 n2 n3" (is "canonical_text (patch_version ?v) = _")
proof -
  have n2: "byte_text ((word_of_nat (n2 div 2 ^ 24) AND 0x3f) OR 0x80) @ byte_text (word_of_nat (n2 div 2 ^ 16)) =
      digits 4 (2 ^ 15 + n2 div 2 ^ 16 mod 2 ^ 14)"
    using variant_digits [of "n2 div 2 ^ 16"] by (simp only: variant_byte byte_digits) (simp add: div_mult2_eq [symmetric])
  have n1: "byte_text ((word_of_nat (n1 div 2 ^ 8) AND 0xf) OR 0x40) @ byte_text (word_of_nat n1) = ''4'' @ digits 3 n1"
    using div_mult2_eq [of n1 16 16] by (simp only: version_byte byte_digits) (simp add: small_digits)
  have h: "byte_text (word_of_nat (n1 div 2 ^ 24)) @ byte_text (word_of_nat (n1 div 2 ^ 16)) = digits 4 (n1 div 2 ^ 16)"
    using half_digits [of "n1 div 2 ^ 16"] by (simp add: div_mult2_eq [symmetric])
  have "canonical_text (patch_version ?v) =
    (byte_text (word_of_nat (n0 div 2 ^ 24)) @ byte_text (word_of_nat (n0 div 2 ^ 16)) @
     byte_text (word_of_nat (n0 div 2 ^ 8)) @ byte_text (word_of_nat n0)) @ ''-'' @
    (byte_text (word_of_nat (n1 div 2 ^ 24)) @ byte_text (word_of_nat (n1 div 2 ^ 16))) @ ''-'' @
    (byte_text ((word_of_nat (n1 div 2 ^ 8) AND 0xf) OR 0x40) @ byte_text (word_of_nat n1)) @ ''-'' @
    (byte_text ((word_of_nat (n2 div 2 ^ 24) AND 0x3f) OR 0x80) @ byte_text (word_of_nat (n2 div 2 ^ 16))) @ ''-'' @
    (byte_text (word_of_nat (n2 div 2 ^ 8)) @ byte_text (word_of_nat n2)) @
    (byte_text (word_of_nat (n3 div 2 ^ 24)) @ byte_text (word_of_nat (n3 div 2 ^ 16)) @
     byte_text (word_of_nat (n3 div 2 ^ 8)) @ byte_text (word_of_nat n3))"
    by (subst canonical_nth) (simp_all add: patched_nth setUint32_nth)
  then show ?thesis
    unfolding word_digits unfolding n1 n2 h half_digits v4_text_def by simp
qed

lemma uuid4_digits:
  assumes "\<forall>r \<in> {r0, r1, r2, r3}. 0 \<le> r \<and> r < 1"
  shows "uuid4 r0 r1 r2 r3 = v4_text (bits32 r0) (bits32 r1) (bits32 r2) (bits32 r3)"
proof -
  have "uuid4 r0 r1 r2 r3 = canonical_text (patch_version (random_bytes r0 r1 r2 r3))"
    unfolding uuid4_def by (rule uuid_text_canonical) simp
  then show ?thesis
    using assms by (simp add: random_bytes_def nat_floor_below patched_text)
qed

lemma v4_text_eq:
  "v4_text n0 n1 n2 n3 = v4_text m0 m1 m2 m3 \<longleftrightarrow>
     digits 8 n0 = digits 8 m0 \<and> digits 4 (n1 div 2 ^ 16) = digits 4 (m1 div 2 ^ 16) \<and> digits 3 n1 = digits 3 m1 \<and>
     digits 4 (2 ^ 15 + n2 div 2 ^ 16 mod 2 ^ 14) = digits 4 (2 ^ 15 + m2 div 2 ^ 16 mod 2 ^ 14) \<and>
     digits 4 n2 = digits 4 m2 \<and> digits 8 n3 = digits 8 m3"
  unfolding v4_text_def by simp

lemma mult_add_cancel: "x < c \<Longrightarrow> y < c \<Longrightarrow> c * a + x = c * b + y \<longleftrightarrow> a = b \<and> x = y" for a b c x y :: nat
proof
  assume small: "x < c" "y < c" and eq: "c * a + x = c * b + y"
  have div: "(c * k + z) div c = k" if "z < c" for k z
    using that by (subst div_mult_self4) simp_all
  have "(c * a + x) div c = a" "(c * b + y) div c = b" by (rule div, rule small)+
  then have "a = b" using eq by metis
  then show "a = b \<and> x = y" using eq by (simp only: add_left_cancel)
qed simp

lemma variant_bits:
  "digits 4 (2 ^ 15 + n div 2 ^ 16 mod 2 ^ 14) = digits 4 (2 ^ 15 + m div 2 ^ 16 mod 2 ^ 14) \<and> digits 4 n = digits 4 m \<longleftrightarrow>
     n mod 2 ^ 30 = m mod 2 ^ 30"
proof -
  have split: "k mod 2 ^ 30 = 2 ^ 16 * (k div 2 ^ 16 mod 2 ^ 14) + k mod 2 ^ 16" for k :: nat
    using mod_mult2_eq [of k "2 ^ 16" "2 ^ 14"] by simp
  have low: "(2 ^ 15 + a) mod 16 ^ 4 = (2 ^ 15 + b) mod 16 ^ 4 \<longleftrightarrow> a = b" if "a < 2 ^ 14" "b < 2 ^ 14" for a b :: nat
    using that by simp
  have mix: "2 ^ 16 * a + x = 2 ^ 16 * b + y \<longleftrightarrow> a = b \<and> x = y" if "x < 2 ^ 16" "y < 2 ^ 16" for a b x y :: nat
    using that mult_add_cancel [of x "2 ^ 16" y a b] by simp
  show ?thesis
    unfolding digits_eq split using low [of "n div 2 ^ 16 mod 2 ^ 14" "m div 2 ^ 16 mod 2 ^ 14"]
      mix [of "n mod 2 ^ 16" "m mod 2 ^ 16" "n div 2 ^ 16 mod 2 ^ 14" "m div 2 ^ 16 mod 2 ^ 14"] by simp
qed

text \<open>
  C32. Whatever \<open>Math.random\<close> returns, \<open>uuid4\<close> is the text of a version 4 UUID whose digits are those of the four
  random numbers in order: the 8 digits of the first, 4 of the second, the version 4, the last 3 of the second, the
  upper half of the third with its two top bits set to the variant 10, its lower half, and the 8 digits of the fourth,
  in groups of 8, 4, 4, 4 and 12. So 122 of the 128 random bits are kept: two draws give the same text exactly when
  they agree on all bits but the four that the version and the two that the variant replaces.
\<close>

theorem uuid4_canonical:
  assumes "\<forall>r \<in> {r0, r1, r2, r3, q0, q1, q2, q3}. 0 \<le> r \<and> r < 1"
  shows "uuid4 r0 r1 r2 r3 = v4_text (bits32 r0) (bits32 r1) (bits32 r2) (bits32 r3)
     \<and> (uuid4 r0 r1 r2 r3 = uuid4 q0 q1 q2 q3 \<longleftrightarrow>
          bits32 r0 = bits32 q0 \<and>
          bits32 r1 div 2 ^ 16 = bits32 q1 div 2 ^ 16 \<and> bits32 r1 mod 2 ^ 12 = bits32 q1 mod 2 ^ 12 \<and>
          bits32 r2 mod 2 ^ 30 = bits32 q2 mod 2 ^ 30 \<and>
          bits32 r3 = bits32 q3)"
proof -
  have small: "bits32 r mod 16 ^ 8 = bits32 r" "bits32 r div 2 ^ 16 mod 16 ^ 4 = bits32 r div 2 ^ 16"
    if "r \<in> {r0, r1, r2, r3, q0, q1, q2, q3}" for r
  proof -
    have "bits32 r < 2 ^ 16 * 16 ^ 4" using assms that nat_floor_below [of r] by auto
    then show "bits32 r mod 16 ^ 8 = bits32 r" "bits32 r div 2 ^ 16 mod 16 ^ 4 = bits32 r div 2 ^ 16"
      by (simp_all add: less_mult_imp_div_less)
  qed
  have uu: "uuid4 r0 r1 r2 r3 = v4_text (bits32 r0) (bits32 r1) (bits32 r2) (bits32 r3)"
      "uuid4 q0 q1 q2 q3 = v4_text (bits32 q0) (bits32 q1) (bits32 q2) (bits32 q3)"
    by (rule uuid4_digits; use assms in simp)+
  have "uuid4 r0 r1 r2 r3 = uuid4 q0 q1 q2 q3 \<longleftrightarrow>
      digits 8 (bits32 r0) = digits 8 (bits32 q0) \<and>
      (digits 4 (bits32 r1 div 2 ^ 16) = digits 4 (bits32 q1 div 2 ^ 16) \<and> digits 3 (bits32 r1) = digits 3 (bits32 q1)) \<and>
      bits32 r2 mod 2 ^ 30 = bits32 q2 mod 2 ^ 30 \<and> digits 8 (bits32 r3) = digits 8 (bits32 q3)"
    unfolding uu v4_text_eq using variant_bits [of "bits32 r2" "bits32 q2"] by blast
  moreover have "(2 :: nat) ^ 12 = 16 ^ 3" by simp
  ultimately show ?thesis
    using small by (simp only: uu(1) digits_eq insert_iff) simp
qed

text \<open>One draw, and a second one that differs from it only in a bit the variant replaces.\<close>

lemma uuid4_canonical_witness:
  "uuid4 0 (1 / 2) (1 / 4) (255 / 256) = ''00000000-8000-4000-8000-0000ff000000'' \<and>
   uuid4 0 (1 / 2) (1 / 4) (255 / 256) = uuid4 0 (1 / 2) (3 / 4) (255 / 256)"
proof -
  have b: "bits32 0 = 0" "bits32 (1 / 2) = 2 ^ 31" "bits32 (1 / 4) = 2 ^ 30" "bits32 (3 / 4) = 3 * 2 ^ 30"
      "bits32 (255 / 256) = 255 * 2 ^ 24"
    by (simp_all add: bits32_def)
  have "v4_text 0 (2 ^ 31) (2 ^ 30) (255 * 2 ^ 24) = ''00000000-8000-4000-8000-0000ff000000''"
    by (simp add: v4_text_def digits_numeral hex_digit_def)
  moreover have draws: "\<forall>r \<in> {0, 1 / 2, 1 / 4, 255 / 256, 0, 1 / 2, 3 / 4, 255 / 256 :: rat}. 0 \<le> r \<and> r < 1" by simp
  have "uuid4 0 (1 / 2) (1 / 4) (255 / 256) = v4_text 0 (2 ^ 31) (2 ^ 30) (255 * 2 ^ 24) \<and>
      uuid4 0 (1 / 2) (1 / 4) (255 / 256) = uuid4 0 (1 / 2) (3 / 4) (255 / 256)"
    using uuid4_canonical [OF draws] unfolding b by (elim conjE) (intro conjI, assumption, erule iffD2, simp)
  ultimately show ?thesis by argo
qed

end
