(* ===== verification/Concurrent_Map.thy ===== *)
theory Concurrent_Map
  imports Sdk_Prelude "HOL-Library.Multiset"
begin

text \<open>
  \<open>mapAsyncIterable\<close> of packages/client/src/iterators-utils.ts, by which a client fetches histories. With a concurrency of
  at least 2 several mappers take items from one source, put results into the buffer of an event iterator, and share a
  semaphore that bounds what is not consumed yet. A step is the code of one mapper, or of the consumer, between two awaits;
  steps may come in every order. An item the source throws on is one whose mapping throws.
\<close>

subsection \<open>State\<close>

datatype ('a, 'e) mapper = Acquiring | Fetching | Mapping 'a | Returned | Rejected 'e

record ('a, 'e, 'b) pool =
  pl_source :: "'a list"
  pl_mappers :: "('a, 'e) mapper list"
  pl_permits :: "int option"
  pl_buffer :: "'b list"
  pl_yielded :: "'b list"
  pl_error :: "'e option"

text \<open>\<open>semaphore\<close>: without a buffer limit there is none.\<close>

definition semaphore :: "nat \<Rightarrow> int option \<Rightarrow> int option" where
  "semaphore concurrency bufferLimit = map_option (\<lambda>l. l + int concurrency) bufferLimit"

definition start_pool :: "nat \<Rightarrow> int option \<Rightarrow> 'a list \<Rightarrow> ('a, 'e, 'b) pool" where
  "start_pool concurrency bufferLimit xs =
     \<lparr>pl_source = xs, pl_mappers = replicate concurrency Acquiring, pl_permits = semaphore concurrency bufferLimit,
      pl_buffer = [], pl_yielded = [], pl_error = None\<rparr>"

definition may_acquire :: "('a, 'e, 'b) pool \<Rightarrow> bool" where
  "may_acquire P \<longleftrightarrow> (case pl_permits P of None \<Rightarrow> True | Some v \<Rightarrow> 0 < v)"

definition acquire :: "('a, 'e, 'b) pool \<Rightarrow> ('a, 'e, 'b) pool" where
  "acquire P = P\<lparr>pl_permits := map_option (\<lambda>v. v - 1) (pl_permits P)\<rparr>"

definition release_permit :: "('a, 'e, 'b) pool \<Rightarrow> ('a, 'e, 'b) pool" where
  "release_permit P = P\<lparr>pl_permits := map_option (\<lambda>v. v + 1) (pl_permits P)\<rparr>"

subsection \<open>Steps\<close>

text \<open>
  A mapper whose mapping throws is rejected; the rejection of \<open>Promise.all\<close> is then emitted as the error. It ends every mapper
  at its next fetch, and the iterator drops results that come after it. The consumer gets what is in the buffer before it sees
  the error. What mappers that wait for a permit do after the error is left open: nothing of it reaches the consumer.
\<close>

inductive pool_step :: "('a \<Rightarrow> 'e + 'b) \<Rightarrow> ('a, 'e, 'b) pool \<Rightarrow> ('a, 'e, 'b) pool \<Rightarrow> bool" for mapFn where
  ps_acquire: "pl_mappers P = us @ Acquiring # vs \<Longrightarrow> may_acquire P \<Longrightarrow>
     pool_step mapFn P ((acquire P)\<lparr>pl_mappers := us @ Fetching # vs\<rparr>)"
| ps_item: "pl_mappers P = us @ Fetching # vs \<Longrightarrow> pl_error P = None \<Longrightarrow> pl_source P = x # xs \<Longrightarrow>
     pool_step mapFn P (P\<lparr>pl_mappers := us @ Mapping x # vs, pl_source := xs\<rparr>)"
| ps_done: "pl_mappers P = us @ Fetching # vs \<Longrightarrow> pl_error P \<noteq> None \<or> pl_source P = [] \<Longrightarrow>
     pool_step mapFn P (P\<lparr>pl_mappers := us @ Returned # vs\<rparr>)"
| ps_emit: "pl_mappers P = us @ Mapping x # vs \<Longrightarrow> mapFn x = Inr b \<Longrightarrow>
     pool_step mapFn P (P\<lparr>pl_mappers := us @ Acquiring # vs, pl_buffer := (if pl_error P = None then pl_buffer P @ [b] else pl_buffer P)\<rparr>)"
| ps_fail: "pl_mappers P = us @ Mapping x # vs \<Longrightarrow> mapFn x = Inl e \<Longrightarrow>
     pool_step mapFn P (P\<lparr>pl_mappers := us @ Rejected e # vs\<rparr>)"
| ps_error: "pl_mappers P = us @ Rejected e # vs \<Longrightarrow> pl_error P = None \<Longrightarrow> pool_step mapFn P (P\<lparr>pl_error := Some e\<rparr>)"
| ps_consume: "pl_buffer P = b # bs \<Longrightarrow>
     pool_step mapFn P ((release_permit P)\<lparr>pl_buffer := bs, pl_yielded := pl_yielded P @ [b]\<rparr>)"

inductive pool_run :: "('a \<Rightarrow> 'e + 'b) \<Rightarrow> ('a, 'e, 'b) pool \<Rightarrow> nat \<Rightarrow> ('a, 'e, 'b) pool \<Rightarrow> bool" for mapFn P where
  pool_start: "pool_run mapFn P 0 P"
| pool_next: "pool_run mapFn P k Q \<Longrightarrow> pool_step mapFn Q R \<Longrightarrow> pool_run mapFn P (Suc k) R"

text \<open>How the iteration ends: it throws the error, or returns when all mappers have.\<close>

definition pool_outcome :: "('a, 'e, 'b) pool \<Rightarrow> ('e + unit) option" where
  "pool_outcome P =
     (if pl_buffer P \<noteq> [] then None
      else case pl_error P of
        Some e \<Rightarrow> Some (Inl e)
      | None \<Rightarrow> if list_all (\<lambda>m. m = Returned) (pl_mappers P) then Some (Inr ()) else None)"

text \<open>Without concurrency the items are mapped one after the other.\<close>

fun map_sequential :: "('a \<Rightarrow> 'e + 'b) \<Rightarrow> 'a list \<Rightarrow> 'b list \<times> ('e + unit)" where
  "map_sequential mapFn [] = ([], Inr ())"
| "map_sequential mapFn (x # xs) =
     (case mapFn x of
        Inl e \<Rightarrow> ([], Inl e)
      | Inr b \<Rightarrow> (case map_sequential mapFn xs of (bs, out) \<Rightarrow> (b # bs, out)))"

text \<open>\<open>mapAsyncIterable\<close> as a relation between its arguments and what the consumer gets.\<close>

inductive mapAsyncIterable :: "nat option \<Rightarrow> int option \<Rightarrow> ('a \<Rightarrow> 'e + 'b) \<Rightarrow> 'a list \<Rightarrow> 'b list \<times> ('e + unit) \<Rightarrow> bool"
  for concurrency bufferLimit mapFn xs where
  mai_sequential: "concurrency = None \<or> the concurrency < 2 \<Longrightarrow>
     mapAsyncIterable concurrency bufferLimit mapFn xs (map_sequential mapFn xs)"
| mai_concurrent: "concurrency = Some n \<Longrightarrow> 2 \<le> n \<Longrightarrow> pool_run mapFn (start_pool n bufferLimit xs) k P \<Longrightarrow>
     pool_outcome P = Some out \<Longrightarrow> mapAsyncIterable concurrency bufferLimit mapFn xs (pl_yielded P, out)"

subsection \<open>Accounting\<close>

fun held :: "('a, 'e) mapper \<Rightarrow> 'a list" where
  "held (Mapping x) = [x]"
| "held _ = []"

definition in_flight :: "('a, 'e, 'b) pool \<Rightarrow> 'a list" where
  "in_flight P = concat (map held (pl_mappers P))"

fun permit_of :: "('a, 'e) mapper \<Rightarrow> int" where
  "permit_of Acquiring = 0"
| "permit_of _ = 1"

fun weight :: "('a, 'e) mapper \<Rightarrow> nat" where
  "weight Acquiring = 2"
| "weight Fetching = 1"
| "weight (Mapping x) = 4"
| "weight Returned = 0"
| "weight (Rejected e) = 0"

definition work_left :: "('a, 'e, 'b) pool \<Rightarrow> nat" where
  "work_left P = 4 * length (pl_source P) + sum_list (map weight (pl_mappers P)) + length (pl_buffer P) + (if pl_error P = None then 1 else 0)"

lemma step_work: "pool_step mapFn P Q \<Longrightarrow> work_left Q < work_left P"
  by (induction rule: pool_step.induct) (auto simp: work_left_def acquire_def release_permit_def)

lemma step_mappers: "pool_step mapFn P Q \<Longrightarrow> length (pl_mappers Q) = length (pl_mappers P)"
  by (induction rule: pool_step.induct) (auto simp: acquire_def release_permit_def)

text \<open>Where the items are: \<open>out\<close> are the results of what the pool still has to yield and has yielded.\<close>

definition outs :: "('a \<Rightarrow> 'e + 'b) \<Rightarrow> ('a, 'e, 'b) pool \<Rightarrow> ('e + 'b) multiset" where
  "outs mapFn P = mset (map mapFn (pl_source P)) + mset (map mapFn (in_flight P)) + mset (map Inr (pl_buffer P)) + mset (map Inr (pl_yielded P))"

definition permits_used :: "('a, 'e, 'b) pool \<Rightarrow> int" where
  "permits_used P = sum_list (map permit_of (pl_mappers P)) + int (length (pl_buffer P))"

definition items_ok :: "('a \<Rightarrow> 'e + 'b) \<Rightarrow> 'a list \<Rightarrow> ('a, 'e, 'b) pool \<Rightarrow> bool" where
  "items_ok mapFn xs P \<longleftrightarrow>
     outs mapFn P \<subseteq># mset (map mapFn xs)
     \<and> (pl_error P = None \<and> (\<forall>e. Rejected e \<notin> set (pl_mappers P)) \<longrightarrow> outs mapFn P = mset (map mapFn xs))
     \<and> (\<forall>e. pl_error P = Some e \<or> Rejected e \<in> set (pl_mappers P) \<longrightarrow> Inl e \<in> mapFn ` set xs)"

definition permits_ok :: "int option \<Rightarrow> ('a, 'e, 'b) pool \<Rightarrow> bool" where
  "permits_ok limit P \<longleftrightarrow>
     (case limit of
        None \<Rightarrow> pl_permits P = None
      | Some w \<Rightarrow> (\<exists>v. pl_permits P = Some v \<and> 0 \<le> v \<and> v + permits_used P \<le> w \<and> (pl_error P = None \<longrightarrow> v + permits_used P = w)))"

definition done_ok :: "('a, 'e, 'b) pool \<Rightarrow> bool" where
  "done_ok P \<longleftrightarrow> pl_error P = None \<and> Returned \<in> set (pl_mappers P) \<longrightarrow> pl_source P = []"

lemma outs_shrink: "A \<subseteq># M \<Longrightarrow> add_mset x A' = A \<Longrightarrow> A' \<subseteq># M"
  by (metis mset_subset_eq_insertD subset_mset.less_imp_le)

lemma step_items: "pool_step mapFn P Q \<Longrightarrow> items_ok mapFn xs P \<Longrightarrow> items_ok mapFn xs Q"
proof (induction rule: pool_step.induct)
  case (ps_emit P us x vs b)
  let ?Q = "P\<lparr>pl_mappers := us @ Acquiring # vs, pl_buffer := (if pl_error P = None then pl_buffer P @ [b] else pl_buffer P)\<rparr>"
  show ?case
  proof (cases "pl_error P = None")
    case True
    then have "outs mapFn ?Q = outs mapFn P" using ps_emit by (simp add: outs_def in_flight_def)
    then show ?thesis using ps_emit True by (auto simp: items_ok_def)
  next
    case False
    have "add_mset (mapFn x) (outs mapFn ?Q) = outs mapFn P" using ps_emit False by (simp add: outs_def in_flight_def)
    then show ?thesis using ps_emit False outs_shrink unfolding items_ok_def by fastforce
  qed
next
  case (ps_fail P us x vs e)
  let ?Q = "P\<lparr>pl_mappers := us @ Rejected e # vs\<rparr>"
  have all: "add_mset (mapFn x) (outs mapFn ?Q) = outs mapFn P" using ps_fail by (simp add: outs_def in_flight_def)
  then have "mapFn x \<in># mset (map mapFn xs)"
    using ps_fail(3) unfolding items_ok_def by (metis mset_subset_eqD union_single_eq_member)
  then have "Inl e \<in> mapFn ` set xs" using ps_fail(2) by simp
  then show ?case using ps_fail outs_shrink [OF _ all] unfolding items_ok_def by auto
qed (auto simp: items_ok_def outs_def in_flight_def acquire_def release_permit_def)

lemma step_permits: "pool_step mapFn P Q \<Longrightarrow> permits_ok limit P \<Longrightarrow> permits_ok limit Q"
  by (induction rule: pool_step.induct)
    (auto simp: permits_ok_def permits_used_def may_acquire_def acquire_def release_permit_def split: option.splits)

lemma step_done: "pool_step mapFn P Q \<Longrightarrow> done_ok P \<Longrightarrow> done_ok Q"
  by (induction rule: pool_step.induct) (auto simp: done_ok_def acquire_def release_permit_def)

lemma run_pool:
  assumes "pool_run mapFn (start_pool n bufferLimit xs) k P" and "\<And>l. bufferLimit = Some l \<Longrightarrow> 0 \<le> l"
  shows "items_ok mapFn xs P \<and> permits_ok (semaphore n bufferLimit) P \<and> done_ok P \<and> length (pl_mappers P) = n
    \<and> k + work_left P \<le> 4 * length xs + 2 * n + 1"
  using assms(1)
proof (induction rule: pool_run.induct)
  case pool_start
  have rep: "sum_list (map permit_of (replicate n Acquiring)) = 0" "concat (map held (replicate n Acquiring)) = []"
    "sum_list (map weight (replicate n Acquiring)) = 2 * n"
    by (induction n) simp_all
  show ?case using assms(2)
    by (cases bufferLimit)
      (auto simp: items_ok_def outs_def in_flight_def permits_ok_def permits_used_def done_ok_def start_pool_def semaphore_def work_left_def rep sum_list_replicate)
next
  case (pool_next k Q R)
  then show ?case
    using step_items [OF pool_next(2)] step_permits [OF pool_next(2)] step_done [OF pool_next(2)] step_mappers [OF pool_next(2)]
      step_work [OF pool_next(2)] by auto
qed

subsection \<open>Properties\<close>

lemma stuck_mappers:
  assumes "\<And>Q. \<not> pool_step mapFn P Q" "m \<in> set (pl_mappers P)"
  shows "m = Returned \<or> m = Acquiring \<and> \<not> may_acquire P \<or> pl_error P \<noteq> None"
proof -
  obtain us vs where m: "pl_mappers P = us @ m # vs" using assms(2) by (meson split_list)
  show ?thesis
  proof (cases m)
    case Acquiring
    then show ?thesis using assms(1) m ps_acquire by blast
  next
    case Fetching
    then have False using assms(1) m ps_item [of P us vs] ps_done [of P us vs] by (metis neq_Nil_conv)
    then show ?thesis ..
  next
    case (Mapping x)
    then have False using assms(1) m ps_emit [of P us x vs] ps_fail [of P us x vs] by (metis sum.exhaust)
    then show ?thesis ..
  next
    case (Rejected e)
    then show ?thesis using assms(1) m ps_error [of P us e vs mapFn] by auto
  qed simp
qed

lemma permits_below: "Acquiring \<in> set ms \<Longrightarrow> sum_list (map permit_of ms) < int (length ms)"
proof (induction ms)
  case (Cons m ms)
  have "permit_of m \<le> 1" by (cases m) simp_all
  moreover have "sum_list (map permit_of ms) \<le> int (length ms)"
  proof (induction ms)
    case (Cons k ks)
    have "permit_of k \<le> 1" by (cases k) simp_all
    then show ?case using Cons by simp
  qed simp
  ultimately show ?case using Cons by (cases "m = Acquiring") auto
qed simp

lemma stuck_returns:
  assumes "\<And>Q. \<not> pool_step mapFn P Q" "pl_error P = None" "permits_ok (semaphore (length (pl_mappers P)) bufferLimit) P"
    "\<And>l. bufferLimit = Some l \<Longrightarrow> 0 \<le> l"
  shows "pool_outcome P = Some (Inr ())"
proof -
  have buf: "pl_buffer P = []" using assms(1) ps_consume by (metis neq_Nil_conv)
  have "Acquiring \<notin> set (pl_mappers P)"
  proof
    assume acq: "Acquiring \<in> set (pl_mappers P)"
    then have no: "\<not> may_acquire P" using stuck_mappers [OF assms(1)] assms(2) by blast
    then obtain l where l: "bufferLimit = Some l"
      using assms(3) by (cases bufferLimit) (auto simp: may_acquire_def permits_ok_def semaphore_def)
    then show False
      using assms(2,3) no permits_below [OF acq] assms(4) [OF l] by (auto simp: permits_ok_def semaphore_def may_acquire_def permits_used_def buf)
  qed
  then have "list_all (\<lambda>m. m = Returned) (pl_mappers P)" using stuck_mappers [OF assms(1)] assms(2) by (auto simp: list_all_iff)
  then show ?thesis by (simp add: pool_outcome_def buf assms(2))
qed

lemma returned_all:
  assumes "pool_outcome P = Some (Inr ())" "items_ok mapFn xs P" "done_ok P" "pl_mappers P \<noteq> []"
  shows "mset (map Inr (pl_yielded P)) = mset (map mapFn xs)"
proof -
  have P: "pl_buffer P = []" "pl_error P = None" "list_all (\<lambda>m. m = Returned) (pl_mappers P)"
    using assms(1) by (auto simp: pool_outcome_def split: if_splits option.splits)
  then have "in_flight P = []" by (auto simp: in_flight_def list_all_iff)
  moreover have "Returned \<in> set (pl_mappers P)" using P(3) assms(4) by (cases "pl_mappers P") (auto simp: list_all_iff)
  moreover have "\<forall>e. Rejected e \<notin> set (pl_mappers P)" using P(3) by (auto simp: list_all_iff)
  ultimately show ?thesis using assms(2,3) P by (simp add: items_ok_def done_ok_def outs_def)
qed

lemma in_flight_used: "int (length (in_flight P)) + int (length (pl_buffer P)) \<le> permits_used P"
proof -
  have "int (length (concat (map held ms))) \<le> sum_list (map permit_of ms)" for ms :: "('a, 'e) mapper list"
  proof (induction ms)
    case (Cons m ms)
    have "int (length (held m)) \<le> permit_of m" by (cases m) simp_all
    then show ?case using Cons by simp
  qed simp
  then show ?thesis by (simp add: permits_used_def in_flight_def)
qed

lemma held_mappers: "length (concat (map held ms)) \<le> length ms"
proof (induction ms)
  case (Cons m ms)
  have "length (held m) \<le> 1" by (cases m) simp_all
  then show ?case using Cons by simp
qed simp

lemma sequential_all: "map mapFn xs = map Inr bs \<Longrightarrow> map_sequential mapFn xs = (bs, Inr ())"
  by (induction xs arbitrary: bs) (auto simp: Cons_eq_map_conv)


subsection \<open>A run\<close>

definition filled :: "('a \<Rightarrow> 'b) \<Rightarrow> nat \<Rightarrow> int \<Rightarrow> 'a list \<Rightarrow> nat \<Rightarrow> ('a, 'e, 'b) pool" where
  "filled g n l xs m =
     \<lparr>pl_source = drop m xs, pl_mappers = replicate n Acquiring, pl_permits = Some (l + int n - int m),
      pl_buffer = map g (take m xs), pl_yielded = [], pl_error = None\<rparr>"

text \<open>The first mapper alone fills the buffer while the consumer waits.\<close>

lemma fill_one:
  assumes "mapFn (xs ! m) = Inr (g (xs ! m))" "m < length xs" "int m < l + int (Suc n)" "pool_run mapFn P k (filled g (Suc n) l xs m)"
  shows "pool_run mapFn P (Suc (Suc (Suc k))) (filled g (Suc n) l xs (Suc m))"
proof -
  let ?F = "filled g (Suc n) l xs m"
  let ?A = "(acquire ?F)\<lparr>pl_mappers := [] @ Fetching # replicate n Acquiring\<rparr>"
  let ?B = "?A\<lparr>pl_mappers := [] @ Mapping (xs ! m) # replicate n Acquiring, pl_source := drop (Suc m) xs\<rparr>"
  have a: "pool_step mapFn ?F ?A" by (rule ps_acquire) (use assms(3) in \<open>simp_all add: filled_def may_acquire_def\<close>)
  have b: "pool_step mapFn ?A ?B"
    by (rule ps_item) (use assms(2) in \<open>simp_all add: filled_def acquire_def Cons_nth_drop_Suc\<close>)
  have "pl_mappers ?B = [] @ Mapping (xs ! m) # replicate n Acquiring" by simp
  from ps_emit [of ?B "[]" "xs ! m" "replicate n Acquiring" mapFn, OF this assms(1)]
  have c: "pool_step mapFn ?B (filled g (Suc n) l xs (Suc m))"
    using assms(2) by (simp add: filled_def acquire_def take_Suc_conv_app_nth algebra_simps)
  show ?thesis by (rule pool_next [OF pool_next [OF pool_next [OF assms(4) a] b] c])
qed

lemma fill:
  assumes "map mapFn xs = map (\<lambda>x. Inr (g x)) xs"
  shows "m \<le> length xs \<Longrightarrow> int m \<le> l + int (Suc n) \<Longrightarrow>
     pool_run mapFn (start_pool (Suc n) (Some l) xs) (3 * m) (filled g (Suc n) l xs m)"
proof (induction m)
  case 0
  show ?case by (simp add: start_pool_def filled_def semaphore_def pool_start)
next
  case (Suc m)
  have "mapFn (xs ! m) = Inr (g (xs ! m))" using assms Suc.prems(1) by (auto simp: map_eq_conv)
  then show ?case using fill_one [of mapFn xs m g l n] Suc by (simp add: eval_nat_numeral)
qed

text \<open>
  At every moment at most as many items are between source and consumer as the buffer limit and the concurrency allow
  together, at most one per mapper is being mapped, and what was yielded are results of different items of the source; an
  error the iteration throws is that of an item. Without concurrency the results come in the order of the items.
\<close>

theorem concurrent_map_bounded:
  assumes "\<And>l. bufferLimit = Some l \<Longrightarrow> 0 \<le> l"
    and "pool_run mapFn (start_pool n bufferLimit xs) k P"
  shows "(\<forall>l. bufferLimit = Some l \<longrightarrow> int (length (in_flight P) + length (pl_buffer P)) \<le> l + int n)
      \<and> length (in_flight P) \<le> n
      \<and> mset (map Inr (pl_yielded P)) \<subseteq># mset (map mapFn xs)
      \<and> (\<forall>e. pool_outcome P = Some (Inl e) \<longrightarrow> Inl e \<in> mapFn ` set xs)
      \<and> (\<forall>bs. map mapFn xs = map Inr bs \<longrightarrow> mapAsyncIterable None bufferLimit mapFn xs (bs, Inr ()))"
proof (intro conjI allI impI)
  note inv = run_pool [OF assms(2,1)]
  show "int (length (in_flight P) + length (pl_buffer P)) \<le> l + int n" if "bufferLimit = Some l" for l
    using inv in_flight_used [of P] that by (auto simp: permits_ok_def semaphore_def)
  show "length (in_flight P) \<le> n" using inv held_mappers [of "pl_mappers P"] by (simp add: in_flight_def)
  show "mset (map Inr (pl_yielded P)) \<subseteq># mset (map mapFn xs)"
    using inv unfolding items_ok_def outs_def by (meson mset_subset_eq_add_right subset_mset.order_trans)
  show "Inl e \<in> mapFn ` set xs" if "pool_outcome P = Some (Inl e)" for e
    using inv that by (auto simp: items_ok_def pool_outcome_def split: if_splits option.splits)
  show "mapAsyncIterable None bufferLimit mapFn xs (bs, Inr ())" if "map mapFn xs = map Inr bs" for bs
    using sequential_all [OF that] mai_sequential [of None bufferLimit mapFn xs] by simp
qed

text \<open>
  C38. The option \<open>bufferLimit\<close> is documented as the maximum number of mapped items to keep in the buffer, ready for
  consumption. The semaphore starts with the limit plus the concurrency and a permit is given back only when the consumer
  takes an item, so the buffer holds up to that sum.
\<close>

theorem buffer_exceeds_limit:
  assumes "map mapFn xs = map (\<lambda>x. Inr (g x)) xs" and "0 \<le> l" and "l + int (Suc n) \<le> int (length xs)"
  shows "\<exists>k P. pool_run mapFn (start_pool (Suc n) (Some l) xs) k P \<and> in_flight P = [] \<and> int (length (pl_buffer P)) = l + int (Suc n)"
proof -
  let ?m = "nat (l + int (Suc n))"
  have "pool_run mapFn (start_pool (Suc n) (Some l) xs) (3 * ?m) (filled g (Suc n) l xs ?m)"
    by (rule fill [OF assms(1)]) (use assms(2,3) in auto)
  moreover have "in_flight (filled g (Suc n) l xs ?m) = []" by (simp add: in_flight_def filled_def)
  moreover have "int (min (length xs) ?m) = l + int (Suc n)" using assms(2,3) by linarith
  then have "int (length (pl_buffer (filled g (Suc n) l xs ?m))) = l + int (Suc n)"
    using assms(2,3) by (simp add: filled_def)
  ultimately show ?thesis by blast
qed

lemma buffer_exceeds_limit_witness:
  "\<exists>k P. pool_run (Inr :: nat \<Rightarrow> nat + nat) (start_pool 2 (Some 1) [7, 8, 9]) k P \<and> length (pl_buffer P) = 3"
  using buffer_exceeds_limit [of "Inr :: nat \<Rightarrow> nat + nat" "[7, 8, 9]" id 1 1] by (auto simp: eval_nat_numeral)

definition sample_mapping :: "nat \<Rightarrow> nat + nat" where
  "sample_mapping x = Inr (x + 1)"

definition sample_pool :: "nat list \<Rightarrow> (nat, nat) mapper \<Rightarrow> (nat, nat) mapper \<Rightarrow> nat list \<Rightarrow> nat list \<Rightarrow> (nat, nat, nat) pool" where
  "sample_pool xs m1 m2 buf out =
     \<lparr>pl_source = xs, pl_mappers = [m1, m2], pl_permits = None, pl_buffer = buf, pl_yielded = out, pl_error = None\<rparr>"

lemma sample_steps:
  "pool_step sample_mapping (sample_pool xs Acquiring m buf out) (sample_pool xs Fetching m buf out)"
  "pool_step sample_mapping (sample_pool xs m Acquiring buf out) (sample_pool xs m Fetching buf out)"
  "pool_step sample_mapping (sample_pool (x # xs) Fetching m buf out) (sample_pool xs (Mapping x) m buf out)"
  "pool_step sample_mapping (sample_pool [] Fetching m buf out) (sample_pool [] Returned m buf out)"
  "pool_step sample_mapping (sample_pool [] m Fetching buf out) (sample_pool [] m Returned buf out)"
  "pool_step sample_mapping (sample_pool xs (Mapping x) m buf out) (sample_pool xs Acquiring m (buf @ [x + 1]) out)"
  "pool_step sample_mapping (sample_pool xs m m' (b # buf) out) (sample_pool xs m m' buf (out @ [b]))"
  using ps_acquire [of "sample_pool xs Acquiring m buf out" "[]" "[m]" sample_mapping]
    ps_acquire [of "sample_pool xs m Acquiring buf out" "[m]" "[]" sample_mapping]
    ps_item [of "sample_pool (x # xs) Fetching m buf out" "[]" "[m]" x xs sample_mapping]
    ps_done [of "sample_pool [] Fetching m buf out" "[]" "[m]" sample_mapping]
    ps_done [of "sample_pool [] m Fetching buf out" "[m]" "[]" sample_mapping]
    ps_emit [of "sample_pool xs (Mapping x) m buf out" "[]" x "[m]" sample_mapping "x + 1"]
    ps_consume [of "sample_pool xs m m' (b # buf) out" b buf sample_mapping]
  by (simp_all add: sample_pool_def may_acquire_def acquire_def release_permit_def sample_mapping_def)

lemma sample_pool_run: "\<exists>k. pool_run sample_mapping (start_pool 2 None [5]) k (sample_pool [] Returned Returned [] [6])"
proof -
  have "start_pool 2 None [5] = sample_pool [5] Acquiring Acquiring [] []"
    by (simp add: start_pool_def sample_pool_def semaphore_def numeral_2_eq_2)
  then have "pool_run sample_mapping (start_pool 2 None [5]) 0 (sample_pool [5] Acquiring Acquiring [] [])"
    using pool_start [of sample_mapping "start_pool 2 None [5]"] by simp
  from pool_next [OF pool_next [OF pool_next [OF this sample_steps(1)] sample_steps(3)] sample_steps(6)]
  have "pool_run sample_mapping (start_pool 2 None [5]) 3 (sample_pool [] Acquiring Acquiring [6] [])"
    by (simp add: eval_nat_numeral)
  from pool_next [OF pool_next [OF pool_next [OF this sample_steps(7)] sample_steps(1)] sample_steps(4)]
  have "pool_run sample_mapping (start_pool 2 None [5]) 6 (sample_pool [] Returned Acquiring [] [6])"
    by (simp add: eval_nat_numeral)
  from pool_next [OF pool_next [OF this sample_steps(2)] sample_steps(5)] show ?thesis by blast
qed

lemma sample_end_stuck: "\<not> pool_step sample_mapping (sample_pool [] Returned Returned [] [6]) Q"
  by (auto simp: sample_pool_def Cons_eq_append_conv elim!: pool_step.cases)


lemma concurrent_map_bounded_witness:
  "length (in_flight (filled Suc 2 1 [7, 8, 9] 3 :: (nat, nat, nat) pool)) \<le> 2"
proof -
  have run: "pool_run (\<lambda>x. Inr (Suc x)) (start_pool (Suc 1) (Some 1) [7, 8, 9]) (3 * 3) (filled Suc (Suc 1) 1 [7, 8, 9] 3 :: (nat, nat, nat) pool)"
    by (rule fill) simp_all
  show ?thesis using concurrent_map_bounded [of "Some 1", OF _ run] by (simp add: numeral_2_eq_2)
qed

end
