(* ===== verification/Client_Connection.thy ===== *)
theory Client_Connection
  imports Time_Conversion
begin

text \<open>
  packages/client/src/connection.ts with tls-config.ts, and the connection options of a worker in connection-options.ts and
  \<open>Runtime.createNativeClient\<close>. What the gRPC library provides is a parameter: credentials are terms of its constructors,
  and \<open>nkey\<close> is the normalisation of metadata keys, by which \<open>Metadata.set\<close> replaces an entry.
\<close>

subsection \<open>Addresses\<close>

text \<open>\<open>address.split(':', 2)\<close>: what stands before the first colon, and between the first and the second.\<close>

definition split_address :: "string \<Rightarrow> string \<times> string option" where
  "split_address a =
     (let not_colon = (\<lambda>c. c \<noteq> CHR '':'') in
      case dropWhile not_colon a of
        [] \<Rightarrow> (takeWhile not_colon a, None)
      | _ # r \<Rightarrow> (takeWhile not_colon a, Some (takeWhile not_colon r)))"

definition with_port :: "string \<Rightarrow> string" where
  "with_port a =
     (case split_address a of (host, port) \<Rightarrow>
        host @ '':'' @ (case port of None \<Rightarrow> ''7233'' | Some [] \<Rightarrow> ''7233'' | Some p \<Rightarrow> p))"

subsection \<open>TLS\<close>

record tls_config =
  serverNameOverride :: "string option"
  serverRootCACertificate :: "nat list option"
  clientCertPair :: "(nat list \<times> nat list) option"

datatype tls_option = TlsUndefined | TlsNull | TlsBoolean bool | TlsObject tls_config

definition normalizeTlsConfig :: "tls_option \<Rightarrow> tls_config option" where
  "normalizeTlsConfig tls =
     (case tls of
        TlsObject c \<Rightarrow> Some c
      | TlsNull \<Rightarrow> None
      | TlsBoolean b \<Rightarrow> if b then Some \<lparr>serverNameOverride = None, serverRootCACertificate = None, clientCertPair = None\<rparr> else None
      | TlsUndefined \<Rightarrow> None)"

datatype 'c credentials = InsecureCredentials | SslCredentials "nat list option" "nat list option" "nat list option" | GivenCredentials 'c

subsection \<open>Options of a client connection\<close>

text \<open>Values of channel arguments are strings, numbers or undefined.\<close>

datatype channel_arg = ArgUndefined | ArgNumber int | ArgString string

record ('c, 'i) conn_options =
  co_address :: "string option"
  co_tls :: tls_option
  co_credentials :: "'c credentials option"
  co_channelArgs :: "(string, channel_arg) jsmap"
  co_interceptors :: "'i list option"
  co_metadata :: "(string, string) jsmap option"
  co_connectTimeout :: "duration option"

record ('c, 'i) conn_config =
  cc_address :: string
  cc_credentials :: "'c credentials"
  cc_channelArgs :: "(string, channel_arg) jsmap"
  cc_interceptors :: "'i list"
  cc_metadata :: "(string, string) jsmap"
  cc_connectTimeoutMs :: jsnum

text \<open>\<open>{ ...m, ...b }\<close>\<close>

definition spread_over :: "('k, 'v) jsmap \<Rightarrow> ('k, 'v) jsmap \<Rightarrow> ('k, 'v) jsmap" where
  "spread_over m b = foldl (\<lambda>m (k, v). jset k v m) m b"

text \<open>
  \<open>normalizeGRPCConfig\<close> takes \<open>tls\<close> and \<open>credentials\<close> out of the options. With TLS it returns the rest with credentials of its own
  making; without TLS it returns the rest as it is, so that the credentials that were given are gone.
\<close>

definition override_args :: "tls_config \<Rightarrow> (string, channel_arg) jsmap" where
  "override_args tls =
     (case serverNameOverride tls of
        None \<Rightarrow> [] | Some [] \<Rightarrow> []
      | Some n \<Rightarrow> [(''grpc.ssl_target_name_override'', ArgString n), (''grpc.default_authority'', ArgString n)])"

definition normalizeGRPCConfig :: "('c, 'i) conn_options \<Rightarrow> (string + ('c, 'i) conn_options)" where
  "normalizeGRPCConfig opts =
     (let rest = opts\<lparr>co_tls := TlsUndefined, co_credentials := None,
                     co_address := (case co_address opts of Some (c # cs) \<Rightarrow> Some (with_port (c # cs)) | a \<Rightarrow> a)\<rparr> in
      case normalizeTlsConfig (co_tls opts) of
        Some tls \<Rightarrow>
          (if co_credentials opts \<noteq> None then Inl ''Both `tls` and `credentials` ConnectionOptions were provided''
           else Inr (rest\<lparr>co_credentials := Some (SslCredentials (serverRootCACertificate tls)
                                               (map_option snd (clientCertPair tls)) (map_option fst (clientCertPair tls))),
                          co_channelArgs := spread_over (co_channelArgs rest) (override_args tls)\<rparr>))
      | None \<Rightarrow> Inr rest)"

definition default_args :: "(string, channel_arg) jsmap" where
  "default_args =
     [(''grpc.keepalive_permit_without_calls'', ArgNumber 1), (''grpc.keepalive_time_ms'', ArgNumber 30000), (''grpc.keepalive_timeout_ms'', ArgNumber 15000)]"

definition addDefaults :: "'l libs \<Rightarrow> 'i \<Rightarrow> ('c, 'i) conn_options \<Rightarrow> ('c, 'i) conn_config res" where
  "addDefaults L retryInterceptor opts =
     and_then (msOptionalToNumber L (co_connectTimeout opts)) (\<lambda>timeout.
          Inr \<lparr>cc_address = (case co_address opts of None \<Rightarrow> ''127.0.0.1:7233'' | Some a \<Rightarrow> a),
               cc_credentials = (case co_credentials opts of None \<Rightarrow> InsecureCredentials | Some c \<Rightarrow> c),
               cc_channelArgs = spread_over default_args (co_channelArgs opts),
               cc_interceptors = (case co_interceptors opts of None \<Rightarrow> [retryInterceptor] | Some i \<Rightarrow> i),
               cc_metadata = (case co_metadata opts of None \<Rightarrow> [] | Some m \<Rightarrow> m),
               cc_connectTimeoutMs = (case timeout of None \<Rightarrow> Fin 10000 | Some t \<Rightarrow> t)\<rparr>)"

text \<open>The headers \<open>createCtorOptions\<close> adds, which the options may override.\<close>

definition add_if_missing :: "'k \<Rightarrow> 'v \<Rightarrow> ('k, 'v) jsmap \<Rightarrow> ('k, 'v) jsmap" where
  "add_if_missing k v m = (if jhas m k then m else jset k v m)"

definition static_metadata :: "string \<Rightarrow> (string, string) jsmap \<Rightarrow> (string, string) jsmap" where
  "static_metadata version m =
     add_if_missing ''client-version'' version (add_if_missing ''client-name'' ''temporal-typescript'' m)"

subsection \<open>Calls\<close>

text \<open>The call context of a request, which \<open>withDeadline\<close> and \<open>withMetadata\<close> set for what runs in their scope.\<close>

record 'd call_context =
  ctx_deadline :: "'d option"
  ctx_metadata :: "(string, string) jsmap option"

datatype 'd call_scope = WithDeadline 'd | WithMetadata "(string, string) jsmap"

fun enter_scope :: "'d call_scope \<Rightarrow> 'd call_context option \<Rightarrow> 'd call_context option" where
  "enter_scope (WithDeadline d) cc = Some \<lparr>ctx_deadline = Some d, ctx_metadata = Option.bind cc ctx_metadata\<rparr>"
| "enter_scope (WithMetadata m) cc =
     Some \<lparr>ctx_deadline = Option.bind cc ctx_deadline,
           ctx_metadata = Some (spread_over (case Option.bind cc ctx_metadata of None \<Rightarrow> [] | Some m' \<Rightarrow> m') m)\<rparr>"

text \<open>\<open>grpc.Metadata\<close>: entries under normalised keys.\<close>

definition metadata_set :: "(string \<Rightarrow> string) \<Rightarrow> (string, string) jsmap \<Rightarrow> (string, string) jsmap \<Rightarrow> (string, string) jsmap" where
  "metadata_set nkey entries container = foldl (\<lambda>c (k, v). jset (nkey k) v c) container entries"

text \<open>What \<open>generateRPCImplementation\<close> passes to \<open>makeUnaryRequest\<close>: the metadata and the deadline.\<close>

definition unary_request :: "(string \<Rightarrow> string) \<Rightarrow> (string, string) jsmap \<Rightarrow> 'd call_context option \<Rightarrow> (string, string) jsmap \<times> 'd option" where
  "unary_request nkey staticMetadata cc =
     (let c = metadata_set nkey staticMetadata [] in
      (case Option.bind cc ctx_metadata of None \<Rightarrow> c | Some m \<Rightarrow> metadata_set nkey m c, Option.bind cc ctx_deadline))"

subsection \<open>Connecting\<close>

text \<open>
  The outcome of \<open>untilReady\<close> and of the call of \<open>getSystemInfo\<close>; the memoised promise is the result of the first attempt.
  \<open>grpc_code\<close> is the status of a gRPC error, \<open>None\<close> for another error.
\<close>

datatype 'e connect_error = ConnectThrew 'e | FailedToConnect 'e

definition connect_outcome :: "('e \<Rightarrow> nat option) \<Rightarrow> 'e + unit \<Rightarrow> 'e + 'r \<Rightarrow> 'e connect_error + unit" where
  "connect_outcome grpc_code ready info =
     (case ready of
        Inl e \<Rightarrow> Inl (ConnectThrew e)
      | Inr _ \<Rightarrow>
          (case info of
             Inr _ \<Rightarrow> Inr ()
           | Inl e \<Rightarrow>
               (case grpc_code e of
                  Some code \<Rightarrow> if code \<noteq> 12 then Inl (FailedToConnect e) else Inr ()
                | None \<Rightarrow> Inl (ConnectThrew e))))"

definition ensureConnected :: "'e connect_error + unit \<Rightarrow> ('e connect_error + unit) option \<Rightarrow> ('e connect_error + unit) \<times> ('e connect_error + unit) option" where
  "ensureConnected attempt connectPromise =
     (case connectPromise of None \<Rightarrow> (attempt, Some attempt) | Some p \<Rightarrow> (p, Some p))"

subsection \<open>Connections of workers\<close>

record native_options =
  no_address :: "string option"
  no_tls :: tls_option

record native_config =
  nc_address :: string
  nc_tls :: "tls_config option"
  nc_url :: string

definition compileConnectionOptions :: "string \<Rightarrow> string" where
  "compileConnectionOptions address = with_port address"

fun truthy_tls :: "tls_option \<Rightarrow> bool" where
  "truthy_tls (TlsObject _) = True"
| "truthy_tls (TlsBoolean b) = b"
| "truthy_tls _ = False"

definition native_client_options :: "native_options option \<Rightarrow> native_config" where
  "native_client_options options =
     (let address = compileConnectionOptions (case Option.bind options no_address of None \<Rightarrow> ''localhost:7233'' | Some a \<Rightarrow> a);
          tls = (case options of None \<Rightarrow> TlsUndefined | Some opts \<Rightarrow> no_tls opts) in
      \<lparr>nc_address = address, nc_tls = normalizeTlsConfig tls,
       nc_url = (if truthy_tls tls then ''https://'' else ''http://'') @ address\<rparr>)"

subsection \<open>Addresses have a port\<close>

lemma split_no_colon: "CHR '':'' \<notin> set a \<Longrightarrow> split_address a = (a, None)"
proof -
  assume "CHR '':'' \<notin> set a"
  then have "\<forall>c \<in> set a. c \<noteq> CHR '':''" by auto
  then have d: "dropWhile (\<lambda>c. c \<noteq> CHR '':'') a = []" and t: "takeWhile (\<lambda>c. c \<noteq> CHR '':'') a = a" by simp_all
  show ?thesis unfolding split_address_def Let_def d t by simp
qed

lemma takeWhile_colon: "CHR '':'' \<notin> set h \<Longrightarrow> takeWhile (\<lambda>c. c \<noteq> CHR '':'') (h @ CHR '':'' # r) = h"
  "CHR '':'' \<notin> set h \<Longrightarrow> dropWhile (\<lambda>c. c \<noteq> CHR '':'') (h @ CHR '':'' # r) = CHR '':'' # r"
  by (induction h) auto

lemma split_colon: "CHR '':'' \<notin> set h \<Longrightarrow> split_address (h @ CHR '':'' # r) = (h, Some (takeWhile (\<lambda>c. c \<noteq> CHR '':'') r))"
  by (simp add: split_address_def Let_def takeWhile_colon)

lemma split_host: "split_address a = (h, p) \<Longrightarrow> CHR '':'' \<notin> set h \<and> (\<forall>q. p = Some q \<longrightarrow> CHR '':'' \<notin> set q)"
  by (auto simp: split_address_def Let_def split: list.splits dest: set_takeWhileD)

lemma with_port_plain: "CHR '':'' \<notin> set h \<Longrightarrow> with_port h = h @ '':7233''"
  by (simp add: with_port_def split_no_colon)

lemma with_port_given:
  assumes "CHR '':'' \<notin> set h" "CHR '':'' \<notin> set p" "p \<noteq> []"
  shows "with_port (h @ CHR '':'' # p) = h @ CHR '':'' # p"
proof -
  have p: "takeWhile (\<lambda>c. c \<noteq> CHR '':'') p = p" using assms(2) by (subst takeWhile_eq_all_conv) auto
  have "split_address (h @ CHR '':'' # p) = (h, Some p)" using split_colon [OF assms(1), of p] unfolding p .
  then show ?thesis using assms(3) by (cases p) (simp_all add: with_port_def)
qed

lemma with_port_idempotent: "with_port (with_port a) = with_port a"
proof -
  obtain h p where s: "split_address a = (h, p)" by fastforce
  note c = split_host [OF s]
  have port: "with_port (h @ CHR '':'' # ''7233'') = h @ CHR '':'' # ''7233''" by (rule with_port_given) (use c in simp_all)
  show ?thesis
  proof (cases p)
    case None
    then show ?thesis using port by (simp add: with_port_def [of a] s)
  next
    case (Some q)
    then show ?thesis using port with_port_given [of h q] c by (cases q) (simp_all add: with_port_def [of a] s)
  qed
qed

text \<open>An IPv6 address is cut at its second colon.\<close>

lemma ipv6_address_cut: "with_port ''[::1]:7233'' = ''[:7233''"
  by (simp add: with_port_def split_address_def Let_def)

lemma native_scheme: "truthy_tls tls \<longleftrightarrow> normalizeTlsConfig tls \<noteq> None"
  by (cases tls) (simp_all add: normalizeTlsConfig_def)

text \<open>
  A host without a port gets the default port and a host with a port keeps it, for clients and for workers alike;
  normalising an address once more changes nothing. The URL a worker connects to is one of https exactly when its
  configuration has TLS, and a client has secure credentials of its own making exactly when TLS was asked for; both at once
  are refused.
\<close>

theorem addresses_and_tls:
  assumes "CHR '':'' \<notin> set host" and "CHR '':'' \<notin> set port" and "port \<noteq> []"
  shows "compileConnectionOptions host = host @ '':7233''
      \<and> compileConnectionOptions (host @ '':'' @ port) = host @ '':'' @ port
      \<and> compileConnectionOptions (compileConnectionOptions a) = compileConnectionOptions a
      \<and> nc_url (native_client_options (Some opts)) =
           (if nc_tls (native_client_options (Some opts)) = None then ''http://'' else ''https://'') @ nc_address (native_client_options (Some opts))
      \<and> ((\<exists>e. normalizeGRPCConfig copts = Inl e) \<longleftrightarrow> normalizeTlsConfig (co_tls copts) \<noteq> None \<and> co_credentials copts \<noteq> None)
      \<and> (\<forall>rest. normalizeGRPCConfig copts = Inr rest \<longrightarrow>
           ((\<exists>r k c. co_credentials rest = Some (SslCredentials r k c)) \<longleftrightarrow> normalizeTlsConfig (co_tls copts) \<noteq> None))"
proof (intro conjI)
  show "compileConnectionOptions (host @ '':'' @ port) = host @ '':'' @ port"
    using with_port_given [OF assms] by (simp add: compileConnectionOptions_def)
  show "nc_url (native_client_options (Some opts)) =
      (if nc_tls (native_client_options (Some opts)) = None then ''http://'' else ''https://'') @ nc_address (native_client_options (Some opts))"
    by (simp add: native_client_options_def Let_def native_scheme)
qed (auto simp: compileConnectionOptions_def with_port_plain [OF assms(1)] with_port_idempotent normalizeGRPCConfig_def Let_def split: option.splits if_splits)

lemma addresses_and_tls_witness:
  "compileConnectionOptions ''localhost'' = ''localhost:7233'' \<and> compileConnectionOptions ''db:80'' = ''db:80''"
  using addresses_and_tls [of "''localhost''" "''80''", THEN conjunct1] addresses_and_tls [of "''db''" "''80''", THEN conjunct2, THEN conjunct1] by simp

text \<open>Whatever credentials the options give, the connection they configure does not use them: without TLS it is insecure.\<close>

lemma given_credentials_dropped:
  assumes "normalizeGRPCConfig copts = Inr rest" and "addDefaults L retryInterceptor rest = Inr config"
  shows "cc_credentials config =
     (case normalizeTlsConfig (co_tls copts) of
        None \<Rightarrow> InsecureCredentials
      | Some tls \<Rightarrow> SslCredentials (serverRootCACertificate tls) (map_option snd (clientCertPair tls)) (map_option fst (clientCertPair tls)))"
  using assms by (auto simp: normalizeGRPCConfig_def addDefaults_def Let_def and_then_eq_Inr split: option.splits if_splits)

subsection \<open>Metadata of requests\<close>

lemma spread_simps [simp]: "spread_over m [] = m" "spread_over m ((k, v) # b) = spread_over (jset k v m) b"
  by (simp_all add: spread_over_def)

lemma jget_Cons: "jget ((k', v) # m) k = (if k = k' then Some v else jget m k)"
  by (simp add: jget_def)

lemma jget_spread_over: "jmap_ok b \<Longrightarrow> jget (spread_over m b) k = (case jget b k of Some v \<Rightarrow> Some v | None \<Rightarrow> jget m k)"
proof (induction b arbitrary: m)
  case (Cons p b)
  obtain k' v' where p: "p = (k', v')" by fastforce
  have ok: "jmap_ok b" and fresh: "k' \<notin> fst ` set b" using Cons.prems by (auto simp: jmap_ok_def p)
  then have "jget b k' = None" by (simp add: jget_def map_of_eq_None_iff)
  then show ?case using Cons.IH [OF ok] by (auto simp: p jget_jset jget_Cons split: option.splits)
qed (simp add: jget_def)

lemma jmap_ok_spread: "jmap_ok m \<Longrightarrow> jmap_ok (spread_over m b)"
  by (induction b arbitrary: m) (auto simp: jmap_ok_jset)

lemma keys_spread: "fst ` set (spread_over m b) = fst ` set m \<union> fst ` set b"
  by (induction b arbitrary: m) (force simp: jset_keys)+

lemma metadata_set_spread: "\<forall>k \<in> fst ` set b. nkey k = k \<Longrightarrow> metadata_set nkey b c = spread_over c b"
  by (induction b arbitrary: c) (auto simp: metadata_set_def)

text \<open>The specification: the maps from the innermost outwards.\<close>

fun innermost :: "(string, string) jsmap list \<Rightarrow> string \<Rightarrow> string option" where
  "innermost [] k = None"
| "innermost (m # outer) k = (case jget m k of Some v \<Rightarrow> Some v | None \<Rightarrow> innermost outer k)"

fun scope_maps :: "'d call_scope list \<Rightarrow> (string, string) jsmap list" where
  "scope_maps [] = []"
| "scope_maps (WithMetadata m # ss) = m # scope_maps ss"
| "scope_maps (WithDeadline d # ss) = scope_maps ss"

fun innermost_deadline :: "'d call_scope list \<Rightarrow> 'd option" where
  "innermost_deadline [] = None"
| "innermost_deadline (WithDeadline d # ss) = Some d"
| "innermost_deadline (WithMetadata m # ss) = innermost_deadline ss"

text \<open>The context within scopes, the innermost first.\<close>

fun context_within :: "'d call_scope list \<Rightarrow> 'd call_context option" where
  "context_within [] = None"
| "context_within (s # ss) = enter_scope s (context_within ss)"

definition plain_map :: "(string \<Rightarrow> string) \<Rightarrow> (string, string) jsmap \<Rightarrow> bool" where
  "plain_map nkey m \<longleftrightarrow> jmap_ok m \<and> (\<forall>k \<in> fst ` set m. nkey k = k)"

definition context_map :: "'d call_context option \<Rightarrow> (string, string) jsmap" where
  "context_map cc = (case Option.bind cc ctx_metadata of None \<Rightarrow> [] | Some m \<Rightarrow> m)"

lemma context_within_maps:
  "\<forall>m \<in> set (scope_maps ss). plain_map nkey m \<Longrightarrow>
     plain_map nkey (context_map (context_within ss)) \<and> (\<forall>k. jget (context_map (context_within ss)) k = innermost (scope_maps ss) k)
     \<and> Option.bind (context_within ss) ctx_deadline = innermost_deadline ss"
proof (induction ss)
  case (Cons s ss)
  show ?case
  proof (cases s)
    case (WithDeadline d)
    then show ?thesis using Cons by (simp add: context_map_def)
  next
    case (WithMetadata m)
    let ?M = "context_map (context_within ss)"
    have m: "plain_map nkey m" and M: "plain_map nkey ?M" using Cons WithMetadata by simp_all
    have eq: "context_map (context_within (s # ss)) = spread_over ?M m" by (simp add: WithMetadata context_map_def)
    have "plain_map nkey (spread_over ?M m)" using m M by (auto simp: plain_map_def jmap_ok_spread keys_spread)
    moreover have "jget (spread_over ?M m) k = innermost (scope_maps (s # ss)) k" for k
      using Cons WithMetadata m by (simp add: plain_map_def jget_spread_over split: option.split)
    moreover have "Option.bind (context_within (s # ss)) ctx_deadline = innermost_deadline (s # ss)"
      using Cons WithMetadata by simp
    ultimately show ?thesis unfolding eq by blast
  qed
qed (simp_all add: context_map_def plain_map_def jget_def)

lemma unary_request_alt:
  "fst (unary_request nkey st cc) = metadata_set nkey (context_map cc) (metadata_set nkey st [])"
  by (cases "Option.bind cc ctx_metadata") (simp_all add: unary_request_def context_map_def Let_def metadata_set_def)

lemma plain_map_jset: "plain_map nkey m \<Longrightarrow> nkey k = k \<Longrightarrow> plain_map nkey (jset k v m)"
  unfolding plain_map_def jset_keys by (simp add: jmap_ok_jset)

lemma plain_static:
  assumes "plain_map nkey m" "nkey ''client-name'' = ''client-name''" "nkey ''client-version'' = ''client-version''"
  shows "plain_map nkey (static_metadata version m)"
  using assms by (simp add: static_metadata_def add_if_missing_def plain_map_jset)

lemma static_lookup:
  "jget (static_metadata version m) k = innermost [m, [(''client-name'', ''temporal-typescript''), (''client-version'', version)]] k"
  by (auto simp: static_metadata_def add_if_missing_def jhas_def jget_jset jget_Cons jget_Nil split: option.splits)

lemma innermost_append: "innermost (outer @ ns) k = (case innermost outer k of Some v \<Rightarrow> Some v | None \<Rightarrow> innermost ns k)"
  by (induction outer) (auto split: option.splits)

text \<open>
  C30. A request carries, under each key, the value of the innermost \<open>withMetadata\<close> around the call that has the key, else the one
  of the connection options, else what the client adds itself, and the deadline of the innermost \<open>withDeadline\<close>: scopes of
  the two kinds nest without disturbing each other. Keys have to be in the form to which the gRPC library normalises them.
\<close>

theorem innermost_metadata_wins:
  assumes "plain_map nkey m" and "\<forall>m \<in> set (scope_maps ss). plain_map nkey m"
    and "nkey ''client-name'' = ''client-name''" and "nkey ''client-version'' = ''client-version''"
  shows "jget (fst (unary_request nkey (static_metadata version m) (context_within ss))) k
        = innermost (scope_maps ss @ [m, [(''client-name'', ''temporal-typescript''), (''client-version'', version)]]) k
      \<and> snd (unary_request nkey (static_metadata version m) (context_within ss)) = innermost_deadline ss"
proof
  note ctx = context_within_maps [OF assms(2)]
  note st = plain_static [OF assms(1,3,4), of version]
  have "fst (unary_request nkey (static_metadata version m) (context_within ss))
      = spread_over (spread_over [] (static_metadata version m)) (context_map (context_within ss))"
    using ctx st by (simp add: unary_request_alt metadata_set_spread plain_map_def)
  then show "jget (fst (unary_request nkey (static_metadata version m) (context_within ss))) k
      = innermost (scope_maps ss @ [m, [(''client-name'', ''temporal-typescript''), (''client-version'', version)]]) k"
    using ctx st by (simp add: plain_map_def jget_spread_over innermost_append static_lookup jget_Nil split: option.splits)
  show "snd (unary_request nkey (static_metadata version m) (context_within ss)) = innermost_deadline ss"
    using ctx by (simp add: unary_request_def Let_def)
qed

lemma innermost_metadata_wins_witness:
  "jget (fst (unary_request id (static_metadata ''1.8'' [(''a'', ''0'')])
       (context_within [WithMetadata [(''b'', ''2'')], WithDeadline (7 :: nat), WithMetadata [(''a'', ''1''), (''b'', ''1'')]]))) ''b'' = Some ''2''"
  using innermost_metadata_wins [of id "[(''a'', ''0'')]" "[WithMetadata [(''b'', ''2'')], WithDeadline (7 :: nat), WithMetadata [(''a'', ''1''), (''b'', ''1'')]]" "''1.8''" "''b''"]
  by (simp add: plain_map_def jmap_ok_def jget_Cons jget_Nil)

text \<open>
  With keys that differ only in case, the object of the merged metadata keeps both in the order of their first insertion, and an
  outer scope may win.
\<close>

definition lower_a :: "string \<Rightarrow> string" where
  "lower_a k = (if k = ''A'' then ''a'' else k)"

lemma outer_metadata_wins:
  "jget (fst (unary_request lower_a [] (context_within
       [WithMetadata [(''a'', ''inner'')], WithMetadata [(''A'', ''middle'')], WithMetadata [(''a'', ''outer'')] :: nat call_scope]))) ''a'' = Some ''middle''"
  by (simp add: unary_request_def lower_a_def metadata_set_def jget_Cons jget_Nil)

subsection \<open>Connecting once\<close>

text \<open>Later calls get the result of the first attempt, a failure included.\<close>

lemma connects_once: "fst (ensureConnected attempt' (snd (ensureConnected attempt p))) = fst (ensureConnected attempt p)"
  by (simp add: ensureConnected_def split: option.split)

lemma old_servers_accepted: "connect_outcome code (Inr ()) (Inl e) = Inr () \<longleftrightarrow> code e = Some 12"
  by (auto simp: connect_outcome_def split: option.splits)

end
