(* ===== verification/Protobuf_Converters.thy ===== *)
theory Protobuf_Converters
  imports Payload_Converters
begin

text \<open>
  packages/common/src/converter/protobuf-payload-converters.ts. The protobuf libraries are the parameter \<open>pb_env\<close>: the \<open>$type\<close> of
  a value that is a message, the lookup of a type in a root, and encoding and decoding in both forms. A type is a node below
  a root, given by its name and its parent.
\<close>

datatype pb_node = PbRoot | PbNode utf16 "pb_node option"

datatype lookup_error = NoSuchType | LookupThrew jsval

record pb_env =
  pb_type_of :: "jsval \<Rightarrow> pb_node option"
  pb_lookupType :: "utf16 \<Rightarrow> lookup_error + pb_node"
  pb_encode :: "pb_node \<Rightarrow> jsval \<Rightarrow> bytes"
  pb_decode :: "pb_node \<Rightarrow> bytes \<Rightarrow> jsval res"
  pb_toJSON :: "jsval \<Rightarrow> jsval res"
  pb_fromJSON :: "pb_node \<Rightarrow> jsval \<Rightarrow> jsval res"

definition METADATA_MESSAGE_TYPE_KEY :: string where "METADATA_MESSAGE_TYPE_KEY = ''messageType''"
definition METADATA_ENCODING_PROTOBUF :: string where "METADATA_ENCODING_PROTOBUF = ''binary/protobuf''"
definition METADATA_ENCODING_PROTOBUF_JSON :: string where "METADATA_ENCODING_PROTOBUF_JSON = ''json/protobuf''"

text \<open>The argument of the constructors: absent, or an object that may be no root.\<close>

datatype pb_root = NoRoot | NotARoot | GivenRoot

definition checked_root :: "pb_root \<Rightarrow> bool res" where
  "checked_root r =
     (case r of NoRoot \<Rightarrow> Inr False | NotARoot \<Rightarrow> Inl (TypeError ''root must be an instance of a protobufjs Root'') | GivenRoot \<Rightarrow> Inr True)"

fun getNamespacedTypeName :: "pb_node \<Rightarrow> utf16" where
  "getNamespacedTypeName PbRoot = []"
| "getNamespacedTypeName (PbNode name parent) =
     (case parent of
        None \<Rightarrow> name
      | Some p \<Rightarrow> if p = PbRoot then name else getNamespacedTypeName p @ js_text ''.'' @ name)"

definition validatePayload :: "js_env \<Rightarrow> pb_env \<Rightarrow> bool \<Rightarrow> payload \<Rightarrow> (pb_node \<times> bytes) res" where
  "validatePayload env pb has_root p =
     (case payload_data p of
        None \<Rightarrow> Inl (ValueError ''Got payload with no data'')
      | Some b \<Rightarrow>
          case Option.bind (metadata p) (\<lambda>m. jget m METADATA_MESSAGE_TYPE_KEY) of
            None \<Rightarrow> Inl (ValueError (''Got protobuf payload without metadata.'' @ METADATA_MESSAGE_TYPE_KEY))
          | Some name_bytes \<Rightarrow>
              if \<not> has_root then Inl (throw_plain ''PayloadConverterError'' ''Unable to deserialize protobuf message without `root` being provided'')
              else
                let name = decode_bytes env (Some name_bytes) in
                case pb_lookupType pb name of
                  Inl NoSuchType \<Rightarrow>
                    Inl (throw_plain ''PayloadConverterError''
                      (''Got a `'' @ message_text name @ ''` protobuf message but cannot find corresponding message class in `root`''))
                | Inl (LookupThrew e) \<Rightarrow> Inl e
                | Inr ty \<Rightarrow> Inr (ty, b))"

definition constructPayload :: "string \<Rightarrow> utf16 \<Rightarrow> bytes \<Rightarrow> payload res" where
  "constructPayload encoding name message =
     and_then (encode_text name) (\<lambda>n.
       Inr \<lparr>metadata = Some [(METADATA_ENCODING_KEY, encoding_key encoding), (METADATA_MESSAGE_TYPE_KEY, n)], payload_data = Some message\<rparr>)"

definition binary_toPayload :: "pb_env \<Rightarrow> jsval \<Rightarrow> payload option res" where
  "binary_toPayload pb v =
     (case pb_type_of pb v of
        None \<Rightarrow> Inr None
      | Some ty \<Rightarrow> and_then (constructPayload METADATA_ENCODING_PROTOBUF (getNamespacedTypeName ty) (pb_encode pb ty v)) (\<lambda>p. Inr (Some p)))"

definition protobuf_binary :: "js_env \<Rightarrow> pb_env \<Rightarrow> bool \<Rightarrow> encoding_converter" where
  "protobuf_binary env pb has_root =
     \<lparr>ec_toPayload = binary_toPayload pb,
      ec_fromPayload = (\<lambda>p. and_then (validatePayload env pb has_root p) (\<lambda>(ty, b). pb_decode pb ty b)),
      encodingType = js_text METADATA_ENCODING_PROTOBUF\<rparr>"

definition protobuf_json_toPayload :: "js_env \<Rightarrow> pb_env \<Rightarrow> jsval \<Rightarrow> payload option res" where
  "protobuf_json_toPayload env pb v =
     (case pb_type_of pb v of
        None \<Rightarrow> Inr None
      | Some ty \<Rightarrow>
          and_then (pb_toJSON pb v) (\<lambda>j.
          and_then (json_stringify env j) (\<lambda>t.
          and_then (encode_text (case t of Some t \<Rightarrow> t | None \<Rightarrow> [])) (\<lambda>b.
          and_then (constructPayload METADATA_ENCODING_PROTOBUF_JSON (getNamespacedTypeName ty) b) (\<lambda>p. Inr (Some p))))))"

definition protobuf_json :: "js_env \<Rightarrow> pb_env \<Rightarrow> bool \<Rightarrow> encoding_converter" where
  "protobuf_json env pb has_root =
     \<lparr>ec_toPayload = protobuf_json_toPayload env pb,
      ec_fromPayload = (\<lambda>p. and_then (validatePayload env pb has_root p) (\<lambda>(ty, b).
        and_then (json_parse env (decode_bytes env (Some b))) (pb_fromJSON pb ty))),
      encodingType = js_text METADATA_ENCODING_PROTOBUF_JSON\<rparr>"

definition protobuf_members :: "js_env \<Rightarrow> pb_env \<Rightarrow> bool \<Rightarrow> encoding_converter list" where
  "protobuf_members env pb has_root =
     [undefined_converter, binary_converter, protobuf_json env pb has_root, protobuf_binary env pb has_root, json_converter env]"

definition DefaultPayloadConverterWithProtobufs :: "js_env \<Rightarrow> pb_env \<Rightarrow> pb_root \<Rightarrow> converter res" where
  "DefaultPayloadConverterWithProtobufs env pb protobufRoot =
     and_then (checked_root protobufRoot) (\<lambda>has_root. CompositePayloadConverter env (protobuf_members env pb has_root))"

subsection \<open>The members keep the contract\<close>

text \<open>
  A value is faithful if it is a message of a type that the root finds under its full name and the libraries undo what they do
  to it, or no message and \<open>JSON\<close> is faithful on it.
\<close>

definition message_faithful :: "js_env \<Rightarrow> pb_env \<Rightarrow> pb_node \<Rightarrow> jsval \<Rightarrow> bool" where
  "message_faithful env pb ty v \<longleftrightarrow>
     no_lone_surrogates (getNamespacedTypeName ty) \<and> pb_lookupType pb (getNamespacedTypeName ty) = Inr ty
     \<and> pb_decode pb ty (pb_encode pb ty v) = Inr v
     \<and> (case pb_toJSON pb v of
          Inl _ \<Rightarrow> False
        | Inr j \<Rightarrow> pb_fromJSON pb ty j = Inr v \<and> json_faithful env j \<and> (\<exists>r. json_stringify env j = Inr r))"

definition pb_faithful :: "js_env \<Rightarrow> pb_env \<Rightarrow> jsval \<Rightarrow> bool" where
  "pb_faithful env pb v \<longleftrightarrow> (\<forall>ty. pb_type_of pb v = Some ty \<longrightarrow> message_faithful env pb ty v)"

lemma jget_message: "jget [(METADATA_ENCODING_KEY, a), (METADATA_MESSAGE_TYPE_KEY, n)] METADATA_ENCODING_KEY = Some a"
  "jget [(METADATA_ENCODING_KEY, a), (METADATA_MESSAGE_TYPE_KEY, n)] METADATA_MESSAGE_TYPE_KEY = Some n"
  by (simp_all add: jget_def METADATA_ENCODING_KEY_def METADATA_MESSAGE_TYPE_KEY_def)

lemma constructed_marked:
  "env_ok env \<Longrightarrow> constructPayload encoding name b = Inr p \<Longrightarrow>
     \<exists>m. metadata p = Some m \<and> decode_bytes env (jget m METADATA_ENCODING_KEY) = js_text encoding"
  by (auto simp: constructPayload_def and_then_eq_Inr jget_message decode_key)

lemma constructed_valid:
  assumes "env_ok env" "constructPayload encoding (getNamespacedTypeName ty) b = Inr p" "message_faithful env pb ty v"
  shows "validatePayload env pb True p = Inr (ty, b)"
proof -
  obtain n where n: "encode_text (getNamespacedTypeName ty) = Inr n"
    "p = \<lparr>metadata = Some [(METADATA_ENCODING_KEY, encoding_key encoding), (METADATA_MESSAGE_TYPE_KEY, n)], payload_data = Some b\<rparr>"
    using assms(2) by (auto simp: constructPayload_def and_then_eq_Inr)
  then show ?thesis
    using assms(3) decode_encoded [OF assms(1) _ n(1)] by (simp add: validatePayload_def jget_message message_faithful_def Let_def)
qed

interpretation pb_binary_member: payload_member env "protobuf_binary env pb True" "pb_faithful env pb" for env pb
proof
  fix v p
  assume env: "env_ok env" and to: "ec_toPayload (protobuf_binary env pb True) v = Inr (Some p)"
  then obtain ty where ty: "pb_type_of pb v = Some ty"
    "constructPayload METADATA_ENCODING_PROTOBUF (getNamespacedTypeName ty) (pb_encode pb ty v) = Inr p"
    by (auto simp: protobuf_binary_def binary_toPayload_def and_then_eq_Inr split: option.splits)
  show "\<exists>m. metadata p = Some m \<and> decode_bytes env (jget m METADATA_ENCODING_KEY) = encodingType (protobuf_binary env pb True)"
    using constructed_marked [OF env ty(2)] by (simp add: protobuf_binary_def)
  show "ec_fromPayload (protobuf_binary env pb True) p = Inr v" if "pb_faithful env pb v"
  proof -
    have f: "message_faithful env pb ty v" using that ty(1) by (simp add: pb_faithful_def)
    show ?thesis using constructed_valid [OF env ty(2) f] f by (simp add: protobuf_binary_def message_faithful_def)
  qed
qed

interpretation pb_json_member: payload_member env "protobuf_json env pb True" "pb_faithful env pb" for env pb
proof
  fix v p
  assume env: "env_ok env" and to: "ec_toPayload (protobuf_json env pb True) v = Inr (Some p)"
  then obtain ty where t0: "pb_type_of pb v = Some ty"
    by (cases "pb_type_of pb v") (auto simp: protobuf_json_def protobuf_json_toPayload_def)
  then obtain j t b where ty: "pb_type_of pb v = Some ty" "pb_toJSON pb v = Inr j" "json_stringify env j = Inr t"
    "encode_text (case t of Some t \<Rightarrow> t | None \<Rightarrow> []) = Inr b"
    "constructPayload METADATA_ENCODING_PROTOBUF_JSON (getNamespacedTypeName ty) b = Inr p"
    using to by (auto simp: protobuf_json_def protobuf_json_toPayload_def and_then_eq_Inr)
  show "\<exists>m. metadata p = Some m \<and> decode_bytes env (jget m METADATA_ENCODING_KEY) = encodingType (protobuf_json env pb True)"
    using constructed_marked [OF env ty(5)] by (simp add: protobuf_json_def)
  show "ec_fromPayload (protobuf_json env pb True) p = Inr v" if "pb_faithful env pb v"
  proof -
    have f: "message_faithful env pb ty v" using that ty(1) by (simp add: pb_faithful_def)
    then have j: "pb_fromJSON pb ty j = Inr v" "json_faithful env j" using ty(2) by (auto simp: message_faithful_def)
    then obtain u where u: "t = Some u" "no_lone_surrogates u" "json_parse env u = Inr j"
      using ty(3) by (cases t) (auto simp: json_faithful_def)
    then have "decode_bytes env (Some b) = u" using decode_encoded [OF env, of u b] ty(4) by simp
    then show ?thesis using constructed_valid [OF env ty(5) f] u j by (simp add: protobuf_json_def)
  qed
qed

subsection \<open>The composite\<close>

lemma protobuf_keys: "distinct (map encodingType (protobuf_members env pb r))"
  by (simp add: protobuf_members_def undefined_converter_def binary_converter_def json_converter_def protobuf_json_def protobuf_binary_def
      js_text_def METADATA_ENCODING_NULL_def METADATA_ENCODING_RAW_def METADATA_ENCODING_JSON_def METADATA_ENCODING_PROTOBUF_def
      METADATA_ENCODING_PROTOBUF_JSON_def)

lemma member_reads_back:
  assumes "env_ok env" "payload_member env c faithful" "c \<in> set (protobuf_members env pb r)" "ec_toPayload c v = Inr (Some p)" "faithful v"
  shows "composite_fromPayload env (protobuf_members env pb r) p = Inr v"
  using payload_member.found [OF assms(2,1,4,5)] converterByEncoding_get [OF protobuf_keys assms(3)] by blast

lemma not_message: "pb_type_of pb v = None \<Longrightarrow> ec_toPayload (protobuf_json env pb r) v = Inr None \<and> ec_toPayload (protobuf_binary env pb r) v = Inr None"
  by (simp add: protobuf_json_def protobuf_json_toPayload_def protobuf_binary_def binary_toPayload_def)

text \<open>A message that is neither undefined nor bytes is written as JSON, the first of its two forms.\<close>

lemma message_payload:
  assumes "pb_type_of pb v = Some ty" "message_faithful env pb ty v"
  shows "\<exists>p. ec_toPayload (protobuf_json env pb r) v = Inr (Some p)"
proof -
  obtain j t where j: "pb_toJSON pb v = Inr j" "json_faithful env j" "json_stringify env j = Inr t"
    using assms(2) by (auto simp: message_faithful_def split: sum.splits)
  then obtain u where u: "t = Some u" "no_lone_surrogates u" by (cases t) (auto simp: json_faithful_def)
  have n: "no_lone_surrogates (getNamespacedTypeName ty)" using assms(2) by (simp add: message_faithful_def)
  show ?thesis
    using assms(1) j u encode_text_utf8 [OF no_lone_pairs [OF u(2)]] encode_text_utf8 [OF no_lone_pairs [OF n]]
    by (simp add: protobuf_json_def protobuf_json_toPayload_def constructPayload_def)
qed

lemma composite_protobuf:
  "DefaultPayloadConverterWithProtobufs env pb GivenRoot
     = Inr \<lparr>toPayload = first_payload env (protobuf_members env pb True), fromPayload = composite_fromPayload env (protobuf_members env pb True)\<rparr>"
  by (simp add: DefaultPayloadConverterWithProtobufs_def checked_root_def CompositePayloadConverter_def protobuf_members_def)

lemma first_payload_rest: "v \<noteq> JUndefined \<Longrightarrow> \<forall>b. v \<noteq> JBytes b \<Longrightarrow>
    first_payload env (protobuf_members env pb r) v = first_payload env [protobuf_json env pb r, protobuf_binary env pb r, json_converter env] v"
  by (auto simp: protobuf_members_def undefined_converter_def binary_converter_def split: jsval.split)

subsection \<open>Properties\<close>

definition convertible :: "js_env \<Rightarrow> pb_env \<Rightarrow> jsval \<Rightarrow> bool" where
  "convertible env pb v \<longleftrightarrow>
     (case pb_type_of pb v of
        None \<Rightarrow> json_faithful env v \<and> (\<exists>r. json_stringify env v = Inr r)
      | Some ty \<Rightarrow> message_faithful env pb ty v \<and> v \<noteq> JUndefined \<and> (\<forall>b. v \<noteq> JBytes b))"

lemma plain_first_payload:
  assumes "pb_type_of pb v = None"
  shows "first_payload env (protobuf_members env pb r) v = first_payload env (default_members env) v"
  using not_message [OF assms, of env r] by (simp add: protobuf_members_def default_members_def)

lemma default_first_member:
  assumes "first_payload env (default_members env) v = Inr p"
  obtains c where "c \<in> set (default_members env)" "ec_toPayload c v = Inr (Some p)"
  using first_payload_member [OF assms] by blast

lemma convertible_back:
  assumes "env_ok env" "convertible env pb v"
  shows "\<exists>p. first_payload env (protobuf_members env pb True) v = Inr p \<and> composite_fromPayload env (protobuf_members env pb True) p = Inr v"
proof (cases "pb_type_of pb v")
  case None
  then have json: "json_faithful env v" "\<exists>r. json_stringify env v = Inr r" using assms(2) by (auto simp: convertible_def)
  then obtain p where p: "first_payload env (default_members env) v = Inr p"
    using default_converts [OF json(1)] by blast
  then obtain c where c: "c \<in> set (default_members env)" "ec_toPayload c v = Inr (Some p)" by (rule default_first_member)
  have "payload_member env c (json_faithful env)" using default_members_ok(1) c(1) by blast
  moreover have "c \<in> set (protobuf_members env pb True)" using c(1) by (auto simp: default_members_def protobuf_members_def)
  ultimately show ?thesis using member_reads_back [OF assms(1) _ _ c(2)] json(1) p plain_first_payload [OF None] by auto
next
  case (Some ty)
  then have ty: "message_faithful env pb ty v" "v \<noteq> JUndefined" "\<forall>b. v \<noteq> JBytes b" using assms(2) by (auto simp: convertible_def)
  obtain p where p: "ec_toPayload (protobuf_json env pb True) v = Inr (Some p)" using message_payload [OF Some ty(1)] by blast
  have "first_payload env (protobuf_members env pb True) v = Inr p" using p by (simp add: first_payload_rest [OF ty(2,3)])
  moreover have "pb_faithful env pb v" using Some ty(1) by (simp add: pb_faithful_def)
  ultimately show ?thesis
    using member_reads_back [OF assms(1) pb_json_member.payload_member_axioms _ p] by (simp add: protobuf_members_def)
qed

text \<open>
  The default converter with protobufs gives back messages of every type that the root finds under the full name its nodes
  spell, and all that the plain default converter gives back; what is no message it writes exactly as that one does, so the two
  can read each other's payloads.
\<close>

theorem protobuf_roundtrip:
  assumes "env_ok env" "convertible env pb v"
  shows "\<exists>conv p. DefaultPayloadConverterWithProtobufs env pb GivenRoot = Inr conv \<and> toPayload conv v = Inr p \<and> fromPayload conv p = Inr v
      \<and> (pb_type_of pb v = None \<longrightarrow> (\<exists>plain. DefaultPayloadConverter env = Inr plain \<and> toPayload plain v = Inr p))"
  using convertible_back [OF assms] plain_first_payload [of pb v env True]
  by (auto simp: composite_protobuf default_is_composite)

text \<open>Messages of one type, objects, in a namespace; protobufs in JSON are truth values.\<close>

definition sample_pb :: pb_env where
  "sample_pb =
     \<lparr>pb_type_of = (\<lambda>v. case v of JObj _ \<Rightarrow> Some (PbNode (js_text ''T'') (Some (PbNode (js_text ''n'') (Some PbRoot)))) | _ \<Rightarrow> None),
      pb_lookupType = (\<lambda>n. if n = js_text ''n.T'' then Inr (PbNode (js_text ''T'') (Some (PbNode (js_text ''n'') (Some PbRoot)))) else Inl NoSuchType),
      pb_encode = (\<lambda>_ _. []), pb_decode = (\<lambda>_ _. Inr (JObj [])), pb_toJSON = (\<lambda>_. Inr (JBool True)), pb_fromJSON = (\<lambda>_ _. Inr (JObj []))\<rparr>"

lemma sample_json_true: "json_faithful sample_env (JBool True)" "json_stringify sample_env (JBool True) = Inr (Some (js_text ''true''))"
  using js_text_plain by (simp_all add: json_faithful_def sample_env_def)

theorem protobuf_roundtrip_witness:
  "\<exists>conv p. DefaultPayloadConverterWithProtobufs sample_env sample_pb GivenRoot = Inr conv \<and> toPayload conv (JObj []) = Inr p
     \<and> fromPayload conv p = Inr (JObj [])"
proof -
  let ?ty = "PbNode (js_text ''T'') (Some (PbNode (js_text ''n'') (Some PbRoot)))"
  have "env_ok sample_env" by (simp add: env_ok_def sample_env_def)
  moreover have name: "getNamespacedTypeName ?ty = js_text ''n.T''" by (simp add: js_text_def)
  have "message_faithful sample_env sample_pb ?ty (JObj [])"
    unfolding message_faithful_def name using js_text_plain sample_json_true by (simp add: sample_pb_def)
  then have "convertible sample_env sample_pb (JObj [])" by (simp add: convertible_def sample_pb_def)
  ultimately show ?thesis using protobuf_roundtrip [of sample_env sample_pb "JObj []"] by blast
qed

end
