(* ===== verification/Spec2Isabelle.thy ===== *)
theory Spec2Isabelle
  imports Failure_Converter Vm_Properties Heartbeats Worker_Activities Worker_Replay Grpc_Retry Schedule_Client Payload_Converters Threaded_Workflows Reusable_Context Worker_Options Task_Queue_Client Async_Completion Core_Runtime Uuids Concurrent_Map Client_Connection Protobuf_Converters
begin

text \<open>
  A verification library for the Temporal TypeScript SDK. All source paths are below packages/.

  \<^bold>\<open>The program.\<close> A worker (worker/src/worker.ts) polls a native core library for activations of
  workflow runs and for activity tasks. Each workflow run lives in a JavaScript context of its own
  (worker/src/workflow), where an \<open>Activator\<close> (workflow/src/internals.ts) keeps the state of the run, applies
  the jobs of an activation to it and collects commands. User code calls the API of workflow/src/workflow.ts,
  which starts operations by pushing a command under a fresh sequence number and storing the resolve and reject
  functions of a promise as the completion that a later job resolves. Cancellation goes through a tree of scopes.
  What crosses the boundary passes payload converters, failure converters and payload codecs (common/src).

  \<^bold>\<open>Theories and the code they model.\<close>
  \<^item> \<open>Sdk_Prelude\<close>: results as a sum with the error on the left, \<open>and_then\<close>, \<open>map_res\<close>, the locales \<open>machine\<close> (a
    deterministic step function and an invariant it keeps) and what every theory shares.
  \<^item> \<open>Js_Values\<close>: JavaScript values and errors as data, numbers as rationals with NaN and infinities.
  \<^item> \<open>Time_Conversion\<close>: common/src/time.ts. \<open>Long\<close> and the \<open>ms\<close> parser are parameters with named laws; the laws of
    \<open>Long\<close> are discharged for 64-bit words.
  \<^item> \<open>Retry_Policies\<close>: common/src/retry-policy.ts, against the specification of a valid policy.
  \<^item> \<open>Failures\<close>, \<open>Failure_Converter\<close>: common/src/failure.ts and converter/failure-converter.ts, with the list
    helpers of converter/payload-converter.ts.
  \<^item> \<open>Codecs\<close>: common/src/internal-non-workflow/codec-helpers.ts and worker/src/workflow-codec-runner.ts.
  \<^item> \<open>Text_Encoding\<close>, \<open>Text_Decoding\<close>: the text encoder and decoder of common/src/encoding.ts against UTF-8.
  \<^item> \<open>Payload_Converters\<close>, \<open>Protobuf_Converters\<close>: the composite converter with its members, search attributes and the
    loading of data converters; the locale \<open>payload_member\<close> is the contract of a member, interpreted for all five.
  \<^item> \<open>Runtime_Types\<close>, \<open>Promises\<close>, \<open>Activator\<close>, \<open>Cancellation_Scopes\<close>, \<open>Runtime_Effects\<close>, \<open>Workflow_Api\<close>,
    \<open>Workflow_Runtime\<close>: the state of a workflow context and everything that changes it: internals.ts,
    cancellation-scope.ts, trigger.ts, workflow.ts and worker-interface.ts of workflow/src. Promises are cells of an
    explicit heap, their reactions a queue; the context number of an operation stands for async local storage.
  \<^item> \<open>Runtime_Machine\<close>, \<open>Runtime_Refinement\<close>, \<open>Runtime_Invariants\<close>, \<open>Runtime_Properties\<close>: an abstract machine
    of a few primitive effects on the state, the proof that every operation above is a sequence of these effects, and
    the invariants of the machine with the properties that follow.
  \<^item> \<open>Workflow_Vm\<close>, \<open>Vm_Properties\<close>: \<open>BaseVMWorkflow.activate\<close> and \<open>tryUnblockConditions\<close> of
    worker/src/workflow/vm-shared.ts, which drive a context through one activation.
  \<^item> \<open>Uuids\<close>: \<open>uuid4\<close> of workflow.ts over the bytes of its buffer.
  \<^item> \<open>Threaded_Workflows\<close>: worker/src/workflow/threaded-vm.ts with workflow-worker-thread.ts: the requests to a thread,
    its responses, and what becomes of calls when it ends. \<open>Reusable_Context\<close>: the context that workflows share in
    reusable-vm.ts, against contexts of their own.
  \<^item> \<open>Worker_Workflows\<close>: \<open>Worker.workflowOperator\<close> and \<open>processSinkCalls\<close>. \<open>Worker_Activities\<close>, \<open>Heartbeats\<close>:
    \<open>Worker.activityOperator\<close>, \<open>activityHeartbeat$\<close> and \<open>closeableGroupBy\<close>, with worker/src/activity.ts.
    \<open>Interceptors\<close>: their composition in common/src/interceptors.ts.
  \<^item> \<open>Worker_Status\<close>: the life cycle of a worker and the loops that poll. \<open>Worker_Replay\<close>: \<open>runUntil\<close> and replaying
    histories. \<open>Worker_Options\<close>: worker/src/worker-options.ts. \<open>Core_Runtime\<close>: the singleton of worker/src/runtime.ts,
    which lives as long as native objects use it, and its shutdown signals.
  \<^item> \<open>Workflow_Client\<close>, \<open>Client_Calls\<close>: client/src/workflow-client.ts, first waiting for results and the translation of
    errors, then all calls, handles and listings. \<open>Concurrent_Map\<close>: iterators-utils.ts, which fetches histories.
  \<^item> \<open>Schedules\<close>, \<open>Schedule_Client\<close>, \<open>Task_Queue_Client\<close>, \<open>Async_Completion\<close>: the other clients, over the same requests
    and calls. \<open>Client_Connection\<close>: connection.ts, and the addresses of workers; \<open>Grpc_Retry\<close>: grpc-retry.ts.

  \<^bold>\<open>State and operations.\<close> A class becomes a record with the fields of the class (\<open>act\<close> for \<open>Activator\<close>, \<open>scope\<close>
  for \<open>CancellationScope\<close>, \<open>worker\<close> for the subjects of \<open>Worker\<close>), a method a function that returns the updated
  record. An exception is the left side of a sum. Asynchronous code is cut at its awaits: what follows an await is a
  reaction that the driver runs from the queue. User code is a parameter: a schedule of API operations for each
  resumption of a workflow function, so the properties hold for every workflow.

  \<^bold>\<open>What the lemmas show.\<close> The properties carry the numbers C1, C2, ...; each has a text in front of it. The
  runtime keeps its sequence numbers unique, consumes a completion once, ends a workflow at most once, cancels what
  lies below a cancelled scope, requests a cancellation only of what it has started, and leaves no condition that is
  true blocked. The driver is a refinement of the machine, and calls through a thread one of direct calls. The worker
  answers each activation and each activity task once, counts what it holds, stops within the forced shutdown time, and
  keeps one native runtime while it is used. A client retries within bounds, waits for the last run of a chain, lists every
  page, sends the metadata of the innermost scope and maps every history once. The codecs, converters, encodings and
  schedules undo each other under the laws their contracts state. Theorems that carry no number are further properties of
  the same kind. Properties of kind error describe what the code does where it does not do what it means to; the manifest
  lists these as findings.

  \<^bold>\<open>Fuel and termination.\<close> The driver of a context takes fuel for the reactions of user code, which need not end; the loop
  that unblocks conditions takes the number of its rounds. A result of \<open>None\<close> means that the fuel did not last. The
  properties of the driver are about results, and the witnesses show runs that have one. Loops whose end depends on a
  service or on their input are partial functions (\<open>result_loop\<close>, \<open>list_pages\<close>, \<open>decode_block\<close>, \<open>decode_blocks\<close>), where
  \<open>None\<close> is a loop that does not end: that they return is proved for every chain of runs and every listing that ends,
  and for the decoder on every input. Step relations (\<open>link_step\<close>, \<open>runtime_step\<close>, \<open>pool_step\<close>) leave the order of
  events open; the measure of \<open>Concurrent_Map\<close> bounds the number of steps.

  \<^bold>\<open>Not modelled.\<close> Stack traces and source maps of contexts, the bundler and the loading of bundles and interceptors,
  logging, tracing and telemetry options, the native bridge, the debug replayer and the test environments: they are calls of
  other libraries with little logic between them. The random number generator rounds IEEE doubles, for which the library
  has no type; \<open>uuid4\<close> takes its results as arguments. The interfaces of interceptors and the types of options have no
  behaviour of their own. Generated protobuf code, project templates and tests are left out.
\<close>

end
